(* ===== verification/Prelude.thy ===== *)
theory Prelude
  imports Complex_Main "HOL-Library.AList" "HOL-Library.Sublist"
begin

text \<open>
  Shared ground of the development: the JavaScript numbers, arrays, objects and strings the web
  client computes with, the generic lemmas about them, and the interfaces (locales) several
  components implement.

  Conventions.  A TypeScript \<open>number\<close> is a rational (\<open>number\<close>): every finite binary64
  value is one, and the rounding of binary64 arithmetic is not modelled; where a function tests
  for NaN or infinity its argument has the type \<open>jsnum\<close>.  A \<open>Record\<close> or a \<open>Map\<close> with
  string keys is an association list in insertion order, written with \<open>AList.update\<close> (which
  replaces in place or appends, as JavaScript does) and read with \<open>map_of\<close>.  \<open>T | null\<close> and
  \<open>T | undefined\<close> are \<open>option\<close>s.  Strings are \<open>char\<close> lists; characters of a literal outside
  ASCII are written as their UTF-8 bytes.  \<open>Date.now()\<close> is an argument called \<open>now\<close>.
\<close>

section \<open>Collections of rewrite rules\<close>

named_theorems js_num \<open>numeric helpers of the JavaScript standard library\<close>
named_theorems js_str \<open>string helpers of the JavaScript standard library\<close>

section \<open>Numbers\<close>

type_synonym number = rat

datatype jsnum = NaN | PosInf | NegInf | Fin number

fun isFinite :: "jsnum \<Rightarrow> bool" where
  "isFinite (Fin _) = True"
| "isFinite _ = False"

definition Math_floor :: "number \<Rightarrow> int" where
  "Math_floor x = \<lfloor>x\<rfloor>"

definition Math_round :: "number \<Rightarrow> int" where
  "Math_round x = \<lfloor>x + 1 / 2\<rfloor>"

text \<open>The spread call \<open>Math.max(m, ...xs)\<close>.\<close>

definition Math_max_all :: "number \<Rightarrow> number list \<Rightarrow> number" where
  "Math_max_all m xs = fold max xs m"

lemma floor_numeral_div [simp]:
  "\<lfloor>(numeral a :: rat) / numeral b\<rfloor> = numeral a div numeral b"
  by (metis floor_divide_of_int_eq of_int_numeral)

lemma Math_floor_mono: "x \<le> y \<Longrightarrow> Math_floor x \<le> Math_floor y"
  by (simp add: Math_floor_def floor_mono)

lemma Math_round_of_int [simp]: "Math_round (of_int n) = n"
  by (simp add: Math_round_def floor_unique)

lemma Math_round_mono: "x \<le> y \<Longrightarrow> Math_round x \<le> Math_round y"
  by (simp add: Math_round_def floor_mono)

lemma Math_round_nonneg: "0 \<le> x \<Longrightarrow> 0 \<le> Math_round x"
  by (simp add: Math_round_def)

lemma Math_round_err: "\<bar>of_int (Math_round x) - x\<bar> \<le> 1 / 2"
  unfolding Math_round_def by linarith

lemma Math_max_all_ge: "m \<le> Math_max_all m xs"
  unfolding Math_max_all_def
proof (induction xs arbitrary: m)
  case (Cons x xs)
  have "max x m \<le> fold max xs (max x m)" by (rule Cons.IH)
  then show ?case by simp
qed simp

lemma Math_max_all_upper: "x \<in> set xs \<Longrightarrow> x \<le> Math_max_all m xs"
  unfolding Math_max_all_def
proof (induction xs arbitrary: m)
  case (Cons y ys)
  show ?case
  proof (cases "x = y")
    case True
    have "max y m \<le> fold max ys (max y m)"
      using Math_max_all_ge [of "max y m" ys] by (simp add: Math_max_all_def)
    with True show ?thesis by simp
  next
    case False
    with Cons show ?thesis by simp
  qed
qed simp

lemma Math_max_all_le: "m \<le> b \<Longrightarrow> (\<And>x. x \<in> set xs \<Longrightarrow> x \<le> b) \<Longrightarrow> Math_max_all m xs \<le> b"
  unfolding Math_max_all_def by (induction xs arbitrary: m) auto

section \<open>Arrays\<close>

text \<open>\<open>arr.slice(-n)\<close> for a positive \<open>n\<close>: the last \<open>n\<close> elements, in order.\<close>

definition slice_last :: "nat \<Rightarrow> 'a list \<Rightarrow> 'a list" where
  "slice_last n xs = drop (length xs - n) xs"

text \<open>\<open>arr[i]\<close>.  Out of range JavaScript reads \<open>undefined\<close>; the model then has an unspecified
  value, about which nothing can be proved.\<close>

definition at_index :: "'a list \<Rightarrow> nat \<Rightarrow> 'a" where
  "at_index xs i = (if i < length xs then xs ! i else undefined)"

lemma length_slice_last [simp]: "length (slice_last n xs) = min n (length xs)"
  by (simp add: slice_last_def)

lemma suffix_slice_last: "suffix (slice_last n xs) xs"
  by (simp add: slice_last_def suffix_drop)

lemma slice_last_id [simp]: "length xs \<le> n \<Longrightarrow> slice_last n xs = xs"
  by (simp add: slice_last_def)

lemma slice_last_append: "length ys \<le> n \<Longrightarrow>
  slice_last n (xs @ ys) = slice_last (n - length ys) xs @ ys"
  by (simp add: slice_last_def)

lemma slice_last_Nil [simp]: "slice_last n [] = []"
  by (simp add: slice_last_def)

lemma slice_last_eq_Nil [simp]: "slice_last n xs = [] \<longleftrightarrow> n = 0 \<or> xs = []"
  by (cases xs; cases n) (auto simp: slice_last_def)

lemma set_slice_last: "set (slice_last n xs) \<subseteq> set xs"
  by (simp add: slice_last_def set_drop_subset)

lemma last_slice_last [simp]: "0 < n \<Longrightarrow> xs \<noteq> [] \<Longrightarrow> last (slice_last n xs) = last xs"
  by (simp add: slice_last_def)

lemma map_slice_last: "map f (slice_last n xs) = slice_last n (map f xs)"
  by (simp add: slice_last_def drop_map)

lemma suffix_by_length:
  assumes "suffix ys xs"
  shows "ys = slice_last (length ys) xs"
  using assms by (auto simp: suffix_def slice_last_def)

section \<open>Objects and maps with string keys\<close>

type_synonym 'v Record = "(string \<times> 'v) list"

definition keys_distinct :: "('k \<times> 'v) list \<Rightarrow> bool" where
  "keys_distinct r \<longleftrightarrow> distinct (map fst r)"

text \<open>Every value of the object satisfies \<open>P\<close>.\<close>

definition values_all :: "('v \<Rightarrow> bool) \<Rightarrow> ('k \<times> 'v) list \<Rightarrow> bool" where
  "values_all P r \<longleftrightarrow> list_all (\<lambda>kv. P (snd kv)) r"

lemma keys_distinct_Nil [simp]: "keys_distinct []"
  by (simp add: keys_distinct_def)

lemma keys_distinct_update [simp]: "keys_distinct r \<Longrightarrow> keys_distinct (AList.update k v r)"
  unfolding keys_distinct_def by (rule distinct_update)

lemma keys_distinct_delete [simp]: "keys_distinct r \<Longrightarrow> keys_distinct (AList.delete k r)"
  unfolding keys_distinct_def by (rule distinct_delete)

lemma values_all_Nil [simp]: "values_all P []"
  by (simp add: values_all_def)

lemma values_all_update [simp]: "values_all P r \<Longrightarrow> P v \<Longrightarrow> values_all P (AList.update k v r)"
  unfolding values_all_def by (induction r) auto

lemma values_all_lookup: "values_all P r \<Longrightarrow> map_of r k = Some v \<Longrightarrow> P v"
  unfolding values_all_def by (fastforce simp: list_all_iff dest: map_of_SomeD)

text \<open>The sum of a field over the values of an object changes by the difference of the one slot
  that is written.\<close>

definition sum_values :: "('v \<Rightarrow> number) \<Rightarrow> ('k \<times> 'v) list \<Rightarrow> number" where
  "sum_values f r = sum_list (map (f \<circ> snd) r)"

lemma sum_values_update:
  "sum_values f (AList.update k v r) =
     sum_values f r - (case map_of r k of None \<Rightarrow> 0 | Some u \<Rightarrow> f u) + f v"
  unfolding sum_values_def by (induction r) (auto split: option.splits)

text \<open>The accumulator loops \<open>for (const d of list) s += f(d)\<close> and \<open>reduce(Math.max)\<close>.\<close>

lemma fold_plus_eq: "fold (\<lambda>d s. s + f d) xs (a :: number) = a + sum_list (map f xs)"
  by (induction xs arbitrary: a) (simp_all add: add.assoc)

lemma fold_max_ge: "(a :: 'b :: linorder) \<le> fold (\<lambda>d m. max m (f d)) xs a"
proof (induction xs arbitrary: a)
  case (Cons x xs)
  have "max a (f x) \<le> fold (\<lambda>d m. max m (f d)) xs (max a (f x))" by (rule Cons.IH)
  then show ?case by simp
qed simp

lemma fold_max_upper:
  "x \<in> set xs \<Longrightarrow> f x \<le> fold (\<lambda>d m. max m (f d)) xs (a :: 'b :: linorder)"
proof (induction xs arbitrary: a)
  case (Cons y ys)
  have "max a (f y) \<le> fold (\<lambda>d m. max m (f d)) ys (max a (f y))" by (rule fold_max_ge)
  with Cons show ?case by auto
qed simp

lemma fold_max_le:
  "a \<le> b \<Longrightarrow> (\<And>x. x \<in> set xs \<Longrightarrow> f x \<le> b) \<Longrightarrow>
   fold (\<lambda>d m. max m (f d)) xs a \<le> (b :: 'b :: linorder)"
  by (induction xs arbitrary: a) auto

end
