(* ===== verification/Interfaces.thy ===== *)
theory Interfaces
  imports Prelude
begin

text \<open>
  The contracts that several components of the client share, as locales: a rolling window that
  keeps the newest entries of a stream, a cell whose stored value counts only while its key
  matches, a capped exponential back-off, and a store of independent slots.  Each is interpreted
  on the code's own definitions in the theory of the component that provides them.
\<close>

section \<open>Rolling windows\<close>

text \<open>\<open>push\<close> appends to a bounded history: what it returns is a suffix of the history with the new
  entry at its end, of the largest length the cap allows.\<close>

locale rolling_window =
  fixes push :: "'a list \<Rightarrow> 'a \<Rightarrow> 'a list"
    and cap :: nat
  assumes cap_positive: "0 < cap"
    and push_suffix: "suffix (push xs x) (xs @ [x])"
    and push_length: "length (push xs x) = min cap (Suc (length xs))"
begin

lemma push_eq: "push xs x = slice_last cap (xs @ [x])"
proof -
  have "push xs x = slice_last (min cap (Suc (length xs))) (xs @ [x])"
    using suffix_by_length [OF push_suffix, of xs x] by (simp add: push_length)
  also have "\<dots> = slice_last cap (xs @ [x])"
    by (cases "cap \<le> Suc (length xs)") (simp_all add: slice_last_def min_def)
  finally show ?thesis .
qed

lemma push_bounded: "length (push xs x) \<le> cap"
  by (simp add: push_length)

lemma push_newest: "push xs x \<noteq> [] \<and> last (push xs x) = x"
proof -
  have "push xs x \<noteq> []"
    using cap_positive by (simp add: push_eq slice_last_def)
  then show ?thesis
    using cap_positive by (simp add: push_eq)
qed

text \<open>Pushing onto a window of a longer history gives the window of the extended history.\<close>

lemma push_window: "push (slice_last cap xs) x = slice_last cap (xs @ [x])"
proof -
  have "slice_last (cap - 1) (slice_last cap xs) = slice_last (cap - 1) xs"
    by (cases "cap \<le> length xs") (simp_all add: slice_last_def)
  then show ?thesis
    using cap_positive by (simp add: push_eq slice_last_append)
qed

text \<open>The refinement: a run of pushes from the empty window is the window of the whole stream.\<close>

theorem foldl_push: "foldl push (slice_last cap xs) ys = slice_last cap (xs @ ys)"
proof (induction ys arbitrary: xs)
  case (Cons y ys)
  show ?case by (simp add: push_window Cons.IH [of "xs @ [y]"])
qed simp

corollary foldl_push_empty: "foldl push [] ys = slice_last cap ys"
  using foldl_push [of "[]" ys] by simp

end

section \<open>Cells that reset when their key changes\<close>

text \<open>A hook stores a value together with the key it was computed for.  Reading under the current
  key gives the stored value when the keys agree and a default otherwise.\<close>

locale keyed_cell =
  fixes cell_key :: "'c \<Rightarrow> 'k"
    and read_cell :: "'k \<Rightarrow> 'c \<Rightarrow> 'v"
    and write_cell :: "'k \<Rightarrow> 'v \<Rightarrow> 'c"
    and reset_value :: 'v
  assumes read_write: "read_cell k (write_cell k v) = v"
    and read_mismatch: "cell_key c \<noteq> k \<Longrightarrow> read_cell k c = reset_value"
    and key_write: "cell_key (write_cell k v) = k"
begin

lemma switch_resets: "k \<noteq> k' \<Longrightarrow> read_cell k' (write_cell k v) = reset_value"
  by (rule read_mismatch) (simp add: key_write)

end

section \<open>Capped exponential back-off\<close>

locale backoff =
  fixes delay :: "nat \<Rightarrow> nat"
    and ceiling :: nat
  assumes delay_mono: "delay n \<le> delay (Suc n)"
    and delay_ceiling: "delay n \<le> ceiling"
    and delay_doubles: "delay (Suc n) < ceiling \<Longrightarrow> delay (Suc n) = 2 * delay n"
begin

lemma delay_le: "m \<le> n \<Longrightarrow> delay m \<le> delay n"
  by (rule lift_Suc_mono_le) (rule delay_mono)

text \<open>Once the ceiling is reached it is kept.\<close>

lemma delay_saturates: "delay m = ceiling \<Longrightarrow> m \<le> n \<Longrightarrow> delay n = ceiling"
  using delay_le [of m n] delay_ceiling [of n] by simp

text \<open>Below the ceiling the delay is the initial one times a power of two.\<close>

lemma delay_power: "delay n < ceiling \<Longrightarrow> delay n = 2 ^ n * delay 0"
proof (induction n)
  case (Suc n)
  from Suc.prems have "delay n < ceiling"
    using delay_mono [of n] by simp
  then have "delay n = 2 ^ n * delay 0" by (rule Suc.IH)
  moreover from Suc.prems have "delay (Suc n) = 2 * delay n" by (rule delay_doubles)
  ultimately show ?case by simp
qed simp

lemma total_wait_bound: "(\<Sum>i<n. delay i) \<le> n * ceiling"
  using sum_bounded_above [of "{..<n}" delay ceiling] delay_ceiling by simp

end

section \<open>Stores of independent slots\<close>

text \<open>An operation that writes the slot of one key: every other slot is unchanged, and the slot
  written depends on the old slot only.\<close>

locale slot_store =
  fixes slots :: "'s \<Rightarrow> 'v Record"
    and write_slot :: "string \<Rightarrow> 'a \<Rightarrow> 's \<Rightarrow> 's"
    and slot_step :: "'a \<Rightarrow> 'v option \<Rightarrow> 'v"
  assumes slots_write:
    "slots (write_slot k a s) = AList.update k (slot_step a (map_of (slots s) k)) (slots s)"
begin

lemma slot_write_same:
  "map_of (slots (write_slot k a s)) k = Some (slot_step a (map_of (slots s) k))"
  by (simp add: slots_write update_conv')

lemma slot_write_other: "k \<noteq> k' \<Longrightarrow> map_of (slots (write_slot k a s)) k' = map_of (slots s) k'"
  by (simp add: slots_write update_conv')

lemma keys_distinct_write:
  "keys_distinct (slots s) \<Longrightarrow> keys_distinct (slots (write_slot k a s))"
  by (simp add: slots_write)

lemma values_all_write:
  assumes "values_all P (slots s)"
    and "\<And>v. map_of (slots s) k = Some v \<Longrightarrow> P v \<Longrightarrow> P (slot_step a (Some v))"
    and "P (slot_step a None)"
  shows "values_all P (slots (write_slot k a s))"
proof -
  have "P (slot_step a (map_of (slots s) k))"
    using assms values_all_lookup [OF assms(1)]
    by (cases "map_of (slots s) k") auto
  with assms(1) show ?thesis by (simp add: slots_write)
qed

text \<open>Writes to different slots commute, up to the order of the keys.\<close>

lemma slot_write_commute:
  "k \<noteq> k' \<Longrightarrow>
   map_of (slots (write_slot k a (write_slot k' b s))) x =
     map_of (slots (write_slot k' b (write_slot k a s))) x"
  by (cases "x = k"; cases "x = k'") (simp_all add: slot_write_same slot_write_other)

text \<open>The slot of one key after a run of writes is the run of the writes to that key.\<close>

lemma slot_run:
  "map_of (slots (fold (\<lambda>(k, a). write_slot k a) ws s)) k =
     fold (\<lambda>(_, a) v. Some (slot_step a v)) (filter (\<lambda>(k', _). k' = k) ws) (map_of (slots s) k)"
proof (induction ws arbitrary: s)
  case (Cons w ws)
  obtain k' a where "w = (k', a)" by (cases w)
  with Cons show ?case
    by (cases "k' = k") (simp_all add: slot_write_same slot_write_other)
qed simp

end

end
