(* ===== verification/Live_Stats.thy ===== *)
theory Live_Stats
  imports Interfaces
begin

text \<open>
  The live-telemetry store, \<open>src/web/src/stores/liveStats.ts\<close>: per-device, per-server and
  host-health slots with rolling histories, and the aggregate of all devices coalesced to one
  frame per second.  The zustand \<open>set\<close> callbacks are functions from the old state to the new one;
  \<open>Date.now()\<close>, the default of the optional \<open>ts\<close> parameter, is the argument \<open>now\<close>.  A host's
  CPU percentage and every rate, byte count and timestamp is a \<open>number\<close>.

  The lemmas give the store's invariant (\<open>live_wf\<close>) and its preservation by every operation and
  every run, the functional behaviour of each operation, and the refinement of the histories
  to \<^emph>\<open>the last 1800 (or 60) entries of the stream\<close>.
\<close>

section \<open>State\<close>

definition HISTORY_CAP :: nat where
  "HISTORY_CAP = 1800"

definition SERVER_HEALTH_HISTORY :: nat where
  "SERVER_HEALTH_HISTORY = 60"

record DeviceLive =
  dl_rxBps :: number
  dl_txBps :: number
  dl_rxHistory :: "number list"
  dl_txHistory :: "number list"
  dl_lastTs :: number
  dl_lastSeenTs :: number
  dl_lifeRxBytes :: number
  dl_lifeTxBytes :: number
  dl_peakRx :: number
  dl_peakTx :: number
  dl_totalRx :: number
  dl_totalTx :: number

record ServerLive =
  sl_rxBps :: number
  sl_txBps :: number
  sl_rxHistory :: "number list"
  sl_txHistory :: "number list"
  sl_peerCount :: number
  sl_onlineCount :: number
  sl_handshakeCount :: number
  sl_lastTs :: number

record HistoricalPoint =
  hp_ts :: number
  hp_rxBps :: number
  hp_txBps :: number

record ServerHistoricalPoint = HistoricalPoint +
  shp_peerCount :: number
  shp_onlineCount :: number
  shp_handshakeCount :: number

record AggregateLive =
  ag_rxHistory :: "number list"
  ag_txHistory :: "number list"
  ag_rxBps :: number
  ag_txBps :: number
  ag_lastBucketSec :: int

record ServerHealthLive =
  sh_cpuPct :: number
  sh_memUsedBytes :: number
  sh_memTotalBytes :: number
  sh_activePeers :: number
  sh_wgRxBps :: number
  sh_wgTxBps :: number
  sh_wgRxHistory :: "number list"
  sh_wgTxHistory :: "number list"
  sh_netRxTotalBytes :: number
  sh_netTxTotalBytes :: number
  sh_uptimeSec :: number
  sh_lastTs :: number

record LiveStatsState =
  devices :: "DeviceLive Record"
  servers :: "ServerLive Record"
  aggregate :: AggregateLive
  serverHealth :: "ServerHealthLive Record"

definition empty_device :: DeviceLive where
  "empty_device = \<lparr>dl_rxBps = 0, dl_txBps = 0, dl_rxHistory = [], dl_txHistory = [],
     dl_lastTs = 0, dl_lastSeenTs = 0, dl_lifeRxBytes = 0, dl_lifeTxBytes = 0,
     dl_peakRx = 0, dl_peakTx = 0, dl_totalRx = 0, dl_totalTx = 0\<rparr>"

definition emptyServer :: ServerLive where
  "emptyServer = \<lparr>sl_rxBps = 0, sl_txBps = 0, sl_rxHistory = [], sl_txHistory = [],
     sl_peerCount = 0, sl_onlineCount = 0, sl_handshakeCount = 0, sl_lastTs = 0\<rparr>"

definition emptyAggregate :: AggregateLive where
  "emptyAggregate = \<lparr>ag_rxHistory = [], ag_txHistory = [], ag_rxBps = 0, ag_txBps = 0,
     ag_lastBucketSec = 0\<rparr>"

definition emptyServerHealth :: ServerHealthLive where
  "emptyServerHealth = \<lparr>sh_cpuPct = 0, sh_memUsedBytes = 0, sh_memTotalBytes = 0,
     sh_activePeers = 0, sh_wgRxBps = 0, sh_wgTxBps = 0, sh_wgRxHistory = [], sh_wgTxHistory = [],
     sh_netRxTotalBytes = 0, sh_netTxTotalBytes = 0, sh_uptimeSec = 0, sh_lastTs = 0\<rparr>"

text \<open>The store as \<open>create\<close> makes it, which is also what \<open>reset\<close> sets.\<close>

definition init_state :: LiveStatsState where
  "init_state = \<lparr>devices = [], servers = [], aggregate = emptyAggregate, serverHealth = []\<rparr>"

section \<open>Histories\<close>

definition pushCapped :: "nat \<Rightarrow> 'a list \<Rightarrow> 'a \<Rightarrow> 'a list" where
  "pushCapped cap arr next =
     (if length arr < cap then arr @ [next]
      else drop (length arr - cap + 1) arr @ [next])"

definition replaceLastCapped :: "number list \<Rightarrow> number \<Rightarrow> number list" where
  "replaceLastCapped arr next =
     (if length arr = 0 then [next]
      else slice_last HISTORY_CAP (arr[length arr - 1 := next]))"

text \<open>One inner loop of \<open>buildAggregateFromDevices\<close>: \<open>rx[offset + i] += d.rxHistory[i]\<close> and the
  same for \<open>tx\<close>, for \<open>i\<close> below the length of \<open>d.rxHistory\<close>.\<close>

definition add_history ::
  "nat \<Rightarrow> DeviceLive \<Rightarrow> number list \<times> number list \<Rightarrow> number list \<times> number list" where
  "add_history maxLen d acc =
     (let offset = maxLen - length (dl_rxHistory d) in
      fold (\<lambda>i (rx, tx).
          (rx[offset + i := at_index rx (offset + i) + at_index (dl_rxHistory d) i],
           tx[offset + i := at_index tx (offset + i) + at_index (dl_txHistory d) i]))
        [0..<length (dl_rxHistory d)] acc)"

definition buildAggregateFromDevices :: "DeviceLive Record \<Rightarrow> AggregateLive" where
  "buildAggregateFromDevices devs =
     (let list = map snd devs in
      if length list = 0 then emptyAggregate
      else
        let maxLen = fold (\<lambda>d m. max m (length (dl_rxHistory d))) list 0;
            (rx, tx) = fold (add_history maxLen) list (replicate maxLen 0, replicate maxLen 0);
            rxBps = fold (\<lambda>d s. s + dl_rxBps d) list 0;
            txBps = fold (\<lambda>d s. s + dl_txBps d) list 0;
            lastTs = fold (\<lambda>d m. max m (dl_lastTs d)) list 0
        in \<lparr>ag_rxHistory = slice_last HISTORY_CAP rx,
            ag_txHistory = slice_last HISTORY_CAP tx,
            ag_rxBps = rxBps, ag_txBps = txBps,
            ag_lastBucketSec = Math_floor (lastTs / 1000)\<rparr>)"

section \<open>Operations\<close>

text \<open>The device slot \<open>applyDelta\<close> writes, from the current one.\<close>

definition delta_slot ::
  "number \<Rightarrow> number \<Rightarrow> number \<Rightarrow> number \<Rightarrow> number \<Rightarrow> DeviceLive \<Rightarrow> DeviceLive" where
  "delta_slot rxBps txBps when_ts totalRxBytes totalTxBytes cur =
     \<lparr>dl_rxBps = rxBps,
      dl_txBps = txBps,
      dl_rxHistory = pushCapped HISTORY_CAP (dl_rxHistory cur) rxBps,
      dl_txHistory = pushCapped HISTORY_CAP (dl_txHistory cur) txBps,
      dl_lastTs = when_ts,
      dl_lastSeenTs = (if rxBps > 0 \<or> txBps > 0 then when_ts else dl_lastSeenTs cur),
      dl_lifeRxBytes = max (dl_lifeRxBytes cur) totalRxBytes,
      dl_lifeTxBytes = max (dl_lifeTxBytes cur) totalTxBytes,
      dl_peakRx = max (dl_peakRx cur) rxBps,
      dl_peakTx = max (dl_peakTx cur) txBps,
      dl_totalRx = dl_totalRx cur + rxBps,
      dl_totalTx = dl_totalTx cur + txBps\<rparr>"

text \<open>The second half of \<open>applyDelta\<close>: the coalesced aggregate over the new devices.\<close>

definition aggregate_step :: "DeviceLive Record \<Rightarrow> number \<Rightarrow> AggregateLive \<Rightarrow> AggregateLive" where
  "aggregate_step newDevices when_ts agg =
     (let aggRx = fold (\<lambda>d s. s + dl_rxBps d) (map snd newDevices) 0;
          aggTx = fold (\<lambda>d s. s + dl_txBps d) (map snd newDevices) 0;
          bucket = Math_floor (when_ts / 1000);
          isNewBucket = bucket > ag_lastBucketSec agg
      in \<lparr>ag_rxHistory =
            (if isNewBucket then pushCapped HISTORY_CAP (ag_rxHistory agg) aggRx
             else replaceLastCapped (ag_rxHistory agg) aggRx),
          ag_txHistory =
            (if isNewBucket then pushCapped HISTORY_CAP (ag_txHistory agg) aggTx
             else replaceLastCapped (ag_txHistory agg) aggTx),
          ag_rxBps = aggRx, ag_txBps = aggTx, ag_lastBucketSec = bucket\<rparr>)"

definition applyDelta ::
  "number \<Rightarrow> string \<Rightarrow> number \<Rightarrow> number \<Rightarrow> number option \<Rightarrow> number option \<Rightarrow> number option
     \<Rightarrow> LiveStatsState \<Rightarrow> LiveStatsState" where
  "applyDelta now did rxBps txBps ts totalRxBytes totalTxBytes state =
     (let cur = (case map_of (devices state) did of None \<Rightarrow> empty_device | Some d \<Rightarrow> d);
          when_ts = (case ts of None \<Rightarrow> now | Some t \<Rightarrow> t);
          trx = (case totalRxBytes of None \<Rightarrow> 0 | Some b \<Rightarrow> b);
          ttx = (case totalTxBytes of None \<Rightarrow> 0 | Some b \<Rightarrow> b);
          newDevices =
            AList.update did (delta_slot rxBps txBps when_ts trx ttx cur) (devices state)
      in state\<lparr>devices := newDevices,
               aggregate := aggregate_step newDevices when_ts (aggregate state)\<rparr>)"

definition applyServerSample ::
  "number \<Rightarrow> string \<Rightarrow> number \<Rightarrow> number \<Rightarrow> number \<Rightarrow> number \<Rightarrow> number \<Rightarrow> number option
     \<Rightarrow> LiveStatsState \<Rightarrow> LiveStatsState" where
  "applyServerSample now sid rxBps txBps peerCount onlineCount handshakeCount ts state =
     (let cur = (case map_of (servers state) sid of None \<Rightarrow> emptyServer | Some v \<Rightarrow> v);
          when_ts = (case ts of None \<Rightarrow> now | Some t \<Rightarrow> t)
      in state\<lparr>servers := AList.update sid
           \<lparr>sl_rxBps = rxBps, sl_txBps = txBps,
            sl_rxHistory = pushCapped HISTORY_CAP (sl_rxHistory cur) rxBps,
            sl_txHistory = pushCapped HISTORY_CAP (sl_txHistory cur) txBps,
            sl_peerCount = peerCount, sl_onlineCount = onlineCount,
            sl_handshakeCount = handshakeCount, sl_lastTs = when_ts\<rparr> (servers state)\<rparr>)"

text \<open>The device slot \<open>hydrateDevice\<close> writes.\<close>

definition hydrate_slot :: "HistoricalPoint list \<Rightarrow> DeviceLive \<Rightarrow> DeviceLive" where
  "hydrate_slot points cur =
     (let lastHistTs = (if length points > 0 then hp_ts (points ! (length points - 1)) else 0);
          liveLen = length (dl_rxHistory cur);
          liveSinceTs = (if dl_lastTs cur > lastHistTs then dl_lastTs cur else 0);
          keepLive = (if liveSinceTs > 0 then min liveLen 1 else 0);
          rxSeed = map hp_rxBps points @ (if keepLive > 0 then [dl_rxBps cur] else []);
          txSeed = map hp_txBps points @ (if keepLive > 0 then [dl_txBps cur] else []);
          rxHistory = slice_last HISTORY_CAP rxSeed;
          txHistory = slice_last HISTORY_CAP txSeed
      in cur\<lparr>dl_rxHistory := rxHistory, dl_txHistory := txHistory,
             dl_lastTs := max (dl_lastTs cur) lastHistTs,
             dl_peakRx := Math_max_all (dl_peakRx cur) rxHistory,
             dl_peakTx := Math_max_all (dl_peakTx cur) txHistory\<rparr>)"

definition hydrateDevice ::
  "string \<Rightarrow> HistoricalPoint list \<Rightarrow> LiveStatsState \<Rightarrow> LiveStatsState" where
  "hydrateDevice did points state =
     (let cur = (case map_of (devices state) did of None \<Rightarrow> empty_device | Some d \<Rightarrow> d);
          newDevices = AList.update did (hydrate_slot points cur) (devices state)
      in state\<lparr>devices := newDevices, aggregate := buildAggregateFromDevices newDevices\<rparr>)"

definition hydrateServer ::
  "string \<Rightarrow> ServerHistoricalPoint list \<Rightarrow> LiveStatsState \<Rightarrow> LiveStatsState" where
  "hydrateServer sid points state =
     (let cur = (case map_of (servers state) sid of None \<Rightarrow> emptyServer | Some v \<Rightarrow> v);
          lastHistTs = (if length points > 0 then hp_ts (points ! (length points - 1)) else 0);
          lastPoint = (if length points > 0 then Some (points ! (length points - 1)) else None)
      in state\<lparr>servers := AList.update sid
           \<lparr>sl_rxBps = sl_rxBps cur, sl_txBps = sl_txBps cur,
            sl_rxHistory = slice_last HISTORY_CAP (map hp_rxBps points),
            sl_txHistory = slice_last HISTORY_CAP (map hp_txBps points),
            sl_peerCount = (case lastPoint of None \<Rightarrow> sl_peerCount cur | Some p \<Rightarrow> shp_peerCount p),
            sl_onlineCount =
              (case lastPoint of None \<Rightarrow> sl_onlineCount cur | Some p \<Rightarrow> shp_onlineCount p),
            sl_handshakeCount =
              (case lastPoint of None \<Rightarrow> sl_handshakeCount cur | Some p \<Rightarrow> shp_handshakeCount p),
            sl_lastTs = max (sl_lastTs cur) lastHistTs\<rparr> (servers state)\<rparr>)"

definition applyServerHealth ::
  "number \<Rightarrow> string \<Rightarrow> number \<Rightarrow> number \<Rightarrow> number \<Rightarrow> number \<Rightarrow> number \<Rightarrow> number \<Rightarrow> number \<Rightarrow> number
     \<Rightarrow> number \<Rightarrow> number option \<Rightarrow> LiveStatsState \<Rightarrow> LiveStatsState" where
  "applyServerHealth now sid cpuPct memUsedBytes memTotalBytes activePeers wgRxBps wgTxBps
       netRxTotalBytes netTxTotalBytes uptimeSec ts state =
     (let cur = (case map_of (serverHealth state) sid of None \<Rightarrow> emptyServerHealth | Some v \<Rightarrow> v);
          when_ts = (case ts of None \<Rightarrow> now | Some t \<Rightarrow> t)
      in state\<lparr>serverHealth := AList.update sid
           \<lparr>sh_cpuPct = cpuPct, sh_memUsedBytes = memUsedBytes, sh_memTotalBytes = memTotalBytes,
            sh_activePeers = activePeers, sh_wgRxBps = wgRxBps, sh_wgTxBps = wgTxBps,
            sh_wgRxHistory = pushCapped SERVER_HEALTH_HISTORY (sh_wgRxHistory cur) wgRxBps,
            sh_wgTxHistory = pushCapped SERVER_HEALTH_HISTORY (sh_wgTxHistory cur) wgTxBps,
            sh_netRxTotalBytes = netRxTotalBytes, sh_netTxTotalBytes = netTxTotalBytes,
            sh_uptimeSec = uptimeSec, sh_lastTs = when_ts\<rparr> (serverHealth state)\<rparr>)"

definition live_reset :: "LiveStatsState \<Rightarrow> LiveStatsState" where
  "live_reset state = state\<lparr>devices := [], servers := [], aggregate := emptyAggregate,
     serverHealth := []\<rparr>"


section \<open>The capped histories are rolling windows\<close>

lemma HISTORY_CAP_pos [simp]: "0 < HISTORY_CAP"
  by (simp add: HISTORY_CAP_def)

lemma SERVER_HEALTH_HISTORY_pos [simp]: "0 < SERVER_HEALTH_HISTORY"
  by (simp add: SERVER_HEALTH_HISTORY_def)

lemma pushCapped_window: "0 < cap \<Longrightarrow> rolling_window (pushCapped cap) cap"
proof unfold_locales
  fix xs :: "'a list" and x
  assume cap: "0 < cap"
  show "suffix (pushCapped cap xs x) (xs @ [x])"
    by (auto simp: pushCapped_def intro: suffix_drop)
  from cap show "length (pushCapped cap xs x) = min cap (Suc (length xs))"
    by (simp add: pushCapped_def)
qed

interpretation history: rolling_window "pushCapped HISTORY_CAP" HISTORY_CAP
  by (rule pushCapped_window) simp

interpretation health_history: rolling_window "pushCapped SERVER_HEALTH_HISTORY"
  SERVER_HEALTH_HISTORY
  by (rule pushCapped_window) simp

lemma length_pushCapped [simp]: "0 < cap \<Longrightarrow> length (pushCapped cap xs x) = min cap (Suc (length xs))"
  by (simp add: pushCapped_def)

lemma set_pushCapped: "set (pushCapped cap xs x) \<subseteq> insert x (set xs)"
  using set_drop_subset [of "length xs - cap + 1" xs] by (auto simp: pushCapped_def)

lemma length_replaceLastCapped:
  "length (replaceLastCapped xs x) = (if xs = [] then 1 else min HISTORY_CAP (length xs))"
  by (simp add: replaceLastCapped_def)

lemma last_replaceLastCapped [simp]: "replaceLastCapped xs x \<noteq> [] \<and> last (replaceLastCapped xs x) = x"
proof (cases "xs = []")
  case False
  then have "last (xs[length xs - 1 := x]) = x"
    by (simp add: last_list_update)
  with False show ?thesis
    by (simp add: replaceLastCapped_def)
qed (simp add: replaceLastCapped_def)

section \<open>The slots are independent\<close>

definition delta_step ::
  "number \<times> number \<times> number \<times> number \<times> number \<Rightarrow> DeviceLive option \<Rightarrow> DeviceLive" where
  "delta_step = (\<lambda>(rx, tx, t, trx, ttx) v.
     delta_slot rx tx t trx ttx (case v of None \<Rightarrow> empty_device | Some d \<Rightarrow> d))"

interpretation device_slots: slot_store devices
  "\<lambda>k (rx, tx, t, trx, ttx). applyDelta now k rx tx (Some t) (Some trx) (Some ttx)" delta_step
  for now
  by unfold_locales (simp add: applyDelta_def delta_step_def Let_def split: prod.splits)

interpretation hydrate_slots: slot_store devices hydrateDevice
  "\<lambda>points v. hydrate_slot points (case v of None \<Rightarrow> empty_device | Some d \<Rightarrow> d)"
  by unfold_locales (simp add: hydrateDevice_def Let_def)


section \<open>The aggregate rebuilt from the device histories\<close>

text \<open>Reference: every history right-aligned in a row of length \<open>n\<close>, the rows summed column by
  column.\<close>

definition right_aligned :: "nat \<Rightarrow> number list \<Rightarrow> number list" where
  "right_aligned n h = replicate (n - length h) 0 @ h"

definition column_sums :: "nat \<Rightarrow> number list list \<Rightarrow> number list" where
  "column_sums n hs = map (\<lambda>j. sum_list (map (\<lambda>h. right_aligned n h ! j) hs)) [0..<n]"

text \<open>The index loop of one device adds its history at the end of the row.\<close>

lemma add_loop:
  fixes rx tx a b :: "number list"
  assumes "off + n \<le> length rx" and "off + n \<le> length tx"
    and "n \<le> length a" and "n \<le> length b"
  shows "fold (\<lambda>i (rx, tx).
            (rx[off + i := at_index rx (off + i) + at_index a i],
             tx[off + i := at_index tx (off + i) + at_index b i])) [0..<n] (rx, tx) =
         (map (\<lambda>j. rx ! j + (if off \<le> j \<and> j < off + n then a ! (j - off) else 0)) [0..<length rx],
          map (\<lambda>j. tx ! j + (if off \<le> j \<and> j < off + n then b ! (j - off) else 0)) [0..<length tx])"
  using assms
proof (induction n)
  case 0
  then show ?case by (auto intro!: nth_equalityI)
next
  case (Suc n)
  then have IH: "fold (\<lambda>i (rx, tx).
            (rx[off + i := at_index rx (off + i) + at_index a i],
             tx[off + i := at_index tx (off + i) + at_index b i])) [0..<n] (rx, tx) =
         (map (\<lambda>j. rx ! j + (if off \<le> j \<and> j < off + n then a ! (j - off) else 0)) [0..<length rx],
          map (\<lambda>j. tx ! j + (if off \<le> j \<and> j < off + n then b ! (j - off) else 0)) [0..<length tx])"
    by simp
  from Suc.prems show ?case
    by (simp add: IH) (auto simp: at_index_def nth_list_update less_Suc_eq intro!: nth_equalityI)
qed

lemma add_history_eq:
  assumes "length (dl_rxHistory d) = length (dl_txHistory d)"
    and "length (dl_rxHistory d) \<le> n" and "length rx = n" and "length tx = n"
  shows "add_history n d (rx, tx) =
    (map2 (+) rx (right_aligned n (dl_rxHistory d)), map2 (+) tx (right_aligned n (dl_txHistory d)))"
  unfolding add_history_def Let_def
  by (subst add_loop)
     (use assms in \<open>auto simp: right_aligned_def nth_append intro!: nth_equalityI\<close>)

lemma fold_add_history:
  assumes "\<forall>d\<in>set ds. length (dl_rxHistory d) = length (dl_txHistory d) \<and>
      length (dl_rxHistory d) \<le> n"
    and "length rx = n" and "length tx = n"
  shows "fold (add_history n) ds (rx, tx) =
    (map2 (+) rx (column_sums n (map dl_rxHistory ds)),
     map2 (+) tx (column_sums n (map dl_txHistory ds)))"
  using assms
proof (induction ds arbitrary: rx tx)
  case Nil
  then show ?case by (auto simp: column_sums_def intro!: nth_equalityI)
next
  case (Cons d ds)
  have d: "add_history n d (rx, tx) =
    (map2 (+) rx (right_aligned n (dl_rxHistory d)), map2 (+) tx (right_aligned n (dl_txHistory d)))"
    using Cons.prems by (intro add_history_eq) simp_all
  have len: "length (right_aligned n (dl_rxHistory d)) = n" "length (right_aligned n (dl_txHistory d)) = n"
    using Cons.prems(1) by (auto simp: right_aligned_def)
  have "fold (add_history n) ds (add_history n d (rx, tx)) =
    (map2 (+) (map2 (+) rx (right_aligned n (dl_rxHistory d))) (column_sums n (map dl_rxHistory ds)),
     map2 (+) (map2 (+) tx (right_aligned n (dl_txHistory d))) (column_sums n (map dl_txHistory ds)))"
    unfolding d by (rule Cons.IH) (use Cons.prems len in fastforce)+
  also have "\<dots> = (map2 (+) rx (column_sums n (map dl_rxHistory (d # ds))),
     map2 (+) tx (column_sums n (map dl_txHistory (d # ds))))"
    using Cons.prems(2,3) len by (auto simp: column_sums_def add.assoc intro!: nth_equalityI)
  finally show ?case by simp
qed


section \<open>The invariant of the store\<close>

definition device_wf :: "DeviceLive \<Rightarrow> bool" where
  "device_wf d \<longleftrightarrow>
     length (dl_rxHistory d) = length (dl_txHistory d) \<and>
     length (dl_rxHistory d) \<le> HISTORY_CAP \<and>
     list_all (\<lambda>x. x \<le> dl_peakRx d) (dl_rxHistory d) \<and>
     list_all (\<lambda>x. x \<le> dl_peakTx d) (dl_txHistory d) \<and>
     0 \<le> dl_peakRx d \<and> 0 \<le> dl_peakTx d \<and>
     0 \<le> dl_lifeRxBytes d \<and> 0 \<le> dl_lifeTxBytes d \<and>
     (0 < dl_lastTs d \<longrightarrow> dl_rxHistory d \<noteq> [])"

definition server_wf :: "ServerLive \<Rightarrow> bool" where
  "server_wf v \<longleftrightarrow>
     length (sl_rxHistory v) = length (sl_txHistory v) \<and> length (sl_rxHistory v) \<le> HISTORY_CAP"

definition health_wf :: "ServerHealthLive \<Rightarrow> bool" where
  "health_wf v \<longleftrightarrow>
     length (sh_wgRxHistory v) = length (sh_wgTxHistory v) \<and>
     length (sh_wgRxHistory v) \<le> SERVER_HEALTH_HISTORY"

text \<open>The aggregate agrees with the devices: its rates are the sums of the devices' rates.\<close>

definition aggregate_wf :: "DeviceLive Record \<Rightarrow> AggregateLive \<Rightarrow> bool" where
  "aggregate_wf devs a \<longleftrightarrow>
     length (ag_rxHistory a) = length (ag_txHistory a) \<and>
     length (ag_rxHistory a) \<le> HISTORY_CAP \<and>
     ag_rxBps a = sum_values dl_rxBps devs \<and>
     ag_txBps a = sum_values dl_txBps devs"

definition live_wf :: "LiveStatsState \<Rightarrow> bool" where
  "live_wf s \<longleftrightarrow>
     keys_distinct (devices s) \<and> keys_distinct (servers s) \<and> keys_distinct (serverHealth s) \<and>
     values_all device_wf (devices s) \<and> values_all server_wf (servers s) \<and>
     values_all health_wf (serverHealth s) \<and> aggregate_wf (devices s) (aggregate s)"

lemmas live_wf_defs = live_wf_def aggregate_wf_def

lemma device_wf_empty [simp]: "device_wf empty_device"
  by (simp add: device_wf_def empty_device_def)

lemma server_wf_empty [simp]: "server_wf emptyServer"
  by (simp add: server_wf_def emptyServer_def)

lemma health_wf_empty [simp]: "health_wf emptyServerHealth"
  by (simp add: health_wf_def emptyServerHealth_def)

lemma live_wf_init [simp]: "live_wf init_state"
  by (simp add: live_wf_defs init_state_def emptyAggregate_def sum_values_def)

text \<open>The slot the code reads with a default is well formed whenever the store is.\<close>

lemma lookup_default_wf:
  "values_all P r \<Longrightarrow> P e \<Longrightarrow> P (case map_of r k of None \<Rightarrow> e | Some d \<Rightarrow> d)"
  by (auto split: option.splits dest: values_all_lookup)

lemma list_all_max_mono: "list_all (\<lambda>x. x \<le> (m::number)) xs \<Longrightarrow> list_all (\<lambda>x. x \<le> max m n) xs"
  by (auto simp: list_all_iff)

lemma list_all_pushCapped: "list_all P xs \<Longrightarrow> P x \<Longrightarrow> list_all P (pushCapped cap xs x)"
  using set_pushCapped [of cap xs x] by (auto simp: list_all_iff)

lemma pushCapped_HISTORY_ne [simp]: "pushCapped HISTORY_CAP xs x \<noteq> []"
  by (simp add: pushCapped_def HISTORY_CAP_def)

lemma device_wf_delta_slot:
  assumes "device_wf d"
  shows "device_wf (delta_slot rx tx t trx ttx d)"
  using assms
  by (auto simp: device_wf_def delta_slot_def max_def
        intro!: list_all_pushCapped elim!: list.pred_mono_strong)

lemma device_wf_hydrate_slot:
  assumes "device_wf d"
  shows "device_wf (hydrate_slot points d)"
  using assms Math_max_all_ge [of "dl_peakRx d"] Math_max_all_ge [of "dl_peakTx d"]
  by (auto simp: device_wf_def hydrate_slot_def Let_def list_all_iff Math_max_all_upper
        intro: order_trans)

lemma aggregate_wf_step:
  "aggregate_wf old a \<Longrightarrow> aggregate_wf devs (aggregate_step devs t a)"
  by (auto simp: aggregate_wf_def aggregate_step_def Let_def fold_plus_eq sum_values_def
        length_replaceLastCapped Suc_le_eq)

lemma max_history_bound:
  assumes "values_all device_wf devs"
  defines "n \<equiv> fold (\<lambda>d m. max m (length (dl_rxHistory d))) (map snd devs) 0"
  shows "n \<le> HISTORY_CAP"
    and "\<forall>d\<in>set (map snd devs). length (dl_rxHistory d) = length (dl_txHistory d) \<and>
      length (dl_rxHistory d) \<le> n"
  using assms fold_max_upper [of _ "map snd devs" "\<lambda>d. length (dl_rxHistory d)" 0]
  by (auto simp: values_all_def list_all_iff device_wf_def intro!: fold_max_le)

text \<open>The rebuilt aggregate is the column-wise sum of the right-aligned histories.\<close>

lemma buildAggregate_columns:
  assumes wf: "values_all device_wf devs" and "devs \<noteq> []"
  defines "n \<equiv> fold (\<lambda>d m. max m (length (dl_rxHistory d))) (map snd devs) 0"
  shows "buildAggregateFromDevices devs =
    \<lparr>ag_rxHistory = column_sums n (map dl_rxHistory (map snd devs)),
     ag_txHistory = column_sums n (map dl_txHistory (map snd devs)),
     ag_rxBps = sum_values dl_rxBps devs, ag_txBps = sum_values dl_txBps devs,
     ag_lastBucketSec = Math_floor (fold (\<lambda>d m. max m (dl_lastTs d)) (map snd devs) 0 / 1000)\<rparr>"
proof -
  note bound = max_history_bound [OF wf, folded n_def]
  have zero: "map2 (+) (replicate n 0) (column_sums n hs) = column_sums n hs" for hs
    by (auto simp: column_sums_def intro!: nth_equalityI)
  have "fold (add_history n) (map snd devs) (replicate n 0, replicate n 0) =
    (column_sums n (map dl_rxHistory (map snd devs)), column_sums n (map dl_txHistory (map snd devs)))"
    using fold_add_history [OF bound(2)] by (simp add: zero)
  moreover have "length (column_sums n hs) \<le> HISTORY_CAP" for hs
    using bound(1) by (simp add: column_sums_def)
  ultimately show ?thesis
    using assms(2) n_def
    by (simp add: buildAggregateFromDevices_def Let_def fold_plus_eq sum_values_def)
qed

lemma aggregate_wf_build:
  assumes "values_all device_wf devs"
  shows "aggregate_wf devs (buildAggregateFromDevices devs)"
proof (cases "devs = []")
  case True
  then show ?thesis
    by (simp add: buildAggregateFromDevices_def aggregate_wf_def emptyAggregate_def sum_values_def)
next
  case False
  with assms show ?thesis
    using max_history_bound(1) [OF assms]
    by (simp add: buildAggregate_columns aggregate_wf_def column_sums_def)
qed

section \<open>Every operation keeps the invariant\<close>

lemma live_wf_applyDelta:
  assumes "live_wf s"
  shows "live_wf (applyDelta now k rx tx ts trx ttx s)"
proof -
  have "device_wf (case map_of (devices s) k of None \<Rightarrow> empty_device | Some d \<Rightarrow> d)"
    using assms by (simp add: live_wf_def lookup_default_wf)
  then have "device_wf (delta_slot rx tx t a b (case map_of (devices s) k of None \<Rightarrow> empty_device | Some d \<Rightarrow> d))"
    for t a b by (rule device_wf_delta_slot)
  moreover have "aggregate_wf devs (aggregate_step devs t (aggregate s))" for devs t
    using assms by (auto simp: live_wf_def intro: aggregate_wf_step)
  ultimately show ?thesis
    using assms by (simp add: live_wf_def applyDelta_def Let_def)
qed

lemma live_wf_hydrateDevice:
  assumes "live_wf s"
  shows "live_wf (hydrateDevice k points s)"
proof -
  let ?slot = "hydrate_slot points (case map_of (devices s) k of None \<Rightarrow> empty_device | Some d \<Rightarrow> d)"
  have "device_wf ?slot"
    using assms by (simp add: live_wf_def lookup_default_wf device_wf_hydrate_slot)
  with assms have devs: "values_all device_wf (AList.update k ?slot (devices s))"
    by (simp add: live_wf_def)
  from devs have "aggregate_wf (AList.update k ?slot (devices s))
      (buildAggregateFromDevices (AList.update k ?slot (devices s)))"
    by (rule aggregate_wf_build)
  with devs assms show ?thesis
    by (simp add: live_wf_def hydrateDevice_def Let_def)
qed

lemma live_wf_applyServerSample:
  assumes "live_wf s"
  shows "live_wf (applyServerSample now k rx tx pc oc hc ts s)"
proof -
  have "server_wf (case map_of (servers s) k of None \<Rightarrow> emptyServer | Some v \<Rightarrow> v)"
    using assms by (simp add: live_wf_def lookup_default_wf)
  with assms show ?thesis
    by (simp add: live_wf_def applyServerSample_def Let_def server_wf_def)
qed

lemma live_wf_hydrateServer: "live_wf s \<Longrightarrow> live_wf (hydrateServer k points s)"
  by (simp add: live_wf_def hydrateServer_def Let_def server_wf_def)

lemma live_wf_applyServerHealth:
  assumes "live_wf s"
  shows "live_wf (applyServerHealth now k cpu mu mt ap wr wt nr nt up ts s)"
proof -
  have "health_wf (case map_of (serverHealth s) k of None \<Rightarrow> emptyServerHealth | Some v \<Rightarrow> v)"
    using assms by (simp add: live_wf_def lookup_default_wf)
  with assms show ?thesis
    by (simp add: live_wf_def applyServerHealth_def Let_def health_wf_def)
qed

lemma live_wf_reset: "live_wf (live_reset s)"
  by (simp add: live_wf_defs live_reset_def emptyAggregate_def sum_values_def)


section \<open>Runs of the store\<close>

text \<open>One step is one call of a store action; the reachable states are those any sequence of calls
  leads to.\<close>

inductive live_step :: "LiveStatsState \<Rightarrow> LiveStatsState \<Rightarrow> bool" where
  delta: "live_step s (applyDelta now k rx tx ts trx ttx s)"
| sample: "live_step s (applyServerSample now k rx tx pc oc hc ts s)"
| health: "live_step s (applyServerHealth now k cpu mu mt ap wr wt nr nt up ts s)"
| hydrate_device: "live_step s (hydrateDevice k points s)"
| hydrate_server: "live_step s (hydrateServer k spoints s)"
| reset: "live_step s (live_reset s)"

inductive live_reachable :: "LiveStatsState \<Rightarrow> bool" where
  start: "live_reachable init_state"
| step: "live_reachable s \<Longrightarrow> live_step s t \<Longrightarrow> live_reachable t"

lemma live_step_wf: "live_step s t \<Longrightarrow> live_wf s \<Longrightarrow> live_wf t"
  by (induction rule: live_step.induct)
     (auto intro: live_wf_applyDelta live_wf_applyServerSample live_wf_applyServerHealth
        live_wf_hydrateDevice live_wf_hydrateServer live_wf_reset)

text \<open>C13: in every state the store can reach, no object has a duplicate key, every device, server
  and health history is within its cap with its receive and transmit halves of equal length,
  recorded peaks bound the histories, and the aggregate's rates are the sums of the devices'
  rates.\<close>

theorem live_reachable_wf: "live_reachable s \<Longrightarrow> live_wf s"
  by (induction rule: live_reachable.induct) (auto intro: live_step_wf)

theorem live_reachable_wf_witness:
  "live_wf (hydrateDevice ''d'' [\<lparr>hp_ts = 1000, hp_rxBps = 8, hp_txBps = 16\<rparr>]
     (applyDelta 5 ''d'' 1 2 (Some 2000) None None init_state))"
  by (rule live_reachable_wf, rule live_reachable.step, rule live_reachable.step,
      rule live_reachable.start, rule live_step.delta, rule live_step.hydrate_device)

section \<open>Functional behaviour of the operations\<close>

text \<open>A stream of device deltas, all with explicit timestamps and totals as the WebSocket handler
  sends them.\<close>

type_synonym delta = "string \<times> number \<times> number \<times> number \<times> number \<times> number"

definition apply_deltas :: "number \<Rightarrow> delta list \<Rightarrow> LiveStatsState \<Rightarrow> LiveStatsState" where
  "apply_deltas now ws s =
     fold (\<lambda>(k, rx, tx, t, trx, ttx). applyDelta now k rx tx (Some t) (Some trx) (Some ttx)) ws s"

definition deltas_of :: "string \<Rightarrow> delta list \<Rightarrow> delta list" where
  "deltas_of k ws = filter (\<lambda>(k', _). k' = k) ws"

lemma device_run:
  "map_of (devices (apply_deltas now ws s)) k =
     fold (\<lambda>(_, a) v. Some (delta_step a v)) (filter (\<lambda>(k', _). k' = k) ws) (map_of (devices s) k)"
proof -
  have "(\<lambda>(k, rx, tx, t, trx, ttx). applyDelta now k rx tx (Some t) (Some trx) (Some ttx)) =
      (\<lambda>(k, a). applyDelta now k (fst a) (fst (snd a)) (Some (fst (snd (snd a))))
         (Some (fst (snd (snd (snd a))))) (Some (snd (snd (snd (snd a))))))"
    by (simp add: fun_eq_iff)
  then show ?thesis
    using device_slots.slot_run [where now = now and ws = ws and k = k and s = s]
    by (simp add: apply_deltas_def)
qed

text \<open>The slot of one device under a run of its own deltas.\<close>

lemma delta_run_slot:
  assumes "ws \<noteq> []"
  defines "rx \<equiv> map (\<lambda>(k, rx, tx, t, trx, ttx). rx) ws"
    and "tx \<equiv> map (\<lambda>(k, rx, tx, t, trx, ttx). tx) ws"
    and "trx \<equiv> map (\<lambda>(k, rx, tx, t, trx, ttx). trx) ws"
  shows "\<exists>d. fold (\<lambda>(_, a) v. Some (delta_step a v)) ws v0 = Some d \<and>
    (v0 = None \<longrightarrow> dl_rxHistory d = slice_last HISTORY_CAP rx \<and>
       dl_txHistory d = slice_last HISTORY_CAP tx \<and>
       dl_totalRx d = sum_list rx \<and> dl_peakRx d = Math_max_all 0 rx \<and>
       dl_lifeRxBytes d = Math_max_all 0 trx \<and> dl_rxBps d = last rx)"
  unfolding rx_def tx_def trx_def
  using assms(1)
proof (induction ws rule: rev_induct)
  case (snoc w ws)
  obtain k a b t c e where w: "w = (k, a, b, t, c, e)" by (cases w) auto
  show ?case
  proof (cases "ws = []")
    case True
    then show ?thesis
      by (simp add: w delta_step_def delta_slot_def empty_device_def Math_max_all_def
            history.push_eq max.commute)
  next
    case False
    with snoc.IH show ?thesis
      by (auto simp: w delta_step_def delta_slot_def Math_max_all_def history.push_window
            max.commute)
  qed
qed simp




section \<open>The coalesced aggregate\<close>

text \<open>The wall-clock second each delta of a stream falls into.\<close>

definition buckets_of :: "delta list \<Rightarrow> int list" where
  "buckets_of ws = map (\<lambda>(k, rx, tx, t, trx, ttx). Math_floor (t / 1000)) ws"

lemma apply_deltas_snoc:
  "apply_deltas now (ws @ [(k, rx, tx, t, trx, ttx)]) s =
     applyDelta now k rx tx (Some t) (Some trx) (Some ttx) (apply_deltas now ws s)"
  by (simp add: apply_deltas_def)

lemma aggregate_applyDelta:
  "aggregate (applyDelta now k rx tx ts trx ttx s) =
     aggregate_step (devices (applyDelta now k rx tx ts trx ttx s))
       (case ts of None \<Rightarrow> now | Some t \<Rightarrow> t) (aggregate s)"
  by (simp add: applyDelta_def Let_def)

lemma aggregate_step_bucket [simp]:
  "ag_lastBucketSec (aggregate_step devs t a) = Math_floor (t / 1000)"
  by (simp add: aggregate_step_def Let_def)

lemma aggregate_step_length:
  "length (ag_rxHistory (aggregate_step devs t a)) =
     (if Math_floor (t / 1000) > ag_lastBucketSec a \<or> ag_rxHistory a = []
      then min HISTORY_CAP (Suc (length (ag_rxHistory a)))
      else min HISTORY_CAP (length (ag_rxHistory a)))"
  by (auto simp: aggregate_step_def Let_def length_replaceLastCapped HISTORY_CAP_def)

lemma aggregate_step_ne [simp]: "ag_rxHistory (aggregate_step devs t a) \<noteq> []"
  by (simp add: aggregate_step_def Let_def)

lemma last_aggregate_step:
  "last (ag_rxHistory (aggregate_step devs t a)) = sum_values dl_rxBps devs \<and>
   last (ag_txHistory (aggregate_step devs t a)) = sum_values dl_txBps devs"
  by (simp add: aggregate_step_def Let_def fold_plus_eq sum_values_def history.push_newest)

lemma card_snoc_sorted:
  assumes "sorted (xs @ [x])" and "xs \<noteq> []"
  shows "card (set (xs @ [x])) = (if last xs < (x :: int) then Suc (card (set xs)) else card (set xs))"
proof -
  have le: "\<forall>y\<in>set xs. y \<le> last xs \<and> y \<le> x"
    using assms by (metis append_butlast_last_id in_set_conv_decomp last_in_set list.set_intros(1)
        sorted_append set_ConsD empty_iff empty_set Un_iff set_append order_refl)
  show ?thesis
  proof (cases "last xs < x")
    case True
    with le have "x \<notin> set xs" by fastforce
    with True show ?thesis by simp
  next
    case False
    with le assms(2) have "x = last xs" by (metis last_in_set order.order_iff_strict)
    with assms(2) show ?thesis by (simp add: insert_absorb)
  qed
qed

lemma aggregate_frames_run:
  fixes now :: number
  assumes "ws \<noteq> []" and "sorted (buckets_of ws)"
  defines "a \<equiv> aggregate (apply_deltas now ws init_state)"
  shows "ag_lastBucketSec a = last (buckets_of ws) \<and> ag_rxHistory a \<noteq> [] \<and>
    length (ag_rxHistory a) = min HISTORY_CAP (card (set (buckets_of ws)))"
  unfolding a_def using assms(1,2)
proof (induction ws rule: rev_induct)
  case (snoc w ws)
  obtain k rx tx t trx ttx where w: "w = (k, rx, tx, t, trx, ttx)" by (cases w) auto
  let ?old = "aggregate (apply_deltas now ws init_state)"
  obtain devs where step: "aggregate (apply_deltas now (ws @ [w]) init_state) = aggregate_step devs t ?old"
    by (simp add: w apply_deltas_snoc aggregate_applyDelta)
  have b: "buckets_of (ws @ [w]) = buckets_of ws @ [Math_floor (t / 1000)]"
    by (simp add: buckets_of_def w)
  show ?case
  proof (cases "ws = []")
    case True
    then have "ag_rxHistory ?old = []" and "buckets_of ws = []"
      by (simp_all add: apply_deltas_def init_state_def emptyAggregate_def buckets_of_def)
    then show ?thesis
      by (simp add: step b aggregate_step_length)
  next
    case False
    then have ne: "buckets_of ws \<noteq> []" by (simp add: buckets_of_def)
    from snoc.prems ne have "ag_lastBucketSec ?old = last (buckets_of ws) \<and> ag_rxHistory ?old \<noteq> [] \<and>
        length (ag_rxHistory ?old) = min HISTORY_CAP (card (set (buckets_of ws)))"
      using False by (intro snoc.IH) (simp_all add: b sorted_append)
    with snoc.prems(2) ne show ?thesis
      using card_snoc_sorted [of "buckets_of ws" "Math_floor (t / 1000)"]
      by (auto simp: step b aggregate_step_length)
  qed
qed simp



text \<open>the order matters: the bucket of the last delta is stored even when it is older than the
  newest one, so that deltas which alternate between two seconds add a frame each time they come
  back to the newer second.  Five deltas of two distinct seconds leave three frames, where one per
  second is meant.\<close>

theorem aggregate_splits_out_of_order:
  "let ws = [(''a'', 1, 0, 5000, 0, 0), (''b'', 1, 0, 4000, 0, 0), (''a'', 1, 0, 5000, 0, 0),
             (''b'', 1, 0, 4000, 0, 0), (''a'', 1, 0, 5000, 0, 0)] :: delta list
   in card (set (buckets_of ws)) = 2 \<and>
      length (ag_rxHistory (aggregate (apply_deltas 0 ws init_state))) = 3"
  by (simp add: Let_def buckets_of_def Math_floor_def apply_deltas_def applyDelta_def init_state_def
        emptyAggregate_def aggregate_step_def pushCapped_def replaceLastCapped_def HISTORY_CAP_def
        card_insert_if)

text \<open>hydration rebuilds the aggregate as the specification says: each device's history
  right-aligned to the longest one and the columns summed, for the receive and the transmit side,
  with the devices' summed rates; all of it by index loops that never leave the arrays.\<close>

theorem hydrate_rebuilds_column_sums:
  fixes k :: string and points :: "HistoricalPoint list"
  assumes "live_wf s"
  defines "s' \<equiv> hydrateDevice k points s"
  defines "n \<equiv> fold (\<lambda>d m. max m (length (dl_rxHistory d))) (map snd (devices s')) 0"
  shows "ag_rxHistory (aggregate s') = column_sums n (map (dl_rxHistory \<circ> snd) (devices s')) \<and>
    ag_txHistory (aggregate s') = column_sums n (map (dl_txHistory \<circ> snd) (devices s')) \<and>
    ag_rxBps (aggregate s') = sum_values dl_rxBps (devices s') \<and>
    ag_txBps (aggregate s') = sum_values dl_txBps (devices s')"
proof -
  have agg: "aggregate s' = buildAggregateFromDevices (devices s')"
    by (simp add: s'_def hydrateDevice_def Let_def)
  have "values_all device_wf (devices s')"
    using live_wf_hydrateDevice [OF assms(1)] by (simp add: s'_def live_wf_def)
  moreover have "devices s' \<noteq> []"
    by (simp add: s'_def hydrateDevice_def Let_def update_nonempty)
  ultimately show ?thesis
    by (simp add: agg buildAggregate_columns n_def)
qed

theorem hydrate_rebuilds_column_sums_witness:
  "ag_rxHistory (aggregate (hydrateDevice ''b'' [\<lparr>hp_ts = 1000, hp_rxBps = 8, hp_txBps = 1\<rparr>]
     (hydrateDevice ''a'' [\<lparr>hp_ts = 1000, hp_rxBps = 2, hp_txBps = 1\<rparr>,
        \<lparr>hp_ts = 2000, hp_rxBps = 3, hp_txBps = 1\<rparr>] init_state))) = [2, 11]"
  using hydrate_rebuilds_column_sums [OF live_wf_hydrateDevice [OF live_wf_init, of "''a''"
      "[\<lparr>hp_ts = 1000, hp_rxBps = 2, hp_txBps = 1\<rparr>, \<lparr>hp_ts = 2000, hp_rxBps = 3, hp_txBps = 1\<rparr>]"],
      of "''b''" "[\<lparr>hp_ts = 1000, hp_rxBps = 8, hp_txBps = 1\<rparr>]"]
  by (simp add: init_state_def hydrateDevice_def hydrate_slot_def empty_device_def Let_def
        HISTORY_CAP_def column_sums_def right_aligned_def)

section \<open>Hydration can be repeated\<close>

text \<open>On a well-formed device the live frame is kept exactly when it is newer than the points.\<close>

lemma hydrate_slot_wf_eq:
  fixes points :: "HistoricalPoint list"
  assumes "device_wf d"
  defines "end_ts \<equiv> (if points = [] then 0 else hp_ts (last points))"
  defines "rx \<equiv> slice_last HISTORY_CAP (map hp_rxBps points @
      (if end_ts < dl_lastTs d \<and> 0 < dl_lastTs d then [dl_rxBps d] else []))"
    and "tx \<equiv> slice_last HISTORY_CAP (map hp_txBps points @
      (if end_ts < dl_lastTs d \<and> 0 < dl_lastTs d then [dl_txBps d] else []))"
  shows "hydrate_slot points d =
    d\<lparr>dl_rxHistory := rx, dl_txHistory := tx, dl_lastTs := max (dl_lastTs d) end_ts,
      dl_peakRx := Math_max_all (dl_peakRx d) rx, dl_peakTx := Math_max_all (dl_peakTx d) tx\<rparr>"
proof -
  have e: "(if length points > 0 then hp_ts (points ! (length points - 1)) else 0) = end_ts"
    by (simp add: end_ts_def last_conv_nth)
  have "(0 < (if 0 < (if end_ts < dl_lastTs d then dl_lastTs d else 0)
           then min (length (dl_rxHistory d)) 1 else 0)) =
      (end_ts < dl_lastTs d \<and> 0 < dl_lastTs d)"
    using assms(1) by (auto simp: device_wf_def)
  then show ?thesis
    unfolding hydrate_slot_def Let_def e rx_def tx_def by (simp only:)
qed

lemma Math_max_all_idem [simp]: "Math_max_all (Math_max_all m xs) xs = Math_max_all m xs"
  by (rule antisym) (simp_all add: Math_max_all_le Math_max_all_upper Math_max_all_ge)

lemma hydrate_slot_idem:
  assumes "device_wf d"
  shows "hydrate_slot points (hydrate_slot points d) = hydrate_slot points d"
proof -
  have keep: "(e < max a e \<and> 0 < max a e) = (e < a \<and> 0 < a)" for a e :: number
    by (auto simp: less_max_iff_disj)
  show ?thesis
    unfolding hydrate_slot_wf_eq [OF device_wf_hydrate_slot [OF assms]]
    by (simp add: hydrate_slot_wf_eq [OF assms] keep cong: if_cong)
qed

text \<open>hydrating a device a second time with the same points changes nothing: the kept live frame
  is not duplicated, the peaks and the aggregate stay as they are.\<close>

theorem hydrateDevice_idempotent:
  assumes "live_wf s"
  shows "hydrateDevice k points (hydrateDevice k points s) = hydrateDevice k points s"
proof -
  have "device_wf (case map_of (devices s) k of None \<Rightarrow> empty_device | Some d \<Rightarrow> d)"
    using assms by (simp add: live_wf_def lookup_default_wf)
  then show ?thesis
    by (simp add: hydrateDevice_def Let_def hydrate_slot_idem update_conv')
qed

theorem hydrateDevice_idempotent_witness:
  "let s = applyDelta 0 ''d'' 5 6 (Some 9000) None None init_state;
       p = [\<lparr>hp_ts = 1000, hp_rxBps = 8, hp_txBps = 16\<rparr>]
   in hydrateDevice ''d'' p (hydrateDevice ''d'' p s) = hydrateDevice ''d'' p s"
  using hydrateDevice_idempotent [OF live_wf_applyDelta [OF live_wf_init]]
  by (simp only: Let_def)

end
