(* ===== verification/Js_String.thy ===== *)
theory Js_String
  imports Prelude
begin

text \<open>
  The string functions of the JavaScript standard library the client uses: decimal printing and
  reading, \<open>toFixed\<close>, \<open>padStart\<close>, \<open>trim\<close>, \<open>split\<close>, \<open>indexOf\<close>, \<open>slice\<close>, \<open>startsWith\<close> and
  \<open>toLowerCase\<close>.  Strings are lists of bytes; case mapping and white space are those of ASCII, the
  alphabet of the identifiers, addresses and timestamps the client handles.
\<close>

section \<open>Digits and numerals\<close>

definition digit_char :: "nat \<Rightarrow> char" where
  "digit_char d = char_of (48 + d)"

definition digit_val :: "char \<Rightarrow> nat" where
  "digit_val c = of_char c - 48"

definition is_digit :: "char \<Rightarrow> bool" where
  "is_digit c \<longleftrightarrow> 48 \<le> (of_char c :: nat) \<and> (of_char c :: nat) \<le> 57"

fun nat_dec :: "nat \<Rightarrow> string" where
  "nat_dec n = (if n < 10 then [digit_char n] else nat_dec (n div 10) @ [digit_char (n mod 10)])"

declare nat_dec.simps [simp del]

definition int_dec :: "int \<Rightarrow> string" where
  "int_dec i = (if i < 0 then ''-'' @ nat_dec (nat (- i)) else nat_dec (nat i))"

definition dec_val :: "string \<Rightarrow> nat" where
  "dec_val s = foldl (\<lambda>a c. 10 * a + digit_val c) 0 s"

text \<open>\<open>/^\d+$/\<close>, then \<open>Number\<close>: a non-empty run of digits and its value.\<close>

definition all_digits :: "string \<Rightarrow> bool" where
  "all_digits s \<longleftrightarrow> s \<noteq> [] \<and> list_all is_digit s"

lemma of_char_of_byte: "n < 256 \<Longrightarrow> (of_char (char_of n) :: nat) = n"
  by simp

lemma digit_val_char [simp]: "d < 10 \<Longrightarrow> digit_val (digit_char d) = d"
  by (simp add: digit_val_def digit_char_def)

lemma is_digit_char [simp]: "d < 10 \<Longrightarrow> is_digit (digit_char d)"
  by (simp add: is_digit_def digit_char_def)

lemma digit_val_less: "is_digit c \<Longrightarrow> digit_val c < 10"
  unfolding is_digit_def digit_val_def by arith

lemma digit_char_val [simp]: "is_digit c \<Longrightarrow> digit_char (digit_val c) = c"
  by (simp add: is_digit_def digit_val_def digit_char_def)

lemma dec_val_snoc [simp]: "dec_val (s @ [c]) = 10 * dec_val s + digit_val c"
  by (simp add: dec_val_def)

lemma dec_val_Nil [simp]: "dec_val [] = 0"
  by (simp add: dec_val_def)

lemma dec_val_append: "dec_val (s @ t) = dec_val s * 10 ^ length t + dec_val t"
proof (induction t rule: rev_induct)
  case (snoc c t)
  have "dec_val (s @ t @ [c]) = 10 * dec_val (s @ t) + digit_val c"
    using dec_val_snoc [of "s @ t" c] by simp
  with snoc show ?case by (simp add: algebra_simps)
qed simp

lemma dec_val_replicate_0 [simp]: "dec_val (replicate n (CHR ''0'')) = 0"
  by (induction n) (simp_all add: dec_val_def digit_val_def flip: replicate_append_same)

lemma dec_val_less: "list_all is_digit s \<Longrightarrow> dec_val s < 10 ^ length s"
proof (induction s rule: rev_induct)
  case (snoc c s)
  then have "dec_val s + 1 \<le> 10 ^ length s" and "digit_val c < 10"
    by (auto simp: digit_val_less)
  then show ?case by simp
qed simp

lemma dec_val_nat_dec [simp]: "dec_val (nat_dec n) = n"
proof (induction n rule: nat_dec.induct)
  case (1 n)
  show ?case
  proof (cases "n < 10")
    case True
    then show ?thesis by (subst nat_dec.simps) (simp add: dec_val_def)
  next
    case False
    with 1 show ?thesis by (subst nat_dec.simps) simp
  qed
qed

lemma digits_nat_dec [simp]: "list_all is_digit (nat_dec n)"
proof (induction n rule: nat_dec.induct)
  case (1 n)
  then show ?case by (subst nat_dec.simps) simp
qed

lemma nat_dec_ne [simp]: "nat_dec n \<noteq> []"
  by (subst nat_dec.simps) simp

lemma all_digits_nat_dec [simp]: "all_digits (nat_dec n)"
  by (simp add: all_digits_def)

lemma nat_dec_inj [simp]: "nat_dec m = nat_dec n \<longleftrightarrow> m = n"
  by (metis dec_val_nat_dec)

lemma length_nat_dec: "n < 10 ^ k \<Longrightarrow> 0 < k \<Longrightarrow> length (nat_dec n) \<le> k"
proof (induction n arbitrary: k rule: nat_dec.induct)
  case (1 n)
  show ?case
  proof (cases "n < 10")
    case True
    with "1.prems" show ?thesis by (subst nat_dec.simps) simp
  next
    case False
    with "1.prems"(1) have "k \<noteq> 1" by auto
    then obtain j where k: "k = Suc j" and j: "0 < j"
      using "1.prems"(2) by (cases k) auto
    with "1.prems"(1) have "n div 10 < 10 ^ j" by (simp add: less_mult_imp_div_less mult.commute)
    then have "length (nat_dec (n div 10)) \<le> j" using "1.IH" False j by blast
    with False k show ?thesis by (subst nat_dec.simps) simp
  qed
qed

lemma int_dec_nonneg [simp]: "0 \<le> i \<Longrightarrow> int_dec i = nat_dec (nat i)"
  by (simp add: int_dec_def)

text \<open>\<open>String(x)\<close> for an integral number below \<open>10\<^sup>2\<^sup>1\<close>.  The shortest decimal of other numbers is
  not modelled: the result is then unspecified.\<close>

definition num_string :: "number \<Rightarrow> string" where
  "num_string x = (if x = of_int \<lfloor>x\<rfloor> \<and> \<bar>x\<bar> < 10 ^ 21 then int_dec \<lfloor>x\<rfloor> else undefined)"

lemma num_string_of_int [simp]: "\<bar>i\<bar> < 10 ^ 21 \<Longrightarrow> num_string (of_int i) = int_dec i"
proof -
  assume "\<bar>i\<bar> < 10 ^ 21"
  then have "\<bar>of_int i\<bar> < (10 ^ 21 :: number)"
    by (metis of_int_abs of_int_less_iff of_int_numeral of_int_power)
  then show ?thesis by (simp add: num_string_def)
qed

section \<open>\<open>padStart\<close> and \<open>toFixed\<close>\<close>

definition padStart :: "nat \<Rightarrow> char \<Rightarrow> string \<Rightarrow> string" where
  "padStart n c s = replicate (n - length s) c @ s"

lemma length_padStart [simp]: "length (padStart n c s) = max n (length s)"
  by (simp add: padStart_def)

lemma dec_val_pad0 [simp]: "dec_val (padStart n (CHR ''0'') s) = dec_val s"
  by (simp add: padStart_def dec_val_append)

lemma digits_pad0 [simp]: "list_all is_digit s \<Longrightarrow> list_all is_digit (padStart n (CHR ''0'') s)"
  by (auto simp: padStart_def list_all_iff is_digit_def)

text \<open>\<open>String(n).padStart(k, "0")\<close>\<close>

definition pad0 :: "nat \<Rightarrow> nat \<Rightarrow> string" where
  "pad0 k n = padStart k (CHR ''0'') (nat_dec n)"

lemma dec_val_pad0_nat [simp]: "dec_val (pad0 k n) = n"
  by (simp add: pad0_def)

lemma digits_pad0_nat [simp]: "list_all is_digit (pad0 k n)"
  by (simp add: pad0_def)

lemma length_pad0: "n < 10 ^ k \<Longrightarrow> 0 < k \<Longrightarrow> length (pad0 k n) = k"
  using length_nat_dec [of n k] by (simp add: pad0_def)

lemma pad0_inj [simp]: "pad0 k m = pad0 k n \<longleftrightarrow> m = n"
  by (metis dec_val_pad0_nat)

text \<open>\<open>x.toFixed(f)\<close>: the integer nearest to \<open>x \<sqdot> 10\<^sup>f\<close> (the larger of two), printed with \<open>f\<close>
  decimals.  From \<open>10\<^sup>2\<^sup>1\<close> on JavaScript falls back to the exponential notation, which is not
  modelled: the result is then unspecified.\<close>

definition fixed_digits :: "nat \<Rightarrow> nat \<Rightarrow> string" where
  "fixed_digits f n =
     (if f = 0 then nat_dec n
      else let m = padStart (f + 1) (CHR ''0'') (nat_dec n); k = length m - f
           in take k m @ ''.'' @ drop k m)"

definition toFixed :: "nat \<Rightarrow> number \<Rightarrow> string" where
  "toFixed f x =
     (if 10 ^ 21 \<le> \<bar>x\<bar> then undefined
      else (if x < 0 then ''-'' else []) @ fixed_digits f (nat (Math_round (\<bar>x\<bar> * 10 ^ f))))"

text \<open>Reading a fixed-point numeral back: the digits before and after the point.\<close>

definition fixed_val :: "string \<Rightarrow> number" where
  "fixed_val s =
     (let ip = takeWhile is_digit s; fp = drop (length ip + 1) s
      in of_nat (dec_val ip) + of_nat (dec_val fp) / 10 ^ length fp)"

lemma fixed_val_digits: "fixed_val (fixed_digits f n) = of_nat n / 10 ^ f"
proof (cases "f = 0")
  case True
  have tw: "takeWhile is_digit (nat_dec n) = nat_dec n"
    using digits_nat_dec [of n] by (simp add: takeWhile_eq_all_conv list_all_iff)
  from True show ?thesis by (simp add: fixed_digits_def fixed_val_def Let_def tw)
next
  case False
  define m where "m = padStart (f + 1) (CHR ''0'') (nat_dec n)"
  define k where "k = length m - f"
  have m: "list_all is_digit m" "dec_val m = n" "f < length m"
    by (simp_all add: m_def)
  have split: "take k m @ drop k m = m" and ld: "length (drop k m) = f"
    using m(3) by (simp_all add: k_def)
  have tw: "takeWhile is_digit (take k m @ ''.'' @ drop k m) = take k m"
    using m(1) by (subst takeWhile_append2)
      (auto simp: list_all_iff is_digit_def dest: in_set_takeD)
  have fd: "fixed_digits f n = take k m @ ''.'' @ drop k m"
    unfolding k_def m_def fixed_digits_def Let_def by (simp only: False if_False)
  have dr: "drop (length (take k m) + 1) (take k m @ ''.'' @ drop k m) = drop k m"
    by simp
  have "fixed_val (fixed_digits f n) =
      of_nat (dec_val (take k m)) + of_nat (dec_val (drop k m)) / 10 ^ f"
    unfolding fixed_val_def fd Let_def tw dr ld ..
  also have "\<dots> = of_nat (dec_val (take k m) * 10 ^ f + dec_val (drop k m)) / 10 ^ f"
    by (simp add: add_divide_distrib)
  also have "dec_val (take k m) * 10 ^ f + dec_val (drop k m) = n"
    using dec_val_append [of "take k m" "drop k m"] unfolding split ld m(2) by simp
  finally show ?thesis .
qed

lemma toFixed_val:
  assumes "0 \<le> x" and "x < 10 ^ 21"
  shows "fixed_val (toFixed f x) = of_int (Math_round (x * 10 ^ f)) / 10 ^ f"
  using assms Math_round_nonneg [of "x * 10 ^ f"] by (simp add: toFixed_def fixed_val_digits)

text \<open>A fixed-point numeral is within half a unit of its last place of the number.\<close>

lemma toFixed_accurate:
  assumes "0 \<le> x" and "x < 10 ^ 21"
  shows "\<bar>fixed_val (toFixed f x) - x\<bar> \<le> 1 / (2 * 10 ^ f)"
proof -
  have "fixed_val (toFixed f x) - x = (of_int (Math_round (x * 10 ^ f)) - x * 10 ^ f) / 10 ^ f"
    using assms by (simp add: toFixed_val diff_divide_distrib)
  also have "\<bar>\<dots>\<bar> = \<bar>of_int (Math_round (x * 10 ^ f)) - x * 10 ^ f\<bar> / 10 ^ f"
    by (simp add: abs_divide)
  also have "\<dots> \<le> (1 / 2) / 10 ^ f"
    by (intro divide_right_mono Math_round_err) simp
  finally show ?thesis by simp
qed

section \<open>Searching, slicing and splitting\<close>

definition is_space :: "char \<Rightarrow> bool" where
  "is_space c \<longleftrightarrow> of_char c = (32 :: nat) \<or> (9 \<le> (of_char c :: nat) \<and> (of_char c :: nat) \<le> 13)"

definition trim :: "string \<Rightarrow> string" where
  "trim s = rev (dropWhile is_space (rev (dropWhile is_space s)))"

definition startsWith :: "string \<Rightarrow> string \<Rightarrow> bool" where
  "startsWith s p \<longleftrightarrow> take (length p) s = p"

text \<open>\<open>s.indexOf(c)\<close> and \<open>s.lastIndexOf(c)\<close> for a one-character needle, \<open>-1\<close> when it is absent.\<close>

definition indexOf :: "string \<Rightarrow> char \<Rightarrow> int" where
  "indexOf s c = (if c \<in> set s then int (length (takeWhile (\<lambda>x. x \<noteq> c) s)) else -1)"

definition lastIndexOf :: "string \<Rightarrow> char \<Rightarrow> int" where
  "lastIndexOf s c =
     (if c \<in> set s then int (length s) - 1 - int (length (takeWhile (\<lambda>x. x \<noteq> c) (rev s))) else -1)"

text \<open>\<open>s.slice(a, b)\<close> for \<open>0 \<le> a\<close> and \<open>0 \<le> b\<close>.\<close>

definition slice :: "nat \<Rightarrow> nat \<Rightarrow> 'a list \<Rightarrow> 'a list" where
  "slice a b s = take (b - a) (drop a s)"

text \<open>\<open>s.split(c)\<close> for a one-character separator: always at least one piece.\<close>

fun split_on :: "char \<Rightarrow> string \<Rightarrow> string list" where
  "split_on c [] = [[]]"
| "split_on c (x # xs) =
     (if x = c then [] # split_on c xs
      else case split_on c xs of [] \<Rightarrow> [[x]] | p # ps \<Rightarrow> (x # p) # ps)"

fun join_with :: "string \<Rightarrow> string list \<Rightarrow> string" where
  "join_with sep [] = []"
| "join_with sep [p] = p"
| "join_with sep (p # q # ps) = p @ sep @ join_with sep (q # ps)"

definition char_lower :: "char \<Rightarrow> char" where
  "char_lower c =
     (if 65 \<le> (of_char c :: nat) \<and> (of_char c :: nat) \<le> 90 then char_of (of_char c + 32 :: nat) else c)"

definition toLowerCase :: "string \<Rightarrow> string" where
  "toLowerCase s = map char_lower s"

lemma split_on_ne [simp]: "split_on c s \<noteq> []"
  by (induction s) (auto split: list.splits)

lemma join_split [simp]: "join_with [c] (split_on c s) = s"
proof (induction s)
  case (Cons x xs)
  have "join_with [c] ((x # p) # ps) = x # join_with [c] (p # ps)" for p ps
    by (cases ps) simp_all
  moreover have "join_with [c] ([] # p # ps) = c # join_with [c] (p # ps)" for p ps
    by simp
  ultimately show ?case
    using Cons split_on_ne [of c xs] by (cases "split_on c xs") auto
qed simp

lemma split_on_no_sep: "c \<notin> set s \<Longrightarrow> split_on c s = [s]"
  by (induction s) auto

lemma split_on_append: "c \<notin> set p \<Longrightarrow> split_on c (p @ c # s) = p # split_on c s"
  by (induction p) auto

text \<open>Splitting undoes joining when no piece contains the separator.\<close>

lemma split_join:
  "ps \<noteq> [] \<Longrightarrow> list_all (\<lambda>p. c \<notin> set p) ps \<Longrightarrow> split_on c (join_with [c] ps) = ps"
proof (induction ps)
  case (Cons p ps)
  then show ?case
    by (cases ps) (simp_all add: split_on_no_sep split_on_append)
qed simp

lemma split_on_pieces: "p \<in> set (split_on c s) \<Longrightarrow> c \<notin> set p"
proof (induction s arbitrary: p)
  case (Cons x xs)
  then show ?case by (cases "split_on c xs") (auto split: if_splits)
qed simp

lemma indexOf_append: "c \<notin> set p \<Longrightarrow> indexOf (p @ c # s) c = int (length p)"
  by (induction p) (auto simp: indexOf_def)

lemma lastIndexOf_append: "c \<notin> set s \<Longrightarrow> lastIndexOf (p @ c # s) c = int (length p)"
proof -
  assume "c \<notin> set s"
  then have "takeWhile (\<lambda>x. x \<noteq> c) (rev s @ c # rev p) = rev s @ takeWhile (\<lambda>x. x \<noteq> c) (c # rev p)"
    by (intro takeWhile_append2) auto
  then show ?thesis by (simp add: lastIndexOf_def)
qed

lemma trim_no_space: "list_all (\<lambda>c. \<not> is_space c) s \<Longrightarrow> trim s = s"
proof -
  assume "list_all (\<lambda>c. \<not> is_space c) s"
  then have "dropWhile is_space t = t" if "set t = set s" for t
    using that by (cases t) (auto simp: list_all_iff)
  then show ?thesis by (simp add: trim_def)
qed

end
