(* ===== verification/Api_Enums.thy ===== *)
theory Api_Enums
  imports Prelude
begin

text \<open>
  The string-literal unions of the API's types, src/web/src/lib/api.ts, as datatypes, with the text
  each literal has on the wire.
\<close>

section \<open>Literals\<close>

datatype UserRole = Role_admin | Role_user

datatype DeviceOs = Os_ios | Os_android | Os_macos | Os_windows | Os_linux | Os_other

datatype DeviceType =
    Type_phone | Type_tablet | Type_laptop | Type_desktop | Type_tv | Type_router | Type_watch
  | Type_iot | Type_server | Type_other

datatype DeviceStatus = Dev_active | Dev_paused | Dev_revoked

datatype UserStatus = User_active | User_suspended | User_pending_verification | User_deleted

datatype UnitsPref = Units_bps | Units_Bps

datatype DateFormatPref = Date_iso | Date_us | Date_eu

datatype TimeFormatPref = Time_h24 | Time_h12

datatype DefaultLandingPref = Land_dashboard | Land_devices | Land_topology

datatype ToastPositionPref =
    Toast_top_left | Toast_top_center | Toast_top_right | Toast_bottom_left | Toast_bottom_center
  | Toast_bottom_right

datatype ThemePref = Theme_swiss | Theme_brutalist | Theme_terminal | Theme_editorial | Theme_soft

datatype Timeframe = TF_1m | TF_3m | TF_5m | TF_15m | TF_30m | TF_1h | TF_1d | TF_7d | TF_1mo

datatype SessionEventKind =
    Ev_login | Ev_logout | Ev_idle_timeout | Ev_suspicious_login | Ev_password_change
  | Ev_totp_enable | Ev_totp_disable | Ev_impersonation_start | Ev_impersonation_end

datatype Protocol = Proto_tcp | Proto_udp

datatype AgentStatus = Agent_pending | Agent_applied | Agent_failed

datatype UserMatchedOn = UM_email | UM_last_login_ip

datatype DeviceMatchedOn = DM_name | DM_allocated_ip | DM_last_peer_endpoint

datatype FinderKind = FK_ip | FK_endpoint | FK_regex | FK_text

section \<open>Wire names\<close>

fun UserRole_str :: "UserRole \<Rightarrow> string" where
  "UserRole_str Role_admin = ''admin''"
| "UserRole_str Role_user = ''user''"

fun DeviceOs_str :: "DeviceOs \<Rightarrow> string" where
  "DeviceOs_str Os_ios = ''ios''"
| "DeviceOs_str Os_android = ''android''"
| "DeviceOs_str Os_macos = ''macos''"
| "DeviceOs_str Os_windows = ''windows''"
| "DeviceOs_str Os_linux = ''linux''"
| "DeviceOs_str Os_other = ''other''"

fun DeviceType_str :: "DeviceType \<Rightarrow> string" where
  "DeviceType_str Type_phone = ''phone''"
| "DeviceType_str Type_tablet = ''tablet''"
| "DeviceType_str Type_laptop = ''laptop''"
| "DeviceType_str Type_desktop = ''desktop''"
| "DeviceType_str Type_tv = ''tv''"
| "DeviceType_str Type_router = ''router''"
| "DeviceType_str Type_watch = ''watch''"
| "DeviceType_str Type_iot = ''iot''"
| "DeviceType_str Type_server = ''server''"
| "DeviceType_str Type_other = ''other''"

fun DeviceStatus_str :: "DeviceStatus \<Rightarrow> string" where
  "DeviceStatus_str Dev_active = ''active''"
| "DeviceStatus_str Dev_paused = ''paused''"
| "DeviceStatus_str Dev_revoked = ''revoked''"

fun UserStatus_str :: "UserStatus \<Rightarrow> string" where
  "UserStatus_str User_active = ''active''"
| "UserStatus_str User_suspended = ''suspended''"
| "UserStatus_str User_pending_verification = ''pending_verification''"
| "UserStatus_str User_deleted = ''deleted''"

fun UnitsPref_str :: "UnitsPref \<Rightarrow> string" where
  "UnitsPref_str Units_bps = ''bps''"
| "UnitsPref_str Units_Bps = ''Bps''"

fun DateFormatPref_str :: "DateFormatPref \<Rightarrow> string" where
  "DateFormatPref_str Date_iso = ''iso''"
| "DateFormatPref_str Date_us = ''us''"
| "DateFormatPref_str Date_eu = ''eu''"

fun TimeFormatPref_str :: "TimeFormatPref \<Rightarrow> string" where
  "TimeFormatPref_str Time_h24 = ''h24''"
| "TimeFormatPref_str Time_h12 = ''h12''"

fun DefaultLandingPref_str :: "DefaultLandingPref \<Rightarrow> string" where
  "DefaultLandingPref_str Land_dashboard = ''dashboard''"
| "DefaultLandingPref_str Land_devices = ''devices''"
| "DefaultLandingPref_str Land_topology = ''topology''"

fun ToastPositionPref_str :: "ToastPositionPref \<Rightarrow> string" where
  "ToastPositionPref_str Toast_top_left = ''top-left''"
| "ToastPositionPref_str Toast_top_center = ''top-center''"
| "ToastPositionPref_str Toast_top_right = ''top-right''"
| "ToastPositionPref_str Toast_bottom_left = ''bottom-left''"
| "ToastPositionPref_str Toast_bottom_center = ''bottom-center''"
| "ToastPositionPref_str Toast_bottom_right = ''bottom-right''"

fun ThemePref_str :: "ThemePref \<Rightarrow> string" where
  "ThemePref_str Theme_swiss = ''swiss''"
| "ThemePref_str Theme_brutalist = ''brutalist''"
| "ThemePref_str Theme_terminal = ''terminal''"
| "ThemePref_str Theme_editorial = ''editorial''"
| "ThemePref_str Theme_soft = ''soft''"

fun Timeframe_str :: "Timeframe \<Rightarrow> string" where
  "Timeframe_str TF_1m = ''1m''"
| "Timeframe_str TF_3m = ''3m''"
| "Timeframe_str TF_5m = ''5m''"
| "Timeframe_str TF_15m = ''15m''"
| "Timeframe_str TF_30m = ''30m''"
| "Timeframe_str TF_1h = ''1h''"
| "Timeframe_str TF_1d = ''1d''"
| "Timeframe_str TF_7d = ''7d''"
| "Timeframe_str TF_1mo = ''1mo''"

fun SessionEventKind_str :: "SessionEventKind \<Rightarrow> string" where
  "SessionEventKind_str Ev_login = ''login''"
| "SessionEventKind_str Ev_logout = ''logout''"
| "SessionEventKind_str Ev_idle_timeout = ''idle_timeout''"
| "SessionEventKind_str Ev_suspicious_login = ''suspicious_login''"
| "SessionEventKind_str Ev_password_change = ''password_change''"
| "SessionEventKind_str Ev_totp_enable = ''totp_enable''"
| "SessionEventKind_str Ev_totp_disable = ''totp_disable''"
| "SessionEventKind_str Ev_impersonation_start = ''impersonation_start''"
| "SessionEventKind_str Ev_impersonation_end = ''impersonation_end''"

fun Protocol_str :: "Protocol \<Rightarrow> string" where
  "Protocol_str Proto_tcp = ''tcp''"
| "Protocol_str Proto_udp = ''udp''"

text \<open>Distinct literals have distinct wire names.\<close>

lemma UserRole_str_inj [simp]: "UserRole_str a = UserRole_str b \<longleftrightarrow> a = b"
  by (cases a; cases b) simp_all

lemma DeviceOs_str_inj [simp]: "DeviceOs_str a = DeviceOs_str b \<longleftrightarrow> a = b"
  by (cases a; cases b) simp_all

lemma DeviceType_str_inj [simp]: "DeviceType_str a = DeviceType_str b \<longleftrightarrow> a = b"
  by (cases a; cases b) simp_all

lemma DeviceStatus_str_inj [simp]: "DeviceStatus_str a = DeviceStatus_str b \<longleftrightarrow> a = b"
  by (cases a; cases b) simp_all

lemma UserStatus_str_inj [simp]: "UserStatus_str a = UserStatus_str b \<longleftrightarrow> a = b"
  by (cases a; cases b) simp_all

lemma DateFormatPref_str_inj [simp]: "DateFormatPref_str a = DateFormatPref_str b \<longleftrightarrow> a = b"
  by (cases a; cases b) simp_all

lemma TimeFormatPref_str_inj [simp]: "TimeFormatPref_str a = TimeFormatPref_str b \<longleftrightarrow> a = b"
  by (cases a; cases b) simp_all

lemma DefaultLandingPref_str_inj [simp]: "DefaultLandingPref_str a = DefaultLandingPref_str b \<longleftrightarrow> a = b"
  by (cases a; cases b) simp_all

lemma ToastPositionPref_str_inj [simp]: "ToastPositionPref_str a = ToastPositionPref_str b \<longleftrightarrow> a = b"
  by (cases a; cases b) simp_all

lemma ThemePref_str_inj [simp]: "ThemePref_str a = ThemePref_str b \<longleftrightarrow> a = b"
  by (cases a; cases b) simp_all

lemma Timeframe_str_inj [simp]: "Timeframe_str a = Timeframe_str b \<longleftrightarrow> a = b"
  by (cases a; cases b) simp_all

lemma SessionEventKind_str_inj [simp]: "SessionEventKind_str a = SessionEventKind_str b \<longleftrightarrow> a = b"
  by (cases a; cases b) simp_all

lemma Protocol_str_inj [simp]: "Protocol_str a = Protocol_str b \<longleftrightarrow> a = b"
  by (cases a; cases b) simp_all

lemma UnitsPref_str_inj [simp]: "UnitsPref_str a = UnitsPref_str b \<longleftrightarrow> a = b"
  by (cases a; cases b) simp_all

lemmas wire_names_inj = UserRole_str_inj DeviceOs_str_inj DeviceType_str_inj DeviceStatus_str_inj
  UserStatus_str_inj DateFormatPref_str_inj TimeFormatPref_str_inj DefaultLandingPref_str_inj
  ToastPositionPref_str_inj ThemePref_str_inj Timeframe_str_inj SessionEventKind_str_inj
  Protocol_str_inj UnitsPref_str_inj

end
