(* ===== verification/Api_Types.thy ===== *)
theory Api_Types
  imports Api_Enums
begin

text \<open>
  The data the API client exchanges, src/web/src/lib/api.ts: one record per interface, its fields
  prefixed with an abbreviation of the interface.  \<open>T | null\<close> and optional members are options;
  \<open>unknown\<close> is a JSON value.
\<close>

datatype json =
    JNull
  | JBool bool
  | JNum number
  | JStr string
  | JArr "json list"
  | JObj "(string \<times> json) list"

record HostAccessRule =
  har_id :: string
  har_name :: string
  har_description :: string
  har_protocol :: Protocol
  har_gateway_ip :: string
  har_gateway_port :: number
  har_backend_ip :: string
  har_backend_port :: number
  har_enabled :: bool
  har_allow_all_peers :: bool
  har_device_ids :: "string list"

record HostAccessDevice =
  had_id :: string
  had_name :: string
  had_allocated_ip :: string
  had_status :: string
  had_owner_email :: string

record HostAgentStatus =
  has_server_id :: string
  has_desired_revision :: number
  has_applied_revision :: number
  has_status :: AgentStatus
  has_last_error :: "string option"
  has_updated_at :: string

record UserPolicySnapshot =
  ups_hide_device_detail :: bool

record PublicUser =
  pu_id :: string
  pu_email :: string
  pu_role :: UserRole
  pu_totp_enabled :: bool
  pu_is_impersonated :: "bool option"
  pu_impersonator_email :: "string option"
  pu_user_policy :: UserPolicySnapshot

record LoginResponse =
  lr_user :: PublicUser
  lr_must_change_password :: bool
  lr_totp_required :: bool

record PublicDevice =
  pd_id :: string
  pd_user_id :: string
  pd_name :: string
  pd_os :: DeviceOs
  pd_device_type :: DeviceType
  pd_public_key :: string
  pd_allocated_ip :: string
  pd_status :: DeviceStatus
  pd_server_id :: string
  pd_last_handshake_at :: "string option"
  pd_last_peer_endpoint :: "string option"
  pd_last_peer_endpoint_at :: "string option"
  pd_created_at :: string
  pd_total_rx_bytes :: number
  pd_total_tx_bytes :: number
  pd_monthly_byte_cap :: "number option"
  pd_current_month_bytes :: number
  pd_auto_paused :: bool

record CreatedDevice =
  cd_device :: PublicDevice
  cd_config :: string
  cd_qr_svg :: string

record PendingInvitation =
  pi_user_id :: string
  pi_email :: string
  pi_expires_at :: string
  pi_verified_at :: "string option"

record MyServerInfo =
  msi_name :: string
  msi_cidr :: string
  msi_endpoint_host :: string
  msi_endpoint_port :: number
  msi_mtu :: number

record MyUsage =
  mu_current_month_bytes :: number
  mu_monthly_byte_cap :: "number option"
  mu_quota_resets_at :: string

record MyActivityRow =
  mar_id :: number
  mar_action :: string
  mar_target_type :: "string option"
  mar_target_id :: "string option"
  mar_metadata :: json
  mar_created_at :: string

record MyActivityPage =
  map_items :: "MyActivityRow list"
  map_total :: number

record UserPreferences =
  pref_units :: UnitsPref
  pref_date_format :: DateFormatPref
  pref_time_format :: TimeFormatPref
  pref_reduced_motion :: bool
  pref_default_landing :: DefaultLandingPref
  pref_toast_position :: ToastPositionPref
  pref_toast_sound :: bool
  pref_browser_notifications :: bool
  pref_email_on_new_device :: bool
  pref_email_on_quota_warning :: bool
  pref_email_on_security_event :: bool
  pref_theme :: ThemePref

record TopologyPosition =
  tp_x :: number
  tp_y :: number

record TopologyPositionsResponse =
  tpr_positions :: "TopologyPosition Record"

record MySession =
  ms_id :: string
  ms_ip :: "string option"
  ms_user_agent :: "string option"
  ms_created_at :: string
  ms_last_seen_at :: string
  ms_current :: bool

record DeviceEvent =
  de_id :: number
  de_action :: string
  de_metadata :: json
  de_created_at :: string

record DeviceHistoryPoint =
  dhp_sampled_at :: string
  dhp_rx_bytes :: number
  dhp_tx_bytes :: number

record DeviceHistoryResponse =
  dhr_device_id :: string
  dhr_from :: string
  dhr_to :: string
  dhr_samples :: "DeviceHistoryPoint list"

record ServerHistoryPoint =
  svp_sampled_at :: string
  svp_total_rx_bytes :: number
  svp_total_tx_bytes :: number
  svp_peer_count :: number
  svp_online_count :: number
  svp_handshake_count :: number

record ServerHistoryResponse =
  shr_server_id :: string
  shr_from :: string
  shr_to :: string
  shr_samples :: "ServerHistoryPoint list"

record HistoryOpts =
  ho_from :: "string option"
  ho_to :: "string option"
  ho_limit :: "number option"

record Candle =
  c_bucket_start :: string
  c_rx_high :: number
  c_rx_low :: number
  c_rx_avg :: number
  c_tx_high :: number
  c_tx_low :: number
  c_tx_avg :: number

record CandleResponse =
  cr_tf :: Timeframe
  cr_candles :: "Candle list"

record TotpSetupResponse =
  tsr_secret :: string
  tsr_provisioning_uri :: string
  tsr_qr_svg :: string

record AdminUser =
  au_id :: string
  au_email :: string
  au_role :: UserRole
  au_status :: UserStatus
  au_totp_enabled :: bool
  au_created_at :: string
  au_last_login_at :: "string option"
  au_device_count :: number

record AdminUserListFilters =
  auf_q :: "string option"
  auf_status :: "UserStatus option"
  auf_role :: "UserRole option"
  auf_totp_enabled :: "bool option"

record AdminUserDetail =
  aud_id :: string
  aud_email :: string
  aud_role :: UserRole
  aud_status :: UserStatus
  aud_totp_enabled :: bool
  aud_must_change_password :: bool
  aud_created_at :: string
  aud_last_login_at :: "string option"
  aud_email_verified_at :: "string option"
  aud_password_changed_at :: string
  aud_current_month_bytes :: number
  aud_monthly_byte_cap :: "number option"
  aud_quota_resets_at :: "string option"
  aud_device_count :: number
  aud_device_limit :: number

record AdminUserDevice =
  adv_id :: string
  adv_name :: string
  adv_os :: DeviceOs
  adv_status :: DeviceStatus
  adv_allocated_ip :: string
  adv_last_handshake_at :: "string option"
  adv_last_peer_endpoint :: "string option"
  adv_last_peer_endpoint_at :: "string option"
  adv_created_at :: string
  adv_monthly_byte_cap :: "number option"
  adv_current_month_bytes :: number
  adv_auto_paused :: bool

record EndpointHistoryRow =
  ehr_id :: number
  ehr_endpoint :: string
  ehr_observed_at :: string

record ConnectionSessionRow =
  csr_id :: number
  csr_device_id :: string
  csr_user_id :: string
  csr_started_at :: string
  csr_ended_at :: "string option"
  csr_peer_endpoint_at_start :: "string option"
  csr_peer_endpoint_at_end :: "string option"
  csr_rx_bytes_at_start :: number
  csr_tx_bytes_at_start :: number
  csr_rx_bytes_at_end :: "number option"
  csr_tx_bytes_at_end :: "number option"

record AdminDeviceOwner =
  ado_id :: string
  ado_email :: string
  ado_role :: UserRole
  ado_status :: UserStatus

record AdminDeviceDetail =
  add_id :: string
  add_user_id :: string
  add_server_id :: string
  add_name :: string
  add_os :: DeviceOs
  add_device_type :: DeviceType
  add_status :: DeviceStatus
  add_allocated_ip :: string
  add_public_key :: string
  add_last_handshake_at :: "string option"
  add_last_peer_endpoint :: "string option"
  add_last_peer_endpoint_at :: "string option"
  add_created_at :: string
  add_total_rx_bytes :: number
  add_total_tx_bytes :: number
  add_monthly_byte_cap :: "number option"
  add_current_month_bytes :: number
  add_auto_paused :: bool

record AdminDeviceActivity =
  ada_id :: number
  ada_action :: string
  ada_metadata :: json
  ada_created_at :: string

record AdminDeviceDetailResponse =
  adr_device :: AdminDeviceDetail
  adr_owner :: AdminDeviceOwner
  adr_activity :: "AdminDeviceActivity list"

record AdminUserActivity =
  aua_id :: number
  aua_action :: string
  aua_metadata :: json
  aua_ip :: "string option"
  aua_user_agent :: "string option"
  aua_target_type :: "string option"
  aua_target_id :: "string option"
  aua_created_at :: string

record SessionEventRow =
  ser_id :: number
  ser_user_id :: string
  ser_event :: SessionEventKind
  ser_ip :: "string option"
  ser_user_agent :: "string option"
  ser_metadata :: json
  ser_created_at :: string

record AdminUserDetailResponse =
  aur_user :: AdminUserDetail
  aur_devices :: "AdminUserDevice list"
  aur_activity :: "AdminUserActivity list"
  aur_session_events :: "SessionEventRow list"
  aur_connection_sessions :: "ConnectionSessionRow list"

record AdminCreateUserBody =
  acb_email :: string
  acb_role :: "UserRole option"

record AdminCreatedUser =
  acu_id :: string
  acu_email :: string
  acu_role :: UserRole
  acu_status :: UserStatus

record AdminStats =
  ast_total :: number
  ast_active :: number
  ast_suspended :: number
  ast_pending_verification :: number
  ast_devices_total :: number
  ast_online_now :: number

record OnlineDeviceRow =
  odr_id :: string
  odr_user_id :: string
  odr_user_email :: string
  odr_name :: string
  odr_allocated_ip :: string
  odr_last_handshake_at :: string

record AdminFleetBandwidth =
  afb_rx_bytes :: number
  afb_tx_bytes :: number

record AuditRow =
  ar_id :: number
  ar_actor_user_id :: "string option"
  ar_action :: string
  ar_target_type :: "string option"
  ar_target_id :: "string option"
  ar_metadata :: json
  ar_ip :: "string option"
  ar_user_agent :: "string option"
  ar_created_at :: string

record AdminAuditFilters =
  aaf_action :: "string option"
  aaf_actor_user_id :: "string option"
  aaf_target_id :: "string option"
  aaf_target_type :: "string option"
  aaf_since :: "string option"
  aaf_until :: "string option"

record FailedLoginRow =
  flr_id :: number
  flr_email_attempted :: "string option"
  flr_reason :: string
  flr_ip :: "string option"
  flr_user_agent :: "string option"
  flr_attempted_at :: string

record AdminSessionEventFilters =
  asf_user_id :: "string option"
  asf_event :: "SessionEventKind option"
  asf_ip :: "string option"
  asf_since :: "string option"
  asf_until :: "string option"

record AccessLogRow =
  alr_id :: number
  alr_created_at :: string
  alr_user_id :: "string option"
  alr_method :: string
  alr_path :: string
  alr_status :: number
  alr_latency_ms :: number
  alr_ip :: "string option"
  alr_user_agent :: "string option"
  alr_request_id :: "string option"

record AdminAccessLogFilters =
  alf_user_id :: "string option"
  alf_method :: "string option"
  alf_path :: "string option"
  alf_status_min :: "number option"
  alf_status_max :: "number option"
  alf_ip :: "string option"
  alf_since :: "string option"
  alf_until :: "string option"

record FinderCounts =
  fc_audit_logs :: number
  fc_failed_logins :: number
  fc_session_events :: number
  fc_access_logs :: number
  fc_peer_endpoint_history :: number
  fc_connection_sessions :: number

record FinderUserMatch =
  fum_id :: string
  fum_email :: string
  fum_matched_on :: UserMatchedOn

record FinderDeviceMatch =
  fdm_id :: string
  fdm_user_id :: string
  fdm_user_email :: string
  fdm_name :: string
  fdm_allocated_ip :: string
  fdm_last_peer_endpoint :: "string option"
  fdm_matched_on :: DeviceMatchedOn

record FinderResponse =
  fr_query :: string
  fr_kind :: FinderKind
  fr_counts :: FinderCounts
  fr_users :: "FinderUserMatch list"
  fr_devices :: "FinderDeviceMatch list"

record MaintenanceState =
  mst_maintenance_mode :: bool
  mst_maintenance_message :: "string option"
  mst_updated_at :: string

record AdminServerRow =
  asr_id :: string
  asr_name :: string
  asr_region :: string
  asr_endpoint_host :: string
  asr_endpoint_port :: number
  asr_public_key :: string
  asr_cidr :: string
  asr_mtu :: number
  asr_is_active :: bool
  asr_persistent_keepalive :: number
  asr_rx_total :: number
  asr_tx_total :: number

record AdminServerDeviceRow =
  asd_id :: string
  asd_user_id :: string
  asd_user_email :: string
  asd_name :: string
  asd_os :: DeviceOs
  asd_status :: DeviceStatus
  asd_allocated_ip :: string
  asd_last_handshake_at :: "string option"
  asd_created_at :: string

record AdminServerDetail =
  asdt_server :: AdminServerRow
  asdt_device_count_active :: number
  asdt_device_count_paused :: number
  asdt_device_count_total :: number
  asdt_devices :: "AdminServerDeviceRow list"

record FlowEndpoint =
  fe_ip :: string
  fe_name :: string
  fe_device_id :: "string option"
  fe_user_id :: "string option"

record Flow =
  fl_source :: FlowEndpoint
  fl_target :: FlowEndpoint
  fl_source_port :: "number option"
  fl_target_port :: "number option"
  fl_protocol :: string

end
