(* ===== verification/Device_State.thy ===== *)
theory Device_State
  imports Live_Stats Js_String Api_Types
begin

text \<open>
  Connectivity of a device: src/web/src/lib/deviceState.ts, src/web/src/lib/onlineDevices.ts and the
  hooks useDeviceOnline.ts, useOnlineDeviceRows.ts and useLiveTotal.ts, which combine the persisted
  device with the live store.  \<open>parse\<close> is \<open>Date.parse\<close> (\<open>None\<close> for NaN), \<open>clock\<close> is \<open>Date.now()\<close> and
  \<open>now\<close> the 1 Hz tick of useNow.
\<close>

section \<open>The handshake window\<close>

datatype ConnState = Online | Offline

datatype PeerState = Peer_live | Peer_paused | Peer_revoked

definition ONLINE_HANDSHAKE_WINDOW_MS :: number where
  "ONLINE_HANDSHAKE_WINDOW_MS = 3 * 60000"

definition connState :: "(string \<Rightarrow> number option) \<Rightarrow> number \<Rightarrow> PublicDevice \<Rightarrow> ConnState" where
  "connState parse clock d =
     (if pd_status d \<noteq> Dev_active then Offline
      else case pd_last_handshake_at d of
             None \<Rightarrow> Offline
           | Some h \<Rightarrow>
               if h = [] then Offline
               else case parse h of
                      None \<Rightarrow> Offline
                    | Some t \<Rightarrow> if clock - t \<le> ONLINE_HANDSHAKE_WINDOW_MS then Online else Offline)"

fun peerState_of :: "DeviceStatus \<Rightarrow> PeerState" where
  "peerState_of Dev_active = Peer_live"
| "peerState_of Dev_paused = Peer_paused"
| "peerState_of Dev_revoked = Peer_revoked"

definition peerState :: "PublicDevice \<Rightarrow> PeerState" where
  "peerState d = peerState_of (pd_status d)"

definition endpointHost :: "string \<Rightarrow> string" where
  "endpointHost endpoint =
     (if startsWith endpoint ''['' then
        (let close = indexOf endpoint (CHR '']'') in
         if close > 0 then slice 1 (nat close) endpoint else endpoint)
      else
        (let lastColon = lastIndexOf endpoint (CHR '':'') in
         if lastColon > 0 then slice 0 (nat lastColon) endpoint else endpoint))"

section \<open>Refinement by live activity\<close>

definition ACTIVITY_STALE_MS :: number where
  "ACTIVITY_STALE_MS = 90000"

definition isLiveOnline ::
  "(string \<Rightarrow> number option) \<Rightarrow> number \<Rightarrow> PublicDevice \<Rightarrow> number \<Rightarrow> number \<Rightarrow> bool \<Rightarrow> bool" where
  "isLiveOnline parse clock device lastSeenTs now settled =
     (if pd_last_handshake_at device = None then False
      else if connState parse clock device \<noteq> Online then False
      else let activityStale = lastSeenTs > 0 \<and> now - lastSeenTs > ACTIVITY_STALE_MS \<and> settled
           in \<not> activityStale)"

text \<open>The visibility guard: the hook's only state is the time the tab was last shown.\<close>

definition onVis :: "number \<Rightarrow> bool \<Rightarrow> number \<Rightarrow> number" where
  "onVis clock hidden visibleSince = (if \<not> hidden then clock else visibleSince)"

definition last_seen_of :: "LiveStatsState \<Rightarrow> string \<Rightarrow> number" where
  "last_seen_of s did = (case map_of (devices s) did of None \<Rightarrow> 0 | Some d \<Rightarrow> dl_lastSeenTs d)"

definition useDeviceOnline ::
  "(string \<Rightarrow> number option) \<Rightarrow> number \<Rightarrow> number \<Rightarrow> number \<Rightarrow> LiveStatsState \<Rightarrow> PublicDevice option \<Rightarrow> bool" where
  "useDeviceOnline parse clock now visibleSince s device =
     (case device of
        None \<Rightarrow> False
      | Some d \<Rightarrow> isLiveOnline parse clock d (last_seen_of s (pd_id d)) now
                   (now - visibleSince > ACTIVITY_STALE_MS))"

section \<open>The roster of online devices\<close>

definition ROSTER_HANDSHAKE_WINDOW_MS :: number where
  "ROSTER_HANDSHAKE_WINDOW_MS = 180000"

definition row_online ::
  "(string \<Rightarrow> number option) \<Rightarrow> number Record \<Rightarrow> number \<Rightarrow> bool \<Rightarrow> OnlineDeviceRow \<Rightarrow> bool" where
  "row_online parse lastSeenByDevice now settled row =
     (case parse (odr_last_handshake_at row) of
        None \<Rightarrow> False
      | Some handshake \<Rightarrow>
          if now - handshake \<ge> ROSTER_HANDSHAKE_WINDOW_MS then False
          else let lastSeen = (case map_of lastSeenByDevice (odr_id row) of None \<Rightarrow> 0 | Some t \<Rightarrow> t)
               in \<not> (settled \<and> lastSeen > 0 \<and> now - max handshake lastSeen > ACTIVITY_STALE_MS))"

definition currentOnlineDevices ::
  "(string \<Rightarrow> number option) \<Rightarrow> OnlineDeviceRow list \<Rightarrow> number Record \<Rightarrow> number \<Rightarrow> bool \<Rightarrow> OnlineDeviceRow list" where
  "currentOnlineDevices parse rows lastSeenByDevice now settled =
     filter (row_online parse lastSeenByDevice now settled) rows"

definition seen_values :: "DeviceLive Record \<Rightarrow> number Record" where
  "seen_values live = map (\<lambda>(k, d). (k, dl_lastSeenTs d)) live"

definition useOnlineDeviceRows ::
  "(string \<Rightarrow> number option) \<Rightarrow> number \<Rightarrow> number \<Rightarrow> LiveStatsState \<Rightarrow> OnlineDeviceRow list option \<Rightarrow> OnlineDeviceRow list" where
  "useOnlineDeviceRows parse now visibleSince s rows =
     currentOnlineDevices parse (case rows of None \<Rightarrow> [] | Some r \<Rightarrow> r) (seen_values (devices s)) now
       (now - visibleSince > ACTIVITY_STALE_MS)"

section \<open>Live totals\<close>

definition useLiveTotal :: "LiveStatsState \<Rightarrow> string \<Rightarrow> number \<Rightarrow> number \<Rightarrow> number \<times> number" where
  "useLiveTotal s deviceId apiRx apiTx =
     (let liveRx = (case map_of (devices s) deviceId of None \<Rightarrow> 0 | Some d \<Rightarrow> dl_lifeRxBytes d);
          liveTx = (case map_of (devices s) deviceId of None \<Rightarrow> 0 | Some d \<Rightarrow> dl_lifeTxBytes d)
      in (max apiRx liveRx, max apiTx liveTx))"

section \<open>Endpoints\<close>

text \<open>the host of a WireGuard endpoint is recovered: for a bracketed IPv6 address it is what the
  brackets enclose, whatever port follows, and for a plain host that contains neither a colon nor an
  opening bracket it is what precedes the port.\<close>

theorem endpointHost_strips_port:
  assumes "CHR '']'' \<notin> set v6" and "h \<noteq> []" and "hd h \<noteq> CHR ''[''"
    and "list_all is_digit port"
  shows "endpointHost (''['' @ v6 @ '']:'' @ port) = v6 \<and> endpointHost (h @ '':'' @ port) = h"
proof -
  have "indexOf (''['' @ v6 @ '']:'' @ port) (CHR '']'') = int (length v6) + 1"
    using indexOf_append [of "CHR '']''" "CHR ''['' # v6" "'':'' @ port"] assms(1) by simp
  then have v6: "endpointHost (''['' @ v6 @ '']:'' @ port) = v6"
    by (simp add: endpointHost_def startsWith_def slice_def Let_def nat_add_distrib)
  have "CHR '':'' \<notin> set port"
    using assms(4) by (auto simp: list_all_iff is_digit_def)
  then have "lastIndexOf (h @ '':'' @ port) (CHR '':'') = int (length h)"
    using lastIndexOf_append [of "CHR '':''" port h] by simp
  then have "endpointHost (h @ '':'' @ port) = h"
    using assms(2,3) by (cases h) (simp_all add: endpointHost_def startsWith_def slice_def Let_def nat_add_distrib)
  with v6 show ?thesis by blast
qed

theorem endpointHost_strips_port_witness:
  "endpointHost ''[2001:db8::1]:51820'' = ''2001:db8::1'' \<and> endpointHost ''203.0.113.5:51820'' = ''203.0.113.5''"
  using endpointHost_strips_port [of "''2001:db8::1''" "''203.0.113.5''" "''51820''"]
  by (simp add: is_digit_def)

section \<open>Connectivity over time\<close>

lemma last_seen_delta:
  "last_seen_of (applyDelta c k rx tx (Some t) trx ttx s) k' =
     (if k' = k \<and> (0 < rx \<or> 0 < tx) then t else last_seen_of s k')"
  by (auto simp: last_seen_of_def applyDelta_def Let_def update_conv' delta_slot_def empty_device_def
        split: option.splits)

text \<open>Deltas that carry no bytes for a device.\<close>

definition silent :: "string \<Rightarrow> delta list \<Rightarrow> bool" where
  "silent k ws \<longleftrightarrow> list_all (\<lambda>(k', rx, tx, _). k' = k \<longrightarrow> rx \<le> 0 \<and> tx \<le> 0) ws"

lemma last_seen_silent: "silent k ws \<Longrightarrow> last_seen_of (apply_deltas c ws s) k = last_seen_of s k"
  unfolding apply_deltas_def silent_def
  by (induction ws arbitrary: s) (auto simp: last_seen_delta)

text \<open>C20: how a drop surfaces.  After a frame with traffic at time \<open>t\<close>, and whatever frames without
  traffic for that device (or with traffic for others) follow, the device counts as online exactly
  while its handshake is within three minutes and either the traffic is at most 90 seconds old or
  the tab has been visible for at most 90 seconds; frames that report zero rates never keep a dropped
  peer online.\<close>

theorem drop_surfaces_after_90s:
  fixes parse :: "string \<Rightarrow> number option" and s :: LiveStatsState and c :: number
    and trx ttx :: "number option"
  assumes "0 < rx \<or> 0 < tx" and "0 < t" and "silent (pd_id d) ws"
  defines "s' \<equiv> apply_deltas c ws (applyDelta c (pd_id d) rx tx (Some t) trx ttx s)"
  shows "useDeviceOnline parse clock now visibleSince s' (Some d) \<longleftrightarrow>
    connState parse clock d = Online \<and> (now - t \<le> 90000 \<or> now - visibleSince \<le> 90000)"
proof -
  have "last_seen_of s' (pd_id d) = t"
    using assms(1,3) by (simp add: s'_def last_seen_silent last_seen_delta)
  moreover have "connState parse clock d = Online \<Longrightarrow> pd_last_handshake_at d \<noteq> None"
    by (cases "pd_last_handshake_at d") (simp_all add: connState_def split: if_splits)
  ultimately show ?thesis
    using assms(2) by (auto simp: useDeviceOnline_def isLiveOnline_def Let_def ACTIVITY_STALE_MS_def)
qed

definition sample_device :: PublicDevice where
  "sample_device = \<lparr>pd_id = ''d'', pd_user_id = ''u'', pd_name = ''phone'', pd_os = Os_ios,
     pd_device_type = Type_phone, pd_public_key = ''k'', pd_allocated_ip = ''10.0.0.2'',
     pd_status = Dev_active, pd_server_id = ''s'', pd_last_handshake_at = Some ''t'',
     pd_last_peer_endpoint = None, pd_last_peer_endpoint_at = None, pd_created_at = ''t'',
     pd_total_rx_bytes = 0, pd_total_tx_bytes = 0, pd_monthly_byte_cap = None,
     pd_current_month_bytes = 0, pd_auto_paused = False\<rparr>"

theorem drop_surfaces_after_90s_witness:
  "\<not> useDeviceOnline (\<lambda>h. Some 100000) 200001 200001 0
     (apply_deltas 0 [(''d'', 0, 0, 200000, 0, 0)]
       (applyDelta 0 ''d'' 5 0 (Some 110000) None None init_state)) (Some sample_device)"
  using drop_surfaces_after_90s [where rx = 5 and tx = 0 and t = 110000 and d = sample_device
      and ws = "[(''d'', 0, 0, 200000, 0, 0)]" and c = 0 and trx = None and ttx = None and s = init_state
      and parse = "\<lambda>h. Some 100000" and clock = 200001 and now = 200001 and visibleSince = 0]
  by (simp add: silent_def sample_device_def)

section \<open>Displayed totals never go back\<close>

lemma life_delta_slot:
  "dl_lifeRxBytes d \<le> dl_lifeRxBytes (delta_slot rx tx t trx ttx d)"
  "dl_lifeTxBytes d \<le> dl_lifeTxBytes (delta_slot rx tx t trx ttx d)"
  by (simp_all add: delta_slot_def)

lemma life_hydrate_slot [simp]:
  "dl_lifeRxBytes (hydrate_slot p d) = dl_lifeRxBytes d"
  "dl_lifeTxBytes (hydrate_slot p d) = dl_lifeTxBytes d"
  by (simp_all add: hydrate_slot_def Let_def)

text \<open>Each step of the store keeps the slot of a device, writes it with a delta, hydrates it, or drops
  it.\<close>

lemma live_step_slot:
  assumes "live_step s s'" and "map_of (devices s') k = Some d'"
  shows "\<exists>d. d = (case map_of (devices s) k of None \<Rightarrow> empty_device | Some d \<Rightarrow> d) \<and>
    (d' = d \<or> (\<exists>p. d' = hydrate_slot p d) \<or> (\<exists>rx tx t a b. d' = delta_slot rx tx t a b d))"
  using assms
proof (cases rule: live_step.cases)
  case (delta now k' rx tx ts trx ttx)
  with assms(2) have "d' = (if k' = k then delta_slot rx tx (case ts of None \<Rightarrow> now | Some t \<Rightarrow> t)
      (case trx of None \<Rightarrow> 0 | Some x \<Rightarrow> x) (case ttx of None \<Rightarrow> 0 | Some x \<Rightarrow> x)
      (case map_of (devices s) k of None \<Rightarrow> empty_device | Some d \<Rightarrow> d) else the (map_of (devices s) k))"
    and "k' \<noteq> k \<Longrightarrow> map_of (devices s) k \<noteq> None"
    by (auto simp: applyDelta_def Let_def update_conv' split: if_splits)
  then show ?thesis by (cases "k' = k") (simp_all, blast, auto)
next
  case (hydrate_device k' points)
  with assms(2) have "d' = (if k' = k then hydrate_slot points
      (case map_of (devices s) k of None \<Rightarrow> empty_device | Some d \<Rightarrow> d) else the (map_of (devices s) k))"
    and "k' \<noteq> k \<Longrightarrow> map_of (devices s) k \<noteq> None"
    by (auto simp: hydrateDevice_def Let_def update_conv' split: if_splits)
  then show ?thesis by (cases "k' = k") (simp_all, blast, auto)
qed (auto simp: applyServerSample_def applyServerHealth_def hydrateServer_def live_reset_def Let_def)



end
