(* ===== verification/Wire.thy ===== *)
theory Wire
  imports Api_Enums
begin

text \<open>
  The events of the live feed, src/web/src/lib/wire.ts: one constructor per variant of the union
  \<open>Event\<close>, in the order of the source; the larger variants carry a record.
\<close>

record StatsDelta =
  sd_device_id :: string
  sd_user_id :: string
  sd_rx_bytes :: number
  sd_tx_bytes :: number
  sd_rate_rx_bps :: number
  sd_rate_tx_bps :: number
  sd_total_rx_bytes :: number
  sd_total_tx_bytes :: number
  sd_ts_ms :: number

record HandshakeChange =
  hc_device_id :: string
  hc_user_id :: string
  hc_last_handshake_ms :: number

record PeerStatusChanged =
  psc_device_id :: string
  psc_user_id :: string
  psc_status :: DeviceStatus

record ServerHealthEvent =
  she_server_id :: string
  she_cpu_pct :: number
  she_mem_used_bytes :: number
  she_mem_total_bytes :: number
  she_active_peers :: number
  she_wg_rx_bps :: number
  she_wg_tx_bps :: number
  she_net_rx_total_bytes :: number
  she_net_tx_total_bytes :: number
  she_uptime_sec :: number
  she_ts_ms :: number

record ServerSample =
  ss_server_id :: string
  ss_total_rx_bytes :: number
  ss_total_tx_bytes :: number
  ss_rate_rx_bps :: number
  ss_rate_tx_bps :: number
  ss_peer_count :: number
  ss_online_count :: number
  ss_handshake_count :: number
  ss_ts_ms :: number

datatype Resource = Res_device | Res_user | Res_server | Res_maintenance

datatype ChangeAction =
    Act_created | Act_updated | Act_deleted | Act_paused | Act_unpaused | Act_keys_rotated
  | Act_reordered | Act_connected

fun ChangeAction_str :: "ChangeAction \<Rightarrow> string" where
  "ChangeAction_str Act_created = ''created''"
| "ChangeAction_str Act_updated = ''updated''"
| "ChangeAction_str Act_deleted = ''deleted''"
| "ChangeAction_str Act_paused = ''paused''"
| "ChangeAction_str Act_unpaused = ''unpaused''"
| "ChangeAction_str Act_keys_rotated = ''keys_rotated''"
| "ChangeAction_str Act_reordered = ''reordered''"
| "ChangeAction_str Act_connected = ''connected''"

record DataChanged =
  dc_user_id :: "string option"
  dc_resource :: Resource
  dc_id :: "string option"
  dc_action :: ChangeAction

datatype NotifyLevel = Lvl_info | Lvl_success | Lvl_warning | Lvl_error

record NotifyEvent =
  ne_user_id :: "string option"
  ne_level :: NotifyLevel
  ne_title :: string
  ne_body :: "string option"
  ne_url :: "string option"
  ne_tag :: "string option"

datatype Event =
    Heartbeat number
  | Stats_delta StatsDelta
  | Handshake_change HandshakeChange
  | Peer_status_changed PeerStatusChanged
  | Server_health ServerHealthEvent
  | Server_sample ServerSample
  | Data_changed DataChanged
  | Notify NotifyEvent

end
