(* ===== verification/Units.thy ===== *)
theory Units
  imports Js_String Api_Enums
begin

text \<open>
  Unit formatting, src/web/src/lib/units.ts: rates in bits or bytes per second, byte totals in
  binary and decimal prefixes, and the compact counter.  The module-level preference is the argument
  \<open>unitsPref\<close>.  The formatters are shown to be instances of one table-driven reference, for which
  the accuracy of the printed value is proved once, in the locale \<open>unit_format\<close>.
\<close>

section \<open>The formatters\<close>

definition setUnitsPref :: "UnitsPref \<Rightarrow> UnitsPref \<Rightarrow> UnitsPref" where
  "setUnitsPref u unitsPref = u"

text \<open>\<open>!Number.isFinite(x) || x < 0\<close> leaves the finite values that are not negative.\<close>

fun finite_nonneg :: "jsnum \<Rightarrow> number option" where
  "finite_nonneg (Fin x) = (if x < 0 then None else Some x)"
| "finite_nonneg _ = None"

definition formatBpsWith :: "jsnum \<Rightarrow> UnitsPref \<Rightarrow> string" where
  "formatBpsWith b units =
     (case finite_nonneg b of
        None \<Rightarrow> if units = Units_Bps then ''0 B/s'' else ''0 bps''
      | Some bps \<Rightarrow>
          if units = Units_Bps then
            (let v = bps / 8 in
             if v < 1024 then int_dec (Math_round v) @ '' B/s''
             else if v < 1024 ^ 2 then toFixed 1 (v / 1024) @ '' KB/s''
             else if v < 1024 ^ 3 then toFixed 1 (v / 1024 ^ 2) @ '' MB/s''
             else toFixed 2 (v / 1024 ^ 3) @ '' GB/s'')
          else if bps < 1000 then int_dec (Math_round bps) @ '' bps''
          else if bps < 1000000 then toFixed 1 (bps / 1000) @ '' kbps''
          else if bps < 1000000000 then toFixed 1 (bps / 1000000) @ '' Mbps''
          else toFixed 2 (bps / 1000000000) @ '' Gbps'')"

definition formatBps :: "UnitsPref \<Rightarrow> jsnum \<Rightarrow> string" where
  "formatBps unitsPref bps = formatBpsWith bps unitsPref"

definition formatBytes :: "jsnum \<Rightarrow> string" where
  "formatBytes b =
     (case finite_nonneg b of
        None \<Rightarrow> ''0 B''
      | Some bytes \<Rightarrow>
          if bytes < 1024 then int_dec (Math_round bytes) @ '' B''
          else if bytes < 1024 * 1024 then toFixed 1 (bytes / 1024) @ '' KB''
          else if bytes < 1024 * 1024 * 1024 then toFixed 1 (bytes / (1024 * 1024)) @ '' MB''
          else if bytes < 1024 ^ 4 then toFixed 2 (bytes / 1024 ^ 3) @ '' GB''
          else toFixed 2 (bytes / 1024 ^ 4) @ '' TB'')"

definition formatBytesSI :: "jsnum \<Rightarrow> string" where
  "formatBytesSI b =
     (case finite_nonneg b of
        None \<Rightarrow> ''0 B''
      | Some bytes \<Rightarrow>
          if bytes < 1000 then int_dec (Math_round bytes) @ '' B''
          else if bytes < 1000000 then toFixed 1 (bytes / 1000) @ '' kB''
          else if bytes < 1000000000 then toFixed 1 (bytes / 1000000) @ '' MB''
          else if bytes < 1000000000000 then toFixed 2 (bytes / 1000000000) @ '' GB''
          else toFixed 2 (bytes / 1000000000000) @ '' TB'')"

definition compactBytes :: "jsnum \<Rightarrow> string" where
  "compactBytes v =
     (case finite_nonneg v of
        None \<Rightarrow> ''0''
      | Some n \<Rightarrow>
          if n < 1000 then int_dec (Math_round n)
          else if n < 1000000 then toFixed 1 (n / 1000) @ ''k''
          else if n < 1000000000 then toFixed 1 (n / 1000000) @ ''M''
          else toFixed 2 (n / 1000000000) @ ''G'')"

section \<open>Reference: a table of units\<close>

text \<open>A scale is a list of rows: the size of the unit, the number of decimals, the suffix.\<close>

type_synonym scale = "(number \<times> nat \<times> string) list"

fun scale_row :: "scale \<Rightarrow> number \<Rightarrow> number \<times> nat \<times> string" where
  "scale_row [] x = (1, 0, [])"
| "scale_row [r] x = r"
| "scale_row (r # r' # rs) x = (if x < fst r' then r else scale_row (r' # rs) x)"

definition scale_format :: "scale \<Rightarrow> number \<Rightarrow> string" where
  "scale_format sc x = (case scale_row sc x of (u, f, sfx) \<Rightarrow> toFixed f (x / u) @ sfx)"

definition mantissa_char :: "char \<Rightarrow> bool" where
  "mantissa_char c \<longleftrightarrow> is_digit c \<or> c = CHR ''.''"

text \<open>Reading a formatted value back: the numeral times the unit its suffix names.\<close>

definition read_scaled :: "scale \<Rightarrow> string \<Rightarrow> number option" where
  "read_scaled sc s =
     map_option (\<lambda>(u, f, sfx). fixed_val (takeWhile mantissa_char s) * u)
       (find (\<lambda>(u, f, sfx). sfx = dropWhile mantissa_char s) sc)"

text \<open>A scale that can be read back: units of at least one, the first row whole units, decimals in
  every other row, distinct suffixes that do not start like a numeral.\<close>

definition scale_ok :: "scale \<Rightarrow> bool" where
  "scale_ok sc \<longleftrightarrow>
     sc \<noteq> [] \<and> fst (hd sc) = 1 \<and> list_all (\<lambda>(u, f, sfx). 1 \<le> u) sc \<and>
     list_all (\<lambda>(u, f, sfx). 1 \<le> f) (tl sc) \<and> distinct (map (\<lambda>(u, f, sfx). sfx) sc) \<and>
     list_all (\<lambda>(u, f, sfx). sfx = [] \<or> \<not> mantissa_char (hd sfx)) sc"

lemma mantissa_digit [simp]: "is_digit c \<Longrightarrow> mantissa_char c"
  by (simp add: mantissa_char_def)

lemma mantissa_fixed: "list_all mantissa_char (fixed_digits f n)"
proof -
  have "list_all is_digit (padStart (f + 1) (CHR ''0'') (nat_dec n))" by simp
  then have "list_all mantissa_char (padStart (f + 1) (CHR ''0'') (nat_dec n))"
    by (rule list.pred_mono_strong) simp
  moreover have "list_all mantissa_char (nat_dec n)"
    using digits_nat_dec by (rule list.pred_mono_strong) simp
  ultimately show ?thesis
    by (auto simp: fixed_digits_def Let_def list_all_iff mantissa_char_def
          dest: in_set_takeD in_set_dropD)
qed

lemma mantissa_toFixed: "0 \<le> x \<Longrightarrow> x < 10 ^ 21 \<Longrightarrow> list_all mantissa_char (toFixed f x)"
  by (simp add: toFixed_def mantissa_fixed)

lemma takeWhile_mantissa:
  assumes "list_all mantissa_char m" and "s = [] \<or> \<not> mantissa_char (hd s)"
  shows "takeWhile mantissa_char (m @ s) = m" and "dropWhile mantissa_char (m @ s) = s"
proof -
  have "takeWhile mantissa_char s = []" and "dropWhile mantissa_char s = s"
    using assms(2) by (cases s; simp)+
  moreover have "\<forall>c\<in>set m. mantissa_char c" using assms(1) by (simp add: list_all_iff)
  ultimately show "takeWhile mantissa_char (m @ s) = m" and "dropWhile mantissa_char (m @ s) = s"
    by (simp_all add: takeWhile_append2 dropWhile_append2)
qed

lemma scale_row_mem: "sc \<noteq> [] \<Longrightarrow> scale_row sc x \<in> set sc"
  by (induction sc x rule: scale_row.induct) auto

lemma scale_row_unit:
  "sc \<noteq> [] \<Longrightarrow> scale_row sc x = hd sc \<or> scale_row sc x \<in> set (tl sc) \<and> fst (scale_row sc x) \<le> x"
proof (induction sc x rule: scale_row.induct)
  case (3 r r' rs x)
  then show ?case by (cases "x < fst r'") auto
qed simp_all

lemma find_distinct:
  assumes "distinct (map g xs)" and "x \<in> set xs"
  shows "find (\<lambda>y. g y = g x) xs = Some x"
  using assms by (induction xs) (auto simp: image_iff)

text \<open>The value read back from the table's output is within half a unit of the last printed place,
  hence within one half or five percent.\<close>

lemma read_scale_format:
  assumes ok: "scale_ok sc" and x: "0 \<le> x" "x < 10 ^ 21"
  shows "\<exists>v. read_scaled sc (scale_format sc x) = Some v \<and> \<bar>v - x\<bar> \<le> max (1 / 2) (x / 20)"
proof -
  obtain u f sfx where row: "scale_row sc x = (u, f, sfx)" by (cases "scale_row sc x")
  have ne: "sc \<noteq> []" and mem: "(u, f, sfx) \<in> set sc"
    using ok scale_row_mem [of sc x] by (auto simp: scale_ok_def row)
  then have u: "1 \<le> u" and suf: "sfx = [] \<or> \<not> mantissa_char (hd sfx)"
    using ok by (auto simp: scale_ok_def list_all_iff)
  have q: "0 \<le> x / u" "x / u < 10 ^ 21"
    using x u by (simp_all add: divide_less_eq)
  have fmt: "scale_format sc x = toFixed f (x / u) @ sfx"
    by (simp add: scale_format_def row)
  have find: "find (\<lambda>(u, f, s). s = sfx) sc = Some (u, f, sfx)"
    using find_distinct [of "\<lambda>(u, f, s). s" sc "(u, f, sfx)"] ok mem
    by (simp add: scale_ok_def case_prod_beta')
  have read: "read_scaled sc (scale_format sc x) = Some (fixed_val (toFixed f (x / u)) * u)"
    unfolding read_scaled_def fmt takeWhile_mantissa [OF mantissa_toFixed [OF q] suf] find by simp
  have "\<bar>fixed_val (toFixed f (x / u)) * u - x\<bar> = \<bar>fixed_val (toFixed f (x / u)) - x / u\<bar> * u"
  proof -
    have "fixed_val (toFixed f (x / u)) * u - x = (fixed_val (toFixed f (x / u)) - x / u) * u"
      using u by (simp add: left_diff_distrib)
    then show ?thesis using u by (simp only: abs_mult)
  qed
  also have "\<dots> \<le> 1 / (2 * 10 ^ f) * u"
    by (intro mult_right_mono toFixed_accurate q) (use u in simp)
  also have "\<dots> \<le> max (1 / 2) (x / 20)"
  proof (cases "f = 0 \<or> (u, f, sfx) = hd sc")
    case True
    have "u = 1"
      using scale_row_unit [OF ne, of x] True ok
      by (auto simp: row scale_ok_def list_all_iff) (metis fst_conv)+
    moreover have "1 / (2 * 10 ^ f) \<le> (1 / 2 :: number)"
      by (simp add: field_simps)
    ultimately show ?thesis by (simp add: le_max_iff_disj)
  next
    case False
    then have "u \<le> x" using scale_row_unit [OF ne, of x] by (auto simp: row)
    moreover obtain g where "f = Suc g" using False by (cases f) auto
    then have "1 / (2 * 10 ^ f) \<le> (1 / 20 :: number)"
      by (simp add: field_simps)
    ultimately have "1 / (2 * 10 ^ f) * u \<le> 1 / 20 * x"
      by (intro mult_mono) (use u in simp_all)
    then show ?thesis by simp
  qed
  finally show ?thesis using read by blast
qed

section \<open>Every formatter is a table\<close>

text \<open>A formatter of a quantity measured in units of \<open>per\<close>: the table's output on finite values
  that are not negative, a fixed text on the others.\<close>

locale unit_format =
  fixes fmt :: "jsnum \<Rightarrow> string" and sc :: scale and per :: number and zero_text :: string
  assumes sc_ok: "scale_ok sc" and per_ge_1: "1 \<le> per"
    and fmt_table: "0 \<le> x \<Longrightarrow> x < 10 ^ 21 \<Longrightarrow> fmt (Fin x) = scale_format sc (x / per)"
    and fmt_invalid: "finite_nonneg b = None \<Longrightarrow> fmt b = zero_text"
begin

lemma accurate:
  assumes "0 \<le> x" and "x < 10 ^ 21"
  shows "\<exists>v. read_scaled sc (fmt (Fin x)) = Some v \<and> \<bar>v - x / per\<bar> \<le> max (1 / 2) (x / per / 20)"
proof -
  have "x / per \<le> x" using assms(1) per_ge_1 by (simp add: divide_le_eq mult_le_cancel_left1)
  then show ?thesis
    using read_scale_format [OF sc_ok, of "x / per"] assms per_ge_1 by (simp add: fmt_table)
qed

lemma negative_is_zero: "x < 0 \<Longrightarrow> fmt (Fin x) = zero_text"
  by (rule fmt_invalid) simp

end

definition bit_rates :: scale where
  "bit_rates = [(1, 0, '' bps''), (1000, 1, '' kbps''), (1000000, 1, '' Mbps''),
     (1000000000, 2, '' Gbps'')]"

definition byte_rates :: scale where
  "byte_rates = [(1, 0, '' B/s''), (1024, 1, '' KB/s''), (1024 ^ 2, 1, '' MB/s''),
     (1024 ^ 3, 2, '' GB/s'')]"

definition binary_bytes :: scale where
  "binary_bytes = [(1, 0, '' B''), (1024, 1, '' KB''), (1024 * 1024, 1, '' MB''),
     (1024 ^ 3, 2, '' GB''), (1024 ^ 4, 2, '' TB'')]"

definition si_bytes :: scale where
  "si_bytes = [(1, 0, '' B''), (1000, 1, '' kB''), (1000000, 1, '' MB''),
     (1000000000, 2, '' GB''), (1000000000000, 2, '' TB'')]"

definition compact_units :: scale where
  "compact_units = [(1, 0, []), (1000, 1, ''k''), (1000000, 1, ''M''), (1000000000, 2, ''G'')]"

lemmas scale_defs = bit_rates_def byte_rates_def binary_bytes_def si_bytes_def compact_units_def

lemma scales_ok: "scale_ok bit_rates" "scale_ok byte_rates" "scale_ok binary_bytes"
  "scale_ok si_bytes" "scale_ok compact_units"
  by (simp_all add: scale_ok_def scale_defs mantissa_char_def is_digit_def)

text \<open>\<open>String(Math.round(x))\<close> is the fixed-point numeral without decimals.\<close>

lemma int_dec_round: "0 \<le> x \<Longrightarrow> x < 10 ^ 21 \<Longrightarrow> int_dec (Math_round x) = toFixed 0 x"
  by (simp add: toFixed_def fixed_digits_def Math_round_nonneg)

interpretation bps: unit_format "\<lambda>b. formatBpsWith b Units_bps" bit_rates 1 "''0 bps''"
  by (unfold_locales, rule scales_ok)
     (auto simp: formatBpsWith_def scale_format_def int_dec_round bit_rates_def)

interpretation Bps: unit_format "\<lambda>b. formatBpsWith b Units_Bps" byte_rates 8 "''0 B/s''"
  by (unfold_locales, rule scales_ok)
     (auto simp: formatBpsWith_def scale_format_def int_dec_round byte_rates_def Let_def)

interpretation bytes: unit_format formatBytes binary_bytes 1 "''0 B''"
  by (unfold_locales, rule scales_ok)
     (auto simp: formatBytes_def scale_format_def int_dec_round binary_bytes_def)

interpretation bytesSI: unit_format formatBytesSI si_bytes 1 "''0 B''"
  by (unfold_locales, rule scales_ok)
     (auto simp: formatBytesSI_def scale_format_def int_dec_round si_bytes_def)

interpretation compact: unit_format compactBytes compact_units 1 "''0''"
  by (unfold_locales, rule scales_ok)
     (auto simp: compactBytes_def scale_format_def int_dec_round compact_units_def)

text \<open>C24: every unit formatter prints what it is given: for a finite rate or size that is not
  negative (below \<open>10\<^sup>2\<^sup>1\<close>), reading the printed numeral and multiplying it by the unit its suffix
  names gives the value back within one half or five percent, whichever is more, in bits per second,
  in bytes per second (an eighth), in binary bytes, decimal bytes and the compact form.\<close>

theorem unit_formatters_accurate:
  fixes x :: number
  assumes "0 \<le> x" and "x < 10 ^ 21"
  defines "close \<equiv> \<lambda>y r. \<exists>v. r = Some v \<and> \<bar>v - y\<bar> \<le> max (1 / 2) (y / 20)"
  shows "close x (read_scaled bit_rates (formatBpsWith (Fin x) Units_bps)) \<and>
    close (x / 8) (read_scaled byte_rates (formatBpsWith (Fin x) Units_Bps)) \<and>
    close x (read_scaled binary_bytes (formatBytes (Fin x))) \<and>
    close x (read_scaled si_bytes (formatBytesSI (Fin x))) \<and>
    close x (read_scaled compact_units (compactBytes (Fin x)))"
  unfolding close_def
  using bps.accurate [OF assms(1,2)] Bps.accurate [OF assms(1,2)] bytes.accurate [OF assms(1,2)]
    bytesSI.accurate [OF assms(1,2)] compact.accurate [OF assms(1,2)]
  by (simp only: div_by_1)

theorem unit_formatters_accurate_witness:
  "\<exists>v. read_scaled binary_bytes (formatBytes (Fin 123456)) = Some v \<and>
     \<bar>v - 123456\<bar> \<le> max (1 / 2) (123456 / 20)"
  using unit_formatters_accurate [of 123456] by simp

end
