(* ===== verification/Js_Date.thy ===== *)
theory Js_Date
  imports Js_String "HOL-Library.Monad_Syntax"
begin

text \<open>
  The \<open>Date\<close> of JavaScript as ECMAScript defines it: time values in milliseconds, the proleptic
  Gregorian calendar, local time by an offset in milliseconds (\<open>tza\<close>, a parameter: it depends on the
  time zone of the browser), and \<open>toISOString\<close> with a reader for what it prints.  \<open>Date.parse\<close> of
  other strings is implementation-defined; the components take it as the parameter \<open>parse\<close>.
\<close>

section \<open>Days and years\<close>

definition msPerDay :: int where "msPerDay = 86400000"

definition day_from_year :: "int \<Rightarrow> int" where
  "day_from_year y = 365 * (y - 1970) + (y - 1969) div 4 - (y - 1901) div 100 + (y - 1601) div 400"

definition is_leap :: "int \<Rightarrow> bool" where
  "is_leap y \<longleftrightarrow> y mod 4 = 0 \<and> (y mod 100 \<noteq> 0 \<or> y mod 400 = 0)"

definition days_in_year :: "int \<Rightarrow> int" where
  "days_in_year y = (if is_leap y then 366 else 365)"

lemma div_step: "0 < n \<Longrightarrow> (x + 1) div n = x div n + (if (x + 1) mod n = 0 then 1 else 0)" for x n :: int
proof -
  assume n: "0 < n"
  have x: "x = n * (x div n) + x mod n" by simp
  have r: "0 \<le> x mod n" "x mod n < n" using n by simp_all
  show ?thesis
  proof (cases "x mod n + 1 = n")
    case True
    then have "x + 1 = n * (x div n + 1)" by (metis x add.assoc distrib_left mult.right_neutral)
    then show ?thesis using n by simp
  next
    case False
    with r have lt: "x mod n + 1 < n" by simp
    have "(x + 1) div n = x div n" and "(x + 1) mod n = x mod n + 1"
      using x r lt n int_div_pos_eq [of "x + 1" n "x div n" "x mod n + 1"]
        int_mod_pos_eq [of "x + 1" n "x div n" "x mod n + 1"] by simp_all
    then show ?thesis using r by simp
  qed
qed

text \<open>Shifted by a multiple of the modulus, the step of \<open>div\<close> is at the multiples of the modulus.\<close>

lemma div_step_shift:
  fixes y n k :: int
  assumes "0 < n"
  shows "(y + 1 - (n * k + 1)) div n = (y - (n * k + 1)) div n + (if y mod n = 0 then 1 else 0)"
proof -
  have "(y - (n * k + 1) + 1) mod n = (y + n * (- k)) mod n" by (simp add: algebra_simps)
  also have "\<dots> = y mod n" by (rule mod_mult_self2)
  finally show ?thesis
    using div_step [OF assms, of "y - (n * k + 1)"] by (simp add: algebra_simps)
qed

lemma leap_arith:
  fixes y p q r :: int
  assumes "C \<Longrightarrow> B" and "B \<Longrightarrow> A"
  shows "365 * (y + 1 - 1970) + (p + (if A then 1 else 0)) - (q + (if B then 1 else 0)) +
      (r + (if C then 1 else 0)) =
    365 * (y - 1970) + p - q + r + (if A \<and> (\<not> B \<or> C) then 366 else 365)"
  using assms by (cases A; cases B; cases C) simp_all

lemma day_from_year_Suc: "day_from_year (y + 1) = day_from_year y + days_in_year y"
proof -
  have 4: "(y + 1 - 1969) div 4 = (y - 1969) div 4 + (if y mod 4 = 0 then 1 else 0)"
    using div_step_shift [of 4 y 492] by simp
  have 100: "(y + 1 - 1901) div 100 = (y - 1901) div 100 + (if y mod 100 = 0 then 1 else 0)"
    using div_step_shift [of 100 y 19] by simp
  have 400: "(y + 1 - 1601) div 400 = (y - 1601) div 400 + (if y mod 400 = 0 then 1 else 0)"
    using div_step_shift [of 400 y 4] by simp
  have "400 dvd y \<Longrightarrow> 100 dvd y" and "100 dvd y \<Longrightarrow> 4 dvd y"
    by (erule dvd_trans [rotated], simp)+
  then have "y mod 400 = 0 \<Longrightarrow> y mod 100 = 0" and "y mod 100 = 0 \<Longrightarrow> y mod 4 = 0"
    by (simp_all only: mod_eq_0_iff_dvd)
  then show ?thesis
    unfolding day_from_year_def days_in_year_def is_leap_def 4 100 400 by (rule leap_arith)
qed

lemma days_in_year_bounds: "365 \<le> days_in_year y" "days_in_year y \<le> 366"
  by (simp_all add: days_in_year_def)

lemma day_from_year_add:
  "day_from_year y + 365 * int n \<le> day_from_year (y + int n) \<and>
   day_from_year (y + int n) \<le> day_from_year y + 366 * int n"
proof (induction n)
  case (Suc n)
  have "y + int (Suc n) = (y + int n) + 1" by simp
  then have "day_from_year (y + int (Suc n)) = day_from_year (y + int n) + days_in_year (y + int n)"
    by (simp only: day_from_year_Suc)
  with Suc days_in_year_bounds [of "y + int n"] show ?case by simp
qed simp

lemma day_from_year_diff:
  assumes "y \<le> z"
  shows "day_from_year y + 365 * (z - y) \<le> day_from_year z"
    and "day_from_year z \<le> day_from_year y + 366 * (z - y)"
  using day_from_year_add [of y "nat (z - y)"] assms by simp_all

lemma day_from_year_1970 [simp]: "day_from_year 1970 = 0"
  by (simp add: day_from_year_def)

text \<open>The year of a day: the largest year that starts on or before it, searched downwards.\<close>

function year_search :: "int \<Rightarrow> int \<Rightarrow> int" where
  "year_search y d = (if day_from_year y \<le> d then y else year_search (y - 1) d)"
  by auto
termination
proof (relation "measure (\<lambda>(y, d). nat (day_from_year y - d))")
  fix y d :: int
  assume "\<not> day_from_year y \<le> d"
  then show "((y - 1, d), (y, d)) \<in> measure (\<lambda>(y, d). nat (day_from_year y - d))"
    using day_from_year_Suc [of "y - 1"] days_in_year_bounds [of "y - 1"] by simp
qed simp

declare year_search.simps [simp del]

definition year_of_day :: "int \<Rightarrow> int" where
  "year_of_day d = year_search (1970 + (if 0 \<le> d then d div 365 else d div 366)) d"

lemma year_search_le: "day_from_year (year_search y d) \<le> d"
  by (induction y d rule: year_search.induct) (subst year_search.simps, simp)

lemma year_search_max: "d < day_from_year (y + 1) \<Longrightarrow> d < day_from_year (year_search y d + 1)"
proof (induction y d rule: year_search.induct)
  case (1 y d)
  then show ?case by (subst year_search.simps) simp
qed

theorem year_of_day_spec:
  "day_from_year (year_of_day d) \<le> d \<and> d < day_from_year (year_of_day d + 1)"
proof -
  have "d < day_from_year (1970 + d div 365 + 1)" if "0 \<le> d"
    using day_from_year_diff(1) [of 1970 "1970 + d div 365 + 1"] that by simp
  moreover have "d < day_from_year (1970 + d div 366 + 1)" if "d < 0"
    using day_from_year_diff(2) [of "1970 + d div 366 + 1" 1970] that
      pos_imp_zdiv_neg_iff [of 366 d] div_mult_mod_eq [of d 366] pos_mod_bound [of 366 d]
    by simp
  ultimately show ?thesis
    unfolding year_of_day_def by (auto intro!: year_search_max simp: year_search_le)
qed

section \<open>Months\<close>

text \<open>The days of the year before each month, and the length of the year.\<close>

definition month_starts :: "bool \<Rightarrow> int list" where
  "month_starts leap =
     (if leap then [0, 31, 60, 91, 121, 152, 182, 213, 244, 274, 305, 335]
      else [0, 31, 59, 90, 120, 151, 181, 212, 243, 273, 304, 334])"

definition month_of_yday :: "bool \<Rightarrow> int \<Rightarrow> nat" where
  "month_of_yday leap n = length (takeWhile (\<lambda>s. s \<le> n) (tl (month_starts leap)))"

lemma month_of_yday_bounds:
  assumes "0 \<le> n" and "n < (if leap then 366 else 365)"
  shows "month_of_yday leap n < 12 \<and> month_starts leap ! month_of_yday leap n \<le> n \<and>
    n - month_starts leap ! month_of_yday leap n < 31"
  using assms by (cases leap) (simp_all add: month_of_yday_def month_starts_def)

section \<open>Time values\<close>

text \<open>\<open>new Date(x)\<close> on a number: \<open>TimeClip\<close>, \<open>None\<close> for the invalid date.\<close>

definition time_clip :: "number \<Rightarrow> int option" where
  "time_clip x = (if 8640000000000000 < \<bar>x\<bar> then None else Some (if 0 \<le> x then \<lfloor>x\<rfloor> else \<lceil>x\<rceil>))"

record date_fields =
  year :: int
  month :: int
  date :: int
  hours :: int
  minutes :: int
  seconds :: int
  ms :: int

definition fields_of :: "int \<Rightarrow> date_fields" where
  "fields_of t =
     (let day = t div msPerDay; y = year_of_day day; n = day - day_from_year y;
          m = month_of_yday (is_leap y) n; r = t mod msPerDay
      in \<lparr>year = y, month = int m, date = n - month_starts (is_leap y) ! m + 1,
          hours = r div 3600000, minutes = r div 60000 mod 60, seconds = r div 1000 mod 60,
          ms = r mod 1000\<rparr>)"

definition time_of_fields :: "date_fields \<Rightarrow> int" where
  "time_of_fields f =
     (day_from_year (year f) + month_starts (is_leap (year f)) ! nat (month f) + date f - 1) * msPerDay +
     hours f * 3600000 + minutes f * 60000 + seconds f * 1000 + ms f"

lemma time_of_day_split:
  "(r :: int) div 3600000 * 3600000 + r div 60000 mod 60 * 60000 + r div 1000 mod 60 * 1000 + r mod 1000 = r"
proof -
  have "r div 3600000 = r div 1000 div 60 div 60" and "r div 60000 = r div 1000 div 60"
    by (simp_all add: zdiv_zmult2_eq [symmetric])
  moreover have "r = r div 1000 * 1000 + r mod 1000" by simp
  moreover have "q = q div 60 * 60 + q mod 60" for q :: int by simp
  ultimately show ?thesis by (smt (verit))
qed

lemma time_of_fields_of [simp]: "time_of_fields (fields_of t) = t"
proof -
  let ?r = "t mod msPerDay"
  have "time_of_fields (fields_of t) = t div msPerDay * msPerDay +
      (?r div 3600000 * 3600000 + ?r div 60000 mod 60 * 60000 + ?r div 1000 mod 60 * 1000 + ?r mod 1000)"
    by (simp add: time_of_fields_def fields_of_def Let_def)
  also have "\<dots> = t"
    unfolding time_of_day_split by (rule div_mult_mod_eq)
  finally show ?thesis .
qed

lemma fields_of_bounds:
  "0 \<le> month (fields_of t) \<and> month (fields_of t) \<le> 11 \<and>
   1 \<le> date (fields_of t) \<and> date (fields_of t) \<le> 31 \<and>
   0 \<le> hours (fields_of t) \<and> hours (fields_of t) \<le> 23 \<and>
   0 \<le> minutes (fields_of t) \<and> minutes (fields_of t) \<le> 59 \<and>
   0 \<le> seconds (fields_of t) \<and> seconds (fields_of t) \<le> 59 \<and>
   0 \<le> ms (fields_of t) \<and> ms (fields_of t) \<le> 999"
proof -
  define d where "d = t div msPerDay"
  have "0 \<le> d - day_from_year (year_of_day d)"
    and "d - day_from_year (year_of_day d) < (if is_leap (year_of_day d) then 366 else 365)"
    using year_of_day_spec [of d] day_from_year_Suc [of "year_of_day d"]
    by (simp_all add: days_in_year_def)
  note m = month_of_yday_bounds [OF this]
  have "0 \<le> t mod msPerDay" "t mod msPerDay < 86400000" by (simp_all add: msPerDay_def)
  then have h: "0 \<le> t mod msPerDay div 3600000" "t mod msPerDay div 3600000 \<le> 23" by simp_all
  have "x mod 60 \<le> 59" "x mod 1000 \<le> 999" for x :: int
    using pos_mod_bound [of 60 x] pos_mod_bound [of 1000 x] by simp_all
  with m h show ?thesis
    by (simp add: fields_of_def Let_def d_def)
qed

section \<open>\<open>toISOString\<close>\<close>

definition iso_year :: "int \<Rightarrow> string" where
  "iso_year y =
     (if 0 \<le> y \<and> y \<le> 9999 then pad0 4 (nat y)
      else (if y < 0 then ''-'' else ''+'') @ pad0 6 (nat \<bar>y\<bar>))"

definition iso_of_time :: "int \<Rightarrow> string" where
  "iso_of_time t =
     (let f = fields_of t in
      iso_year (year f) @ ''-'' @ pad0 2 (nat (month f + 1)) @ ''-'' @ pad0 2 (nat (date f)) @ ''T'' @
      pad0 2 (nat (hours f)) @ '':'' @ pad0 2 (nat (minutes f)) @ '':'' @ pad0 2 (nat (seconds f)) @
      ''.'' @ pad0 3 (nat (ms f)) @ ''Z'')"

text \<open>\<open>new Date(x).toISOString()\<close>: a \<open>RangeError\<close> (\<open>None\<close>) on the invalid date.\<close>

definition toISOString :: "number \<Rightarrow> string option" where
  "toISOString x = map_option iso_of_time (time_clip x)"

text \<open>A reader for the 24-character form, in which the years 0 to 9999 are printed.\<close>

definition read_num :: "nat \<Rightarrow> string \<Rightarrow> (int \<times> string) option" where
  "read_num k s =
     (if k \<le> length s \<and> list_all is_digit (take k s) then Some (int (dec_val (take k s)), drop k s)
      else None)"

fun read_char :: "char \<Rightarrow> string \<Rightarrow> string option" where
  "read_char c [] = None"
| "read_char c (x # xs) = (if x = c then Some xs else None)"

definition iso_read :: "string \<Rightarrow> int option" where
  "iso_read s0 = do {
     (y, s) \<leftarrow> read_num 4 s0;
     s \<leftarrow> read_char (CHR ''-'') s;
     (mo, s) \<leftarrow> read_num 2 s;
     s \<leftarrow> read_char (CHR ''-'') s;
     (d, s) \<leftarrow> read_num 2 s;
     s \<leftarrow> read_char (CHR ''T'') s;
     (h, s) \<leftarrow> read_num 2 s;
     s \<leftarrow> read_char (CHR '':'') s;
     (mi, s) \<leftarrow> read_num 2 s;
     s \<leftarrow> read_char (CHR '':'') s;
     (sec, s) \<leftarrow> read_num 2 s;
     s \<leftarrow> read_char (CHR ''.'') s;
     (milli, s) \<leftarrow> read_num 3 s;
     s \<leftarrow> read_char (CHR ''Z'') s;
     if s = [] \<and> 1 \<le> mo \<and> mo \<le> 12 \<and> 1 \<le> d \<and> d \<le> 31 \<and> h \<le> 23 \<and> mi \<le> 59 \<and> sec \<le> 59
     then Some (time_of_fields \<lparr>year = y, month = mo - 1, date = d, hours = h, minutes = mi,
                  seconds = sec, ms = milli\<rparr>)
     else None
   }"

lemma read_num_pad0:
  assumes "n < 10 ^ k" and "0 < k"
  shows "read_num k (pad0 k n @ s) = Some (int n, s)"
  using length_pad0 [OF assms] by (simp add: read_num_def)

lemma read_num_pad0_int:
  "0 \<le> i \<Longrightarrow> i < 10 ^ k \<Longrightarrow> 0 < k \<Longrightarrow> read_num k (pad0 k (nat i) @ s) = Some (i, s)"
  using read_num_pad0 [of "nat i" k s] by (simp add: nat_less_iff)

text \<open>Reading back what \<open>toISOString\<close> prints gives the time value.\<close>

lemma iso_read_of_time:
  assumes "0 \<le> year (fields_of t)" and "year (fields_of t) \<le> 9999"
  shows "iso_read (iso_of_time t) = Some t"
proof -
  define f where "f = fields_of t"
  have b: "0 \<le> month f" "month f \<le> 11" "1 \<le> date f" "date f \<le> 31" "0 \<le> hours f" "hours f \<le> 23"
    "0 \<le> minutes f" "minutes f \<le> 59" "0 \<le> seconds f" "seconds f \<le> 59" "0 \<le> ms f" "ms f \<le> 999"
    using fields_of_bounds [of t] by (simp_all add: f_def)
  have y: "0 \<le> year f" "year f \<le> 9999" using assms by (simp_all add: f_def)
  have *: "time_of_fields \<lparr>year = year f, month = month f, date = date f, hours = hours f,
      minutes = minutes f, seconds = seconds f, ms = ms f\<rparr> = t"
  proof -
    have "\<lparr>year = year f, month = month f, date = date f, hours = hours f, minutes = minutes f,
        seconds = seconds f, ms = ms f\<rparr> = f" by simp
    then show ?thesis by (simp only: f_def time_of_fields_of)
  qed
  show ?thesis
    unfolding iso_read_def iso_of_time_def Let_def f_def [symmetric] iso_year_def
    using b y * by (simp add: read_num_pad0_int)
qed

end
