(* ===== verification/Datetime.thy ===== *)
theory Datetime
  imports Js_Date Api_Enums
begin

text \<open>
  Date and time labels, src/web/src/lib/datetime.ts.  The module-level preferences are arguments; so
  are \<open>parse\<close> (\<open>Date.parse\<close>, \<open>None\<close> for NaN) and \<open>tza\<close> (the local time-zone adjustment in
  milliseconds at a time value).
\<close>

section \<open>Formatting\<close>

datatype date_value = DV_date "int option" | DV_string string | DV_number number

record datetime_prefs =
  dateFmt :: DateFormatPref
  timeFmt :: TimeFormatPref

definition initial_prefs :: datetime_prefs where
  "initial_prefs = \<lparr>dateFmt = Date_iso, timeFmt = Time_h24\<rparr>"

definition setDateTimePrefs ::
  "DateFormatPref \<Rightarrow> TimeFormatPref \<Rightarrow> datetime_prefs \<Rightarrow> datetime_prefs" where
  "setDateTimePrefs d t p = p\<lparr>dateFmt := d, timeFmt := t\<rparr>"

text \<open>\<open>toDate(v).getTime()\<close>\<close>

definition toDate :: "(string \<Rightarrow> int option) \<Rightarrow> date_value \<Rightarrow> int option" where
  "toDate parse v =
     (case v of DV_date t \<Rightarrow> t | DV_string s \<Rightarrow> parse s | DV_number x \<Rightarrow> time_clip x)"

definition em_dash :: string where
  "em_dash = map char_of [226 :: nat, 128, 148]"

definition local_fields :: "(int \<Rightarrow> int) \<Rightarrow> int \<Rightarrow> date_fields" where
  "local_fields tza t = fields_of (t + tza t)"

definition formatDateWith ::
  "(string \<Rightarrow> int option) \<Rightarrow> (int \<Rightarrow> int) \<Rightarrow> date_value \<Rightarrow> DateFormatPref \<Rightarrow> string" where
  "formatDateWith parse tza v fmt =
     (case toDate parse v of
        None \<Rightarrow> em_dash
      | Some t \<Rightarrow>
          let d = local_fields tza t;
              y = int_dec (year d);
              mo = padStart 2 (CHR ''0'') (int_dec (month d + 1));
              da = padStart 2 (CHR ''0'') (int_dec (date d))
          in case fmt of
               Date_us \<Rightarrow> mo @ ''/'' @ da @ ''/'' @ y
             | Date_eu \<Rightarrow> da @ ''/'' @ mo @ ''/'' @ y
             | Date_iso \<Rightarrow> y @ ''-'' @ mo @ ''-'' @ da)"

definition formatTimeWith ::
  "(string \<Rightarrow> int option) \<Rightarrow> (int \<Rightarrow> int) \<Rightarrow> date_value \<Rightarrow> TimeFormatPref \<Rightarrow> string" where
  "formatTimeWith parse tza v fmt =
     (case toDate parse v of
        None \<Rightarrow> em_dash
      | Some t \<Rightarrow>
          let d = local_fields tza t;
              m = padStart 2 (CHR ''0'') (int_dec (minutes d))
          in if fmt = Time_h12 then
               let ap = (if hours d < 12 then ''AM'' else ''PM'');
                   h0 = hours d mod 12;
                   h = (if h0 = 0 then 12 else h0)
               in int_dec h @ '':'' @ m @ '' '' @ ap
             else padStart 2 (CHR ''0'') (int_dec (hours d)) @ '':'' @ m)"

definition formatDateTimeWith ::
  "(string \<Rightarrow> int option) \<Rightarrow> (int \<Rightarrow> int) \<Rightarrow> date_value \<Rightarrow> DateFormatPref \<Rightarrow> TimeFormatPref \<Rightarrow> string" where
  "formatDateTimeWith parse tza v df tf =
     formatDateWith parse tza v df @ '' '' @ formatTimeWith parse tza v tf"

definition formatDate ::
  "(string \<Rightarrow> int option) \<Rightarrow> (int \<Rightarrow> int) \<Rightarrow> datetime_prefs \<Rightarrow> date_value \<Rightarrow> string" where
  "formatDate parse tza p v = formatDateWith parse tza v (dateFmt p)"

definition formatTime ::
  "(string \<Rightarrow> int option) \<Rightarrow> (int \<Rightarrow> int) \<Rightarrow> datetime_prefs \<Rightarrow> date_value \<Rightarrow> string" where
  "formatTime parse tza p v = formatTimeWith parse tza v (timeFmt p)"

definition formatDateTime ::
  "(string \<Rightarrow> int option) \<Rightarrow> (int \<Rightarrow> int) \<Rightarrow> datetime_prefs \<Rightarrow> date_value \<Rightarrow> string" where
  "formatDateTime parse tza p v = formatDateTimeWith parse tza v (dateFmt p) (timeFmt p)"

definition formatAgo ::
  "(string \<Rightarrow> int option) \<Rightarrow> date_value option \<Rightarrow> int \<Rightarrow> string \<Rightarrow> string" where
  "formatAgo parse value nowMs fallback =
     (case value of
        None \<Rightarrow> fallback
      | Some v \<Rightarrow>
          (case toDate parse v of
             None \<Rightarrow> fallback
           | Some t \<Rightarrow>
               let totalSec = max 0 (Math_round (of_int (nowMs - t) / 1000));
                   min = totalSec div 60; hr = min div 60; day = hr div 24
               in if totalSec < 1 then ''now''
                  else if totalSec < 60 then int_dec totalSec @ ''s ago''
                  else if min < 60 then int_dec min @ ''m '' @ int_dec (totalSec mod 60) @ ''s ago''
                  else if hr < 24 then int_dec hr @ ''h '' @ int_dec (min mod 60) @ ''m ago''
                  else int_dec day @ ''d '' @ int_dec (hr mod 24) @ ''h ago''))"

section \<open>Reading the labels back\<close>

text \<open>The local minute a label of date and time in a given format stands for: the pieces between the
  separators, read as numbers.\<close>

definition read_date :: "DateFormatPref \<Rightarrow> string \<Rightarrow> int \<times> int \<times> int" where
  "read_date fmt s =
     (case fmt of
        Date_us \<Rightarrow> (let p = split_on (CHR ''/'') s in
          (int (dec_val (p ! 2)), int (dec_val (p ! 0)), int (dec_val (p ! 1))))
      | Date_eu \<Rightarrow> (let p = split_on (CHR ''/'') s in
          (int (dec_val (p ! 2)), int (dec_val (p ! 1)), int (dec_val (p ! 0))))
      | Date_iso \<Rightarrow> (let p = split_on (CHR ''-'') s in
          (int (dec_val (p ! 0)), int (dec_val (p ! 1)), int (dec_val (p ! 2)))))"

definition read_time :: "TimeFormatPref \<Rightarrow> string \<Rightarrow> int \<times> int" where
  "read_time fmt s =
     (let p = split_on (CHR '':'') s; h = int (dec_val (p ! 0)) in
      if fmt = Time_h12 then
        (h mod 12 + (if drop 3 (p ! 1) = ''PM'' then 12 else 0), int (dec_val (take 2 (p ! 1))))
      else (h, int (dec_val (p ! 1))))"

lemma digits_no_sep:
  assumes "list_all is_digit s" and "\<not> is_digit c"
  shows "c \<notin> set s"
  using assms by (auto simp: list_all_iff)

lemma split_three:
  assumes "c \<notin> set a" and "c \<notin> set b" and "c \<notin> set d"
  shows "split_on c (a @ [c] @ b @ [c] @ d) = [a, b, d]"
  using assms by (simp add: split_on_append split_on_no_sep)

lemma split_two: "c \<notin> set a \<Longrightarrow> c \<notin> set b \<Longrightarrow> split_on c (a @ [c] @ b) = [a, b]"
  by (simp add: split_on_append split_on_no_sep)

lemma digit_pieces [simp]:
  "0 \<le> i \<Longrightarrow> list_all is_digit (int_dec i)"
  "0 \<le> i \<Longrightarrow> dec_val (int_dec i) = nat i"
  by simp_all

lemma not_digit_seps [simp]:
  "\<not> is_digit (CHR ''/'')" "\<not> is_digit (CHR ''-'')" "\<not> is_digit (CHR '':'')"
  by (simp_all add: is_digit_def)

lemma length_pad2: "0 \<le> i \<Longrightarrow> i < 100 \<Longrightarrow> length (padStart 2 (CHR ''0'') (int_dec i)) = 2"
  using length_nat_dec [of "nat i" 2] by (simp add: nat_less_iff)

text \<open>C25: the date and time labels lose nothing above the minute, whatever the saved preferences: for
  a time whose local year is not negative, reading a date label gives the local year, month and day
  back in each of the three formats, and reading a time label gives the local hour and minute back in
  both formats (12-hour labels by their AM or PM).\<close>

theorem date_time_labels_read_back:
  assumes "toDate parse v = Some t" and "0 \<le> year (local_fields tza t)"
  shows "read_date df (formatDateWith parse tza v df) =
      (year (local_fields tza t), month (local_fields tza t) + 1, date (local_fields tza t)) \<and>
    read_time tf (formatTimeWith parse tza v tf) =
      (hours (local_fields tza t), minutes (local_fields tza t))"
proof -
  define d where "d = local_fields tza t"
  have b: "0 \<le> month d" "1 \<le> date d" "0 \<le> hours d" "hours d \<le> 23" "0 \<le> minutes d" "minutes d \<le> 59"
    using fields_of_bounds [of "t + tza t"] by (simp_all add: d_def local_fields_def)
  have y: "0 \<le> year d" using assms(2) by (simp add: d_def)
  note no_sep = digits_no_sep [OF _ not_digit_seps(1)] digits_no_sep [OF _ not_digit_seps(2)]
    digits_no_sep [OF _ not_digit_seps(3)]
  have date: "read_date df (formatDateWith parse tza v df) = (year d, month d + 1, date d)"
    using b y assms(1)
    by (cases df) (simp_all add: formatDateWith_def read_date_def Let_def d_def [symmetric]
        split_three [simplified] no_sep)
  define mm where "mm = padStart 2 (CHR ''0'') (int_dec (minutes d))"
  have m: "list_all is_digit mm" "dec_val mm = nat (minutes d)" "length mm = 2"
    using b length_pad2 [of "minutes d"] by (simp_all add: mm_def)
  have time24: "read_time Time_h24 (formatTimeWith parse tza v Time_h24) = (hours d, minutes d)"
    using b assms(1)
    by (simp add: formatTimeWith_def read_time_def Let_def d_def [symmetric] split_two [simplified] no_sep)
  have colon: "CHR '':'' \<notin> set (mm @ '' '' @ ap)" if "ap = ''AM'' \<or> ap = ''PM''" for ap
    using that no_sep(3) [OF m(1)] by auto
  have take2: "take 2 (mm @ s) = mm" "drop 3 (mm @ '' '' @ s) = s" for s
    using m(3) by simp_all
  have hour: "hours d mod 12 + (if hours d < 12 then 0 else 12) = hours d"
    using b(3,4) by presburger
  define ap where "ap = (if hours d < 12 then ''AM'' else ''PM'')"
  define h where "h = (if hours d mod 12 = 0 then 12 else hours d mod 12)"
  have h: "0 \<le> h" "h mod 12 = hours d mod 12" by (simp_all add: h_def)
  have fmt: "formatTimeWith parse tza v Time_h12 = int_dec h @ [CHR '':''] @ mm @ '' '' @ ap"
    using assms(1) by (simp add: formatTimeWith_def Let_def d_def ap_def h_def mm_def)
  have sp: "split_on (CHR '':'') (formatTimeWith parse tza v Time_h12) = [int_dec h, mm @ '' '' @ ap]"
    unfolding fmt
    by (rule split_two) (use h(1) no_sep(3) colon [of ap] in \<open>simp_all add: ap_def\<close>)
  have "read_time Time_h12 (formatTimeWith parse tza v Time_h12) =
      (h mod 12 + (if ap = ''PM'' then 12 else 0), minutes d)"
    unfolding read_time_def sp Let_def using h(1) b(5) m(2) by (simp add: take2 [simplified])
  then have "read_time Time_h12 (formatTimeWith parse tza v Time_h12) = (hours d, minutes d)"
    using hour by (cases "hours d < 12") (simp_all add: h(2) ap_def)
  then show ?thesis
    using date time24 by (cases tf) (simp_all add: d_def)
qed

theorem date_time_labels_read_back_witness:
  "read_date Date_eu (formatDateWith (\<lambda>s. None) (\<lambda>t. 0) (DV_number 1700000000000) Date_eu) = (2023, 11, 14)"
proof -
  have "local_fields (\<lambda>t. 0) 1700000000000 =
      \<lparr>year = 2023, month = 10, date = 14, hours = 22, minutes = 13, seconds = 20, ms = 0\<rparr>"
    by code_simp
  then show ?thesis
    using date_time_labels_read_back [of "\<lambda>s. None" "DV_number 1700000000000" 1700000000000 "\<lambda>t. 0" Date_eu]
    by (simp add: toDate_def time_clip_def)
qed

section \<open>The age a relative label shows\<close>

text \<open>the relative label tells the age: for a valid time it is \<open>now\<close> when the rounded age is below
  a second (also for a time in the future), and otherwise names whole units whose sum is the age,
  rounded down to the smaller unit shown, with the smaller unit below a full larger one: seconds below
  a minute, minutes and seconds below an hour, hours and minutes below a day, days and hours
  beyond.\<close>

theorem formatAgo_shows_age:
  fixes nowMs :: int and fallback :: string
  assumes "toDate parse v = Some t"
  defines "age \<equiv> Math_round (of_int (nowMs - t) / 1000)"
    and "label \<equiv> formatAgo parse (Some v) nowMs fallback"
  shows "(age < 1 \<and> label = ''now'') \<or>
    (1 \<le> age \<and> age < 60 \<and> label = int_dec age @ ''s ago'') \<or>
    (\<exists>m s. label = int_dec m @ ''m '' @ int_dec s @ ''s ago'' \<and>
       60 * m + s = age \<and> 1 \<le> m \<and> m < 60 \<and> 0 \<le> s \<and> s < 60) \<or>
    (\<exists>h m. label = int_dec h @ ''h '' @ int_dec m @ ''m ago'' \<and>
       3600 * h + 60 * m \<le> age \<and> age < 3600 * h + 60 * m + 60 \<and> 1 \<le> h \<and> h < 24 \<and> 0 \<le> m \<and> m < 60) \<or>
    (\<exists>d h. label = int_dec d @ ''d '' @ int_dec h @ ''h ago'' \<and>
       86400 * d + 3600 * h \<le> age \<and> age < 86400 * d + 3600 * h + 3600 \<and> 1 \<le> d \<and> 0 \<le> h \<and> h < 24)"
proof -
  define m h d where "m = age div 60" and "h = m div 60" and "d = h div 24"
  have label: "label =
      (if age < 1 then ''now''
       else if age < 60 then int_dec age @ ''s ago''
       else if m < 60 then int_dec m @ ''m '' @ int_dec (age mod 60) @ ''s ago''
       else if h < 24 then int_dec h @ ''h '' @ int_dec (m mod 60) @ ''m ago''
       else int_dec d @ ''d '' @ int_dec (h mod 24) @ ''h ago'')" if "1 \<le> age"
  proof -
    have "max 0 age = age" using that by simp
    then show ?thesis
      unfolding label_def formatAgo_def option.case assms(1) Let_def age_def [symmetric] m_def h_def d_def
      by (simp only:)
  qed
  have now: "label = ''now''" if "age < 1"
    using that
    unfolding label_def formatAgo_def option.case assms(1) Let_def age_def [symmetric] by simp
  have eqs: "60 * m + age mod 60 = age" "60 * h + m mod 60 = m" "24 * d + h mod 24 = h"
    by (simp_all add: m_def h_def d_def)
  have rem: "0 \<le> age mod 60" "age mod 60 < 60" "0 \<le> m mod 60" "m mod 60 < 60" "0 \<le> h mod 24" "h mod 24 < 24"
    by simp_all
  consider "age < 1" | "1 \<le> age" "age < 60" | "60 \<le> age" "m < 60" | "60 \<le> age" "60 \<le> m" "h < 24"
    | "60 \<le> age" "60 \<le> m" "24 \<le> h" by linarith
  then show ?thesis
  proof cases
    case 3
    then have "label = int_dec m @ ''m '' @ int_dec (age mod 60) @ ''s ago''" by (simp add: label)
    moreover have "1 \<le> m" using 3 eqs(1) rem(2) by linarith
    ultimately show ?thesis using 3 eqs(1) rem by blast
  next
    case 4
    then have "label = int_dec h @ ''h '' @ int_dec (m mod 60) @ ''m ago''" by (simp add: label)
    moreover have "1 \<le> h" "3600 * h + 60 * (m mod 60) \<le> age" "age < 3600 * h + 60 * (m mod 60) + 60"
      using 4 eqs rem by linarith+
    ultimately show ?thesis using 4 rem by blast
  next
    case 5
    then have "label = int_dec d @ ''d '' @ int_dec (h mod 24) @ ''h ago''" by (simp add: label)
    moreover have "1 \<le> d" "86400 * d + 3600 * (h mod 24) \<le> age" "age < 86400 * d + 3600 * (h mod 24) + 3600"
      using 5 eqs rem by linarith+
    ultimately show ?thesis using rem by blast
  qed (simp_all add: now label)
qed

theorem formatAgo_shows_age_witness:
  "formatAgo (\<lambda>s. None) (Some (DV_number 3000)) 2000 ''never'' = ''now''"
proof -
  have "toDate (\<lambda>s. None) (DV_number 3000) = Some 3000" by (simp add: toDate_def time_clip_def)
  note label = formatAgo_shows_age [OF this, of 2000 "''never''"]
  have age: "Math_round (of_int (2000 - 3000) / 1000) = - 1" by code_simp
  show ?thesis
    using label unfolding age by auto
qed

end
