(* ===== verification/Event_Tail.thy ===== *)
theory Event_Tail
  imports Wire Interfaces Units Datetime
begin

text \<open>
  The rolling tail of live events, src/web/src/stores/eventTail.ts: the lines \<open>toLine\<close> derives from
  events, capped at \<open>TAIL_CAP\<close>.  The module variable \<open>nextId\<close> is a field of the state; \<open>tail_env\<close>
  holds what the formatters read (clock, \<open>Date.parse\<close>, time zone, preferences).
\<close>

section \<open>State and operations\<close>

definition TAIL_CAP :: nat where "TAIL_CAP = 60"

datatype tone = Tone_ok | Tone_warn | Tone_err | Tone_info | Tone_muted

datatype event_kind =
    Kind_peer_status_changed | Kind_handshake_change | Kind_server_health | Kind_server_sample

record TailLine =
  tl_id :: nat
  tl_tsMs :: number
  tl_kind :: event_kind
  tl_tone :: tone
  tl_text :: string
  tl_deviceId :: "string option"

record EventTailState =
  lines :: "TailLine list"
  connectedAt :: "number option"
  nextId :: nat

record tail_env =
  env_now :: number
  env_parse :: "string \<Rightarrow> int option"
  env_tza :: "int \<Rightarrow> int"
  env_dt :: datetime_prefs
  env_units :: UnitsPref

definition tail_init :: EventTailState where
  "tail_init = \<lparr>lines = [], connectedAt = None, nextId = 1\<rparr>"

text \<open>The separators of the texts, a middle dot and an arrow.\<close>

definition mid_dot :: string where "mid_dot = '' '' @ map char_of [194 :: nat, 183] @ '' ''"

definition arrow :: string where "arrow = '' '' @ map char_of [226 :: nat, 134, 146] @ '' ''"

text \<open>The line of an event and the next value of \<open>nextId\<close>, which advances exactly when a line is
  made.\<close>

definition toLine :: "tail_env \<Rightarrow> nat \<Rightarrow> Event \<Rightarrow> TailLine option \<times> nat" where
  "toLine env n event =
     (case event of
        Stats_delta _ \<Rightarrow> (None, n)
      | Peer_status_changed e \<Rightarrow>
          (Some \<lparr>tl_id = n, tl_tsMs = env_now env, tl_kind = Kind_peer_status_changed,
             tl_tone = (if psc_status e = Dev_active then Tone_ok
                        else if psc_status e = Dev_paused then Tone_warn else Tone_err),
             tl_text = ''device.status'' @ mid_dot @ slice 0 8 (psc_device_id e) @ arrow @
                       DeviceStatus_str (psc_status e),
             tl_deviceId = Some (psc_device_id e)\<rparr>, n + 1)
      | Handshake_change e \<Rightarrow>
          (Some \<lparr>tl_id = n, tl_tsMs = hc_last_handshake_ms e, tl_kind = Kind_handshake_change,
             tl_tone = Tone_info,
             tl_text = ''device.handshake'' @ mid_dot @ slice 0 8 (hc_device_id e) @ mid_dot @
                       formatTime (env_parse env) (env_tza env) (env_dt env)
                         (DV_number (hc_last_handshake_ms e)),
             tl_deviceId = Some (hc_device_id e)\<rparr>, n + 1)
      | Server_health e \<Rightarrow>
          (Some \<lparr>tl_id = n, tl_tsMs = she_ts_ms e, tl_kind = Kind_server_health,
             tl_tone = (if she_cpu_pct e > 80 then Tone_warn else Tone_muted),
             tl_text = ''server.health'' @ mid_dot @ she_server_id e @ mid_dot @ ''cpu '' @
                       toFixed 0 (she_cpu_pct e) @ ''%'' @ mid_dot @
                       num_string (she_active_peers e) @ '' peers'',
             tl_deviceId = None\<rparr>, n + 1)
      | Server_sample e \<Rightarrow>
          if ss_rate_rx_bps e + ss_rate_tx_bps e < 1024 then (None, n)
          else
          (Some \<lparr>tl_id = n, tl_tsMs = ss_ts_ms e, tl_kind = Kind_server_sample,
             tl_tone = Tone_muted,
             tl_text = ''server.sample'' @ mid_dot @ ss_server_id e @ mid_dot @
                       num_string (ss_online_count e) @ ''/'' @ num_string (ss_peer_count e) @
                       '' peers'' @ mid_dot @ formatBps (env_units env) (Fin (ss_rate_tx_bps e)) @ '' tx'',
             tl_deviceId = None\<rparr>, n + 1)
      | Heartbeat _ \<Rightarrow> (None, n)
      | Data_changed _ \<Rightarrow> (None, n)
      | Notify _ \<Rightarrow> (None, n))"

text \<open>The capped append of \<open>push\<close>.\<close>

definition tail_append :: "'a list \<Rightarrow> 'a \<Rightarrow> 'a list" where
  "tail_append xs line =
     (if length xs < TAIL_CAP then xs @ [line] else drop (length xs - TAIL_CAP + 1) xs @ [line])"

definition tail_push :: "tail_env \<Rightarrow> Event \<Rightarrow> EventTailState \<Rightarrow> EventTailState" where
  "tail_push env event s =
     (case toLine env (nextId s) event of
        (None, n) \<Rightarrow> s\<lparr>nextId := n\<rparr>
      | (Some line, n) \<Rightarrow>
          s\<lparr>lines := tail_append (lines s) line,
            connectedAt := (case connectedAt s of None \<Rightarrow> Some (tl_tsMs line) | Some t \<Rightarrow> Some t),
            nextId := n\<rparr>)"

definition markConnected :: "number \<Rightarrow> EventTailState \<Rightarrow> EventTailState" where
  "markConnected now s = s\<lparr>connectedAt := Some now\<rparr>"

definition tail_reset :: "EventTailState \<Rightarrow> EventTailState" where
  "tail_reset s = s\<lparr>lines := [], connectedAt := None\<rparr>"

section \<open>The tail is a rolling window\<close>

interpretation tail: rolling_window tail_append TAIL_CAP
  by unfold_locales (auto simp: tail_append_def TAIL_CAP_def intro: suffix_drop)

text \<open>Reference: all lines an event stream makes, numbered from \<open>n\<close>.\<close>

fun lines_of :: "(tail_env \<times> Event) list \<Rightarrow> nat \<Rightarrow> TailLine list" where
  "lines_of [] n = []"
| "lines_of ((env, e) # es) n =
     (case toLine env n e of (None, m) \<Rightarrow> lines_of es m | (Some l, m) \<Rightarrow> l # lines_of es m)"

definition push_all :: "(tail_env \<times> Event) list \<Rightarrow> EventTailState \<Rightarrow> EventTailState" where
  "push_all es s = fold (\<lambda>(env, e). tail_push env e) es s"

lemma toLine_shape:
  "toLine env n e = (None, n) \<or> (\<exists>l. toLine env n e = (Some l, n + 1) \<and> tl_id l = n)"
  by (cases e) (simp_all add: toLine_def)

lemma toLine_cases:
  obtains "toLine env n e = (None, n)" | l where "toLine env n e = (Some l, n + 1)" and "tl_id l = n"
  using toLine_shape by blast

lemma push_all_lines:
  "lines s = slice_last TAIL_CAP pre \<Longrightarrow>
   lines (push_all es s) = slice_last TAIL_CAP (pre @ lines_of es (nextId s))"
proof (induction es arbitrary: s pre)
  case (Cons ee es)
  obtain env e where ee: "ee = (env, e)" by (cases ee)
  show ?case
  proof (cases rule: toLine_cases [of env "nextId s" e])
    case 1
    then have "tail_push env e s = s" by (simp add: tail_push_def)
    with Cons 1 show ?thesis by (simp add: ee push_all_def)
  next
    case (2 l)
    have "lines (tail_push env e s) = slice_last TAIL_CAP (pre @ [l])"
      and n: "nextId (tail_push env e s) = nextId s + 1"
      using 2 Cons.prems by (simp_all add: tail_push_def tail.push_window)
    from Cons.IH [OF this(1)] 2 show ?thesis
      by (simp add: ee push_all_def n)
  qed
qed (simp add: push_all_def)

lemma lines_of_ids: "map tl_id (lines_of es n) = [n..<n + length (lines_of es n)]"
proof (induction es arbitrary: n)
  case (Cons ee es)
  obtain env e where ee: "ee = (env, e)" by (cases ee)
  have "n # [Suc n..<Suc (n + k)] = [n..<Suc (n + k)]" for k
    by (rule upt_conv_Cons [symmetric]) simp
  then show ?case
    by (cases rule: toLine_cases [of env n e]) (simp_all add: ee Cons.IH del: upt_Suc)
qed simp

text \<open>C21: the tail refines the stream of events: whatever is pushed onto the empty tail, it holds the
  last 60 of the lines the events make, in order; their ids are consecutive, so no two lines on
  screen share a key.\<close>

theorem tail_refines_stream:
  "lines (push_all es tail_init) = slice_last 60 (lines_of es 1) \<and>
   map tl_id (lines_of es 1) = [1..<1 + length (lines_of es 1)] \<and>
   distinct (map tl_id (lines (push_all es tail_init)))"
proof -
  have run: "lines (push_all es tail_init) = slice_last 60 (lines_of es 1)"
    using push_all_lines [of tail_init "[]" es] by (simp add: tail_init_def TAIL_CAP_def)
  have "distinct (map tl_id (lines (push_all es tail_init)))"
    unfolding run map_slice_last lines_of_ids by (simp add: slice_last_def)
  with run show ?thesis by (simp add: lines_of_ids)
qed

end
