(* ===== verification/Web_Socket.thy ===== *)
theory Web_Socket
  imports Wire Interfaces Js_String
begin

text \<open>
  The reconnecting socket, src/web/src/hooks/useWebSocket.ts: the closure variables of one run of the
  effect, its handlers, and the step relation of the browser that calls them.  A socket is created
  connecting, may open, and closes once; \<open>close()\<close> puts it in the closing phase, from which only the
  close event follows.  \<open>@msgpack/msgpack\<close>'s \<open>decode\<close> is a parameter (\<open>None\<close> when it throws).
\<close>

section \<open>State\<close>

datatype ConnectionState = Conn_connecting | Conn_open | Conn_closed

datatype ready_state = RS_connecting | RS_open | RS_closing | RS_closed

text \<open>\<open>sockets\<close> lists the \<open>readyState\<close> of every socket created so far, \<open>timers\<close> the waits of the
  pending reconnects, \<open>pingTimer\<close> the socket the running heartbeat sends on, \<open>pings\<close> the heartbeat
  frames sent.\<close>

record ws_state =
  ws_cancelled :: bool
  ws_socket :: "nat option"
  ws_pingTimer :: "nat option"
  ws_backoffMs :: nat
  ws_conn :: ConnectionState
  ws_sockets :: "ready_state list"
  ws_timers :: "nat list"
  ws_pings :: nat

section \<open>Handlers\<close>

definition ws_url :: "string \<Rightarrow> string \<Rightarrow> string \<Rightarrow> string" where
  "ws_url protocol host path =
     (let proto = (if protocol = ''https:'' then ''wss:'' else ''ws:'') in proto @ ''//'' @ host @ path)"

definition connect :: "ws_state \<Rightarrow> ws_state" where
  "connect s =
     (if ws_cancelled s then s
      else s\<lparr>ws_conn := Conn_connecting, ws_sockets := ws_sockets s @ [RS_connecting],
             ws_socket := Some (length (ws_sockets s))\<rparr>)"

definition onopen :: "nat \<Rightarrow> ws_state \<Rightarrow> ws_state" where
  "onopen i s =
     (if ws_cancelled s then s
      else s\<lparr>ws_backoffMs := 250, ws_conn := Conn_open, ws_pingTimer := Some i\<rparr>)"

definition ping_tick :: "nat \<Rightarrow> ws_state \<Rightarrow> ws_state" where
  "ping_tick i s = (if ws_sockets s ! i = RS_open then s\<lparr>ws_pings := ws_pings s + 1\<rparr> else s)"

definition next_backoff :: "nat \<Rightarrow> nat" where
  "next_backoff b = min (b * 2) 10000"

definition onclose :: "ws_state \<Rightarrow> ws_state" where
  "onclose s0 =
     (let s = (if ws_pingTimer s0 \<noteq> None then s0\<lparr>ws_pingTimer := None\<rparr> else s0) in
      if ws_cancelled s then s\<lparr>ws_conn := Conn_closed\<rparr>
      else let wait = ws_backoffMs s in
           s\<lparr>ws_conn := Conn_closed, ws_backoffMs := next_backoff (ws_backoffMs s),
             ws_timers := ws_timers s @ [wait]\<rparr>)"

text \<open>\<open>ws.close()\<close>: no effect on a socket that is closing or closed.\<close>

definition close_socket :: "nat \<Rightarrow> ws_state \<Rightarrow> ws_state" where
  "close_socket i s =
     (if ws_sockets s ! i = RS_connecting \<or> ws_sockets s ! i = RS_open
      then s\<lparr>ws_sockets := (ws_sockets s)[i := RS_closing]\<rparr> else s)"

definition onerror :: "nat \<Rightarrow> ws_state \<Rightarrow> ws_state" where
  "onerror i s = close_socket i s"

text \<open>The clean-up function the effect returns.\<close>

definition cleanup :: "ws_state \<Rightarrow> ws_state" where
  "cleanup s0 =
     (let s = s0\<lparr>ws_cancelled := True, ws_pingTimer := None\<rparr> in
      case ws_socket s of None \<Rightarrow> s
      | Some i \<Rightarrow> if ws_sockets s ! i = RS_connecting \<or> ws_sockets s ! i = RS_open then close_socket i s else s)"

datatype ws_data = Text_frame string | Binary_frame "nat list"

definition onmessage :: "(nat list \<Rightarrow> Event option) \<Rightarrow> (Event \<Rightarrow> 'a \<Rightarrow> 'a) \<Rightarrow> ws_data \<Rightarrow> 'a \<Rightarrow> 'a" where
  "onmessage decode onEvent msg a =
     (case msg of
        Text_frame _ \<Rightarrow> a
      | Binary_frame bs \<Rightarrow> (case decode bs of None \<Rightarrow> a | Some event \<Rightarrow> onEvent event a))"

text \<open>The state before the effect's first call of \<open>connect\<close>, and after it.\<close>

definition ws_mount :: ws_state where
  "ws_mount = \<lparr>ws_cancelled = False, ws_socket = None, ws_pingTimer = None, ws_backoffMs = 250,
     ws_conn = Conn_closed, ws_sockets = [], ws_timers = [], ws_pings = 0\<rparr>"

definition ws_start :: ws_state where
  "ws_start = connect ws_mount"

text \<open>The value the hook returns.\<close>

definition useWebSocket :: "bool \<Rightarrow> ws_state \<Rightarrow> ConnectionState" where
  "useWebSocket enabled s = (if enabled then ws_conn s else Conn_closed)"

section \<open>The browser\<close>

definition set_ready :: "nat \<Rightarrow> ready_state \<Rightarrow> ws_state \<Rightarrow> ws_state" where
  "set_ready i r s = s\<lparr>ws_sockets := (ws_sockets s)[i := r]\<rparr>"

inductive ws_step :: "ws_state \<Rightarrow> ws_state \<Rightarrow> bool" where
  opens: "i < length (ws_sockets s) \<Longrightarrow> ws_sockets s ! i = RS_connecting \<Longrightarrow>
    ws_step s (onopen i (set_ready i RS_open s))"
| fails: "i < length (ws_sockets s) \<Longrightarrow> ws_sockets s ! i \<noteq> RS_closed \<Longrightarrow> ws_step s (onerror i s)"
| closes: "i < length (ws_sockets s) \<Longrightarrow> ws_sockets s ! i \<noteq> RS_closed \<Longrightarrow>
    ws_step s (onclose (set_ready i RS_closed s))"
| fires: "ws_timers s = pre @ w # post \<Longrightarrow> ws_step s (connect (s\<lparr>ws_timers := pre @ post\<rparr>))"
| pings: "ws_pingTimer s = Some i \<Longrightarrow> ws_step s (ping_tick i s)"
| unmounts: "\<not> ws_cancelled s \<Longrightarrow> ws_step s (cleanup s)"

inductive ws_run :: "ws_state \<Rightarrow> ws_state \<Rightarrow> bool" where
  refl: "ws_run s s"
| trans: "ws_run s t \<Longrightarrow> ws_step t u \<Longrightarrow> ws_run s u"

inductive_cases ws_stepE: "ws_step s t"

section \<open>The back-off\<close>

definition backoff_after :: "nat \<Rightarrow> nat" where
  "backoff_after n = (next_backoff ^^ n) 250"

lemma backoff_after_simps [simp]:
  "backoff_after 0 = 250" "backoff_after (Suc n) = next_backoff (backoff_after n)"
  by (simp_all add: backoff_after_def)

lemma backoff_after_le: "backoff_after n \<le> 10000"
  by (cases n) (simp_all add: next_backoff_def)

interpretation reconnect: backoff backoff_after 10000
proof unfold_locales
  fix n
  show "backoff_after n \<le> backoff_after (Suc n)"
    using backoff_after_le [of n] by (simp add: next_backoff_def)
  show "backoff_after (Suc n) < 10000 \<Longrightarrow> backoff_after (Suc n) = 2 * backoff_after n"
    by (simp add: next_backoff_def)
qed (rule backoff_after_le)

lemma backoff_after_closed_form: "backoff_after n = min (250 * 2 ^ n) 10000"
proof (induction n)
  case (Suc n)
  then show ?case by (simp add: next_backoff_def min_def)
qed simp

section \<open>The invariant\<close>

definition live_sockets :: "ws_state \<Rightarrow> nat" where
  "live_sockets s = length (filter (\<lambda>r. r \<noteq> RS_closed) (ws_sockets s))"

text \<open>While mounted there is exactly one live socket or exactly one pending reconnect; after unmounting
  there is at most one of either.  A heartbeat runs only on a live socket; the back-off stays within
  its bounds; the hook reports closed exactly while a reconnect is pending.\<close>

definition ws_inv :: "ws_state \<Rightarrow> bool" where
  "ws_inv s \<longleftrightarrow>
     live_sockets s + length (ws_timers s) \<le> 1 \<and>
     (\<not> ws_cancelled s \<longrightarrow> live_sockets s + length (ws_timers s) = 1) \<and>
     (\<not> ws_cancelled s \<longrightarrow> (ws_conn s = Conn_closed \<longleftrightarrow> ws_timers s \<noteq> [])) \<and>
     (\<exists>n. ws_backoffMs s = backoff_after n) \<and>
     (\<forall>w\<in>set (ws_timers s). \<exists>n. w = backoff_after n) \<and>
     (case ws_pingTimer s of None \<Rightarrow> True
      | Some i \<Rightarrow> \<not> ws_cancelled s \<and> i < length (ws_sockets s) \<and> ws_sockets s ! i \<noteq> RS_closed) \<and>
     (case ws_socket s of None \<Rightarrow> True | Some i \<Rightarrow> i < length (ws_sockets s)) \<and>
     (\<not> ws_cancelled s \<and> live_sockets s = 1 \<longrightarrow>
        (\<exists>i. ws_socket s = Some i \<and> i < length (ws_sockets s) \<and> ws_sockets s ! i \<noteq> RS_closed))"

lemma length_filter_update:
  assumes "i < length xs" and "P (xs ! i)"
  shows "length (filter P (xs[i := x])) + (if P x then 0 else 1) = length (filter P xs)"
  using assms
proof (induction xs arbitrary: i)
  case (Cons y ys)
  then show ?case by (cases i) auto
qed simp

lemma live_set_ready:
  assumes "i < length (ws_sockets s)" and "ws_sockets s ! i \<noteq> RS_closed"
  shows "r \<noteq> RS_closed \<Longrightarrow> live_sockets (set_ready i r s) = live_sockets s"
    and "live_sockets (set_ready i RS_closed s) = live_sockets s - 1"
    and "1 \<le> live_sockets s"
  using length_filter_update [of i "ws_sockets s" "\<lambda>r. r \<noteq> RS_closed" r]
    length_filter_update [of i "ws_sockets s" "\<lambda>r. r \<noteq> RS_closed" RS_closed] assms
  by (simp_all add: live_sockets_def set_ready_def)

text \<open>With at most one live socket, the live socket is unique.\<close>

lemma live_unique:
  assumes "live_sockets s \<le> 1"
    and "i < length (ws_sockets s)" "ws_sockets s ! i \<noteq> RS_closed"
    and "j < length (ws_sockets s)" "ws_sockets s ! j \<noteq> RS_closed"
  shows "i = j"
proof (rule ccontr)
  assume "i \<noteq> j"
  then have "live_sockets (set_ready j RS_closed (set_ready i RS_closed s)) = live_sockets s - 1 - 1"
    and "1 \<le> live_sockets (set_ready i RS_closed s)"
    using assms live_set_ready [of i s] live_set_ready [of j "set_ready i RS_closed s"]
    by (simp_all add: set_ready_def)
  then show False using assms(1-3) live_set_ready(2) [of i s] by simp
qed

lemma ws_inv_start: "ws_inv ws_start"
  by (auto simp: ws_inv_def ws_start_def ws_mount_def connect_def live_sockets_def
      intro: exI [of _ 0])

lemma ws_inv_set_ready:
  assumes "ws_inv s" and i: "i < length (ws_sockets s)" "ws_sockets s ! i \<noteq> RS_closed" and "r \<noteq> RS_closed"
  shows "ws_inv (set_ready i r s)"
proof -
  have keep: "j < length (ws_sockets s) \<Longrightarrow> ws_sockets s ! j \<noteq> RS_closed \<Longrightarrow>
      (ws_sockets s)[i := r] ! j \<noteq> RS_closed" for j
    using assms(4) by (cases "j = i") simp_all
  have frame: "ws_cancelled (set_ready i r s) = ws_cancelled s" "ws_timers (set_ready i r s) = ws_timers s"
    "ws_conn (set_ready i r s) = ws_conn s" "ws_backoffMs (set_ready i r s) = ws_backoffMs s"
    "ws_pingTimer (set_ready i r s) = ws_pingTimer s" "ws_socket (set_ready i r s) = ws_socket s"
    "ws_sockets (set_ready i r s) = (ws_sockets s)[i := r]"
    by (simp_all add: set_ready_def)
  show ?thesis
    using assms(1) live_set_ready(1) [OF i assms(4)]
    by (auto simp: ws_inv_def frame keep split: option.splits)
qed

lemma ws_inv_close_socket: "ws_inv s \<Longrightarrow> i < length (ws_sockets s) \<Longrightarrow> ws_inv (close_socket i s)"
  using ws_inv_set_ready [of s i RS_closing] by (auto simp: close_socket_def set_ready_def)

text \<open>A live socket leaves no room for a pending reconnect.\<close>

lemma live_no_timer:
  assumes "ws_inv s" and "i < length (ws_sockets s)" "ws_sockets s ! i \<noteq> RS_closed"
  shows "live_sockets s = 1" and "ws_timers s = []"
proof -
  have "live_sockets s + length (ws_timers s) \<le> 1" "1 \<le> live_sockets s"
    using assms live_set_ready(3) [of i s] by (simp_all add: ws_inv_def)
  then show "live_sockets s = 1" "ws_timers s = []" by (cases "ws_timers s"; simp)+
qed

lemma ws_inv_opens:
  assumes "ws_inv s" and i: "i < length (ws_sockets s)" "ws_sockets s ! i = RS_connecting"
  shows "ws_inv (onopen i (set_ready i RS_open s))"
proof -
  define t where "t = set_ready i RS_open s"
  have t: "ws_inv t" "i < length (ws_sockets t)" "ws_sockets t ! i \<noteq> RS_closed"
    using ws_inv_set_ready [of s i RS_open] assms by (simp_all add: t_def) (simp_all add: set_ready_def)
  note none = live_no_timer [OF t]
  have zero: "\<exists>n. 250 = backoff_after n" by (rule exI [of _ 0]) simp
  have "live_sockets (onopen i t) = live_sockets t" by (simp add: onopen_def live_sockets_def)
  with t none zero have "ws_inv (onopen i t)"
    by (cases "ws_cancelled t") (simp_all add: ws_inv_def onopen_def split: option.splits)
  then show ?thesis by (simp add: t_def)
qed

lemma ws_inv_closes:
  assumes "ws_inv s" and i: "i < length (ws_sockets s)" "ws_sockets s ! i \<noteq> RS_closed"
  shows "ws_inv (onclose (set_ready i RS_closed s))"
proof -
  note live = live_set_ready(2,3) [OF i]
  note one = live_no_timer [OF assms]
  obtain n where n: "ws_backoffMs s = backoff_after n" using assms(1) by (auto simp: ws_inv_def)
  then have n': "next_backoff (ws_backoffMs s) = backoff_after (Suc n)" by simp
  have frame: "live_sockets (onclose (set_ready i RS_closed s)) = 0"
    using live one by (simp add: onclose_def Let_def live_sockets_def set_ready_def)
  have bounds: "case ws_socket s of None \<Rightarrow> True | Some i \<Rightarrow> i < length (ws_sockets s)"
    using assms(1) by (simp add: ws_inv_def)
  have "\<exists>m. next_backoff (ws_backoffMs s) = backoff_after m" using n' by blast
  then show ?thesis
    using one n bounds by (simp add: ws_inv_def frame) (auto simp: onclose_def Let_def set_ready_def split: option.splits)
qed

lemma ws_inv_fires:
  assumes "ws_inv s" and "ws_timers s = pre @ w # post"
  shows "ws_inv (connect (s\<lparr>ws_timers := pre @ post\<rparr>))"
proof -
  have "live_sockets s = 0" "pre = []" "post = []"
    using assms by (auto simp: ws_inv_def)
  then show ?thesis
    using assms
    by (auto simp: ws_inv_def connect_def live_sockets_def nth_append split: option.splits)
qed

lemma ws_inv_cleanup: "ws_inv s \<Longrightarrow> ws_inv (cleanup s)"
proof -
  assume inv: "ws_inv s"
  let ?t = "s\<lparr>ws_cancelled := True, ws_pingTimer := None\<rparr>"
  have t: "ws_inv ?t"
    using inv by (simp add: ws_inv_def live_sockets_def split: option.splits)
  have "ws_socket s = Some i \<Longrightarrow> i < length (ws_sockets s)" for i
    using inv by (simp add: ws_inv_def)
  then show ?thesis
    using t ws_inv_close_socket [OF t] by (cases "ws_socket s") (simp_all add: cleanup_def Let_def)
qed

lemma ws_inv_step: "ws_step s t \<Longrightarrow> ws_inv s \<Longrightarrow> ws_inv t"
proof (induction rule: ws_step.induct)
  case (pings s i)
  then show ?case by (simp add: ping_tick_def ws_inv_def live_sockets_def split: option.splits)
qed (simp_all add: ws_inv_opens ws_inv_closes ws_inv_fires ws_inv_cleanup ws_inv_close_socket onerror_def)

lemma ws_inv_run: "ws_run s t \<Longrightarrow> ws_inv s \<Longrightarrow> ws_inv t"
  by (induction rule: ws_run.induct) (auto intro: ws_inv_step)

section \<open>What the hook guarantees\<close>

text \<open>C2: while the hook is mounted it neither gives up nor doubles up: in every state the browser's
  events lead to, there is exactly one live socket or exactly one pending reconnect, never both; a
  pending reconnect waits between 250 ms and 10 s, the reported state is closed exactly while it is
  pending, and a running heartbeat sends on the current socket.\<close>

theorem socket_never_gives_up:
  assumes "ws_run ws_start s" and "\<not> ws_cancelled s"
  shows "live_sockets s + length (ws_timers s) = 1 \<and>
    (useWebSocket True s = Conn_closed \<longleftrightarrow> length (ws_timers s) = 1) \<and>
    (\<forall>w\<in>set (ws_timers s). 250 \<le> w \<and> w \<le> 10000) \<and>
    (\<forall>i. ws_pingTimer s = Some i \<longrightarrow> ws_socket s = Some i)"
proof -
  have inv: "ws_inv s" using ws_inv_run [OF assms(1) ws_inv_start] .
  have bound: "250 \<le> backoff_after n \<and> backoff_after n \<le> 10000" for n
    using reconnect.delay_le [of 0 n] reconnect.delay_ceiling [of n] by simp
  have sum: "live_sockets s + length (ws_timers s) = 1" using inv assms(2) by (simp add: ws_inv_def)
  moreover have "ws_conn s = Conn_closed \<longleftrightarrow> length (ws_timers s) = 1"
    using inv assms(2) sum by (cases "ws_timers s") (simp_all add: ws_inv_def)
  moreover have "\<forall>w\<in>set (ws_timers s). 250 \<le> w \<and> w \<le> 10000"
    using inv bound by (auto simp: ws_inv_def)
  moreover have "ws_socket s = Some i" if "ws_pingTimer s = Some i" for i
  proof -
    from inv that have i: "i < length (ws_sockets s)" "ws_sockets s ! i \<noteq> RS_closed"
      by (simp_all add: ws_inv_def)
    note one = live_no_timer(1) [OF inv i]
    with inv assms(2) obtain j where j: "ws_socket s = Some j" "j < length (ws_sockets s)"
      "ws_sockets s ! j \<noteq> RS_closed" by (auto simp: ws_inv_def)
    with live_unique [of s i j] i one show ?thesis by simp
  qed
  ultimately show ?thesis by (simp add: useWebSocket_def)
qed

lemma ws_step_closes_first:
  "ws_step ws_start (onclose (set_ready 0 RS_closed ws_start))"
  by (rule ws_step.closes) (simp_all add: ws_start_def ws_mount_def connect_def)

theorem socket_never_gives_up_witness:
  "length (ws_timers (onclose (set_ready 0 RS_closed ws_start))) = 1"
  using socket_never_gives_up [OF ws_run.trans [OF ws_run.refl ws_step_closes_first]]
  by (simp add: useWebSocket_def onclose_def set_ready_def ws_start_def ws_mount_def connect_def Let_def)

lemma cancelled_step:
  assumes "ws_step s t" and "ws_cancelled s" and "ws_pingTimer s = None"
  shows "ws_cancelled t \<and> ws_pingTimer t = None \<and> length (ws_sockets t) = length (ws_sockets s) \<and>
    ws_pings t = ws_pings s"
  using assms
  by (cases rule: ws_step.cases)
     (simp_all add: onopen_def set_ready_def onerror_def close_socket_def onclose_def connect_def Let_def)

lemma cancelled_run:
  "ws_run s t \<Longrightarrow> ws_cancelled s \<Longrightarrow> ws_pingTimer s = None \<Longrightarrow>
   ws_cancelled t \<and> ws_pingTimer t = None \<and> length (ws_sockets t) = length (ws_sockets s) \<and>
   ws_pings t = ws_pings s"
  by (induction rule: ws_run.induct) (auto dest: cancelled_step)

text \<open>C9: after the clean-up nothing comes back: whatever timers, opens and closes are still under way
  when the component unmounts, no further socket is ever created, no heartbeat runs and no frame is
  sent.\<close>

theorem no_socket_after_unmount:
  assumes "ws_run ws_start s" and "ws_run (cleanup s) t"
  shows "ws_cancelled t \<and> length (ws_sockets t) = length (ws_sockets s) \<and> ws_pingTimer t = None \<and>
    ws_pings t = ws_pings s"
proof -
  have "ws_cancelled (cleanup s)" "ws_pingTimer (cleanup s) = None"
    "length (ws_sockets (cleanup s)) = length (ws_sockets s)" "ws_pings (cleanup s) = ws_pings s"
    by (simp_all add: cleanup_def close_socket_def Let_def split: option.splits)
  then show ?thesis using cancelled_run [OF assms(2)] by simp
qed

theorem no_socket_after_unmount_witness:
  "length (ws_sockets (connect ((cleanup (onclose (set_ready 0 RS_closed ws_start)))\<lparr>ws_timers := [] @ []\<rparr>))) = 1"
proof -
  let ?s = "onclose (set_ready 0 RS_closed ws_start)"
  have "ws_step (cleanup ?s) (connect ((cleanup ?s)\<lparr>ws_timers := [] @ []\<rparr>))"
    by (rule ws_step.fires [where w = 250])
       (simp add: cleanup_def onclose_def close_socket_def set_ready_def ws_start_def ws_mount_def connect_def Let_def)
  from no_socket_after_unmount [OF ws_run.trans [OF ws_run.refl ws_step_closes_first]
      ws_run.trans [OF ws_run.refl this]]
  show ?thesis by (simp add: onclose_def set_ready_def ws_start_def ws_mount_def connect_def Let_def)
qed

text \<open>One failed attempt: the connecting socket closes, and the reconnect timer fires.\<close>

definition failed_attempt :: "ws_state \<Rightarrow> ws_state" where
  "failed_attempt s = onclose (set_ready (length (ws_sockets s) - 1) RS_closed s)"

definition retry_now :: "ws_state \<Rightarrow> ws_state" where
  "retry_now s = connect (s\<lparr>ws_timers := []\<rparr>)"

lemma retry_run:
  "let s = ((retry_now \<circ> failed_attempt) ^^ n) ws_start in
   \<not> ws_cancelled s \<and> ws_timers s = [] \<and> ws_backoffMs s = backoff_after n \<and>
   length (ws_sockets s) = Suc n \<and> ws_sockets s ! n = RS_connecting"
proof (induction n)
  case 0
  show ?case by (simp add: ws_start_def ws_mount_def connect_def)
next
  case (Suc n)
  then show ?case
    by (simp add: Let_def retry_now_def failed_attempt_def onclose_def set_ready_def connect_def nth_append)
qed

text \<open>the waits between failed attempts double from 250 ms up to 10 s: after \<open>n\<close> attempts in a row
  that never opened, the next one waits \<open>min (250 \<sqdot> 2\<^sup>n) 10000\<close> milliseconds.\<close>

theorem reconnect_waits_double:
  "ws_timers (failed_attempt (((retry_now \<circ> failed_attempt) ^^ n) ws_start)) = [min (250 * 2 ^ n) 10000]"
  using retry_run [of n]
  by (simp add: Let_def failed_attempt_def onclose_def set_ready_def backoff_after_closed_form)

end
