(* ===== verification/Auth_Guard.thy ===== *)
theory Auth_Guard
  imports Interfaces Api_Types Js_String
begin

text \<open>
  Session state and route guards: the auth store (src/web/src/stores/auth.ts), the bootstrap hook and
  the guards of src/web/src/lib/auth-guard.tsx, useDeviceDetailGated.ts, the retry policy of
  src/web/src/lib/query.ts, and the route table of src/web/src/routes.tsx.  How react-router chooses a
  branch of the table for a URL is not modelled: the theorems hold for every branch.
\<close>

section \<open>The auth store\<close>

record AuthState =
  au_user :: "PublicUser option"
  au_loading :: bool
  au_mustChangePassword :: bool

definition auth_init :: AuthState where
  "auth_init = \<lparr>au_user = None, au_loading = True, au_mustChangePassword = False\<rparr>"

definition setUser :: "PublicUser option \<Rightarrow> AuthState \<Rightarrow> AuthState" where
  "setUser u s = s\<lparr>au_user := u\<rparr>"

definition setLoading :: "bool \<Rightarrow> AuthState \<Rightarrow> AuthState" where
  "setLoading l s = s\<lparr>au_loading := l\<rparr>"

definition setMustChangePassword :: "bool \<Rightarrow> AuthState \<Rightarrow> AuthState" where
  "setMustChangePassword m s = s\<lparr>au_mustChangePassword := m\<rparr>"

definition auth_reset :: "AuthState \<Rightarrow> AuthState" where
  "auth_reset s = s\<lparr>au_user := None, au_loading := False, au_mustChangePassword := False\<rparr>"

lemmas auth_store_defs = setUser_def setLoading_def setMustChangePassword_def auth_reset_def

section \<open>Bootstrapping the session\<close>

text \<open>How a call of \<open>me()\<close> ends: the user, an \<open>ApiError\<close> with its status, or a failed fetch; and the
  clean-up of the effect, which may come in between.\<close>

datatype boot_event = Me_ok PublicUser | Me_api_error nat | Me_network_error | Boot_unmount

definition retry_delay :: "nat \<Rightarrow> nat" where
  "retry_delay attempt = min 4000 (250 * 2 ^ attempt)"

text \<open>The run of \<open>tryMe\<close> over the events: the delays it waited and the store it leaves, \<open>None\<close> while
  a response is outstanding.\<close>

fun tryMe :: "bool \<Rightarrow> nat \<Rightarrow> boot_event list \<Rightarrow> AuthState \<Rightarrow> (nat list \<times> AuthState) option" where
  "tryMe alive attempt [] s = None"
| "tryMe alive attempt (Boot_unmount # es) s = tryMe False attempt es s"
| "tryMe alive attempt (Me_ok u # es) s =
     Some ([], if alive then setLoading False (setUser (Some u) s) else s)"
| "tryMe alive attempt (Me_api_error status # es) s =
     Some ([], if \<not> alive then s
               else if status = 401 then setLoading False (setUser None s)
               else setLoading False s)"
| "tryMe alive attempt (Me_network_error # es) s =
     (if \<not> alive then Some ([], s)
      else let attempt' = attempt + 1 in
           if attempt' \<le> 4 then
             map_option (\<lambda>(ds, t). (retry_delay attempt' # ds, t)) (tryMe alive attempt' es s)
           else Some ([], setLoading False s))"

definition useBootstrapAuth :: "boot_event list \<Rightarrow> AuthState \<Rightarrow> (nat list \<times> AuthState) option" where
  "useBootstrapAuth es s = tryMe True 0 es (setLoading True s)"

section \<open>Guards\<close>

datatype view = V_loader string | V_navigate string | V_child

definition HomeRedirect :: "AuthState \<Rightarrow> view" where
  "HomeRedirect s =
     (if au_loading s then V_loader ''loading''
      else V_navigate (if au_user s \<noteq> None then ''/app'' else ''/login''))"

definition ProtectedRoute :: "AuthState \<Rightarrow> view" where
  "ProtectedRoute s =
     (if au_loading s then V_loader ''restoring session''
      else if au_user s = None then V_navigate ''/login''
      else V_child)"

definition AdminRoute :: "AuthState \<Rightarrow> view" where
  "AdminRoute s =
     (if au_loading s then V_loader ''verifying''
      else case au_user s of
             None \<Rightarrow> V_navigate ''/login''
           | Some u \<Rightarrow> if pu_role u \<noteq> Role_admin then V_navigate ''/app'' else V_child)"

definition DeviceDetailRoute :: "AuthState \<Rightarrow> view" where
  "DeviceDetailRoute s =
     (case au_user s of
        None \<Rightarrow> V_child
      | Some u \<Rightarrow>
          if pu_role u \<noteq> Role_admin \<and> ups_hide_device_detail (pu_user_policy u)
          then V_navigate ''/app/devices'' else V_child)"

definition useDeviceDetailGated :: "AuthState \<Rightarrow> bool" where
  "useDeviceDetailGated s =
     (case au_user s of
        None \<Rightarrow> False
      | Some u \<Rightarrow> pu_role u \<noteq> Role_admin \<and> ups_hide_device_detail (pu_user_policy u))"

fun landingPath :: "DefaultLandingPref \<Rightarrow> string" where
  "landingPath Land_devices = ''/app/devices''"
| "landingPath Land_topology = ''/app/topology''"
| "landingPath Land_dashboard = ''/app''"

text \<open>The \<open>retry\<close> predicate of the query client.\<close>

definition query_retry :: "nat \<Rightarrow> nat option \<Rightarrow> bool" where
  "query_retry failureCount status =
     (if status = Some 401 \<or> status = Some 403 \<or> status = Some 429 then False else failureCount < 2)"

section \<open>The route table\<close>

datatype page =
    LoginPage | VerifyEmailPage | GoogleCallbackPage
  | DashboardPage | DevicesPage | DeviceDetailPage | TopologyPage | FinderPage | ActivityPage | SettingsPage
  | AdminOverviewPage | UsersPage | UserDetailPage | AdminDeviceDetailPage | AuditLogPage
  | FailedLoginsPage | SessionsPage | AccessLogsPage | HostAccessPage | AdminOnlineDevicesPage
  | ServersPage | ServerDetailPage | AdminTopologyPage

datatype element =
    El_root | El_public_shell | El_home_redirect
  | El_protected_layout | El_admin_outlet
  | El_page page | El_device_detail | El_navigate string | El_route_error

datatype route =
  Route (route_path: "string option") (breadcrumb: "string option") (parents: "(string \<times> string) list")
    (route_element: element) (children: "route list")

definition leaf :: "string \<Rightarrow> string \<Rightarrow> element \<Rightarrow> route" where
  "leaf p b el = Route (Some p) (Some b) [] el []"

definition admin_routes :: "bool \<Rightarrow> route list" where
  "admin_routes option2_host_agent =
     [leaf ''/admin'' ''Overview'' (El_page AdminOverviewPage),
      leaf ''/admin/users'' ''Users'' (El_page UsersPage),
      Route (Some ''/admin/users/:id'') (Some ''Detail'') [(''Users'', ''/admin/users'')] (El_page UserDetailPage) [],
      Route (Some ''/admin/devices/:id'') (Some ''Device'') [(''Users'', ''/admin/users'')]
        (El_page AdminDeviceDetailPage) [],
      leaf ''/admin/audit'' ''Audit log'' (El_page AuditLogPage),
      leaf ''/admin/failed-logins'' ''Failed logins'' (El_page FailedLoginsPage),
      leaf ''/admin/sessions'' ''Sessions'' (El_page SessionsPage),
      leaf ''/admin/access-logs'' ''Access logs'' (El_page AccessLogsPage)] @
     (if option2_host_agent then [] else [leaf ''/admin/host-access'' ''Host access'' (El_page HostAccessPage)]) @
     [leaf ''/admin/online-devices'' ''Online devices'' (El_page AdminOnlineDevicesPage),
      leaf ''/admin/servers'' ''Servers'' (El_page ServersPage),
      Route (Some ''/admin/servers/:id'') (Some ''Detail'') [(''Servers'', ''/admin/servers'')]
        (El_page ServerDetailPage) [],
      leaf ''/admin/topology'' ''Topology'' (El_page AdminTopologyPage),
      Route (Some ''/admin/finder'') None [] (El_navigate ''/app/finder'') []]"

definition app_routes :: "bool \<Rightarrow> route list" where
  "app_routes option2_host_agent =
     [leaf ''/app'' ''Dashboard'' (El_page DashboardPage),
      leaf ''/app/devices'' ''Devices'' (El_page DevicesPage),
      Route (Some ''/app/devices/:id'') (Some ''Device'') [(''Devices'', ''/app/devices'')] El_device_detail [],
      leaf ''/app/topology'' ''Topology'' (El_page TopologyPage),
      leaf ''/app/finder'' ''Finder'' (El_page FinderPage),
      leaf ''/app/activity'' ''Activity'' (El_page ActivityPage),
      leaf ''/app/settings'' ''Settings'' (El_page SettingsPage),
      Route None (Some ''Admin'') [] El_admin_outlet (admin_routes option2_host_agent),
      Route (Some ''*'') None [] El_route_error []]"

definition public_routes :: "route list" where
  "public_routes =
     [Route (Some ''/'') None [] El_home_redirect [],
      Route (Some ''/login'') None [] (El_page LoginPage) [],
      Route (Some ''/invite'') None [] (El_page VerifyEmailPage) [],
      Route (Some ''/google/callback'') None [] (El_page GoogleCallbackPage) []]"

definition router :: "bool \<Rightarrow> route" where
  "router option2_host_agent =
     Route None None [] El_root
       [Route None None [] El_public_shell public_routes,
        Route None None [] El_protected_layout (app_routes option2_host_agent)]"

section \<open>Rendering a branch\<close>

datatype screen = Scr_loader string | Scr_navigate string | Scr_page page | Scr_not_found | Scr_empty

definition guarded :: "view \<Rightarrow> screen \<Rightarrow> screen" where
  "guarded v inner =
     (case v of V_loader c \<Rightarrow> Scr_loader c | V_navigate p \<Rightarrow> Scr_navigate p | V_child \<Rightarrow> inner)"

text \<open>What an element shows, given what its outlet shows.\<close>

fun render_element :: "AuthState \<Rightarrow> element \<Rightarrow> screen \<Rightarrow> screen" where
  "render_element s El_root outlet = outlet"
| "render_element s El_public_shell outlet = outlet"
| "render_element s El_home_redirect outlet = guarded (HomeRedirect s) outlet"
| "render_element s El_protected_layout outlet = guarded (ProtectedRoute s) outlet"
| "render_element s El_admin_outlet outlet = guarded (AdminRoute s) outlet"
| "render_element s (El_page p) outlet = Scr_page p"
| "render_element s El_device_detail outlet = guarded (DeviceDetailRoute s) (Scr_page DeviceDetailPage)"
| "render_element s (El_navigate p) outlet = Scr_navigate p"
| "render_element s El_route_error outlet = Scr_not_found"

definition render_branch :: "AuthState \<Rightarrow> element list \<Rightarrow> screen" where
  "render_branch s els = foldr (render_element s) els Scr_empty"

text \<open>The branches of a route: the leaf's path and the elements from the root down to it.\<close>

fun branches :: "route \<Rightarrow> (string option \<times> element list) list" where
  "branches (Route p b ps el []) = [(p, [el])]"
| "branches (Route p b ps el (c # cs)) =
     map (\<lambda>(q, els). (q, el # els)) (concat (map branches (c # cs)))"

definition is_public :: "page \<Rightarrow> bool" where
  "is_public p \<longleftrightarrow> p = LoginPage \<or> p = VerifyEmailPage \<or> p = GoogleCallbackPage"

definition is_app :: "page \<Rightarrow> bool" where
  "is_app p \<longleftrightarrow> p = DashboardPage \<or> p = DevicesPage \<or> p = DeviceDetailPage \<or> p = TopologyPage \<or>
     p = FinderPage \<or> p = ActivityPage \<or> p = SettingsPage"

definition is_admin :: "page \<Rightarrow> bool" where
  "is_admin p \<longleftrightarrow> \<not> is_public p \<and> \<not> is_app p"

section \<open>Bootstrap: termination and effect\<close>

text \<open>The delays between retries are a capped doubling, starting at half a second.\<close>

interpretation boot: backoff "\<lambda>n. retry_delay (Suc n)" 4000
  by unfold_locales (auto simp: retry_delay_def min_def)

lemma tryMe_network:
  "attempt + k \<le> 4 \<Longrightarrow>
   tryMe True attempt (replicate k Me_network_error @ es) s =
     map_option (\<lambda>(ds, t). (map retry_delay [attempt + 1..<attempt + k + 1] @ ds, t))
       (tryMe True (attempt + k) es s)"
proof (induction k arbitrary: attempt)
  case (Suc k)
  have "[attempt + 1..<attempt + Suc k + 1] = (attempt + 1) # [attempt + 1 + 1..<attempt + 1 + k + 1]"
    using upt_conv_Cons [of "attempt + 1" "attempt + Suc k + 1"] by simp
  with Suc show ?case
    by (simp add: option.map_comp comp_def case_prod_beta' del: upt_Suc)
qed (simp add: option.map_id case_prod_beta' flip: id_def)

text \<open>C10: the session bootstrap ends and does what it says: with \<open>k\<close> failed fetches before it, a user
  response signs the user in; a 401 clears the user; any other API error keeps the user; and the fifth
  failed fetch in a row gives up, keeping the user.  In every case the spinner stops, at most four
  retries are made, and their delays are 0.5, 1, 2 and 4 seconds.\<close>

theorem bootstrap_settles:
  assumes "k \<le> 4"
  defines "delays \<equiv> take k [500, 1000, 2000, 4000]"
  shows "useBootstrapAuth (replicate k Me_network_error @ Me_ok u # es) s =
      Some (delays, s\<lparr>au_user := Some u, au_loading := False\<rparr>) \<and>
    useBootstrapAuth (replicate k Me_network_error @ Me_api_error 401 # es) s =
      Some (delays, s\<lparr>au_user := None, au_loading := False\<rparr>) \<and>
    (st \<noteq> 401 \<longrightarrow> useBootstrapAuth (replicate k Me_network_error @ Me_api_error st # es) s =
      Some (delays, s\<lparr>au_loading := False\<rparr>)) \<and>
    useBootstrapAuth (replicate 5 Me_network_error @ es) s =
      Some ([500, 1000, 2000, 4000], s\<lparr>au_loading := False\<rparr>)"
proof -
  have d: "map retry_delay [0 + 1..<0 + k + 1] = delays"
  proof -
    have "map retry_delay [Suc 0..<5] = [500, 1000, 2000, 4000]" by code_simp
    moreover have "[0 + 1..<0 + k + 1] = take k [Suc 0..<5]" using assms(1) by simp
    ultimately show ?thesis by (simp only: delays_def flip: take_map)
  qed
  have run: "tryMe True 0 (replicate k Me_network_error @ es') t =
      map_option (\<lambda>(ds, t). (delays @ ds, t)) (tryMe True k es' t)" for es' t
    using tryMe_network [of 0 k es' t] assms(1) unfolding d by simp
  have five: "replicate 5 Me_network_error @ es = replicate 4 Me_network_error @ Me_network_error # es"
    by (simp add: eval_nat_numeral)
  have "tryMe True 0 (replicate 5 Me_network_error @ es) t = Some ([500, 1000, 2000, 4000], setLoading False t)" for t
    unfolding five using tryMe_network [of 0 4 "Me_network_error # es" t]
    by (simp add: retry_delay_def eval_nat_numeral)
  then show ?thesis
    by (simp add: useBootstrapAuth_def run auth_store_defs)
qed

definition sample_user :: "UserRole \<Rightarrow> bool \<Rightarrow> PublicUser" where
  "sample_user r hide = \<lparr>pu_id = ''u'', pu_email = ''u@example.org'', pu_role = r, pu_totp_enabled = False,
     pu_is_impersonated = None, pu_impersonator_email = None,
     pu_user_policy = \<lparr>ups_hide_device_detail = hide\<rparr>\<rparr>"

theorem bootstrap_settles_witness:
  "useBootstrapAuth [Me_network_error, Me_network_error, Me_ok (sample_user Role_user False)] auth_init =
     Some ([500, 1000], auth_init\<lparr>au_user := Some (sample_user Role_user False), au_loading := False\<rparr>)"
  using bootstrap_settles [of 2 "sample_user Role_user False" "[]" auth_init]
  by (simp add: eval_nat_numeral)

text \<open>A response that arrives after the clean-up changes nothing.\<close>

lemma tryMe_dead: "tryMe False a es s = Some (ds, t) \<Longrightarrow> t = s"
  by (induction "False" a es s arbitrary: ds t rule: tryMe.induct) auto

lemma tryMe_after_unmount:
  "tryMe True a (es @ Boot_unmount # fs) s = Some (ds, t) \<Longrightarrow>
   tryMe True a es s = None \<Longrightarrow> t = s"
proof (induction "True" a es s arbitrary: ds t rule: tryMe.induct)
  case (5 attempt es s)
  then show ?case by (auto simp: Let_def split: if_splits)
qed (auto dest: tryMe_dead)

section \<open>The guards protect every page\<close>

lemma branches_leaf [simp]: "branches (leaf p b el) = [(Some p, [el])]"
  by (simp add: leaf_def)

lemma branches_router:
  "branches (router opt) =
     map (\<lambda>(q, els). (q, [El_root, El_public_shell] @ els)) (concat (map branches public_routes)) @
     map (\<lambda>(q, els). (q, [El_root, El_protected_layout] @ els)) (concat (map branches (app_routes opt)))"
  by (simp add: router_def public_routes_def app_routes_def case_prod_beta' comp_def)

lemma branches_app:
  "concat (map branches (app_routes opt)) =
     [(Some ''/app'', [El_page DashboardPage]), (Some ''/app/devices'', [El_page DevicesPage]),
      (Some ''/app/devices/:id'', [El_device_detail]), (Some ''/app/topology'', [El_page TopologyPage]),
      (Some ''/app/finder'', [El_page FinderPage]), (Some ''/app/activity'', [El_page ActivityPage]),
      (Some ''/app/settings'', [El_page SettingsPage])] @
     map (\<lambda>(q, els). (q, El_admin_outlet # els)) (concat (map branches (admin_routes opt))) @
     [(Some ''*'', [El_route_error])]"
  by (simp add: app_routes_def admin_routes_def)

text \<open>Every admin branch is one element below the guard: an admin page, or the redirect to the
  finder.\<close>

lemma branches_admin:
  "(q, els) \<in> set (concat (map branches (admin_routes opt))) \<Longrightarrow>
   (\<exists>p. els = [El_page p] \<and> is_admin p) \<or> els = [El_navigate ''/app/finder'']"
  by (auto simp: admin_routes_def is_admin_def is_public_def is_app_def split: if_splits)

lemma render_protected:
  "render_branch s (El_root # El_protected_layout # els) = guarded (ProtectedRoute s) (render_branch s els)"
  by (simp add: render_branch_def)

lemma render_admin:
  "render_branch s (El_admin_outlet # els) = guarded (AdminRoute s) (render_branch s els)"
  by (simp add: render_branch_def)

lemma guarded_page: "guarded v inner = Scr_page p \<longleftrightarrow> v = V_child \<and> inner = Scr_page p"
  by (cases v) (simp_all add: guarded_def)

lemma ProtectedRoute_child: "ProtectedRoute s = V_child \<longleftrightarrow> \<not> au_loading s \<and> au_user s \<noteq> None"
  by (simp add: ProtectedRoute_def)

lemma AdminRoute_child:
  "AdminRoute s = V_child \<longleftrightarrow> \<not> au_loading s \<and> (\<exists>u. au_user s = Some u \<and> pu_role u = Role_admin)"
  by (simp add: AdminRoute_def split: option.splits)

text \<open>The pages the branches under the protected layout can show.\<close>

lemma app_branch_page:
  assumes "(q, els) \<in> set (concat (map branches (app_routes opt)))" and "render_branch s els = Scr_page p"
  shows "(is_app p \<and> (p = DeviceDetailPage \<longrightarrow> DeviceDetailRoute s = V_child)) \<or>
    (is_admin p \<and> AdminRoute s = V_child)"
  using assms unfolding branches_app
proof (elim UnE set_append [THEN equalityD1, THEN subsetD, THEN UnE])
  assume "(q, els) \<in> set (map (\<lambda>(q, els). (q, El_admin_outlet # els)) (concat (map branches (admin_routes opt))))"
  then obtain els' where els: "els = El_admin_outlet # els'"
    and mem: "(q, els') \<in> set (concat (map branches (admin_routes opt)))" by auto
  with assms(2) have "AdminRoute s = V_child" "render_branch s els' = Scr_page p"
    by (simp_all add: render_admin guarded_page)
  with branches_admin [OF mem] show ?thesis by (auto simp: render_branch_def)
qed (auto simp: render_branch_def is_app_def guarded_page)

text \<open>C3: no branch of the route table shows a page its guards forbid: whatever URL is matched and in
  whatever state the session is, an admin page is shown only to a signed-in admin, an app page only to
  a signed-in user, neither while the session is still loading, and the device detail page never to a
  user from whom the policy hides it; without a session only the public pages are shown.\<close>

theorem route_table_guards_pages:
  assumes "(path, els) \<in> set (branches (router opt))" and "render_branch s els = Scr_page p"
  shows "is_public p \<or>
    (\<not> au_loading s \<and> (\<exists>u. au_user s = Some u \<and>
       (is_admin p \<longrightarrow> pu_role u = Role_admin) \<and>
       (p = DeviceDetailPage \<longrightarrow> pu_role u = Role_admin \<or> \<not> ups_hide_device_detail (pu_user_policy u))))"
proof -
  from assms(1) consider els' where "els = [El_root, El_public_shell] @ els'"
      "(path, els') \<in> set (concat (map branches public_routes))"
    | els' where "els = [El_root, El_protected_layout] @ els'"
      "(path, els') \<in> set (concat (map branches (app_routes opt)))"
    unfolding branches_router by auto
  then show ?thesis
  proof cases
    case 1
    then show ?thesis
      using assms(2)
      by (auto simp: public_routes_def render_branch_def guarded_page is_public_def HomeRedirect_def)
  next
    case 2
    with assms(2) have child: "ProtectedRoute s = V_child" and inner: "render_branch s els' = Scr_page p"
      by (simp_all add: render_protected guarded_page)
    from child obtain u where u: "au_user s = Some u" "\<not> au_loading s"
      by (auto simp: ProtectedRoute_child)
    have excl: "\<not> (is_app p \<and> is_admin p)" by (simp add: is_admin_def)
    from app_branch_page [OF 2(2) inner] show ?thesis
    proof
      assume "is_app p \<and> (p = DeviceDetailPage \<longrightarrow> DeviceDetailRoute s = V_child)"
      with u excl show ?thesis by (auto simp: DeviceDetailRoute_def)
    next
      assume "is_admin p \<and> AdminRoute s = V_child"
      with u show ?thesis by (auto simp: AdminRoute_child)
    qed
  qed
qed

theorem route_table_guards_pages_witness:
  "render_branch \<lparr>au_user = Some (sample_user Role_user False), au_loading = False, au_mustChangePassword = False\<rparr>
     [El_root, El_protected_layout, El_admin_outlet, El_page UsersPage] \<noteq> Scr_page UsersPage"
proof
  assume *: "render_branch \<lparr>au_user = Some (sample_user Role_user False), au_loading = False, au_mustChangePassword = False\<rparr>
     [El_root, El_protected_layout, El_admin_outlet, El_page UsersPage] = Scr_page UsersPage"
  have "(Some ''/admin/users'', [El_root, El_protected_layout, El_admin_outlet, El_page UsersPage])
      \<in> set (branches (router False))"
    by (simp add: branches_router branches_app admin_routes_def)
  from route_table_guards_pages [OF this *] show False
    by (simp add: is_public_def is_admin_def is_app_def sample_user_def)
qed

text \<open>links and routes agree on hidden device details: for a signed-in user the guard on the device
  detail route turns a visit away exactly when the hook the links ask says the page is gated.\<close>

theorem detail_gate_agrees:
  "useDeviceDetailGated s \<longleftrightarrow> DeviceDetailRoute s = V_navigate ''/app/devices''"
  by (simp add: useDeviceDetailGated_def DeviceDetailRoute_def split: option.splits)

text \<open>an admin reaches everything: for a signed-in admin, once loading is over, every branch of the
  table shows its page, redirects as written or shows the not-found page, and no guard turns the visit
  away to the login page or the device list.\<close>

theorem admin_reaches_every_branch:
  assumes "au_user s = Some u" and "pu_role u = Role_admin" and "\<not> au_loading s"
    and "(path, els) \<in> set (branches (router opt))"
  shows "(\<exists>p. render_branch s els = Scr_page p) \<or> render_branch s els = Scr_not_found \<or>
    render_branch s els = Scr_navigate ''/app'' \<and> path = Some ''/'' \<or>
    render_branch s els = Scr_navigate ''/app/finder'' \<and> path = Some ''/admin/finder''"
proof -
  have g: "ProtectedRoute s = V_child" "AdminRoute s = V_child" "DeviceDetailRoute s = V_child"
    "HomeRedirect s = V_navigate ''/app''"
    using assms(1-3)
    by (simp_all add: ProtectedRoute_def AdminRoute_def DeviceDetailRoute_def HomeRedirect_def)
  have "list_all (\<lambda>(path, els). (\<exists>p. render_branch s els = Scr_page p) \<or> render_branch s els = Scr_not_found \<or>
      render_branch s els = Scr_navigate ''/app'' \<and> path = Some ''/'' \<or>
      render_branch s els = Scr_navigate ''/app/finder'' \<and> path = Some ''/admin/finder'')
    (branches (router opt))"
    unfolding branches_router branches_app
    by (cases opt) (simp_all add: public_routes_def admin_routes_def render_branch_def guarded_def g)
  with assms(4) show ?thesis by (auto simp: list_all_iff)
qed

theorem admin_reaches_every_branch_witness:
  "render_branch \<lparr>au_user = Some (sample_user Role_admin True), au_loading = False, au_mustChangePassword = False\<rparr>
     [El_root, El_protected_layout, El_device_detail] = Scr_page DeviceDetailPage"
proof -
  have "(Some ''/app/devices/:id'', [El_root, El_protected_layout, El_device_detail]) \<in> set (branches (router True))"
    by (simp add: branches_router branches_app)
  from admin_reaches_every_branch [OF _ _ _ this, of _ "sample_user Role_admin True"] show ?thesis
    by (simp add: sample_user_def render_branch_def guarded_def ProtectedRoute_def DeviceDetailRoute_def)
qed

end
