(* ===== verification/Api_Http.thy ===== *)
theory Api_Http
  imports Api_Types Js_String
begin

text \<open>
  The transport of the API client, the first part of src/web/src/lib/api.ts: \<open>apiFetch\<close> and
  \<open>ApiError\<close>, with the library functions the requests are built from (\<open>JSON.stringify\<close>,
  \<open>encodeURIComponent\<close>, \<open>URLSearchParams\<close>) and reference readers for what they produce.  The
  browser's \<open>fetch\<close> is a parameter: a response, or \<open>None\<close> when it rejects.
\<close>

section \<open>\<open>JSON.stringify\<close>\<close>

definition hex_char :: "nat \<Rightarrow> char" where
  "hex_char d = (if d < 10 then char_of (48 + d) else char_of (87 + d))"

fun escape_char :: "char \<Rightarrow> string" where
  "escape_char c =
     (let n = of_char c :: nat in
      if n = 34 then [CHR 0x5C, c]
      else if n = 92 then [c, c]
      else if n = 8 then [CHR 0x5C, CHR ''b'']
      else if n = 9 then [CHR 0x5C, CHR ''t'']
      else if n = 10 then [CHR 0x5C, CHR ''n'']
      else if n = 12 then [CHR 0x5C, CHR ''f'']
      else if n = 13 then [CHR 0x5C, CHR ''r'']
      else if n < 32 then [CHR 0x5C, CHR ''u'', CHR ''0'', CHR ''0'', hex_char (n div 16), hex_char (n mod 16)]
      else [c])"

declare escape_char.simps [simp del]

definition quote :: "string \<Rightarrow> string" where
  "quote s = [CHR 0x22] @ concat (map escape_char s) @ [CHR 0x22]"

fun stringify :: "json \<Rightarrow> string" where
  "stringify JNull = ''null''"
| "stringify (JBool b) = (if b then ''true'' else ''false'')"
| "stringify (JNum x) = num_string x"
| "stringify (JStr s) = quote s"
| "stringify (JArr js) = ''['' @ join_with '','' (map stringify js) @ '']''"
| "stringify (JObj kvs) = ''{'' @ join_with '','' (map (\<lambda>(k, v). quote k @ '':'' @ stringify v) kvs) @ ''}''"

text \<open>An object literal: members that are \<open>undefined\<close> are left out.\<close>

definition json_obj :: "(string \<times> json option) list \<Rightarrow> json" where
  "json_obj kvs = JObj (map (\<lambda>(k, v). (k, the v)) (filter (\<lambda>(k, v). v \<noteq> None) kvs))"

section \<open>Query strings\<close>

definition is_alnum :: "char \<Rightarrow> bool" where
  "is_alnum c \<longleftrightarrow> is_digit c \<or> (65 \<le> (of_char c :: nat) \<and> (of_char c :: nat) \<le> 90) \<or>
     (97 \<le> (of_char c :: nat) \<and> (of_char c :: nat) \<le> 122)"

definition HEX_char :: "nat \<Rightarrow> char" where
  "HEX_char d = (if d < 10 then char_of (48 + d) else char_of (55 + d))"

definition percent :: "char \<Rightarrow> string" where
  "percent c = [CHR ''%'', HEX_char (of_char c div 16), HEX_char (of_char c mod 16)]"

definition encodeURIComponent :: "string \<Rightarrow> string" where
  "encodeURIComponent s =
     concat (map (\<lambda>c. if is_alnum c \<or> c \<in> set ''-_.!~*()'' \<or> of_char c = (39 :: nat) then [c] else percent c) s)"

text \<open>The serializer of \<open>application/x-www-form-urlencoded\<close>.\<close>

definition form_encode :: "string \<Rightarrow> string" where
  "form_encode s =
     concat (map (\<lambda>c. if is_alnum c \<or> c \<in> set ''*-._'' then [c] else if c = CHR '' '' then ''+'' else percent c) s)"

type_synonym params = "(string \<times> string) list"

definition params_set :: "string \<Rightarrow> string \<Rightarrow> params \<Rightarrow> params" where
  "params_set k v ps = AList.update k v ps"

definition params_toString :: "params \<Rightarrow> string" where
  "params_toString ps = join_with ''&'' (map (\<lambda>(k, v). form_encode k @ ''='' @ form_encode v) ps)"

text \<open>\<open>if (x) p.set(k, x)\<close> for an optional string, and \<open>if (x !== undefined) p.set(k, String(x))\<close>
  for an optional number.\<close>

definition set_if_truthy :: "string \<Rightarrow> string option \<Rightarrow> params \<Rightarrow> params" where
  "set_if_truthy k v ps = (case v of None \<Rightarrow> ps | Some s \<Rightarrow> if s = [] then ps else params_set k s ps)"

definition set_if_defined :: "string \<Rightarrow> string option \<Rightarrow> params \<Rightarrow> params" where
  "set_if_defined k v ps = (case v of None \<Rightarrow> ps | Some s \<Rightarrow> params_set k s ps)"

section \<open>\<open>apiFetch\<close>\<close>

record ApiError =
  ae_status :: nat
  ae_code :: json
  ae_message :: json
  ae_requestId :: "json option"

record RequestInit =
  init_method :: string
  init_body :: "string option"

record http_request =
  rq_url :: string
  rq_method :: string
  rq_headers :: "(string \<times> string) list"
  rq_body :: "string option"
  rq_credentials :: string

text \<open>\<open>rs_json\<close> is what \<open>res.json()\<close> resolves to, \<open>None\<close> when it rejects.\<close>

record http_response =
  rs_status :: nat
  rs_statusText :: string
  rs_json :: "json option"

definition rs_ok :: "http_response \<Rightarrow> bool" where
  "rs_ok r \<longleftrightarrow> 200 \<le> rs_status r \<and> rs_status r \<le> 299"

datatype api_failure =
    Api_error ApiError
  | Network_failure
  | Invalid_json
  | Type_error

text \<open>\<open>BASE\<close>: the configured prefix without a trailing slash.\<close>

definition api_base :: "string option \<Rightarrow> string" where
  "api_base vite_api_base =
     (let b = (case vite_api_base of None \<Rightarrow> ''/api/v1'' | Some v \<Rightarrow> v) in
      if b \<noteq> [] \<and> last b = CHR ''/'' then butlast b else b)"

text \<open>\<open>v.k\<close> on a JSON value: \<open>None\<close> when it throws (on null), \<open>Some None\<close> when it is undefined.\<close>

fun get_member :: "json \<Rightarrow> string \<Rightarrow> json option option" where
  "get_member JNull k = None"
| "get_member (JObj kvs) k = Some (map_of kvs k)"
| "get_member _ k = Some None"

text \<open>\<open>v?.k ?? d\<close> for a value that may be undefined.\<close>

definition opt_member :: "json option \<Rightarrow> string \<Rightarrow> json option" where
  "opt_member v k =
     (case v of None \<Rightarrow> None | Some j \<Rightarrow> (case get_member j k of None \<Rightarrow> None | Some r \<Rightarrow> r))"

definition coalesce :: "json option \<Rightarrow> json \<Rightarrow> json" where
  "coalesce v d = (case v of None \<Rightarrow> d | Some JNull \<Rightarrow> d | Some j \<Rightarrow> j)"

definition build_request :: "string \<Rightarrow> string \<Rightarrow> RequestInit \<Rightarrow> http_request" where
  "build_request base path init =
     \<lparr>rq_url = base @ (if startsWith path ''/'' then path else ''/'' @ path),
      rq_method = init_method init,
      rq_headers =
        (if init_body init \<noteq> None \<and> init_body init \<noteq> Some []
         then [(''Content-Type'', ''application/json'')] else []) @ [(''Accept'', ''application/json'')],
      rq_body = init_body init,
      rq_credentials = ''include''\<rparr>"

definition apiFetch ::
  "string \<Rightarrow> (http_request \<Rightarrow> http_response option) \<Rightarrow> string \<Rightarrow> RequestInit \<Rightarrow> api_failure + json option" where
  "apiFetch base fetch path init =
     (case fetch (build_request base path init) of
        None \<Rightarrow> Inl Network_failure
      | Some res \<Rightarrow>
          if \<not> rs_ok res then
            (let body = (case rs_json res of None \<Rightarrow> JObj [] | Some j \<Rightarrow> j) in
             case get_member body ''error'' of
               None \<Rightarrow> Inl Type_error
             | Some err \<Rightarrow>
                 Inl (Api_error
                   \<lparr>ae_status = rs_status res,
                    ae_code = coalesce (opt_member err ''code'') (JStr (''http_'' @ nat_dec (rs_status res))),
                    ae_message = coalesce (opt_member err ''message'') (JStr (rs_statusText res)),
                    ae_requestId = opt_member err ''request_id''\<rparr>))
          else if rs_status res = 204 then Inr None
          else case rs_json res of None \<Rightarrow> Inl Invalid_json | Some j \<Rightarrow> Inr (Some j))"

section \<open>Reading encoded text back\<close>

definition HEX_val :: "char \<Rightarrow> nat" where
  "HEX_val c = (if is_digit c then of_char c - 48 else of_char c - 55)"

text \<open>Percent-decoding; \<open>sp\<close> says whether \<open>+\<close> stands for a space.\<close>

fun percent_decode :: "bool \<Rightarrow> string \<Rightarrow> string" where
  "percent_decode sp [] = []"
| "percent_decode sp (c # cs) =
     (if c = CHR ''%'' then
        (case cs of a # b # ds \<Rightarrow> char_of (16 * HEX_val a + HEX_val b) # percent_decode sp ds | _ \<Rightarrow> c # cs)
      else (if sp \<and> c = CHR ''+'' then CHR '' '' else c) # percent_decode sp cs)"

definition parse_pair :: "string \<Rightarrow> string \<times> string" where
  "parse_pair s =
     (percent_decode True (takeWhile (\<lambda>c. c \<noteq> CHR ''='') s),
      percent_decode True (drop 1 (dropWhile (\<lambda>c. c \<noteq> CHR ''='') s)))"

definition parse_qs :: "string \<Rightarrow> params" where
  "parse_qs s = (if s = [] then [] else map parse_pair (split_on (CHR ''&'') s))"

lemma HEX_val_char [simp]: "d < 16 \<Longrightarrow> HEX_val (HEX_char d) = d"
  by (auto simp: HEX_val_def HEX_char_def is_digit_def)

lemma percent_decode_percent [simp]:
  "percent_decode sp (percent c @ s) = c # percent_decode sp s"
proof -
  have "(of_char c :: nat) < 256" by (rule nat_of_char_less_256)
  then have "of_char c div 16 < (16 :: nat)" by (simp add: div_less_iff_less_mult)
  then show ?thesis by (simp add: percent_def)
qed

text \<open>A byte-wise encoding that percent-encodes the per cent sign (and the plus sign, where it stands
  for a space) is undone by decoding.\<close>

lemma decode_concat:
  assumes "\<And>c. c \<in> set s \<Longrightarrow> enc c = percent c \<or>
      (enc c = [c] \<and> c \<noteq> CHR ''%'' \<and> \<not> (sp \<and> c = CHR ''+'')) \<or> (sp \<and> c = CHR '' '' \<and> enc c = ''+'')"
  shows "percent_decode sp (concat (map enc s) @ rest) = s @ percent_decode sp rest"
  using assms
proof (induction s)
  case (Cons c s)
  have "percent_decode sp (enc c @ t) = c # percent_decode sp t" for t
    using Cons.prems [of c] by auto
  with Cons show ?case by simp
qed simp

lemma plain_percent: "\<not> is_alnum (CHR ''%'')" "\<not> is_alnum (CHR ''+'')" "\<not> is_alnum (CHR '' '')"
  "\<not> is_alnum (CHR ''&'')" "\<not> is_alnum (CHR ''='')"
  by (simp_all add: is_alnum_def is_digit_def)

lemma decode_form [simp]: "percent_decode True (form_encode s) = s"
proof -
  have "percent_decode True (form_encode s @ []) = s @ percent_decode True []"
    unfolding form_encode_def by (rule decode_concat) (auto simp: plain_percent)
  then show ?thesis by simp
qed

lemma decode_component [simp]: "percent_decode False (encodeURIComponent s) = s"
proof -
  have "percent_decode False (encodeURIComponent s @ []) = s @ percent_decode False []"
    unfolding encodeURIComponent_def by (rule decode_concat) (auto simp: plain_percent)
  then show ?thesis by simp
qed

text \<open>Encoded text has no reserved character.\<close>

lemma percent_chars: "x \<in> set (percent c) \<Longrightarrow> x = CHR ''%'' \<or> is_alnum x"
proof -
  have "(of_char c :: nat) < 256" by (rule nat_of_char_less_256)
  then have "of_char c div 16 < (16 :: nat)" by (simp add: div_less_iff_less_mult)
  moreover have "is_alnum (HEX_char d)" if "d < 16" for d
    using that by (auto simp: HEX_char_def is_alnum_def is_digit_def)
  ultimately show "x \<in> set (percent c) \<Longrightarrow> ?thesis" by (auto simp: percent_def)
qed

lemma form_encode_chars: "x \<in> set (form_encode s) \<Longrightarrow> is_alnum x \<or> x \<in> set ''*-._+%''"
  by (auto simp: form_encode_def split: if_splits dest: percent_chars)

lemma form_encode_reserved [simp]:
  "CHR ''&'' \<notin> set (form_encode s)" "CHR ''='' \<notin> set (form_encode s)"
  using form_encode_chars [of "CHR ''&''" s] form_encode_chars [of "CHR ''=''" s]
  by (auto simp: plain_percent)

lemma parse_pair_encoded: "parse_pair (form_encode k @ ''='' @ form_encode v) = (k, v)"
proof -
  have "takeWhile (\<lambda>c. c \<noteq> CHR ''='') (form_encode k @ CHR ''='' # form_encode v) = form_encode k"
    by (subst takeWhile_append2) auto
  moreover have "dropWhile (\<lambda>c. c \<noteq> CHR ''='') (form_encode k @ CHR ''='' # form_encode v) = CHR ''='' # form_encode v"
    by (subst dropWhile_append2) auto
  ultimately show ?thesis by (simp add: parse_pair_def)
qed

text \<open>A query string decodes to the parameters it was made from, whatever characters they contain.\<close>

lemma join_with_ne: "ps \<noteq> [] \<Longrightarrow> list_all (\<lambda>p. p \<noteq> []) ps \<Longrightarrow> join_with sep ps \<noteq> []"
  by (induction sep ps rule: join_with.induct) auto

lemma parse_params_toString: "parse_qs (params_toString ps) = ps"
proof (cases "ps = []")
  case False
  let ?f = "\<lambda>(k, v). form_encode k @ ''='' @ form_encode v"
  have ne: "params_toString ps \<noteq> []"
    unfolding params_toString_def by (rule join_with_ne) (use False in \<open>auto simp: list_all_iff\<close>)
  have "split_on (CHR ''&'') (params_toString ps) = map ?f ps"
    unfolding params_toString_def by (rule split_join) (use False in \<open>auto simp: list_all_iff\<close>)
  then show ?thesis
    using ne by (simp add: parse_qs_def comp_def case_prod_beta' parse_pair_encoded [simplified])
qed (simp add: parse_qs_def params_toString_def)

end
