(* ===== verification/Json_Read.thy ===== *)
theory Json_Read
  imports Api_Http
begin

text \<open>
  A reference reader of JSON texts, as a server decodes a request body, and the proof that it reads
  back what \<open>JSON.stringify\<close> produces: no string can escape from its quotes, and no member is lost
  or merged.  The reader spends one unit of fuel per value or list element; the length of the text is
  enough.
\<close>

section \<open>The reader\<close>

definition hex_val :: "char \<Rightarrow> nat" where
  "hex_val c = (if is_digit c then of_char c - 48 else of_char c - 87)"

fun unescape :: "char \<Rightarrow> char" where
  "unescape e =
     (if e = CHR ''b'' then char_of (8 :: nat) else if e = CHR ''t'' then char_of (9 :: nat)
      else if e = CHR ''n'' then char_of (10 :: nat) else if e = CHR ''f'' then char_of (12 :: nat)
      else if e = CHR ''r'' then char_of (13 :: nat) else e)"

fun read_str :: "string \<Rightarrow> (string \<times> string) option" where
  "read_str [] = None"
| "read_str (c # cs) =
     (if c = CHR 0x22 then Some ([], cs)
      else if c = CHR 0x5C then
        (case cs of
           [] \<Rightarrow> None
         | e # ds \<Rightarrow>
             if e = CHR ''u'' then
               (case ds of
                  _ # _ # a # b # rest \<Rightarrow>
                    map_option (\<lambda>(t, r). (char_of (16 * hex_val a + hex_val b) # t, r)) (read_str rest)
                | _ \<Rightarrow> None)
             else map_option (\<lambda>(t, r). (unescape e # t, r)) (read_str ds))
      else map_option (\<lambda>(t, r). (c # t, r)) (read_str cs))"

definition read_prefix :: "string \<Rightarrow> json \<Rightarrow> string \<Rightarrow> (json \<times> string) option" where
  "read_prefix p j s = (if startsWith s p then Some (j, drop (length p) s) else None)"

definition read_number :: "string \<Rightarrow> (json \<times> string) option" where
  "read_number s =
     (let neg = startsWith s ''-''; t = (if neg then drop 1 s else s); ds = takeWhile is_digit t in
      if ds = [] then None
      else Some (JNum ((if neg then - 1 else 1) * of_nat (dec_val ds)), drop (length ds) t))"

fun read_value :: "nat \<Rightarrow> string \<Rightarrow> (json \<times> string) option"
and read_elems :: "nat \<Rightarrow> string \<Rightarrow> (json list \<times> string) option"
and read_members :: "nat \<Rightarrow> string \<Rightarrow> ((string \<times> json) list \<times> string) option"
where
  "read_value 0 s = None"
| "read_value (Suc n) s =
     (case s of
        [] \<Rightarrow> None
      | c # cs \<Rightarrow>
          if c = CHR ''n'' then read_prefix ''null'' JNull s
          else if c = CHR ''t'' then read_prefix ''true'' (JBool True) s
          else if c = CHR ''f'' then read_prefix ''false'' (JBool False) s
          else if c = CHR 0x22 then map_option (\<lambda>(t, r). (JStr t, r)) (read_str cs)
          else if c = CHR ''['' then
            (if startsWith cs '']'' then Some (JArr [], drop 1 cs)
             else map_option (\<lambda>(js, r). (JArr js, r)) (read_elems n cs))
          else if c = CHR ''{'' then
            (if startsWith cs ''}'' then Some (JObj [], drop 1 cs)
             else map_option (\<lambda>(ms, r). (JObj ms, r)) (read_members n cs))
          else read_number s)"
| "read_elems 0 s = None"
| "read_elems (Suc n) s =
     (case read_value n s of
        None \<Rightarrow> None
      | Some (j, r) \<Rightarrow>
          if startsWith r '','' then map_option (\<lambda>(js, q). (j # js, q)) (read_elems n (drop 1 r))
          else if startsWith r '']'' then Some ([j], drop 1 r) else None)"
| "read_members 0 s = None"
| "read_members (Suc n) s =
     (if \<not> startsWith s [CHR 0x22] then None
      else case read_str (drop 1 s) of
        None \<Rightarrow> None
      | Some (k, r) \<Rightarrow>
          if \<not> startsWith r '':'' then None
          else (case read_value n (drop 1 r) of
                  None \<Rightarrow> None
                | Some (j, q) \<Rightarrow>
                    if startsWith q '','' then map_option (\<lambda>(ms, p). ((k, j) # ms, p)) (read_members n (drop 1 q))
                    else if startsWith q ''}'' then Some ([(k, j)], drop 1 q) else None))"

definition read_json :: "string \<Rightarrow> json option" where
  "read_json s =
     (case read_value (length s) s of Some (j, r) \<Rightarrow> if r = [] then Some j else None | None \<Rightarrow> None)"

section \<open>Strings\<close>

lemma hex_val_char: "d < 16 \<Longrightarrow> hex_val (hex_char d) = d"
  by (auto simp: hex_val_def hex_char_def is_digit_def)

lemma char_codes:
  "char_of (8 :: nat) = CHR 0x08" "char_of (9 :: nat) = CHR 0x09" "char_of (10 :: nat) = CHR 0x0A"
  "char_of (12 :: nat) = CHR 0x0C" "char_of (13 :: nat) = CHR 0x0D" "char_of (34 :: nat) = CHR 0x22"
  "char_of (92 :: nat) = CHR 0x5C"
  by code_simp+

lemma char_by_code: "(of_char c :: nat) = n \<Longrightarrow> c = char_of n"
  by auto

lemma read_escape: "read_str (escape_char c @ s) = map_option (\<lambda>(t, r). (c # t, r)) (read_str s)"
proof -
  let ?n = "of_char c :: nat"
  consider "?n \<in> {34, 92, 8, 9, 10, 12, 13}"
    | "?n < 32" "?n \<notin> {8, 9, 10, 12, 13}" | "32 \<le> ?n" "?n \<noteq> 34" "?n \<noteq> 92" by fastforce
  then show ?thesis
  proof cases
    case 1
    then have "c \<in> {CHR 0x22, CHR 0x5C, CHR 0x08, CHR 0x09, CHR 0x0A, CHR 0x0C, CHR 0x0D}"
      by (auto dest!: char_by_code simp: char_codes)
    then show ?thesis by (auto simp: escape_char.simps char_codes)
  next
    case 2
    then have "16 * hex_val (hex_char (?n div 16)) + hex_val (hex_char (?n mod 16)) = ?n"
      by (simp add: hex_val_char)
    moreover have "escape_char c = [CHR 0x5C, CHR ''u'', CHR ''0'', CHR ''0'', hex_char (?n div 16), hex_char (?n mod 16)]"
      using 2 by (simp add: escape_char.simps Let_def)
    ultimately show ?thesis by simp
  next
    case 3
    then have "escape_char c = [c]" "c \<noteq> CHR 0x22" "c \<noteq> CHR 0x5C"
      by (auto simp: escape_char.simps Let_def)
    then show ?thesis by simp
  qed
qed

lemma read_str_quote: "read_str (concat (map escape_char s) @ CHR 0x22 # r) = Some (s, r)"
  by (induction s) (simp_all add: read_escape)

section \<open>Values\<close>

text \<open>JSON whose numbers are integers that \<open>String\<close> prints in full.\<close>

fun json_ok :: "json \<Rightarrow> bool" where
  "json_ok (JNum x) = (x = of_int \<lfloor>x\<rfloor> \<and> \<bar>x\<bar> < 10 ^ 21)"
| "json_ok (JArr js) = list_all json_ok js"
| "json_ok (JObj kvs) = list_all (\<lambda>(k, v). json_ok v) kvs"
| "json_ok _ = True"

text \<open>What may follow a value in a text: nothing that continues a numeral.\<close>

definition ends_number :: "string \<Rightarrow> bool" where
  "ends_number r \<longleftrightarrow> r = [] \<or> \<not> is_digit (hd r)"

lemma ends_number_simps [simp]:
  "ends_number []" "ends_number (c # cs) \<longleftrightarrow> \<not> is_digit c"
  by (simp_all add: ends_number_def)

lemma takeWhile_digits:
  "list_all is_digit ds \<Longrightarrow> ends_number r \<Longrightarrow> takeWhile is_digit (ds @ r) = ds"
  by (induction ds) (cases r; simp)+

lemma read_number_int_dec:
  assumes "ends_number r"
  shows "read_number (int_dec i @ r) = Some (JNum (of_int i), r)"
proof -
  have tw: "takeWhile is_digit (nat_dec n @ r) = nat_dec n" for n
    by (rule takeWhile_digits [OF digits_nat_dec assms])
  have no_minus: "\<not> startsWith (nat_dec n @ r) ''-''" for n
  proof -
    have "is_digit (hd (nat_dec n))"
      using digits_nat_dec [of n] nat_dec_ne [of n] by (cases "nat_dec n") simp_all
    then show ?thesis
      using nat_dec_ne [of n] by (cases "nat_dec n") (auto simp: startsWith_def is_digit_def)
  qed
  show ?thesis
  proof (cases "i < 0")
    case True
    then show ?thesis
      by (simp add: read_number_def int_dec_def startsWith_def Let_def tw)
  next
    case False
    then show ?thesis
      using no_minus by (simp add: read_number_def Let_def tw)
  qed
qed

lemma int_dec_head: "int_dec i = c # cs \<Longrightarrow> is_digit c \<or> c = CHR ''-''"
  by (auto simp: int_dec_def split: if_splits) (metis digits_nat_dec list.pred_inject(2))

text \<open>The first character of a printed value decides how it is read.\<close>

lemma read_value_number:
  assumes "ends_number r"
  shows "read_value (Suc n) (int_dec i @ r) = Some (JNum (of_int i), r)"
proof -
  obtain c cs where c: "int_dec i = c # cs"
    by (cases "int_dec i") (simp_all add: int_dec_def split: if_splits)
  from int_dec_head [OF c] have "c \<notin> set ''ntf[{'' \<and> c \<noteq> CHR 0x22"
    by (auto simp: is_digit_def)
  then show ?thesis
    using read_number_int_dec [OF assms, of i] by (simp add: c)
qed

lemma startsWith_Cons [simp]: "startsWith (c # s) [d] \<longleftrightarrow> c = d"
  by (auto simp: startsWith_def)

text \<open>The first character of a printed value closes no bracket.\<close>

lemma stringify_head:
  assumes "json_ok j"
  shows "\<exists>c cs. stringify j = c # cs \<and> c \<noteq> CHR '']'' \<and> c \<noteq> CHR ''}''"
proof (cases j)
  case (JNum x)
  then have "stringify j = int_dec \<lfloor>x\<rfloor>" using assms by (simp add: num_string_def)
  then show ?thesis
    using int_dec_head [of "\<lfloor>x\<rfloor>"] by (cases "int_dec \<lfloor>x\<rfloor>") (auto simp: int_dec_def is_digit_def split: if_splits)
qed (simp_all add: quote_def)

text \<open>Fuel: one unit per value, element and member.\<close>

fun json_fuel :: "json \<Rightarrow> nat" where
  "json_fuel (JArr js) = 1 + sum_list (map (\<lambda>j. 1 + json_fuel j) js)"
| "json_fuel (JObj kvs) = 1 + sum_list (map (\<lambda>(k, j). 1 + json_fuel j) kvs)"
| "json_fuel (JNum x) = 1"
| "json_fuel (JStr s) = 1"
| "json_fuel JNull = 1"
| "json_fuel (JBool b) = 1"

definition reads_back :: "json \<Rightarrow> bool" where
  "reads_back j \<longleftrightarrow> (\<forall>n r. json_fuel j \<le> n \<longrightarrow> ends_number r \<longrightarrow> read_value n (stringify j @ r) = Some (j, r))"

lemma read_elems_back:
  assumes "list_all reads_back js" and "js \<noteq> []" and "sum_list (map (\<lambda>j. 1 + json_fuel j) js) \<le> n"
  shows "read_elems n (join_with '','' (map stringify js) @ '']'' @ r) = Some (js, r)"
  using assms
proof (induction js arbitrary: n)
  case (Cons j js)
  then obtain m where n: "n = Suc m" by (cases n) auto
  have j: "read_value m (stringify j @ s) = Some (j, s)" if "ends_number s" for s
    using Cons.prems that by (simp add: n reads_back_def)
  show ?case
  proof (cases "js = []")
    case True
    with j [of "'']'' @ r"] show ?thesis by (simp add: n is_digit_def)
  next
    case False
    then have "read_elems m (join_with '','' (map stringify js) @ '']'' @ r) = Some (js, r)"
      using Cons.prems by (intro Cons.IH) (auto simp: n)
    with j [of "'','' @ join_with '','' (map stringify js) @ '']'' @ r"] show ?thesis
      using False by (cases js) (simp_all add: n is_digit_def)
  qed
qed simp

lemma read_members_back:
  assumes "list_all (\<lambda>(k, j). reads_back j) kvs" and "kvs \<noteq> []"
    and "sum_list (map (\<lambda>(k, j). 1 + json_fuel j) kvs) \<le> n"
  shows "read_members n (join_with '','' (map (\<lambda>(k, v). quote k @ '':'' @ stringify v) kvs) @ ''}'' @ r) =
    Some (kvs, r)"
  using assms
proof (induction kvs arbitrary: n)
  case (Cons kv kvs)
  obtain k j where kv: "kv = (k, j)" by (cases kv)
  from Cons.prems kv obtain m where n: "n = Suc m" by (cases n) auto
  have k: "read_str (concat (map escape_char k) @ CHR 0x22 # s) = Some (k, s)" for s
    by (rule read_str_quote)
  have j: "read_value m (stringify j @ s) = Some (j, s)" if "ends_number s" for s
    using Cons.prems that by (simp add: n kv reads_back_def)
  show ?case
  proof (cases "kvs = []")
    case True
    with j [of "''}'' @ r"] show ?thesis by (simp add: n kv quote_def k is_digit_def)
  next
    case False
    then have "read_members m (join_with '','' (map (\<lambda>(k, v). quote k @ '':'' @ stringify v) kvs) @ ''}'' @ r) =
        Some (kvs, r)"
      using Cons.prems by (intro Cons.IH) (auto simp: n kv)
    with j [of "'','' @ join_with '','' (map (\<lambda>(k, v). quote k @ '':'' @ stringify v) kvs) @ ''}'' @ r"]
    show ?thesis using False by (cases kvs) (simp_all add: n kv quote_def k is_digit_def)
  qed
qed simp

text \<open>Every value is read back, by induction on its structure.\<close>

lemma reads_back_all: "json_ok j \<Longrightarrow> reads_back j"
proof (induction j rule: json_fuel.induct)
  case (1 js)
  then have all: "list_all reads_back js" by (auto simp: list_all_iff)
  show ?case
    unfolding reads_back_def
  proof (intro allI impI)
    fix n r
    assume fuel: "json_fuel (JArr js) \<le> n" and "ends_number r"
    then obtain m where n: "n = Suc m" and m: "sum_list (map (\<lambda>j. 1 + json_fuel j) js) \<le> m"
      by (cases n) auto
    show "read_value n (stringify (JArr js) @ r) = Some (JArr js, r)"
    proof (cases "js = []")
      case True
      then show ?thesis by (simp add: n)
    next
      case False
      then obtain c cs where "join_with '','' (map stringify js) = c # cs" "c \<noteq> CHR '']''"
        using "1.prems" stringify_head [of "hd js"]
        by (cases js; cases "tl js") auto
      then show ?thesis
        using read_elems_back [OF all False m, of r] by (simp add: n)
    qed
  qed
next
  case (2 kvs)
  then have all: "list_all (\<lambda>(k, j). reads_back j) kvs" by (fastforce simp: list_all_iff)
  show ?case
    unfolding reads_back_def
  proof (intro allI impI)
    fix n r
    assume fuel: "json_fuel (JObj kvs) \<le> n" and "ends_number r"
    then obtain m where n: "n = Suc m" and m: "sum_list (map (\<lambda>(k, j). 1 + json_fuel j) kvs) \<le> m"
      by (cases n) auto
    show "read_value n (stringify (JObj kvs) @ r) = Some (JObj kvs, r)"
    proof (cases "kvs = []")
      case True
      then show ?thesis by (simp add: n)
    next
      case False
      then obtain cs where "join_with '','' (map (\<lambda>(k, v). quote k @ '':'' @ stringify v) kvs) = CHR 0x22 # cs"
        by (cases kvs; cases "tl kvs") (auto simp: quote_def)
      then show ?thesis
        using read_members_back [OF all False m, of r] by (simp add: n)
    qed
  qed
next
  case (3 x)
  then have x: "stringify (JNum x) = int_dec \<lfloor>x\<rfloor>" "x = of_int \<lfloor>x\<rfloor>" by (simp_all add: num_string_def)
  show ?case
    unfolding reads_back_def
  proof (intro allI impI)
    fix n r
    assume "json_fuel (JNum x) \<le> n" and r: "ends_number r"
    then obtain m where "n = Suc m" by (cases n) auto
    then show "read_value n (stringify (JNum x) @ r) = Some (JNum x, r)"
      using read_value_number [OF r, of m "\<lfloor>x\<rfloor>"] x by simp
  qed
next
  case (4 s)
  show ?case
    unfolding reads_back_def
  proof (intro allI impI)
    fix n r
    assume "json_fuel (JStr s) \<le> n"
    then obtain m where "n = Suc m" by (cases n) auto
    then show "read_value n (stringify (JStr s) @ r) = Some (JStr s, r)"
      by (simp add: quote_def read_str_quote)
  qed
qed (auto simp: reads_back_def read_prefix_def startsWith_def Suc_le_eq gr0_conv_Suc)

text \<open>The text of a value is at least as long as the fuel it needs.\<close>

lemma join_length:
  "ps \<noteq> [] \<Longrightarrow> length (join_with '','' ps) + 1 = sum_list (map (\<lambda>p. 1 + length p) ps)"
  by (induction "'',''" ps rule: join_with.induct) auto

lemma length_quote: "2 \<le> length (quote s)"
  by (simp add: quote_def)

lemma fuel_le_length: "json_ok j \<Longrightarrow> json_fuel j \<le> length (stringify j)"
proof (induction j rule: json_fuel.induct)
  case (1 js)
  then have "sum_list (map (\<lambda>j. 1 + json_fuel j) js) \<le> sum_list (map (\<lambda>j. 1 + length (stringify j)) js)"
    by (intro sum_list_mono) (auto simp: list_all_iff)
  then show ?case
    using join_length [of "map stringify js"] by (cases "js = []") (simp_all add: comp_def)
next
  case (2 kvs)
  then have "sum_list (map (\<lambda>(k, j). 1 + json_fuel j) kvs) \<le>
      sum_list (map (\<lambda>kv. 1 + length (case kv of (k, v) \<Rightarrow> quote k @ '':'' @ stringify v)) kvs)"
    by (intro sum_list_mono) (fastforce simp: list_all_iff intro: trans_le_add2)
  then show ?case
    using join_length [of "map (\<lambda>(k, v). quote k @ '':'' @ stringify v) kvs"]
    by (cases "kvs = []") (simp_all add: comp_def)
next
  case (3 x)
  then show ?case by (simp add: num_string_def int_dec_def Suc_le_eq)
qed (simp_all add: quote_def)

text \<open>For every JSON value whose numbers are integers, decoding the text \<open>JSON.stringify\<close> makes gives
  exactly that value, whatever quotes, backslashes and control characters its strings and member names
  contain.\<close>

lemma stringify_reads_back:
  assumes "json_ok j"
  shows "read_json (stringify j) = Some j"
proof -
  have "read_value (length (stringify j)) (stringify j @ []) = Some (j, [])"
    using reads_back_all [OF assms] fuel_le_length [OF assms] ends_number_simps(1)
    unfolding reads_back_def by blast
  then show ?thesis by (simp add: read_json_def)
qed

end
