(* ===== verification/Api_Client.thy ===== *)
theory Api_Client
  imports Json_Read
begin

text \<open>
  The operations of the API client, src/web/src/lib/api.ts: one definition per exported function,
  giving the path and the \<open>RequestInit\<close> it passes to \<open>apiFetch\<close>; default arguments are written
  at the call sites.  Ids are interpolated into the paths as they are; \<open>safe_id\<close> says which ids stay
  within their segment.
\<close>

section \<open>Requests\<close>

record api_request =
  ap_path :: string
  ap_init :: RequestInit

definition send_GET :: "string \<Rightarrow> api_request" where
  "send_GET p = \<lparr>ap_path = p, ap_init = \<lparr>init_method = ''GET'', init_body = None\<rparr>\<rparr>"

definition send_POST :: "string \<Rightarrow> api_request" where
  "send_POST p = \<lparr>ap_path = p, ap_init = \<lparr>init_method = ''POST'', init_body = None\<rparr>\<rparr>"

definition send_DELETE :: "string \<Rightarrow> api_request" where
  "send_DELETE p = \<lparr>ap_path = p, ap_init = \<lparr>init_method = ''DELETE'', init_body = None\<rparr>\<rparr>"

definition send_json :: "string \<Rightarrow> string \<Rightarrow> json \<Rightarrow> api_request" where
  "send_json m p j = \<lparr>ap_path = p, ap_init = \<lparr>init_method = m, init_body = Some (stringify j)\<rparr>\<rparr>"

lemmas send_defs = send_GET_def send_POST_def send_DELETE_def send_json_def

section \<open>Bodies\<close>

record SaveHostAccessRule =
  shr_name :: string
  shr_description :: string
  shr_protocol :: Protocol
  shr_gateway_port :: number
  shr_backend_ip :: string
  shr_backend_port :: number
  shr_enabled :: bool
  shr_allow_all_peers :: bool
  shr_device_ids :: "string list"

definition save_rule_json :: "SaveHostAccessRule \<Rightarrow> json" where
  "save_rule_json b = JObj
     [(''name'', JStr (shr_name b)), (''description'', JStr (shr_description b)),
      (''protocol'', JStr (Protocol_str (shr_protocol b))), (''gateway_port'', JNum (shr_gateway_port b)),
      (''backend_ip'', JStr (shr_backend_ip b)), (''backend_port'', JNum (shr_backend_port b)),
      (''enabled'', JBool (shr_enabled b)), (''allow_all_peers'', JBool (shr_allow_all_peers b)),
      (''device_ids'', JArr (map JStr (shr_device_ids b)))]"

record CreateDeviceBody =
  cdb_name :: string
  cdb_os :: "DeviceOs option"
  cdb_device_type :: "DeviceType option"
  cdb_allocated_ip :: "string option"
  cdb_monthly_byte_cap :: "number option option"

definition create_device_json :: "CreateDeviceBody \<Rightarrow> json" where
  "create_device_json b = json_obj
     [(''name'', Some (JStr (cdb_name b))), (''os'', map_option (JStr \<circ> DeviceOs_str) (cdb_os b)),
      (''device_type'', map_option (JStr \<circ> DeviceType_str) (cdb_device_type b)),
      (''allocated_ip'', map_option JStr (cdb_allocated_ip b)),
      (''monthly_byte_cap'',
         map_option (\<lambda>c. case c of None \<Rightarrow> JNull | Some n \<Rightarrow> JNum n) (cdb_monthly_byte_cap b))]"

record PatchDeviceBody =
  pdb_name :: "string option"
  pdb_os :: "DeviceOs option"
  pdb_device_type :: "DeviceType option"

definition patch_device_json :: "PatchDeviceBody \<Rightarrow> json" where
  "patch_device_json b = json_obj
     [(''name'', map_option JStr (pdb_name b)), (''os'', map_option (JStr \<circ> DeviceOs_str) (pdb_os b)),
      (''device_type'', map_option (JStr \<circ> DeviceType_str) (pdb_device_type b))]"

record PatchServerBody =
  psb_endpoint_host :: "string option"
  psb_endpoint_port :: "number option"
  psb_mtu :: "number option"
  psb_persistent_keepalive :: "number option"
  psb_name :: "string option"

definition patch_server_json :: "PatchServerBody \<Rightarrow> json" where
  "patch_server_json b = json_obj
     [(''endpoint_host'', map_option JStr (psb_endpoint_host b)),
      (''endpoint_port'', map_option JNum (psb_endpoint_port b)), (''mtu'', map_option JNum (psb_mtu b)),
      (''persistent_keepalive'', map_option JNum (psb_persistent_keepalive b)),
      (''name'', map_option JStr (psb_name b))]"

definition quota_json :: "number option \<Rightarrow> json" where
  "quota_json cap = JObj [(''monthly_byte_cap'', case cap of None \<Rightarrow> JNull | Some n \<Rightarrow> JNum n)]"

definition position_json :: "TopologyPosition \<Rightarrow> json" where
  "position_json p = JObj [(''x'', JNum (tp_x p)), (''y'', JNum (tp_y p))]"

section \<open>Query strings\<close>

definition qs_suffix :: "params \<Rightarrow> string" where
  "qs_suffix ps = (let qs = params_toString ps in if qs \<noteq> [] then ''?'' @ qs else [])"

definition historyQs :: "HistoryOpts option \<Rightarrow> string" where
  "historyQs opts =
     (case opts of
        None \<Rightarrow> []
      | Some o' \<Rightarrow>
          qs_suffix (set_if_defined ''limit'' (map_option num_string (ho_limit o'))
            (set_if_truthy ''to'' (ho_to o') (set_if_truthy ''from'' (ho_from o') []))))"

definition candleQs :: "Timeframe \<Rightarrow> number \<Rightarrow> string option \<Rightarrow> string" where
  "candleQs tf limit before =
     params_toString (set_if_truthy ''before'' before
       [(''tf'', Timeframe_str tf), (''limit'', num_string limit)])"

definition bool_str :: "bool \<Rightarrow> string" where
  "bool_str b = (if b then ''true'' else ''false'')"

definition adminUserListQs ::
  "AdminUserListFilters \<Rightarrow> number option \<Rightarrow> number option \<Rightarrow> string" where
  "adminUserListQs f limit offset =
     params_toString
       (set_if_defined ''offset'' (map_option num_string offset)
       (set_if_defined ''limit'' (map_option num_string limit)
       (set_if_defined ''totp_enabled'' (map_option bool_str (auf_totp_enabled f))
       (set_if_defined ''role'' (map_option UserRole_str (auf_role f))
       (set_if_defined ''status'' (map_option UserStatus_str (auf_status f))
       (set_if_truthy ''q'' (auf_q f) []))))))"

definition adminAuditQs :: "AdminAuditFilters \<Rightarrow> number option \<Rightarrow> number option \<Rightarrow> string" where
  "adminAuditQs f limit offset =
     params_toString
       (set_if_defined ''offset'' (map_option num_string offset)
       (set_if_defined ''limit'' (map_option num_string limit)
       (set_if_truthy ''until'' (aaf_until f)
       (set_if_truthy ''since'' (aaf_since f)
       (set_if_truthy ''target_type'' (aaf_target_type f)
       (set_if_truthy ''target_id'' (aaf_target_id f)
       (set_if_truthy ''actor_user_id'' (aaf_actor_user_id f)
       (set_if_truthy ''action'' (aaf_action f) []))))))))"

definition adminAuditCsvUrl :: "AdminAuditFilters \<Rightarrow> number \<Rightarrow> string" where
  "adminAuditCsvUrl filters limit = ''/api/v1/admin/audit.csv?'' @ adminAuditQs filters (Some limit) None"

definition adminSessionEventsQs :: "AdminSessionEventFilters \<Rightarrow> number \<Rightarrow> number \<Rightarrow> string" where
  "adminSessionEventsQs f limit offset =
     params_toString
       (set_if_truthy ''until'' (asf_until f)
       (set_if_truthy ''since'' (asf_since f)
       (set_if_truthy ''ip'' (asf_ip f)
       (set_if_defined ''event'' (map_option SessionEventKind_str (asf_event f))
       (set_if_truthy ''user_id'' (asf_user_id f)
       (params_set ''offset'' (num_string offset)
       (params_set ''limit'' (num_string limit) [])))))))"

definition adminAccessLogsQs :: "AdminAccessLogFilters \<Rightarrow> number \<Rightarrow> number \<Rightarrow> string" where
  "adminAccessLogsQs f limit offset =
     params_toString
       (set_if_truthy ''until'' (alf_until f)
       (set_if_truthy ''since'' (alf_since f)
       (set_if_truthy ''ip'' (alf_ip f)
       (set_if_defined ''status_max'' (map_option num_string (alf_status_max f))
       (set_if_defined ''status_min'' (map_option num_string (alf_status_min f))
       (set_if_truthy ''path'' (alf_path f)
       (set_if_truthy ''method'' (alf_method f)
       (set_if_truthy ''user_id'' (alf_user_id f)
       (params_set ''offset'' (num_string offset)
       (params_set ''limit'' (num_string limit) []))))))))))"

definition googleStartUrl :: "string \<Rightarrow> string" where
  "googleStartUrl base = base @ ''/auth/google/start''"

section \<open>Operations\<close>

definition adminListHostAccess :: api_request where
  "adminListHostAccess = send_GET ''/admin/host-access''"

definition adminHostAgentStatus :: api_request where
  "adminHostAgentStatus = send_GET ''/admin/host-agent-status''"

definition adminListHostAccessDevices :: api_request where
  "adminListHostAccessDevices = send_GET ''/admin/host-access/devices''"

definition adminCreateHostAccess :: "SaveHostAccessRule \<Rightarrow> api_request" where
  "adminCreateHostAccess body = send_json ''POST'' (''/admin/host-access'') (save_rule_json body)"

definition adminUpdateHostAccess :: "string \<Rightarrow> SaveHostAccessRule \<Rightarrow> api_request" where
  "adminUpdateHostAccess did body =
     send_json ''PUT'' (''/admin/host-access/'' @ did) (save_rule_json body)"

definition adminDeleteHostAccess :: "string \<Rightarrow> api_request" where
  "adminDeleteHostAccess did = send_DELETE (''/admin/host-access/'' @ did)"

definition logout :: api_request where
  "logout = send_POST ''/auth/logout''"

definition verifyInvitation :: "string \<Rightarrow> api_request" where
  "verifyInvitation token =
     send_json ''POST'' (''/auth/invitations/verify'') (JObj [(''token'', JStr token)])"

definition adminListInvitations :: api_request where
  "adminListInvitations = send_GET ''/admin/invitations''"

definition adminResendInvitation :: "string \<Rightarrow> api_request" where
  "adminResendInvitation did = send_POST (''/admin/invitations/'' @ did @ ''/resend'')"

definition adminCreateInvitationLink :: "string \<Rightarrow> api_request" where
  "adminCreateInvitationLink did = send_POST (''/admin/invitations/'' @ did @ ''/link'')"

definition adminRevokeInvitation :: "string \<Rightarrow> api_request" where
  "adminRevokeInvitation did = send_POST (''/admin/invitations/'' @ did @ ''/revoke'')"

definition googleCallback :: "string \<Rightarrow> string \<Rightarrow> api_request" where
  "googleCallback code st =
     send_json ''POST'' (''/auth/google/callback'') (JObj [(''code'', JStr code), (''state'', JStr st)])"

definition googleVerifyTotp :: "string \<Rightarrow> api_request" where
  "googleVerifyTotp totp_code =
     send_json ''POST'' (''/auth/google/verify-totp'') (JObj [(''totp_code'', JStr totp_code)])"

definition me :: api_request where
  "me = send_GET ''/me''"

definition meServer :: api_request where
  "meServer = send_GET ''/me/server''"

definition myUsage :: api_request where
  "myUsage = send_GET ''/me/usage''"

definition listMyActivity :: "number \<Rightarrow> number \<Rightarrow> api_request" where
  "listMyActivity limit offset =
     send_GET (''/me/activity?limit='' @ num_string limit @ ''&offset='' @ num_string offset)"

definition getMyPreferences :: api_request where
  "getMyPreferences = send_GET ''/me/preferences''"

definition setMyPreferences :: "(string \<times> json) list \<Rightarrow> api_request" where
  "setMyPreferences patch = send_json ''PUT'' (''/me/preferences'') (JObj patch)"

definition getMyTopology :: api_request where
  "getMyTopology = send_GET ''/me/topology''"

definition setMyTopology :: "TopologyPosition Record \<Rightarrow> api_request" where
  "setMyTopology positions =
     send_json ''PUT'' (''/me/topology'') (JObj [(''positions'', JObj (map (\<lambda>(k, p). (k, position_json p)) positions))])"

definition revokeOtherSessions :: api_request where
  "revokeOtherSessions = send_POST ''/me/sessions/revoke-all''"

definition mySessions :: api_request where
  "mySessions = send_GET ''/me/sessions''"

definition revokeSession :: "string \<Rightarrow> api_request" where
  "revokeSession did = send_DELETE (''/me/sessions/'' @ did)"

definition listDevices :: api_request where
  "listDevices = send_GET ''/devices''"

definition getDevice :: "string \<Rightarrow> api_request" where
  "getDevice did = send_GET (''/devices/'' @ did)"

definition createDevice :: "CreateDeviceBody \<Rightarrow> api_request" where
  "createDevice body = send_json ''POST'' (''/devices'') (create_device_json body)"

definition redownloadDeviceConf :: "string \<Rightarrow> api_request" where
  "redownloadDeviceConf did = send_GET (''/devices/'' @ did @ ''/conf'')"

definition patchDevice :: "string \<Rightarrow> PatchDeviceBody \<Rightarrow> api_request" where
  "patchDevice did body = send_json ''PATCH'' (''/devices/'' @ did) (patch_device_json body)"

definition deleteDevice :: "string \<Rightarrow> api_request" where
  "deleteDevice did = send_DELETE (''/devices/'' @ did)"

definition pauseDevice :: "string \<Rightarrow> api_request" where
  "pauseDevice did = send_POST (''/devices/'' @ did @ ''/pause'')"

definition unpauseDevice :: "string \<Rightarrow> api_request" where
  "unpauseDevice did = send_POST (''/devices/'' @ did @ ''/unpause'')"

definition rotateDeviceKeys :: "string \<Rightarrow> api_request" where
  "rotateDeviceKeys did = send_POST (''/devices/'' @ did @ ''/rotate-keys'')"

definition reorderDevices :: "string list \<Rightarrow> api_request" where
  "reorderDevices ids = send_json ''PUT'' (''/devices/order'') (JObj [(''ids'', JArr (map JStr ids))])"

definition setMyDeviceQuota :: "string \<Rightarrow> number option \<Rightarrow> api_request" where
  "setMyDeviceQuota did monthly_byte_cap =
     send_json ''PUT'' (''/devices/'' @ did @ ''/quota'') (quota_json monthly_byte_cap)"

definition listDeviceEvents :: "string \<Rightarrow> number option \<Rightarrow> number option \<Rightarrow> api_request" where
  "listDeviceEvents did limit beforeId =
     send_GET (''/devices/'' @ did @ ''/events'' @ qs_suffix (set_if_defined ''before_id'' (map_option num_string beforeId) (set_if_defined ''limit'' (map_option num_string limit) [])))"

definition deviceHistory :: "string \<Rightarrow> HistoryOpts option \<Rightarrow> api_request" where
  "deviceHistory did opts = send_GET (''/devices/'' @ did @ ''/history'' @ historyQs opts)"

definition serverHistory :: "string \<Rightarrow> HistoryOpts option \<Rightarrow> api_request" where
  "serverHistory did opts = send_GET (''/servers/'' @ did @ ''/history'' @ historyQs opts)"

definition deviceCandles :: "string \<Rightarrow> Timeframe \<Rightarrow> number \<Rightarrow> string option \<Rightarrow> api_request" where
  "deviceCandles did tf limit before =
     send_GET (''/devices/'' @ did @ ''/candles?'' @ candleQs tf limit before)"

definition serverCandles :: "string \<Rightarrow> Timeframe \<Rightarrow> number \<Rightarrow> string option \<Rightarrow> api_request" where
  "serverCandles did tf limit before =
     send_GET (''/servers/'' @ did @ ''/candles?'' @ candleQs tf limit before)"

definition userCandles :: "Timeframe \<Rightarrow> number \<Rightarrow> string option \<Rightarrow> api_request" where
  "userCandles tf limit before = send_GET (''/candles?'' @ candleQs tf limit before)"

definition adminDeviceCandles :: "string \<Rightarrow> Timeframe \<Rightarrow> number \<Rightarrow> string option \<Rightarrow> api_request" where
  "adminDeviceCandles did tf limit before =
     send_GET (''/admin/devices/'' @ did @ ''/candles?'' @ candleQs tf limit before)"

definition adminUserCandles :: "string \<Rightarrow> Timeframe \<Rightarrow> number \<Rightarrow> string option \<Rightarrow> api_request" where
  "adminUserCandles did tf limit before =
     send_GET (''/admin/users/'' @ did @ ''/candles?'' @ candleQs tf limit before)"

definition totpSetup :: api_request where
  "totpSetup = send_POST ''/auth/totp/setup''"

definition totpEnable :: "string \<Rightarrow> string \<Rightarrow> api_request" where
  "totpEnable secret code =
     send_json ''POST'' (''/auth/totp/enable'') (JObj [(''secret'', JStr secret), (''code'', JStr code)])"

definition totpDisable :: "string \<Rightarrow> api_request" where
  "totpDisable code = send_json ''POST'' (''/auth/totp/disable'') (JObj [(''code'', JStr code)])"

definition totpRegenerateRecovery :: "string \<Rightarrow> api_request" where
  "totpRegenerateRecovery code =
     send_json ''POST'' (''/auth/totp/recovery-codes'') (JObj [(''code'', JStr code)])"

definition deleteAccount :: api_request where
  "deleteAccount = send_DELETE ''/me/account''"

definition adminListUsers :: "AdminUserListFilters \<Rightarrow> number \<Rightarrow> number \<Rightarrow> api_request" where
  "adminListUsers filters limit offset =
     send_GET (''/admin/users?'' @ adminUserListQs filters (Some limit) (Some offset))"

definition adminListDeviceEndpointHistory :: "string \<Rightarrow> api_request" where
  "adminListDeviceEndpointHistory did = send_GET (''/admin/devices/'' @ did @ ''/endpoint-history'')"

definition adminListDeviceConnectionHistory :: "string \<Rightarrow> api_request" where
  "adminListDeviceConnectionHistory did =
     send_GET (''/admin/devices/'' @ did @ ''/connection-history'')"

definition adminGetDeviceDetail :: "string \<Rightarrow> api_request" where
  "adminGetDeviceDetail did = send_GET (''/admin/devices/'' @ did)"

definition adminPauseDevice :: "string \<Rightarrow> api_request" where
  "adminPauseDevice did = send_POST (''/admin/devices/'' @ did @ ''/pause'')"

definition adminUnpauseDevice :: "string \<Rightarrow> api_request" where
  "adminUnpauseDevice did = send_POST (''/admin/devices/'' @ did @ ''/unpause'')"

definition adminRevokeDevice :: "string \<Rightarrow> api_request" where
  "adminRevokeDevice did = send_DELETE (''/admin/devices/'' @ did)"

definition adminGetUserDetail :: "string \<Rightarrow> api_request" where
  "adminGetUserDetail did = send_GET (''/admin/users/'' @ did)"

definition adminSetUserRole :: "string \<Rightarrow> UserRole \<Rightarrow> api_request" where
  "adminSetUserRole did role =
     send_json ''PUT'' (''/admin/users/'' @ did @ ''/role'') (JObj [(''role'', JStr (UserRole_str role))])"

definition adminDisableUser2FA :: "string \<Rightarrow> api_request" where
  "adminDisableUser2FA did = send_POST (''/admin/users/'' @ did @ ''/disable-2fa'')"

definition adminDeleteUser :: "string \<Rightarrow> api_request" where
  "adminDeleteUser did = send_DELETE (''/admin/users/'' @ did)"

definition adminRevokeUserSessions :: "string \<Rightarrow> api_request" where
  "adminRevokeUserSessions did = send_POST (''/admin/users/'' @ did @ ''/sessions/revoke-all'')"

definition adminSetUserEmail :: "string \<Rightarrow> string \<Rightarrow> api_request" where
  "adminSetUserEmail did email =
     send_json ''PUT'' (''/admin/users/'' @ did @ ''/email'') (JObj [(''email'', JStr email)])"

definition adminCreateUser :: "AdminCreateUserBody \<Rightarrow> api_request" where
  "adminCreateUser body =
     send_json ''POST'' (''/admin/users'') (json_obj [(''email'', Some (JStr (acb_email body))), (''role'', map_option (JStr \<circ> UserRole_str) (acb_role body))])"

definition adminStats :: api_request where
  "adminStats = send_GET ''/admin/stats''"

definition adminOnlineDevices :: api_request where
  "adminOnlineDevices = send_GET ''/admin/online-devices''"

definition adminFleetBandwidth :: api_request where
  "adminFleetBandwidth = send_GET ''/admin/bandwidth''"

definition adminSetUserStatus :: "string \<Rightarrow> UserStatus \<Rightarrow> api_request" where
  "adminSetUserStatus did status =
     send_json ''PUT'' (''/admin/users/'' @ did @ ''/status'') (JObj [(''status'', JStr (UserStatus_str status))])"

definition adminSetUserQuota :: "string \<Rightarrow> number option \<Rightarrow> api_request" where
  "adminSetUserQuota did monthly_byte_cap =
     send_json ''PUT'' (''/admin/users/'' @ did @ ''/quota'') (quota_json monthly_byte_cap)"

definition adminSetUserDeviceLimit :: "string \<Rightarrow> number \<Rightarrow> api_request" where
  "adminSetUserDeviceLimit did device_limit =
     send_json ''PUT'' (''/admin/users/'' @ did @ ''/device-limit'') (JObj [(''device_limit'', JNum device_limit)])"

definition adminSetDeviceQuota :: "string \<Rightarrow> number option \<Rightarrow> api_request" where
  "adminSetDeviceQuota did monthly_byte_cap =
     send_json ''PUT'' (''/admin/devices/'' @ did @ ''/quota'') (quota_json monthly_byte_cap)"

definition adminListAudit :: "AdminAuditFilters \<Rightarrow> number \<Rightarrow> number \<Rightarrow> api_request" where
  "adminListAudit filters limit offset =
     send_GET (''/admin/audit?'' @ adminAuditQs filters (Some limit) (Some offset))"

definition adminListFailedLogins :: "number \<Rightarrow> number \<Rightarrow> api_request" where
  "adminListFailedLogins limit offset =
     send_GET (''/admin/failed-logins?limit='' @ num_string limit @ ''&offset='' @ num_string offset)"

definition adminListSessionEvents :: "AdminSessionEventFilters \<Rightarrow> number \<Rightarrow> number \<Rightarrow> api_request" where
  "adminListSessionEvents filters limit offset =
     send_GET (''/admin/session-events?'' @ adminSessionEventsQs filters limit offset)"

definition adminListAccessLogs :: "AdminAccessLogFilters \<Rightarrow> number \<Rightarrow> number \<Rightarrow> api_request" where
  "adminListAccessLogs filters limit offset =
     send_GET (''/admin/access-logs?'' @ adminAccessLogsQs filters limit offset)"

definition finder :: "string \<Rightarrow> api_request" where
  "finder q = send_GET (''/finder?q='' @ encodeURIComponent q)"

definition adminGetMaintenance :: api_request where
  "adminGetMaintenance = send_GET ''/admin/maintenance''"

definition adminSetMaintenance :: "bool \<Rightarrow> string option \<Rightarrow> api_request" where
  "adminSetMaintenance maintenance_mode maintenance_message =
     send_json ''PUT'' (''/admin/maintenance'') (JObj [(''maintenance_mode'', JBool maintenance_mode), (''maintenance_message'', case maintenance_message of None \<Rightarrow> JNull | Some m \<Rightarrow> JStr m)])"

definition adminGetUserPolicy :: api_request where
  "adminGetUserPolicy = send_GET ''/admin/user-policy''"

definition adminSetUserPolicy :: "UserPolicySnapshot \<Rightarrow> api_request" where
  "adminSetUserPolicy policy =
     send_json ''PUT'' (''/admin/user-policy'') (JObj [(''hide_device_detail'', JBool (ups_hide_device_detail policy))])"

definition adminListServers :: api_request where
  "adminListServers = send_GET ''/admin/servers''"

definition adminPatchServer :: "string \<Rightarrow> PatchServerBody \<Rightarrow> api_request" where
  "adminPatchServer did body = send_json ''PATCH'' (''/admin/servers/'' @ did) (patch_server_json body)"

definition adminRotateServerKeys :: "string \<Rightarrow> api_request" where
  "adminRotateServerKeys did = send_POST (''/admin/servers/'' @ did @ ''/rotate-keys'')"

definition adminGetServerDetail :: "string \<Rightarrow> api_request" where
  "adminGetServerDetail did = send_GET (''/admin/servers/'' @ did)"

definition adminListDevices :: api_request where
  "adminListDevices = send_GET ''/admin/devices''"

definition listConnections :: api_request where
  "listConnections = send_GET ''/connections''"

definition adminListConnections :: api_request where
  "adminListConnections = send_GET ''/admin/connections''"

definition adminImpersonateUser :: "string \<Rightarrow> api_request" where
  "adminImpersonateUser did = send_POST (''/admin/users/'' @ did @ ''/impersonate'')"

definition adminStopImpersonation :: api_request where
  "adminStopImpersonation = send_POST ''/admin/impersonate/stop''"

section \<open>The surface of the client\<close>

text \<open>Arguments for every operation at once, and the lists of all requests the client can make with
  them: the operations every user has, and those of the admin console (the functions named
  \<open>admin...\<close>).\<close>

record op_args =
  oa_SaveHostAccessRule :: SaveHostAccessRule
  oa_id :: string
  oa_token :: string
  oa_code :: string
  oa_st :: string
  oa_totp_code :: string
  oa_limit :: number
  oa_offset :: number
  oa_patch :: "(string \<times> json) list"
  oa_positions :: "TopologyPosition Record"
  oa_CreateDeviceBody :: CreateDeviceBody
  oa_PatchDeviceBody :: PatchDeviceBody
  oa_ids :: "string list"
  oa_monthly_byte_cap :: "number option"
  oa_limit_opt :: "number option"
  oa_beforeId :: "number option"
  oa_opts :: "HistoryOpts option"
  oa_tf :: Timeframe
  oa_before :: "string option"
  oa_secret :: string
  oa_AdminUserListFilters :: AdminUserListFilters
  oa_role :: UserRole
  oa_email :: string
  oa_AdminCreateUserBody :: AdminCreateUserBody
  oa_status :: UserStatus
  oa_device_limit :: number
  oa_AdminAuditFilters :: AdminAuditFilters
  oa_AdminSessionEventFilters :: AdminSessionEventFilters
  oa_AdminAccessLogFilters :: AdminAccessLogFilters
  oa_q :: string
  oa_maintenance_mode :: bool
  oa_maintenance_message :: "string option"
  oa_policy :: UserPolicySnapshot
  oa_PatchServerBody :: PatchServerBody

definition user_operations :: "op_args \<Rightarrow> api_request list" where
  "user_operations a =
    [logout, verifyInvitation (oa_token a), googleCallback (oa_code a) (oa_st a),
      googleVerifyTotp (oa_totp_code a), me, meServer, myUsage,
      listMyActivity (oa_limit a) (oa_offset a), getMyPreferences, setMyPreferences (oa_patch a),
      getMyTopology, setMyTopology (oa_positions a), revokeOtherSessions, mySessions,
      revokeSession (oa_id a), listDevices, getDevice (oa_id a),
      createDevice (oa_CreateDeviceBody a), redownloadDeviceConf (oa_id a),
      patchDevice (oa_id a) (oa_PatchDeviceBody a), deleteDevice (oa_id a), pauseDevice (oa_id a),
      unpauseDevice (oa_id a), rotateDeviceKeys (oa_id a), reorderDevices (oa_ids a),
      setMyDeviceQuota (oa_id a) (oa_monthly_byte_cap a),
      listDeviceEvents (oa_id a) (oa_limit_opt a) (oa_beforeId a),
      deviceHistory (oa_id a) (oa_opts a), serverHistory (oa_id a) (oa_opts a),
      deviceCandles (oa_id a) (oa_tf a) (oa_limit a) (oa_before a),
      serverCandles (oa_id a) (oa_tf a) (oa_limit a) (oa_before a),
      userCandles (oa_tf a) (oa_limit a) (oa_before a), totpSetup,
      totpEnable (oa_secret a) (oa_code a), totpDisable (oa_code a),
      totpRegenerateRecovery (oa_code a), deleteAccount, finder (oa_q a), listConnections]"

definition admin_operations :: "op_args \<Rightarrow> api_request list" where
  "admin_operations a =
    [adminListHostAccess, adminHostAgentStatus, adminListHostAccessDevices,
      adminCreateHostAccess (oa_SaveHostAccessRule a),
      adminUpdateHostAccess (oa_id a) (oa_SaveHostAccessRule a), adminDeleteHostAccess (oa_id a),
      adminListInvitations, adminResendInvitation (oa_id a), adminCreateInvitationLink (oa_id a),
      adminRevokeInvitation (oa_id a),
      adminDeviceCandles (oa_id a) (oa_tf a) (oa_limit a) (oa_before a),
      adminUserCandles (oa_id a) (oa_tf a) (oa_limit a) (oa_before a),
      adminListUsers (oa_AdminUserListFilters a) (oa_limit a) (oa_offset a),
      adminListDeviceEndpointHistory (oa_id a), adminListDeviceConnectionHistory (oa_id a),
      adminGetDeviceDetail (oa_id a), adminPauseDevice (oa_id a), adminUnpauseDevice (oa_id a),
      adminRevokeDevice (oa_id a), adminGetUserDetail (oa_id a),
      adminSetUserRole (oa_id a) (oa_role a), adminDisableUser2FA (oa_id a),
      adminDeleteUser (oa_id a), adminRevokeUserSessions (oa_id a),
      adminSetUserEmail (oa_id a) (oa_email a), adminCreateUser (oa_AdminCreateUserBody a),
      adminStats, adminOnlineDevices, adminFleetBandwidth,
      adminSetUserStatus (oa_id a) (oa_status a),
      adminSetUserQuota (oa_id a) (oa_monthly_byte_cap a),
      adminSetUserDeviceLimit (oa_id a) (oa_device_limit a),
      adminSetDeviceQuota (oa_id a) (oa_monthly_byte_cap a),
      adminListAudit (oa_AdminAuditFilters a) (oa_limit a) (oa_offset a),
      adminListFailedLogins (oa_limit a) (oa_offset a),
      adminListSessionEvents (oa_AdminSessionEventFilters a) (oa_limit a) (oa_offset a),
      adminListAccessLogs (oa_AdminAccessLogFilters a) (oa_limit a) (oa_offset a),
      adminGetMaintenance, adminSetMaintenance (oa_maintenance_mode a) (oa_maintenance_message a),
      adminGetUserPolicy, adminSetUserPolicy (oa_policy a), adminListServers,
      adminPatchServer (oa_id a) (oa_PatchServerBody a), adminRotateServerKeys (oa_id a),
      adminGetServerDetail (oa_id a), adminListDevices, adminListConnections,
      adminImpersonateUser (oa_id a), adminStopImpersonation]"

lemmas user_operation_defs = user_operations_def logout_def verifyInvitation_def googleCallback_def googleVerifyTotp_def me_def meServer_def
  myUsage_def listMyActivity_def getMyPreferences_def setMyPreferences_def getMyTopology_def
  setMyTopology_def revokeOtherSessions_def mySessions_def revokeSession_def listDevices_def
  getDevice_def createDevice_def redownloadDeviceConf_def patchDevice_def deleteDevice_def
  pauseDevice_def unpauseDevice_def rotateDeviceKeys_def reorderDevices_def setMyDeviceQuota_def
  listDeviceEvents_def deviceHistory_def serverHistory_def deviceCandles_def serverCandles_def
  userCandles_def totpSetup_def totpEnable_def totpDisable_def totpRegenerateRecovery_def
  deleteAccount_def finder_def listConnections_def

lemmas admin_operation_defs = admin_operations_def adminListHostAccess_def adminHostAgentStatus_def adminListHostAccessDevices_def
  adminCreateHostAccess_def adminUpdateHostAccess_def adminDeleteHostAccess_def
  adminListInvitations_def adminResendInvitation_def adminCreateInvitationLink_def
  adminRevokeInvitation_def adminDeviceCandles_def adminUserCandles_def adminListUsers_def
  adminListDeviceEndpointHistory_def adminListDeviceConnectionHistory_def
  adminGetDeviceDetail_def adminPauseDevice_def adminUnpauseDevice_def adminRevokeDevice_def
  adminGetUserDetail_def adminSetUserRole_def adminDisableUser2FA_def adminDeleteUser_def
  adminRevokeUserSessions_def adminSetUserEmail_def adminCreateUser_def adminStats_def
  adminOnlineDevices_def adminFleetBandwidth_def adminSetUserStatus_def adminSetUserQuota_def
  adminSetUserDeviceLimit_def adminSetDeviceQuota_def adminListAudit_def
  adminListFailedLogins_def adminListSessionEvents_def adminListAccessLogs_def
  adminGetMaintenance_def adminSetMaintenance_def adminGetUserPolicy_def adminSetUserPolicy_def
  adminListServers_def adminPatchServer_def adminRotateServerKeys_def adminGetServerDetail_def
  adminListDevices_def adminListConnections_def adminImpersonateUser_def
  adminStopImpersonation_def

definition operations :: "op_args \<Rightarrow> api_request list" where
  "operations a = user_operations a @ admin_operations a"

text \<open>The method and the path without its query: what a server dispatches on.\<close>

definition endpoint_of :: "api_request \<Rightarrow> string \<times> string" where
  "endpoint_of r = (init_method (ap_init r), takeWhile (\<lambda>c. c \<noteq> CHR ''?'') (ap_path r))"

definition safe_id :: "string \<Rightarrow> bool" where
  "safe_id s \<longleftrightarrow> s \<noteq> [] \<and> CHR ''/'' \<notin> set s \<and> CHR ''?'' \<notin> set s \<and> CHR ''#'' \<notin> set s"

lemma takeWhile_safe_id:
  "safe_id s \<Longrightarrow> takeWhile (\<lambda>c. c \<noteq> CHR ''?'') (s @ t) = s @ takeWhile (\<lambda>c. c \<noteq> CHR ''?'') t"
  "safe_id s \<Longrightarrow> takeWhile (\<lambda>c. c \<noteq> CHR ''?'') s = s"
proof -
  assume "safe_id s"
  then have *: "\<And>x. x \<in> set s \<Longrightarrow> x \<noteq> CHR ''?''" by (auto simp: safe_id_def)
  show "takeWhile (\<lambda>c. c \<noteq> CHR ''?'') (s @ t) = s @ takeWhile (\<lambda>c. c \<noteq> CHR ''?'') t"
    by (rule takeWhile_append2) (rule *)
  from * show "takeWhile (\<lambda>c. c \<noteq> CHR ''?'') s = s" by (simp add: takeWhile_eq_all_conv)
qed

lemma takeWhile_suffix: "takeWhile (\<lambda>c. c \<noteq> CHR ''?'') (qs_suffix ps) = []"
  by (simp add: qs_suffix_def Let_def)

lemma takeWhile_historyQs: "takeWhile (\<lambda>c. c \<noteq> CHR ''?'') (historyQs o') = []"
  by (simp add: historyQs_def takeWhile_suffix split: option.splits)

lemmas endpoint_simps = endpoint_of_def send_defs takeWhile_safe_id takeWhile_suffix takeWhile_historyQs

text \<open>the client speaks HTTP correctly: whatever its arguments, every request path starts with a
  slash (so the URL is the base followed by the path), only POST, PUT and PATCH requests carry a body,
  and a request carries the JSON content type exactly when it has a body.\<close>

theorem requests_well_formed:
  "list_all (\<lambda>r. startsWith (ap_path r) ''/'' \<and>
      rq_url (build_request base (ap_path r) (ap_init r)) = base @ ap_path r \<and>
      (init_body (ap_init r) = None \<or> init_method (ap_init r) \<in> {''POST'', ''PUT'', ''PATCH''}) \<and>
      ((''Content-Type'', ''application/json'') \<in> set (rq_headers (build_request base (ap_path r) (ap_init r)))
         \<longleftrightarrow> init_body (ap_init r) \<noteq> None)) (operations a)"
proof -
  have ne: "stringify (JObj kvs) \<noteq> []" for kvs by simp
  have obj: "\<exists>kvs. save_rule_json b1 = JObj kvs" "\<exists>kvs. create_device_json b2 = JObj kvs"
    "\<exists>kvs. patch_device_json b3 = JObj kvs" "\<exists>kvs. patch_server_json b4 = JObj kvs"
    "\<exists>kvs. quota_json b5 = JObj kvs" "\<exists>kvs. json_obj b6 = JObj kvs" for b1 b2 b3 b4 b5 b6
    by (simp_all add: save_rule_json_def create_device_json_def patch_device_json_def
        patch_server_json_def quota_json_def json_obj_def)
  have body: "stringify (save_rule_json b1) \<noteq> []" "stringify (create_device_json b2) \<noteq> []"
    "stringify (patch_device_json b3) \<noteq> []" "stringify (patch_server_json b4) \<noteq> []"
    "stringify (quota_json b5) \<noteq> []" "stringify (json_obj b6) \<noteq> []" for b1 b2 b3 b4 b5 b6
    using obj ne by metis+
  show ?thesis
    unfolding operations_def list_all_append
    by (simp add: user_operation_defs admin_operation_defs send_defs build_request_def startsWith_def body)
qed

text \<open>the admin console stays under its prefix: every operation named \<open>admin\<close> goes to a path
  under \<open>/admin/\<close>, and no operation of an ordinary user does, whatever ids and filters they are
  given.\<close>

theorem admin_operations_under_admin:
  "list_all (\<lambda>r. startsWith (ap_path r) ''/admin/'') (admin_operations a) \<and>
   list_all (\<lambda>r. \<not> startsWith (ap_path r) ''/admin'') (user_operations a)"
  by (simp add: user_operation_defs admin_operation_defs send_defs startsWith_def)

text \<open>no two operations collide: with ids that stay within their path segment, the method and path
  of every operation of the client are distinct, so that the server can tell all of them apart.\<close>

theorem operations_distinct:
  assumes "safe_id (oa_id a)"
  shows "distinct (map endpoint_of (operations a))"
  using assms
  by (simp add: operations_def user_operation_defs admin_operation_defs endpoint_simps)

definition sample_args :: "string \<Rightarrow> op_args" where
  "sample_args i =
     \<lparr>oa_SaveHostAccessRule = \<lparr>shr_name = ''web'', shr_description = [], shr_protocol = Proto_tcp,
        shr_gateway_port = 80, shr_backend_ip = ''10.0.0.9'', shr_backend_port = 8080, shr_enabled = True,
        shr_allow_all_peers = False, shr_device_ids = []\<rparr>,
      oa_id = i, oa_token = ''t'', oa_code = ''c'', oa_st = ''s'', oa_totp_code = ''123456'', oa_limit = 50,
      oa_offset = 0, oa_patch = [], oa_positions = [],
      oa_CreateDeviceBody = \<lparr>cdb_name = ''phone'', cdb_os = None, cdb_device_type = None,
        cdb_allocated_ip = None, cdb_monthly_byte_cap = None\<rparr>,
      oa_PatchDeviceBody = \<lparr>pdb_name = None, pdb_os = None, pdb_device_type = None\<rparr>, oa_ids = [],
      oa_monthly_byte_cap = None, oa_limit_opt = None, oa_beforeId = None, oa_opts = None, oa_tf = TF_1m,
      oa_before = None, oa_secret = ''x'',
      oa_AdminUserListFilters = \<lparr>auf_q = None, auf_status = None, auf_role = None, auf_totp_enabled = None\<rparr>,
      oa_role = Role_user, oa_email = ''e'', oa_AdminCreateUserBody = \<lparr>acb_email = ''e'', acb_role = None\<rparr>,
      oa_status = User_active, oa_device_limit = 5,
      oa_AdminAuditFilters = \<lparr>aaf_action = None, aaf_actor_user_id = None, aaf_target_id = None,
        aaf_target_type = None, aaf_since = None, aaf_until = None\<rparr>,
      oa_AdminSessionEventFilters = \<lparr>asf_user_id = None, asf_event = None, asf_ip = None, asf_since = None,
        asf_until = None\<rparr>,
      oa_AdminAccessLogFilters = \<lparr>alf_user_id = None, alf_method = None, alf_path = None, alf_status_min = None,
        alf_status_max = None, alf_ip = None, alf_since = None, alf_until = None\<rparr>,
      oa_q = ''q'', oa_maintenance_mode = False, oa_maintenance_message = None,
      oa_policy = \<lparr>ups_hide_device_detail = False\<rparr>,
      oa_PatchServerBody = \<lparr>psb_endpoint_host = None, psb_endpoint_port = None, psb_mtu = None,
        psb_persistent_keepalive = None, psb_name = None\<rparr>\<rparr>"

theorem operations_distinct_witness:
  "distinct (map endpoint_of (operations (sample_args ''7f3c-12'')))"
  by (rule operations_distinct) (simp add: sample_args_def safe_id_def)

section \<open>Filters survive the query string\<close>

text \<open>The parameter list a filter stands for: nothing when it is absent (or, for text, empty).\<close>

definition text_param :: "string \<Rightarrow> string option \<Rightarrow> params" where
  "text_param k v = (case v of None \<Rightarrow> [] | Some s \<Rightarrow> if s = [] then [] else [(k, s)])"

definition value_param :: "string \<Rightarrow> string option \<Rightarrow> params" where
  "value_param k v = (case v of None \<Rightarrow> [] | Some s \<Rightarrow> [(k, s)])"

lemma update_new: "k \<notin> fst ` set ps \<Longrightarrow> AList.update k v ps = ps @ [(k, v)]"
  by (induction ps) auto

lemma set_if_truthy_append:
  "k \<notin> fst ` set ps \<Longrightarrow> set_if_truthy k v ps = ps @ text_param k v"
  by (auto simp: set_if_truthy_def text_param_def params_set_def update_new split: option.splits)

lemma set_if_defined_append:
  "k \<notin> fst ` set ps \<Longrightarrow> set_if_defined k v ps = ps @ value_param k v"
  by (auto simp: set_if_defined_def value_param_def params_set_def update_new split: option.splits)

lemma param_keys [simp]:
  "k' \<in> fst ` set (text_param k v) \<longleftrightarrow> text_param k v \<noteq> [] \<and> k' = k"
  "k' \<in> fst ` set (value_param k v) \<longleftrightarrow> value_param k v \<noteq> [] \<and> k' = k"
  by (cases v; auto simp: text_param_def value_param_def)+

lemmas param_append = set_if_truthy_append set_if_defined_append image_Un parse_params_toString

text \<open>C22: the filters of the admin lists reach the server as they were given: decoding the query string
  of the audit, user, session and access-log lists gives exactly the filters that are set, in order,
  followed or preceded by the page limits, whatever characters the filter texts contain; a filter text
  can neither add nor overwrite a parameter.\<close>

theorem list_filters_survive:
  "parse_qs (adminAuditQs f l o1) =
     text_param ''action'' (aaf_action f) @ text_param ''actor_user_id'' (aaf_actor_user_id f) @
     text_param ''target_id'' (aaf_target_id f) @ text_param ''target_type'' (aaf_target_type f) @
     text_param ''since'' (aaf_since f) @ text_param ''until'' (aaf_until f) @
     value_param ''limit'' (map_option num_string l) @ value_param ''offset'' (map_option num_string o1) \<and>
   parse_qs (adminUserListQs u l o1) =
     text_param ''q'' (auf_q u) @ value_param ''status'' (map_option UserStatus_str (auf_status u)) @
     value_param ''role'' (map_option UserRole_str (auf_role u)) @
     value_param ''totp_enabled'' (map_option bool_str (auf_totp_enabled u)) @
     value_param ''limit'' (map_option num_string l) @ value_param ''offset'' (map_option num_string o1) \<and>
   parse_qs (adminSessionEventsQs s n m) =
     [(''limit'', num_string n), (''offset'', num_string m)] @ text_param ''user_id'' (asf_user_id s) @
     value_param ''event'' (map_option SessionEventKind_str (asf_event s)) @ text_param ''ip'' (asf_ip s) @
     text_param ''since'' (asf_since s) @ text_param ''until'' (asf_until s) \<and>
   parse_qs (adminAccessLogsQs g n m) =
     [(''limit'', num_string n), (''offset'', num_string m)] @ text_param ''user_id'' (alf_user_id g) @
     text_param ''method'' (alf_method g) @ text_param ''path'' (alf_path g) @
     value_param ''status_min'' (map_option num_string (alf_status_min g)) @
     value_param ''status_max'' (map_option num_string (alf_status_max g)) @ text_param ''ip'' (alf_ip g) @
     text_param ''since'' (alf_since g) @ text_param ''until'' (alf_until g)"
proof (intro conjI)
  show "parse_qs (adminAuditQs f l o1) =
     text_param ''action'' (aaf_action f) @ text_param ''actor_user_id'' (aaf_actor_user_id f) @
     text_param ''target_id'' (aaf_target_id f) @ text_param ''target_type'' (aaf_target_type f) @
     text_param ''since'' (aaf_since f) @ text_param ''until'' (aaf_until f) @
     value_param ''limit'' (map_option num_string l) @ value_param ''offset'' (map_option num_string o1)"
    by (simp add: adminAuditQs_def param_append)
qed (simp_all add: adminUserListQs_def adminSessionEventsQs_def adminAccessLogsQs_def params_set_def param_append)

text \<open>a finder query reaches the server whole: percent-decoding what follows \<open>q=\<close> in the path
  gives the query back, and the encoded text contains none of the characters that end a path or a
  parameter.\<close>

theorem finder_query_survives:
  "percent_decode False (drop (length ''/finder?q='') (ap_path (finder q))) = q \<and>
   set ''&?#/'' \<inter> set (drop (length ''/finder?q='') (ap_path (finder q))) = {}"
proof -
  have "is_alnum x \<or> x \<in> set ''-_.!~*()%'' \<or> of_char x = (39 :: nat)" if "x \<in> set (encodeURIComponent q)" for x
    using that by (auto simp: encodeURIComponent_def split: if_splits dest: percent_chars)
  then have "set ''&?#/'' \<inter> set (encodeURIComponent q) = {}"
    by (fastforce simp: is_alnum_def is_digit_def)
  then show ?thesis by (simp add: finder_def send_GET_def)
qed

section \<open>Errors\<close>



section \<open>What the server reads in a body\<close>

text \<open>Member \<open>k\<close> of the decoded body of a request: \<open>None\<close> when the body is no object, \<open>Some None\<close> when the
  member is absent.\<close>

definition sent_member :: "api_request \<Rightarrow> string \<Rightarrow> json option option" where
  "sent_member r k =
     (case init_body (ap_init r) of
        None \<Rightarrow> None
      | Some t \<Rightarrow> (case read_json t of None \<Rightarrow> None | Some j \<Rightarrow> get_member j k))"

lemma sent_member_json: "json_ok j \<Longrightarrow> sent_member (send_json m p j) k = get_member j k"
  by (simp add: sent_member_def send_json_def stringify_reads_back)

lemma json_ok_obj: "list_all (\<lambda>(k, v). pred_option json_ok v) kvs \<Longrightarrow> json_ok (json_obj kvs)"
  by (induction kvs) (auto simp: json_obj_def)

lemma map_of_json_obj:
  "distinct (map fst kvs) \<Longrightarrow> get_member (json_obj kvs) k = Some (Option.bind (map_of kvs k) (\<lambda>v. v))"
proof (induction kvs)
  case (Cons kv kvs)
  have "map_of (map (\<lambda>(k, v). (k, the v)) (filter (\<lambda>(k, v). v \<noteq> None) kvs)) k = None" if "k \<notin> fst ` set kvs"
    using that by (force simp: map_of_eq_None_iff)
  with Cons show ?case by (cases kv; cases "snd kv") (auto simp: json_obj_def)
qed (simp add: json_obj_def)

definition cap_json :: "number option \<Rightarrow> json" where
  "cap_json c = (case c of None \<Rightarrow> JNull | Some n \<Rightarrow> JNum n)"

lemma device_bodies_read_back_parts:
  assumes "pred_option (pred_option (\<lambda>n. n = of_int \<lfloor>n\<rfloor> \<and> \<bar>n\<bar> < 10 ^ 21)) (cdb_monthly_byte_cap b)"
    and "pred_option (\<lambda>n. n = of_int \<lfloor>n\<rfloor> \<and> \<bar>n\<bar> < 10 ^ 21) cap"
  shows "sent_member (createDevice b) ''name'' = Some (Some (JStr (cdb_name b)))"
    "sent_member (createDevice b) ''os'' = Some (map_option (JStr \<circ> DeviceOs_str) (cdb_os b))"
    "sent_member (createDevice b) ''device_type'' = Some (map_option (JStr \<circ> DeviceType_str) (cdb_device_type b))"
    "sent_member (createDevice b) ''allocated_ip'' = Some (map_option JStr (cdb_allocated_ip b))"
    "sent_member (createDevice b) ''monthly_byte_cap'' = Some (map_option cap_json (cdb_monthly_byte_cap b))"
    "sent_member (patchDevice i p) ''name'' = Some (map_option JStr (pdb_name p))"
    "sent_member (patchDevice i p) ''os'' = Some (map_option (JStr \<circ> DeviceOs_str) (pdb_os p))"
    "sent_member (patchDevice i p) ''device_type'' = Some (map_option (JStr \<circ> DeviceType_str) (pdb_device_type p))"
    "sent_member (setMyDeviceQuota i cap) ''monthly_byte_cap'' = Some (Some (cap_json cap))"
proof -
  have create: "json_ok (create_device_json b)"
    unfolding create_device_json_def
    using assms(1) by (intro json_ok_obj) (auto simp: option.pred_set split: option.splits)
  have patch: "json_ok (patch_device_json p)"
    unfolding patch_device_json_def by (intro json_ok_obj) (auto simp: option.pred_set)
  have quota: "json_ok (quota_json cap)" using assms(2) by (cases cap) (simp_all add: quota_json_def)
  have create_at: "sent_member (createDevice b) k = get_member (create_device_json b) k" for k
    by (simp add: createDevice_def sent_member_json [OF create])
  note cs = create_at [unfolded create_device_json_def] map_of_json_obj
  show "sent_member (createDevice b) ''name'' = Some (Some (JStr (cdb_name b)))" by (simp add: cs)
  show "sent_member (createDevice b) ''os'' = Some (map_option (JStr \<circ> DeviceOs_str) (cdb_os b))" by (simp add: cs)
  show "sent_member (createDevice b) ''device_type'' = Some (map_option (JStr \<circ> DeviceType_str) (cdb_device_type b))"
    by (simp add: cs)
  show "sent_member (createDevice b) ''allocated_ip'' = Some (map_option JStr (cdb_allocated_ip b))" by (simp add: cs)
  show "sent_member (createDevice b) ''monthly_byte_cap'' = Some (map_option cap_json (cdb_monthly_byte_cap b))"
    by (simp add: cs cap_json_def [abs_def])
  have patch_at: "sent_member (patchDevice i p) k = get_member (patch_device_json p) k" for k
    by (simp add: patchDevice_def sent_member_json [OF patch])
  note ps = patch_at [unfolded patch_device_json_def] map_of_json_obj
  show "sent_member (patchDevice i p) ''name'' = Some (map_option JStr (pdb_name p))" by (simp add: ps)
  show "sent_member (patchDevice i p) ''os'' = Some (map_option (JStr \<circ> DeviceOs_str) (pdb_os p))" by (simp add: ps)
  show "sent_member (patchDevice i p) ''device_type'' = Some (map_option (JStr \<circ> DeviceType_str) (pdb_device_type p))"
    by (simp add: ps)
  show "sent_member (setMyDeviceQuota i cap) ''monthly_byte_cap'' = Some (Some (cap_json cap))"
    by (simp add: setMyDeviceQuota_def sent_member_json [OF quota]) (simp add: quota_json_def cap_json_def)
qed

text \<open>
  C11: the device forms arrive as filled in: for caps that are whole numbers, the server that decodes the
  body of a create, patch or quota request finds the name whatever characters it contains, every option
  that was given under its own member, no member for one that was left out, and \<open>null\<close> (lift the cap)
  apart from an absent cap (keep the default).
\<close>

theorem device_bodies_read_back:
  assumes "pred_option (pred_option (\<lambda>n. n = of_int \<lfloor>n\<rfloor> \<and> \<bar>n\<bar> < 10 ^ 21)) (cdb_monthly_byte_cap b)"
    and "pred_option (\<lambda>n. n = of_int \<lfloor>n\<rfloor> \<and> \<bar>n\<bar> < 10 ^ 21) cap"
  shows "(sent_member (createDevice b) ''name'' = Some (Some (JStr (cdb_name b)))) \<and>
    (sent_member (createDevice b) ''os'' = Some (map_option (JStr \<circ> DeviceOs_str) (cdb_os b))) \<and>
    (sent_member (createDevice b) ''device_type'' = Some (map_option (JStr \<circ> DeviceType_str) (cdb_device_type b))) \<and>
    (sent_member (createDevice b) ''allocated_ip'' = Some (map_option JStr (cdb_allocated_ip b))) \<and>
    (sent_member (createDevice b) ''monthly_byte_cap'' = Some (map_option cap_json (cdb_monthly_byte_cap b))) \<and>
    (sent_member (patchDevice i p) ''name'' = Some (map_option JStr (pdb_name p))) \<and>
    (sent_member (patchDevice i p) ''os'' = Some (map_option (JStr \<circ> DeviceOs_str) (pdb_os p))) \<and>
    (sent_member (patchDevice i p) ''device_type'' = Some (map_option (JStr \<circ> DeviceType_str) (pdb_device_type p))) \<and>
    (sent_member (setMyDeviceQuota i cap) ''monthly_byte_cap'' = Some (Some (cap_json cap)))"
  using device_bodies_read_back_parts [OF assms] by blast

definition sample_create :: CreateDeviceBody where
  "sample_create = \<lparr>cdb_name = [CHR 0x22, CHR ''x'', CHR 0x5C], cdb_os = None, cdb_device_type = None,
     cdb_allocated_ip = None, cdb_monthly_byte_cap = Some (Some 5000000000)\<rparr>"

theorem device_bodies_read_back_witness:
  "sent_member (createDevice sample_create) ''name'' = Some (Some (JStr [CHR 0x22, CHR ''x'', CHR 0x5C])) \<and>
   sent_member (createDevice sample_create) ''os'' = Some None \<and>
   sent_member (createDevice sample_create) ''monthly_byte_cap'' = Some (Some (JNum 5000000000)) \<and>
   sent_member (setMyDeviceQuota ''d1'' None) ''monthly_byte_cap'' = Some (Some JNull)"
  using device_bodies_read_back [of sample_create None] by (simp add: sample_create_def cap_json_def)

end
