(* ===== verification/Candles.thy ===== *)
theory Candles
  imports Interfaces Api_Client "HOL-Library.Multiset" "HOL-Library.Char_ord" "HOL-Library.List_Lexorder"
begin

text \<open>
  The candle series, src/web/src/hooks/useCandleSeries.ts: the latest page, the pages of older candles
  loaded on demand and tagged with the target they belong to, and their merge.  Strings are compared
  in the lexicographic order of their characters, as JavaScript does.
\<close>

section \<open>Requests\<close>

datatype CandleScope = Scope_device | Scope_server | Scope_user | Scope_admin_user | Scope_admin_device

fun CandleScope_str :: "CandleScope \<Rightarrow> string" where
  "CandleScope_str Scope_device = ''device''"
| "CandleScope_str Scope_server = ''server''"
| "CandleScope_str Scope_user = ''user''"
| "CandleScope_str Scope_admin_user = ''admin-user''"
| "CandleScope_str Scope_admin_device = ''admin-device''"

definition PAGE :: nat where "PAGE = 200"

fun load_request :: "CandleScope \<Rightarrow> string \<Rightarrow> Timeframe \<Rightarrow> string option \<Rightarrow> api_request" where
  "load_request Scope_device i tf before = deviceCandles i tf (of_nat PAGE) before"
| "load_request Scope_server i tf before = serverCandles i tf (of_nat PAGE) before"
| "load_request Scope_admin_user i tf before = adminUserCandles i tf (of_nat PAGE) before"
| "load_request Scope_admin_device i tf before = adminDeviceCandles i tf (of_nat PAGE) before"
| "load_request Scope_user i tf before = userCandles tf (of_nat PAGE) before"

definition latest_enabled :: "CandleScope \<Rightarrow> string \<Rightarrow> bool" where
  "latest_enabled scope i \<longleftrightarrow> scope = Scope_user \<or> length i > 0"

definition refetch_ms :: "Timeframe \<Rightarrow> nat" where
  "refetch_ms tf = (if tf = TF_1m then 15000 else 60000)"

definition page_key :: "CandleScope \<Rightarrow> string \<Rightarrow> Timeframe \<Rightarrow> string" where
  "page_key scope i tf = CandleScope_str scope @ '' '' @ i @ '' '' @ Timeframe_str tf"

section \<open>Paged history\<close>

record paged =
  pg_key :: string
  pg_older :: "Candle list"
  pg_hasMore :: bool
  pg_loading :: bool

definition paged_init :: "string \<Rightarrow> paged" where
  "paged_init k = \<lparr>pg_key = k, pg_older = [], pg_hasMore = True, pg_loading = False\<rparr>"

definition older_of :: "string \<Rightarrow> paged \<Rightarrow> Candle list" where
  "older_of k p = (if pg_key p = k then pg_older p else [])"

definition hasMore_of :: "string \<Rightarrow> paged \<Rightarrow> bool" where
  "hasMore_of k p = (if pg_key p = k then pg_hasMore p else True)"

definition isLoadingOlder_of :: "string \<Rightarrow> paged \<Rightarrow> bool" where
  "isLoadingOlder_of k p = (if pg_key p = k then pg_loading p else False)"

text \<open>A \<open>Map\<close> keyed by \<open>bucket_start\<close>, filled in order.\<close>

definition map_candles :: "Candle list \<Rightarrow> Candle Record \<Rightarrow> Candle Record" where
  "map_candles cs m = fold (\<lambda>c. AList.update (c_bucket_start c) c) cs m"

text \<open>\<open>[...map.values()].sort((a, b) => a.bucket_start < b.bucket_start ? -1 : 1)\<close>: the keys of a map
  are distinct, so the order is total.\<close>

definition merge_candles :: "Candle list \<Rightarrow> Candle list \<Rightarrow> Candle list" where
  "merge_candles older latest =
     sort_key c_bucket_start (map snd (map_candles latest (map_candles older [])))"

definition candles_of :: "string \<Rightarrow> Candle list \<Rightarrow> paged \<Rightarrow> Candle list" where
  "candles_of k latest p = merge_candles (older_of k p) latest"

text \<open>\<open>loadOlder\<close>: the state it sets and the cursor it requests, \<open>None\<close> when it returns early.\<close>

definition loadOlder :: "string \<Rightarrow> Candle list \<Rightarrow> paged \<Rightarrow> (paged \<times> string) option" where
  "loadOlder k latest p =
     (let candles = candles_of k latest p in
      if isLoadingOlder_of k p \<or> \<not> hasMore_of k p \<or> candles = [] then None
      else Some (\<lparr>pg_key = k, pg_older = older_of k p, pg_hasMore = hasMore_of k p, pg_loading = True\<rparr>,
                 c_bucket_start (hd candles)))"

definition older_loaded :: "string \<Rightarrow> Candle list \<Rightarrow> paged \<Rightarrow> paged" where
  "older_loaded k res prev =
     (if pg_key prev \<noteq> k then prev
      else \<lparr>pg_key = k,
            pg_older = (if length res > 0 then map snd (map_candles (pg_older prev) (map_candles res []))
                        else pg_older prev),
            pg_hasMore = (pg_hasMore prev \<and> length res \<ge> PAGE),
            pg_loading = False\<rparr>)"

definition older_failed :: "string \<Rightarrow> paged \<Rightarrow> paged" where
  "older_failed k prev =
     (if pg_key prev = k then prev\<lparr>pg_hasMore := False, pg_loading := False\<rparr> else prev)"

section \<open>Switching the target resets the buffer\<close>

interpretation paged_cell: keyed_cell pg_key
  "\<lambda>k p. (older_of k p, hasMore_of k p, isLoadingOlder_of k p)"
  "\<lambda>k (older, more, loading). \<lparr>pg_key = k, pg_older = older, pg_hasMore = more, pg_loading = loading\<rparr>"
  "([], True, False)"
  by unfold_locales (auto simp: older_of_def hasMore_of_def isLoadingOlder_of_def split: prod.splits)

section \<open>Merging\<close>

lemma map_of_map_candles:
  "map_of (map_candles cs m) k = Some c \<Longrightarrow>
   c \<in> set cs \<or> (k \<notin> c_bucket_start ` set cs \<and> map_of m k = Some c)"
proof (induction cs arbitrary: m)
  case (Cons d cs)
  have "map_candles (d # cs) m = map_candles cs (AList.update (c_bucket_start d) d m)"
    by (simp add: map_candles_def)
  with Cons.IH [of "AList.update (c_bucket_start d) d m"] Cons.prems show ?case
    by (auto simp: update_conv' split: if_splits)
qed (simp add: map_candles_def)

lemma keys_map_candles:
  "keys_distinct m \<Longrightarrow> keys_distinct (map_candles cs m)"
  "fst ` set (map_candles cs m) = fst ` set m \<union> c_bucket_start ` set cs"
proof -
  show "keys_distinct m \<Longrightarrow> keys_distinct (map_candles cs m)"
    unfolding map_candles_def by (induction cs arbitrary: m) simp_all
  show "fst ` set (map_candles cs m) = fst ` set m \<union> c_bucket_start ` set cs"
    unfolding map_candles_def by (induction cs arbitrary: m) (auto simp: dom_update)
qed

text \<open>Every entry of the map is filed under its own bucket.\<close>

definition filed :: "Candle Record \<Rightarrow> bool" where
  "filed m \<longleftrightarrow> list_all (\<lambda>(k, c). c_bucket_start c = k) m"

lemma filed_update: "filed m \<Longrightarrow> filed (AList.update (c_bucket_start c) c m)"
  unfolding filed_def by (induction m) auto

lemma filed_map_candles: "filed m \<Longrightarrow> filed (map_candles cs m)"
  unfolding map_candles_def by (induction cs arbitrary: m) (simp_all add: filed_update)

lemma filed_buckets: "filed m \<Longrightarrow> map (c_bucket_start \<circ> snd) m = map fst m"
  by (induction m) (auto simp: filed_def)

text \<open>The merge is strictly sorted, holds exactly the buckets of both pages, and takes a bucket's candle
  from the latest page when it is there.\<close>

lemma merge_sorted: "sorted_wrt (<) (map c_bucket_start (merge_candles older latest))"
proof -
  define m where "m = map_candles latest (map_candles older [])"
  have "filed m" unfolding m_def by (intro filed_map_candles) (simp add: filed_def)
  moreover have "keys_distinct m" unfolding m_def by (intro keys_map_candles(1)) simp
  ultimately have "distinct (map c_bucket_start (map snd m))"
    by (simp add: keys_distinct_def filed_buckets [unfolded comp_def] comp_def)
  then have "distinct (map c_bucket_start (sort_key c_bucket_start (map snd m)))"
    by (simp only: distinct_map distinct_sort set_sort)
  then have "distinct (map c_bucket_start (merge_candles older latest))"
    by (simp add: merge_candles_def m_def)
  moreover have "sorted (map c_bucket_start (merge_candles older latest))"
    by (simp add: merge_candles_def)
  ultimately show ?thesis by (simp add: strict_sorted_iff)
qed

lemma merge_lookup:
  assumes "c \<in> set (merge_candles older latest)"
  shows "c \<in> set latest \<or> (c \<in> set older \<and> c_bucket_start c \<notin> c_bucket_start ` set latest)"
proof -
  define m where "m = map_candles latest (map_candles older [])"
  have filed: "filed m" unfolding m_def by (intro filed_map_candles) (simp add: filed_def)
  have "keys_distinct m" unfolding m_def by (intro keys_map_candles(1)) simp
  moreover from assms obtain k where k: "(k, c) \<in> set m" by (auto simp: merge_candles_def m_def)
  ultimately have look: "map_of m k = Some c" by (simp add: keys_distinct_def)
  have kc: "c_bucket_start c = k" using filed k by (auto simp: filed_def list_all_iff)
  from map_of_map_candles [OF look [unfolded m_def]] show ?thesis
  proof
    assume "k \<notin> c_bucket_start ` set latest \<and> map_of (map_candles older []) k = Some c"
    with map_of_map_candles [of older "[]" k c] kc show ?thesis by auto
  qed simp
qed

lemma merge_buckets:
  "c_bucket_start ` set (merge_candles older latest) = c_bucket_start ` set older \<union> c_bucket_start ` set latest"
proof -
  define m where "m = map_candles latest (map_candles older [])"
  have "filed m" unfolding m_def by (intro filed_map_candles) (simp add: filed_def)
  then have "c_bucket_start ` snd ` set m = fst ` set m"
    by (metis filed_buckets list.set_map image_comp)
  then show ?thesis
    by (simp add: merge_candles_def m_def keys_map_candles(2))
qed

text \<open>overlapping fetches never double-count: the candles the chart gets are strictly ordered by
  bucket, hold every bucket of the latest page and of the older pages exactly once, and where both
  have a bucket, the candle is the one of the latest page.\<close>

theorem merged_candles_deduplicated:
  "sorted_wrt (<) (map c_bucket_start (candles_of k latest p)) \<and>
   c_bucket_start ` set (candles_of k latest p) =
     c_bucket_start ` set (older_of k p) \<union> c_bucket_start ` set latest \<and>
   set (candles_of k latest p) \<subseteq>
     set latest \<union> {c \<in> set (older_of k p). c_bucket_start c \<notin> c_bucket_start ` set latest}"
  unfolding candles_of_def using merge_sorted merge_buckets merge_lookup by blast

section \<open>Paging through the history\<close>

text \<open>The server's side: the newest page of the candles before a cursor, from a history in strict
  order of its buckets.\<close>

definition server_page :: "Candle list \<Rightarrow> string option \<Rightarrow> Candle list" where
  "server_page hist before =
     slice_last PAGE (case before of None \<Rightarrow> hist | Some b \<Rightarrow> filter (\<lambda>c. c_bucket_start c < b) hist)"

text \<open>One round: \<open>loadOlder\<close>, and the response of the server to its request.\<close>

definition load_round :: "Candle list \<Rightarrow> string \<Rightarrow> paged \<Rightarrow> paged" where
  "load_round hist k p =
     (case loadOlder k (server_page hist None) p of
        None \<Rightarrow> p
      | Some (p', cursor) \<Rightarrow> older_loaded k (server_page hist (Some cursor)) p')"

lemma map_candles_append:
  assumes "distinct (map c_bucket_start cs)" and "c_bucket_start ` set cs \<inter> fst ` set m = {}"
  shows "map_candles cs m = m @ map (\<lambda>c. (c_bucket_start c, c)) cs"
  using assms
proof (induction cs arbitrary: m)
  case (Cons c cs)
  have "AList.update (c_bucket_start c) c m = m @ [(c_bucket_start c, c)]"
    using Cons.prems(2) by (intro update_new) auto
  moreover have "map_candles cs (m @ [(c_bucket_start c, c)]) =
      (m @ [(c_bucket_start c, c)]) @ map (\<lambda>c. (c_bucket_start c, c)) cs"
    using Cons.prems by (intro Cons.IH) auto
  ultimately show ?case by (simp add: map_candles_def)
qed (simp add: map_candles_def)

lemma map_candles_fresh:
  assumes "distinct (map c_bucket_start (xs @ ys))"
  shows "map snd (map_candles ys (map_candles xs [])) = xs @ ys"
proof -
  have "map_candles xs [] = map (\<lambda>c. (c_bucket_start c, c)) xs"
    using assms by (subst map_candles_append) simp_all
  then have "map_candles ys (map_candles xs []) =
      map (\<lambda>c. (c_bucket_start c, c)) xs @ map (\<lambda>c. (c_bucket_start c, c)) ys"
    using assms by (simp, subst map_candles_append) (auto simp: image_image)
  then show ?thesis by (simp add: comp_def)
qed

lemma sort_key_sorted: "sorted (map f xs) \<Longrightarrow> sort_key f xs = xs"
proof (induction xs)
  case (Cons x xs)
  then have "sort_key f xs = xs" by simp
  with Cons.prems show ?case by (cases xs) (simp_all)
qed simp

lemma merge_ordered:
  assumes "sorted_wrt (<) (map c_bucket_start (xs @ ys))"
  shows "merge_candles xs ys = xs @ ys"
proof -
  have "distinct (map c_bucket_start (xs @ ys))" "sorted (map c_bucket_start (xs @ ys))"
    using assms by (simp_all only: strict_sorted_iff)
  then show ?thesis
    unfolding merge_candles_def by (simp only: map_candles_fresh sort_key_sorted)
qed

text \<open>In strict order, the candles before the \<open>i\<close>-th are the first \<open>i\<close>.\<close>

lemma filter_before:
  assumes "sorted_wrt (<) (map f xs)" and "i < length xs"
  shows "filter (\<lambda>c. f c < (f (xs ! i) :: 'b :: linorder)) xs = take i xs"
  using assms
proof (induction xs arbitrary: i)
  case (Cons x xs)
  show ?case
  proof (cases i)
    case 0
    with Cons.prems show ?thesis by (auto simp: filter_empty_conv)
  next
    case (Suc j)
    with Cons show ?thesis by auto
  qed
qed simp

text \<open>The state after \<open>n\<close> rounds: the \<open>n\<close> pages before the latest one.\<close>

definition paged_at :: "Candle list \<Rightarrow> string \<Rightarrow> nat \<Rightarrow> paged" where
  "paged_at hist k n =
     \<lparr>pg_key = k, pg_older = slice_last (PAGE * n) (take (length hist - PAGE) hist),
      pg_hasMore = (n = 0 \<or> PAGE * (n + 1) \<le> length hist), pg_loading = False\<rparr>"

lemma slice_last_pages:
  "slice_last a (take (length xs - b) xs) @ slice_last b xs = slice_last (a + b) xs"
proof -
  have "slice_last (a + b) xs = drop (length xs - (a + b)) (take (length xs - b) xs @ drop (length xs - b) xs)"
    by (simp add: slice_last_def)
  also have "\<dots> = drop (length xs - (a + b)) (take (length xs - b) xs) @ drop (length xs - b) xs"
    by (subst drop_append) simp
  also have "length xs - (a + b) = length xs - b - a" by simp
  finally show ?thesis by (simp add: slice_last_def)
qed

lemma sorted_slice_last: "sorted_wrt R (map f xs) \<Longrightarrow> sorted_wrt R (map f (slice_last n xs))"
  by (simp add: slice_last_def sorted_wrt_drop flip: drop_map)

lemma candles_paged_at:
  assumes "sorted_wrt (<) (map c_bucket_start hist)"
  shows "candles_of k (server_page hist None) (paged_at hist k n) = slice_last (PAGE * (n + 1)) hist"
proof -
  have split: "slice_last (PAGE * n) (take (length hist - PAGE) hist) @ slice_last PAGE hist =
      slice_last (PAGE * (n + 1)) hist"
    using slice_last_pages [of "PAGE * n" hist PAGE] by (simp add: algebra_simps)
  have "sorted_wrt (<) (map c_bucket_start (slice_last (PAGE * (n + 1)) hist))"
    using assms by (rule sorted_slice_last)
  then show ?thesis
    unfolding candles_of_def by (simp add: older_of_def paged_at_def server_page_def split merge_ordered)
qed

lemma PAGE_pos [simp]: "0 < PAGE" by (simp add: PAGE_def)

text \<open>The page before the oldest loaded candle.\<close>

lemma server_page_before:
  assumes "sorted_wrt (<) (map c_bucket_start hist)" and "hist \<noteq> []" and "0 < m"
  shows "server_page hist (Some (c_bucket_start (hd (slice_last m hist)))) =
    slice_last PAGE (take (length hist - m) hist)"
proof -
  have lt: "length hist - m < length hist" using assms(2,3) by (cases hist) auto
  have "hd (slice_last m hist) = hist ! (length hist - m)"
    using lt by (simp add: slice_last_def hd_drop_conv_nth)
  then show ?thesis
    using filter_before [OF assms(1) lt] by (simp add: server_page_def)
qed

lemma load_round_at:
  assumes sorted: "sorted_wrt (<) (map c_bucket_start hist)" and "hist \<noteq> []"
  shows "load_round hist k (paged_at hist k n) = paged_at hist k (n + 1)"
proof (cases "n = 0 \<or> PAGE * (n + 1) \<le> length hist")
  case False
  then have "length hist < PAGE + PAGE * n" by (simp add: algebra_simps)
  then have short: "length hist - PAGE \<le> PAGE * n" "length hist - PAGE \<le> PAGE * (n + 1)" by auto
  have "loadOlder k (server_page hist None) (paged_at hist k n) = None"
    using False by (simp add: loadOlder_def hasMore_of_def paged_at_def)
  moreover have "paged_at hist k (n + 1) = paged_at hist k n"
    using False short by (simp add: paged_at_def slice_last_def)
  ultimately show ?thesis by (simp add: load_round_def)
next
  case True
  define res where "res = slice_last PAGE (take (length hist - PAGE * (n + 1)) hist)"
  define old where "old = slice_last (PAGE * n) (take (length hist - PAGE) hist)"
  have cands: "candles_of k (server_page hist None) (paged_at hist k n) = slice_last (PAGE * (n + 1)) hist"
    by (rule candles_paged_at [OF sorted])
  then have ne: "candles_of k (server_page hist None) (paged_at hist k n) \<noteq> []"
    using assms(2) by (simp add: PAGE_def)
  have page: "server_page hist (Some (c_bucket_start (hd (slice_last (PAGE * (n + 1)) hist)))) = res"
    unfolding res_def by (rule server_page_before [OF sorted assms(2)]) simp
  have load: "loadOlder k (server_page hist None) (paged_at hist k n) =
      Some (\<lparr>pg_key = k, pg_older = old, pg_hasMore = True, pg_loading = True\<rparr>,
        c_bucket_start (hd (slice_last (PAGE * (n + 1)) hist)))"
    using True ne
    by (simp add: loadOlder_def Let_def cands isLoadingOlder_of_def hasMore_of_def older_of_def old_def)
       (simp add: paged_at_def)
  have app: "res @ old = slice_last (PAGE * (n + 1)) (take (length hist - PAGE) hist)"
  proof -
    have "take (length (take (length hist - PAGE) hist) - PAGE * n) (take (length hist - PAGE) hist) =
        take (length hist - PAGE * (n + 1)) hist"
      by (simp add: min_absorb1 min_absorb2 diff_diff_add)
    with slice_last_pages [of PAGE "take (length hist - PAGE) hist" "PAGE * n"] show ?thesis
      by (simp add: res_def old_def)
  qed
  have "sorted_wrt (<) (map c_bucket_start (res @ old))"
    unfolding app using sorted by (intro sorted_slice_last) (simp add: sorted_wrt_take flip: take_map)
  then have "distinct (map c_bucket_start (res @ old))" by (simp only: strict_sorted_iff)
  then have merged: "map snd (map_candles old (map_candles res [])) = res @ old"
    by (rule map_candles_fresh)
  have more: "PAGE \<le> length res \<longleftrightarrow> PAGE * (n + 1 + 1) \<le> length hist"
    by (auto simp: res_def slice_last_def min_def algebra_simps PAGE_def)
  have "(if length res > 0 then map snd (map_candles old (map_candles res [])) else old) = res @ old"
    by (simp only: merged) simp
  then have "older_loaded k res \<lparr>pg_key = k, pg_older = old, pg_hasMore = True, pg_loading = True\<rparr> =
      paged_at hist k (n + 1)"
    by (simp only: older_loaded_def paged_at_def paged.select_convs more app) simp
  then show ?thesis
    by (simp only: load_round_def load option.case prod.case page)
qed

lemma load_rounds_at:
  assumes "sorted_wrt (<) (map c_bucket_start hist)" and "hist \<noteq> []"
  shows "(load_round hist k ^^ n) (paged_init k) = paged_at hist k n"
proof (induction n)
  case 0
  show ?case by (simp add: paged_init_def paged_at_def slice_last_def)
next
  case (Suc n)
  with load_round_at [OF assms, of k n] show ?case by simp
qed

lemma history_without_gaps_parts:
  assumes "sorted_wrt (<) (map c_bucket_start hist)" and "hist \<noteq> []"
  shows "candles_of k (server_page hist None) ((load_round hist k ^^ n) (paged_init k)) =
      slice_last (200 * (n + 1)) hist"
    and "hasMore_of k ((load_round hist k ^^ n) (paged_init k)) \<longleftrightarrow> n = 0 \<or> 200 * (n + 1) \<le> length hist"
proof -
  note at = load_rounds_at [OF assms, of n k]
  show "candles_of k (server_page hist None) ((load_round hist k ^^ n) (paged_init k)) =
      slice_last (200 * (n + 1)) hist"
    unfolding at candles_paged_at [OF assms(1)] by (simp add: PAGE_def)
  show "hasMore_of k ((load_round hist k ^^ n) (paged_init k)) \<longleftrightarrow> n = 0 \<or> 200 * (n + 1) \<le> length hist"
    unfolding at by (simp add: hasMore_of_def paged_at_def PAGE_def)
qed


definition sample_candle :: "string \<Rightarrow> Candle" where
  "sample_candle b = \<lparr>c_bucket_start = b, c_rx_high = 0, c_rx_low = 0, c_rx_avg = 0,
     c_tx_high = 0, c_tx_low = 0, c_tx_avg = 0\<rparr>"


section \<open>A response that outlives two switches of the target\<close>

text \<open>\<open>loadOlder\<close> of target \<open>k\<close>, then of \<open>k'\<close>, then of \<open>k\<close> again, before any response arrives; then the
  responses to the two requests of \<open>k\<close>, in the order they were sent.\<close>

definition there_and_back :: "Candle list \<Rightarrow> string \<Rightarrow> string \<Rightarrow> Candle list \<Rightarrow> paged \<Rightarrow> paged option" where
  "there_and_back hist k k' latest' p =
     (case loadOlder k (server_page hist None) p of
        None \<Rightarrow> None
      | Some (p1, stale) \<Rightarrow>
     (case loadOlder k' latest' p1 of
        None \<Rightarrow> None
      | Some (p2, _) \<Rightarrow>
     (case loadOlder k (server_page hist None) p2 of
        None \<Rightarrow> None
      | Some (p3, cursor) \<Rightarrow>
          Some (older_loaded k (server_page hist (Some cursor))
            (older_loaded k (server_page hist (Some stale)) p3)))))"

lemma loadOlder_other_key:
  assumes "pg_key p \<noteq> k" and "latest \<noteq> []" and "sorted_wrt (<) (map c_bucket_start latest)"
  shows "loadOlder k latest p = Some ((paged_init k)\<lparr>pg_loading := True\<rparr>, c_bucket_start (hd latest))"
proof -
  have "candles_of k latest p = latest"
    using merge_ordered [of "[]" latest] assms by (simp add: candles_of_def older_of_def)
  then show ?thesis
    using assms by (simp add: loadOlder_def isLoadingOlder_of_def hasMore_of_def older_of_def paged_init_def)
qed

lemma loadOlder_paged_at:
  assumes "sorted_wrt (<) (map c_bucket_start hist)" and "PAGE * (n + 1) \<le> length hist"
  shows "loadOlder k (server_page hist None) (paged_at hist k n) =
    Some ((paged_at hist k n)\<lparr>pg_loading := True\<rparr>, c_bucket_start (hd (slice_last (PAGE * (n + 1)) hist)))"
proof -
  have "slice_last (PAGE * (n + 1)) hist \<noteq> []" using assms(2) by (auto simp: slice_last_def PAGE_def)
  then show ?thesis
    using assms(2) candles_paged_at [OF assms(1), of k n]
    by (simp add: loadOlder_def isLoadingOlder_of_def hasMore_of_def older_of_def)
       (simp add: paged_at_def)
qed

lemma sorted_drop_both:
  assumes "sorted_wrt R (xs @ ys)"
  shows "sorted_wrt R (drop m xs @ drop n ys)"
  using assms by (auto simp: sorted_wrt_append sorted_wrt_drop dest: in_set_dropD)

lemma sort_disjoint_swap:
  assumes "sorted_wrt (<) (map c_bucket_start (ys @ xs @ zs))"
  shows "merge_candles (xs @ ys) zs = ys @ xs @ zs"
proof -
  have d: "distinct (map c_bucket_start (ys @ xs @ zs))" and s: "sorted (map c_bucket_start (ys @ xs @ zs))"
    using assms by (simp_all only: strict_sorted_iff)
  have d': "distinct (map c_bucket_start ((xs @ ys) @ zs))" using d by auto
  then have "merge_candles (xs @ ys) zs = sort_key c_bucket_start ((xs @ ys) @ zs)"
    unfolding merge_candles_def by (simp only: map_candles_fresh)
  also have "\<dots> = ys @ xs @ zs"
  proof (rule sort_key_inj_key_eq)
    show "inj_on c_bucket_start (set ((xs @ ys) @ zs))"
      using d' by (simp only: distinct_map)
  qed (use s in simp_all)
  finally show ?thesis .
qed

text \<open>
  a page requested before two switches of the target is not dropped but merged, and leaves a hole:
  with 800 candles of history, two older pages loaded and a third requested, switching to another target
  and back (each loading a page) restarts the buffer, the late third page is merged into it because the
  key matches again, and the candles shown then lack the 200 candles of the second page; the oldest candle
  shown, the cursor of the next request, is that of the third page, before the hole.
\<close>

theorem stale_page_leaves_gap:
  assumes sorted: "sorted_wrt (<) (map c_bucket_start hist)" and long: "800 \<le> length hist"
    and other: "k' \<noteq> k" "latest' \<noteq> []" "sorted_wrt (<) (map c_bucket_start latest')"
  shows "\<exists>p. there_and_back hist k k' latest' ((load_round hist k ^^ 2) (paged_init k)) = Some p \<and>
    candles_of k (server_page hist None) p =
      slice_last 200 (take (length hist - 600) hist) @ slice_last 400 hist"
proof -
  define r3 where "r3 = slice_last 200 (take (length hist - 600) hist)"
  define r1 where "r1 = slice_last 200 (take (length hist - 200) hist)"
  define r0 where "r0 = slice_last 200 hist"
  have ne: "hist \<noteq> []" using long by auto
  have latest: "server_page hist None = r0" "r0 \<noteq> []" "sorted_wrt (<) (map c_bucket_start r0)"
    using sorted long by (auto simp: server_page_def r0_def PAGE_def slice_last_def sorted_wrt_drop simp flip: drop_map)
  have first: "loadOlder k r0 (paged_at hist k 2) =
      Some ((paged_at hist k 2)\<lparr>pg_loading := True\<rparr>, c_bucket_start (hd (slice_last 600 hist)))"
    using loadOlder_paged_at [OF sorted, of 2 k] long by (simp add: PAGE_def latest)
  have pages: "server_page hist (Some (c_bucket_start (hd (slice_last 600 hist)))) = r3"
    "server_page hist (Some (c_bucket_start (hd r0))) = r1"
    using server_page_before [OF sorted ne, of 600] server_page_before [OF sorted ne, of 200]
    by (simp_all add: r3_def r1_def r0_def PAGE_def)
  have len: "length r3 = 200" "r1 \<noteq> []" "r3 \<noteq> []" using long by (auto simp: r3_def r1_def slice_last_def)
  have all: "r3 @ r1 @ r0 = slice_last 200 (take (length hist - 600) hist) @ slice_last 400 hist"
    using slice_last_pages [of 200 hist 200] by (simp add: r3_def r1_def r0_def)
  have ordered: "sorted_wrt (<) (map c_bucket_start (r3 @ r1 @ r0))"
  proof -
    have "sorted_wrt (<) (take (length hist - 600) (map c_bucket_start hist) @
        drop (length hist - 600) (map c_bucket_start hist))"
      using sorted by simp
    from sorted_drop_both [OF this, of "length hist - 600 - 200" 200] show ?thesis
      unfolding all using long by (simp add: slice_last_def drop_map take_map min_absorb1 min_absorb2)
  qed
  then have shown: "merge_candles (r1 @ r3) r0 = r3 @ r1 @ r0" by (rule sort_disjoint_swap)
  have d: "distinct (map c_bucket_start (r1 @ r3))" "distinct (map c_bucket_start (r3 @ []))"
    using ordered by (auto simp: strict_sorted_iff simp del: sorted_wrt_append)
  show ?thesis
    unfolding load_rounds_at [OF sorted ne] there_and_back_def latest(1) first
    using other d len map_candles_fresh [OF d(1)] map_candles_fresh [OF d(2)] shown all
    by (simp add: loadOlder_other_key latest pages older_loaded_def paged_init_def paged_at_def
        candles_of_def older_of_def map_candles_def)
qed

definition sample_history :: "nat \<Rightarrow> Candle list" where
  "sample_history n = map (\<lambda>i. sample_candle (replicate i CHR ''0'')) [0..<n]"

lemma sample_history_ordered: "sorted_wrt (<) (map c_bucket_start (sample_history n))"
proof -
  have less: "replicate i c < replicate j (c :: char)" if "i < j" for i j c
    using that
  proof (induction i arbitrary: j)
    case 0
    then show ?case by (cases j) simp_all
  next
    case (Suc i)
    then show ?case by (cases j) simp_all
  qed
  show ?thesis
    unfolding sample_history_def
    by (simp add: sample_candle_def sorted_wrt_map comp_def)
       (rule sorted_wrt_mono_rel [OF _ sorted_wrt_upt], simp add: less)
qed

theorem stale_page_leaves_gap_witness:
  "\<exists>p. there_and_back (sample_history 800) ''device d 1m'' ''device d 1h'' (sample_history 1)
      ((load_round (sample_history 800) ''device d 1m'' ^^ 2) (paged_init ''device d 1m'')) = Some p \<and>
    candles_of ''device d 1m'' (server_page (sample_history 800) None) p =
      slice_last 200 (take (length (sample_history 800) - 600) (sample_history 800)) @
      slice_last 400 (sample_history 800)"
proof (rule stale_page_leaves_gap)
  show "sample_history 1 \<noteq> []" by (simp add: sample_history_def)
  show "800 \<le> length (sample_history 800)" by (simp add: sample_history_def)
qed (simp_all add: sample_history_ordered)

end
