(* ===== verification/Candle_Chart.thy ===== *)
theory Candle_Chart
  imports Candles Datetime Units
begin

text \<open>
  The candle chart, src/web/src/components/charts/CandleChart.tsx and candleOption.ts: the visible time
  window and the value scale as the wheel, drag, refresh and \<open>Latest\<close> handlers update them, and the
  geometry of the bars.  ECharts is a parameter: \<open>conv\<close> is \<open>convertFromPixel\<close> (\<open>None\<close> when it returns no
  array), what is dispatched to the chart is returned as a list of actions, and the \<open>dataZoom\<close> options
  the chart reports are an argument.  \<open>expf\<close> is \<open>Math.exp\<close>; the code only uses it clamped.
\<close>

section \<open>Windows and rows\<close>

datatype ChartType = Chart_bar | Chart_line

definition DEFAULT_VISIBLE :: number where "DEFAULT_VISIBLE = 60"

definition MIN_VISIBLE :: number where "MIN_VISIBLE = 5"

fun CANDLE_MS :: "Timeframe \<Rightarrow> number" where
  "CANDLE_MS TF_1m = 60000"
| "CANDLE_MS TF_3m = 180000"
| "CANDLE_MS TF_5m = 300000"
| "CANDLE_MS TF_15m = 900000"
| "CANDLE_MS TF_30m = 1800000"
| "CANDLE_MS TF_1h = 3600000"
| "CANDLE_MS TF_1d = 86400000"
| "CANDLE_MS TF_7d = 604800000"
| "CANDLE_MS TF_1mo = 2592000000"

definition isDaily :: "Timeframe \<Rightarrow> bool" where
  "isDaily tf \<longleftrightarrow> tf = TF_1d \<or> tf = TF_7d \<or> tf = TF_1mo"

record Row =
  r_ts :: number
  r_rxLow :: number
  r_rxHigh :: number
  r_txLow :: number
  r_txHigh :: number
  r_rxAvg :: number
  r_txAvg :: number

record Window =
  startValue :: number
  endValue :: number

definition defaultWindow :: "Row list \<Rightarrow> Timeframe \<Rightarrow> Window option" where
  "defaultWindow rows tf =
     (if length rows = 0 then None
      else let end_v = r_ts (rows ! (length rows - 1)) in
           Some \<lparr>startValue = end_v - DEFAULT_VISIBLE * CANDLE_MS tf, endValue = end_v\<rparr>)"

text \<open>The rows of the series; \<open>None\<close> when a bucket start is not a date.\<close>

definition row_of :: "(string \<Rightarrow> int option) \<Rightarrow> Candle \<Rightarrow> Row option" where
  "row_of parse c =
     map_option (\<lambda>t. \<lparr>r_ts = of_int t, r_rxLow = c_rx_low c, r_rxHigh = c_rx_high c, r_txLow = c_tx_low c,
       r_txHigh = c_tx_high c, r_rxAvg = c_rx_avg c, r_txAvg = c_tx_avg c\<rparr>) (parse (c_bucket_start c))"

definition chart_rows :: "(string \<Rightarrow> int option) \<Rightarrow> Candle list \<Rightarrow> Row list option" where
  "chart_rows parse cs = those (map (row_of parse) cs)"

definition chart_ready :: "bool \<Rightarrow> bool \<Rightarrow> Row list \<Rightarrow> bool" where
  "chart_ready isError isLoading rows \<longleftrightarrow>
     \<not> isError \<and> \<not> (isLoading \<and> length rows = 0) \<and> length rows > 0"

section \<open>State and events\<close>

record chart_refs =
  zoomRef :: "Window option"
  yZoomRef :: "Window option"
  lastLatestRef :: "number option"

definition refs_init :: chart_refs where
  "refs_init = \<lparr>zoomRef = None, yZoomRef = None, lastLatestRef = None\<rparr>"

datatype chart_action = Dispatch_dataZoom Window | Set_yAxis number "number option"

record DOMRect =
  rect_left :: number
  rect_top :: number
  rect_width :: number
  rect_height :: number

record WheelEvent =
  clientX :: number
  clientY :: number
  deltaX :: number
  deltaY :: number
  deltaMode :: nat
  ctrlKey :: bool

type_synonym converter = "number \<Rightarrow> number \<Rightarrow> (jsnum \<times> jsnum) option"

definition wheel_norm :: "WheelEvent \<Rightarrow> number \<Rightarrow> number" where
  "wheel_norm e d = (if deltaMode e = 1 then d * 16 else if deltaMode e = 2 then d * 400 else d)"

definition convY :: "converter \<Rightarrow> number \<Rightarrow> number \<Rightarrow> jsnum" where
  "convY conv px py = (case conv px py of Some (_, v) \<Rightarrow> v | None \<Rightarrow> NaN)"

text \<open>\<open>Math.min(hi, Math.max(lo, x))\<close>\<close>

definition clamp :: "number \<Rightarrow> number \<Rightarrow> number \<Rightarrow> number" where
  "clamp lo hi x = min hi (max lo x)"

text \<open>The value range of span \<open>newSpan\<close> with \<open>anchor\<close> at the fraction \<open>fr\<close>, shifted up when it would
  start below zero.\<close>

definition scaled_range :: "number \<Rightarrow> number \<Rightarrow> number \<Rightarrow> Window" where
  "scaled_range anchor fr newSpan =
     (let newBot = anchor - fr * newSpan; newTop = newBot + newSpan in
      if newBot < 0 then \<lparr>startValue = 0, endValue = newTop - newBot\<rparr>
      else \<lparr>startValue = newBot, endValue = newTop\<rparr>)"

section \<open>Wheel\<close>

definition wheel_value_axis ::
  "(number \<Rightarrow> number) \<Rightarrow> converter \<Rightarrow> DOMRect \<Rightarrow> WheelEvent \<Rightarrow> chart_refs \<Rightarrow> chart_refs \<times> chart_action list" where
  "wheel_value_axis expf conv rect e st =
     (let x = clientX e - rect_left rect; y = clientY e - rect_top rect in
      case (convY conv x 8, convY conv x (rect_height rect - 22), convY conv x y) of
        (Fin topV, Fin botV, Fin curV) \<Rightarrow>
          (let span = topV - botV in
           if span \<le> 0 then (st, [])
           else let dy = wheel_norm e (deltaY e);
                    factor = clamp (55/100) (18/10) (expf (dy * (12/10000)));
                    fr = (curV - botV) / span;
                    w = scaled_range curV fr (span * factor)
                in (st\<lparr>yZoomRef := Some w\<rparr>, [Set_yAxis (startValue w) (Some (endValue w))]))
      | _ \<Rightarrow> (st, []))"

definition pan_window :: "DOMRect \<Rightarrow> number \<Rightarrow> Window \<Rightarrow> Window" where
  "pan_window rect dx w =
     (let plotW = max 1 (rect_width rect - 70); dt = dx * ((endValue w - startValue w) / plotW) in
      \<lparr>startValue = startValue w + dt, endValue = endValue w + dt\<rparr>)"

definition zoom_window ::
  "(number \<Rightarrow> number) \<Rightarrow> converter \<Rightarrow> number \<Rightarrow> bool \<Rightarrow> number \<Rightarrow> number \<Rightarrow> number \<Rightarrow> Window \<Rightarrow> Window" where
  "zoom_window expf conv x ctrl dy minSpan maxSpan w =
     (let span = endValue w - startValue w;
          k = (if ctrl then 5/1000 else 8/10000);
          factor = clamp (75/100) (135/100) (expf (dy * k));
          newSpan = min maxSpan (max minSpan (span * factor));
          anchor = (case conv x 10 of Some (Fin p, _) \<Rightarrow> p | _ \<Rightarrow> startValue w + span / 2);
          fr = clamp 0 1 ((anchor - startValue w) / span);
          start = anchor - fr * newSpan
      in \<lparr>startValue = start, endValue = start + newSpan\<rparr>)"

definition clamp_window :: "number \<Rightarrow> number \<Rightarrow> number \<Rightarrow> Window \<Rightarrow> Window" where
  "clamp_window earliest latest pad w0 =
     (let w1 = (if endValue w0 > latest + pad then
                  let d = endValue w0 - (latest + pad) in
                  \<lparr>startValue = startValue w0 - d, endValue = endValue w0 - d\<rparr>
                else w0)
      in if startValue w1 < earliest - pad then
           let d = earliest - pad - startValue w1 in
           \<lparr>startValue = startValue w1 + d, endValue = min (endValue w1 + d) (latest + pad)\<rparr>
         else w1)"

definition onWheel ::
  "(number \<Rightarrow> number) \<Rightarrow> converter \<Rightarrow> DOMRect \<Rightarrow> Timeframe \<Rightarrow> Row list \<Rightarrow> WheelEvent \<Rightarrow> chart_refs \<Rightarrow>
   chart_refs \<times> chart_action list" where
  "onWheel expf conv rect tf rows e st =
     (let x = clientX e - rect_left rect in
      if x \<ge> rect_width rect - 72 then wheel_value_axis expf conv rect e st
      else case zoomRef st of
        None \<Rightarrow> (st, [])
      | Some w \<Rightarrow>
          if length rows = 0 then (st, [])
          else if \<not> endValue w - startValue w > 0 then (st, [])
          else
            let earliest = r_ts (rows ! 0);
                latest = r_ts (rows ! (length rows - 1));
                pad = CANDLE_MS tf;
                minSpan = CANDLE_MS tf * MIN_VISIBLE;
                maxSpan = max (latest - earliest + pad * 2) minSpan;
                dx = wheel_norm e (deltaX e);
                dy = wheel_norm e (deltaY e);
                w' = (if \<bar>dx\<bar> > \<bar>dy\<bar> then pan_window rect dx w
                      else zoom_window expf conv x (ctrlKey e) dy minSpan maxSpan w);
                w'' = clamp_window earliest latest pad w'
            in (st\<lparr>zoomRef := Some w''\<rparr>, [Dispatch_dataZoom w'']))"

section \<open>Dragging the value axis\<close>

record drag_state =
  drag_active :: bool
  drag_startY :: number
  drag_span0 :: number
  drag_anchor :: number
  drag_frac :: number

definition drag_init :: drag_state where
  "drag_init = \<lparr>drag_active = False, drag_startY = 0, drag_span0 = 0, drag_anchor = 0, drag_frac = 0\<rparr>"

text \<open>\<open>onDown\<close> with the pointer at \<open>cx\<close>, \<open>cy\<close>.\<close>

definition onDown :: "converter \<Rightarrow> DOMRect \<Rightarrow> number \<Rightarrow> number \<Rightarrow> drag_state \<Rightarrow> drag_state" where
  "onDown conv rect cx cy drag =
     (let x = cx - rect_left rect in
      if x < rect_width rect - 72 then drag
      else case (convY conv x 8, convY conv x (rect_height rect - 22), convY conv x (cy - rect_top rect)) of
        (Fin topV, Fin botV, Fin anchor) \<Rightarrow>
          (let span0 = topV - botV in
           if span0 \<le> 0 then drag
           else \<lparr>drag_active = True, drag_startY = cy, drag_span0 = span0, drag_anchor = anchor,
                 drag_frac = (anchor - botV) / span0\<rparr>)
      | _ \<Rightarrow> drag)"

definition onDragMove ::
  "(number \<Rightarrow> number) \<Rightarrow> drag_state \<Rightarrow> number \<Rightarrow> chart_refs \<Rightarrow> chart_refs \<times> chart_action list" where
  "onDragMove expf drag cy st =
     (if \<not> drag_active drag then (st, [])
      else let dy = cy - drag_startY drag;
               factor = clamp (2/10) 5 (expf (dy * (4/1000)));
               w = scaled_range (drag_anchor drag) (drag_frac drag) (drag_span0 drag * factor)
           in (st\<lparr>yZoomRef := Some w\<rparr>, [Set_yAxis (startValue w) (Some (endValue w))]))"

definition onDragUp :: "drag_state \<Rightarrow> drag_state" where
  "onDragUp drag = drag\<lparr>drag_active := False\<rparr>"

text \<open>The cursor over the chart; \<open>None\<close> when the handler leaves it.\<close>

definition onHover :: "DOMRect \<Rightarrow> drag_state \<Rightarrow> number \<Rightarrow> string option" where
  "onHover rect drag cx =
     (if drag_active drag then None
      else Some (if cx - rect_left rect \<ge> rect_width rect - 72 then ''ns-resize'' else ''''))"

section \<open>Refresh, zoom events and reset\<close>

record dataZoom_option =
  dz_id :: "string option"
  dz_startValue :: "number option"
  dz_endValue :: "number option"

text \<open>\<open>list.find((d) => d.id === "dzX") ?? list[0]\<close>\<close>

definition find_dzX :: "dataZoom_option list \<Rightarrow> dataZoom_option option" where
  "find_dzX dzs =
     (case find (\<lambda>d. dz_id d = Some ''dzX'') dzs of
        Some d \<Rightarrow> Some d
      | None \<Rightarrow> (case dzs of [] \<Rightarrow> None | d # _ \<Rightarrow> Some d))"

text \<open>\<open>onZoom\<close>: the new state and whether older candles are requested.\<close>

definition onZoom ::
  "Timeframe \<Rightarrow> dataZoom_option list \<Rightarrow> Row list \<Rightarrow> bool \<Rightarrow> bool \<Rightarrow> chart_refs \<Rightarrow> chart_refs \<times> bool" where
  "onZoom tf dzs rows hasMore isLoadingOlder st =
     (case find_dzX dzs of
        Some d \<Rightarrow>
          (case (dz_startValue d, dz_endValue d) of
             (Some s, Some e) \<Rightarrow>
               (st\<lparr>zoomRef := Some \<lparr>startValue = s, endValue = e\<rparr>\<rparr>,
                (case rows of
                   [] \<Rightarrow> False
                 | r # _ \<Rightarrow> s \<le> r_ts r + CANDLE_MS tf * 4 \<and> hasMore \<and> \<not> isLoadingOlder))
           | _ \<Rightarrow> (st, False))
      | None \<Rightarrow> (st, False))"

definition reset_view :: "chart_refs \<Rightarrow> chart_refs" where
  "reset_view st = st\<lparr>zoomRef := None, lastLatestRef := None\<rparr>"

text \<open>The effect that pushes rows to the chart, as far as it changes the view.\<close>

definition push_rows :: "Timeframe \<Rightarrow> Row list \<Rightarrow> chart_refs \<Rightarrow> chart_refs" where
  "push_rows tf rows st =
     (if length rows = 0 then st
      else
        let latest = r_ts (rows ! (length rows - 1));
            zoom = (case zoomRef st of
                      None \<Rightarrow> defaultWindow rows tf
                    | Some w \<Rightarrow>
                        (case lastLatestRef st of
                           None \<Rightarrow> Some w
                         | Some last_latest \<Rightarrow>
                             if latest > last_latest \<and> endValue w \<ge> last_latest - CANDLE_MS tf
                             then Some \<lparr>startValue = startValue w + (latest - endValue w), endValue = latest\<rparr>
                             else Some w))
        in st\<lparr>zoomRef := zoom, lastLatestRef := Some latest\<rparr>)"

definition onLatest :: "bool \<Rightarrow> Timeframe \<Rightarrow> Row list \<Rightarrow> chart_refs \<Rightarrow> chart_refs \<times> chart_action list" where
  "onLatest has_chart tf rows st =
     (let zoom = defaultWindow rows tf in
      (st\<lparr>zoomRef := zoom, yZoomRef := None\<rparr>,
       if has_chart
       then (case zoom of None \<Rightarrow> [] | Some w \<Rightarrow> [Dispatch_dataZoom w]) @ [Set_yAxis 0 None]
       else []))"

section \<open>Window arithmetic\<close>

abbreviation window_span :: "Window \<Rightarrow> number" where
  "window_span w \<equiv> endValue w - startValue w"

lemma CANDLE_MS_pos [simp]: "0 < CANDLE_MS tf" "CANDLE_MS tf \<noteq> 0" "0 \<le> CANDLE_MS tf"
  by (cases tf; simp)+

lemma clamp_bounds: "lo \<le> hi \<Longrightarrow> lo \<le> clamp lo hi x" "clamp lo hi x \<le> hi"
  by (simp_all add: clamp_def)

lemma scaled_range_bounds:
  assumes "0 < s"
  shows "0 \<le> startValue (scaled_range a f s)" and "window_span (scaled_range a f s) = s"
  by (simp_all add: scaled_range_def Let_def)

lemma clamp_window_bounds:
  assumes "earliest \<le> latest" and "0 < pad" and "startValue w < endValue w"
  shows "earliest - pad \<le> startValue (clamp_window earliest latest pad w)"
    and "endValue (clamp_window earliest latest pad w) \<le> latest + pad"
    and "window_span (clamp_window earliest latest pad w) = min (window_span w) (latest - earliest + 2 * pad)"
  using assms by (auto simp: clamp_window_def Let_def min_def)

lemma pan_window_span: "window_span (pan_window rect dx w) = window_span w"
  by (simp add: pan_window_def Let_def)

lemma zoom_window_span:
  "window_span (zoom_window expf conv x ctrl dy minSpan maxSpan w) =
   min maxSpan (max minSpan (window_span w * clamp (75/100) (135/100) (expf (dy * (if ctrl then 5/1000 else 8/10000)))))"
  by (simp add: zoom_window_def Let_def)

section \<open>The wheel over the plot\<close>

lemma wheel_window:
  assumes w: "zoomRef st = Some w" "startValue w < endValue w"
    and rows: "rows \<noteq> []" "r_ts (hd rows) \<le> r_ts (last rows)"
    and plot: "clientX e - rect_left rect < rect_width rect - 72"
  shows "\<exists>w'. onWheel expf conv rect tf rows e st = (st\<lparr>zoomRef := Some w'\<rparr>, [Dispatch_dataZoom w']) \<and>
    r_ts (hd rows) - CANDLE_MS tf \<le> startValue w' \<and> startValue w' < endValue w' \<and>
    endValue w' \<le> r_ts (last rows) + CANDLE_MS tf \<and>
    (\<bar>wheel_norm e (deltaX e)\<bar> > \<bar>wheel_norm e (deltaY e)\<bar> \<longrightarrow>
       window_span w' = min (window_span w) (r_ts (last rows) - r_ts (hd rows) + 2 * CANDLE_MS tf)) \<and>
    (\<bar>wheel_norm e (deltaX e)\<bar> \<le> \<bar>wheel_norm e (deltaY e)\<bar> \<longrightarrow>
       window_span w' \<ge> min (5 * CANDLE_MS tf) (r_ts (last rows) - r_ts (hd rows) + 2 * CANDLE_MS tf) \<and>
       window_span w' \<le> max (5 * CANDLE_MS tf) (window_span w * (135/100)))"
proof -
  define lo hi pad where "lo = r_ts (hd rows)" and "hi = r_ts (last rows)" and "pad = CANDLE_MS tf"
  define minS maxS where "minS = pad * 5" and "maxS = max (hi - lo + pad * 2) minS"
  define pan where "pan \<longleftrightarrow> \<bar>wheel_norm e (deltaX e)\<bar> > \<bar>wheel_norm e (deltaY e)\<bar>"
  define zw where "zw = zoom_window expf conv (clientX e - rect_left rect) (ctrlKey e) (wheel_norm e (deltaY e)) minS maxS w"
  define n where "n = (if pan then pan_window rect (wheel_norm e (deltaX e)) w else zw)"
  define w' where "w' = clamp_window lo hi pad n"
  have ends: "rows ! 0 = hd rows" "rows ! (length rows - 1) = last rows"
    using rows by (simp_all add: hd_conv_nth last_conv_nth)
  have step: "onWheel expf conv rect tf rows e st = (st\<lparr>zoomRef := Some w'\<rparr>, [Dispatch_dataZoom w'])"
    using w rows plot
    by (simp add: onWheel_def Let_def ends w'_def n_def zw_def pan_def minS_def maxS_def lo_def hi_def pad_def MIN_VISIBLE_def
        del: One_nat_def)
  have order: "lo \<le> hi" "0 < pad" using rows by (simp_all add: lo_def hi_def pad_def)
  define f where "f = clamp (75/100) (135/100) (expf (wheel_norm e (deltaY e) * (if ctrlKey e then 5/1000 else 8/10000)))"
  have f: "75/100 \<le> f" "f \<le> 135/100" unfolding f_def by (rule clamp_bounds; simp)+
  have zs: "window_span zw = min maxS (max minS (window_span w * f))"
    unfolding zw_def f_def by (rule zoom_window_span)
  have grow: "window_span w * f \<le> window_span w * (135/100)" using f w by (intro mult_left_mono) auto
  have zpos: "0 < window_span zw" unfolding zs using order by (simp add: maxS_def minS_def max_def)
  have npos: "startValue n < endValue n"
  proof (cases pan)
    case True
    then show ?thesis using pan_window_span [of rect "wheel_norm e (deltaX e)" w] w by (simp add: n_def)
  next
    case False
    then show ?thesis using zpos by (simp add: n_def)
  qed
  note cb = clamp_window_bounds [OF order npos]
  have span: "window_span w' = min (window_span n) (hi - lo + 2 * pad)" unfolding w'_def by (rule cb(3))
  have "lo - pad \<le> startValue w'" "endValue w' \<le> hi + pad" unfolding w'_def by (rule cb(1), rule cb(2))
  moreover have "startValue w' < endValue w'" using span npos order by (simp add: min_def split: if_splits)
  moreover have "pan \<Longrightarrow> window_span w' = min (window_span w) (hi - lo + 2 * pad)"
    using span by (simp add: n_def pan_window_span)
  moreover have "\<not> pan \<Longrightarrow> window_span w' \<ge> min (5 * pad) (hi - lo + 2 * pad) \<and>
      window_span w' \<le> max (5 * pad) (window_span w * (135/100))"
    using span zs grow by (auto simp: n_def maxS_def minS_def min_def max_def)
  ultimately show ?thesis
    unfolding step pan_def lo_def hi_def pad_def by (intro exI [of _ w']) auto
qed

text \<open>
  C8: the wheel never loses the data: a wheel event over the plot sets and dispatches a proper window that
  lies inside the loaded candles with one candle of margin on each side; a horizontal scroll keeps the
  width (as far as the data allows), a vertical one changes it by a factor between 0.75 and 1.35 and never
  below five candles or the whole data, whichever is smaller.
\<close>

theorem wheel_keeps_window_in_data:
  assumes w: "zoomRef st = Some w" "startValue w < endValue w"
    and rows: "rows \<noteq> []" "r_ts (hd rows) \<le> r_ts (last rows)"
    and plot: "clientX e - rect_left rect < rect_width rect - 72"
  shows "\<exists>w'. onWheel expf conv rect tf rows e st = (st\<lparr>zoomRef := Some w'\<rparr>, [Dispatch_dataZoom w']) \<and>
    r_ts (hd rows) - CANDLE_MS tf \<le> startValue w' \<and> startValue w' < endValue w' \<and>
    endValue w' \<le> r_ts (last rows) + CANDLE_MS tf \<and>
    (\<bar>wheel_norm e (deltaX e)\<bar> > \<bar>wheel_norm e (deltaY e)\<bar> \<longrightarrow>
       window_span w' = min (window_span w) (r_ts (last rows) - r_ts (hd rows) + 2 * CANDLE_MS tf)) \<and>
    (\<bar>wheel_norm e (deltaX e)\<bar> \<le> \<bar>wheel_norm e (deltaY e)\<bar> \<longrightarrow>
       window_span w' \<ge> min (5 * CANDLE_MS tf) (r_ts (last rows) - r_ts (hd rows) + 2 * CANDLE_MS tf) \<and>
       window_span w' \<le> max (5 * CANDLE_MS tf) (window_span w * (135/100)))"
  by (rule wheel_window [OF assms])

definition sample_row :: "number \<Rightarrow> Row" where
  "sample_row t = \<lparr>r_ts = t, r_rxLow = 0, r_rxHigh = 8, r_txLow = 1, r_txHigh = 4, r_rxAvg = 5, r_txAvg = 2\<rparr>"

definition sample_wheel :: "number \<Rightarrow> number \<Rightarrow> WheelEvent" where
  "sample_wheel dx dy =
     \<lparr>clientX = 100, clientY = 50, deltaX = dx, deltaY = dy, deltaMode = 0, ctrlKey = False\<rparr>"

definition sample_rect :: DOMRect where
  "sample_rect = \<lparr>rect_left = 0, rect_top = 0, rect_width = 800, rect_height = 260\<rparr>"

theorem wheel_keeps_window_in_data_witness:
  "\<exists>w'. zoomRef (fst (onWheel (\<lambda>x. 1 + x) (\<lambda>_ _. None) sample_rect TF_1m [sample_row 0, sample_row 600000] (sample_wheel 9000 0)
      \<lparr>zoomRef = Some \<lparr>startValue = 0, endValue = 300000\<rparr>, yZoomRef = None, lastLatestRef = None\<rparr>)) = Some w' \<and>
    endValue w' \<le> 660000 \<and> endValue w' - startValue w' = 300000"
  using wheel_keeps_window_in_data
    [of "\<lparr>zoomRef = Some \<lparr>startValue = 0, endValue = 300000\<rparr>, yZoomRef = None, lastLatestRef = None\<rparr>"
      "\<lparr>startValue = 0, endValue = 300000\<rparr>" "[sample_row 0, sample_row 600000]" "sample_wheel 9000 0"
      sample_rect "\<lambda>x. 1 + x" "\<lambda>_ _. None" TF_1m]
  by (force simp: sample_row_def sample_wheel_def sample_rect_def wheel_norm_def)

section \<open>Zooming about the cursor\<close>

lemma zoom_window_anchored:
  assumes "conv x 10 = Some (Fin p, v)" and "startValue w \<le> p" "p \<le> endValue w" "startValue w < endValue w"
  shows "(p - startValue (zoom_window expf conv x ctrl dy lo hi w)) * window_span w =
    (p - startValue w) * window_span (zoom_window expf conv x ctrl dy lo hi w)"
proof -
  have "(p - startValue w) / window_span w \<le> 1" "0 \<le> (p - startValue w) / window_span w"
    using assms by (simp_all add: divide_le_eq)
  then have "clamp 0 1 ((p - startValue w) / window_span w) = (p - startValue w) / window_span w"
    by (simp add: clamp_def)
  then show ?thesis using assms(1,4) by (simp add: zoom_window_def Let_def)
qed

section \<open>The value scale\<close>

lemma value_scale_sound_parts:
  assumes conv: "convY conv (clientX e - rect_left rect) 8 = Fin topV"
      "convY conv (clientX e - rect_left rect) (rect_height rect - 22) = Fin botV"
      "convY conv (clientX e - rect_left rect) (clientY e - rect_top rect) = Fin curV"
    and gutter: "rect_width rect - 72 \<le> clientX e - rect_left rect" and range: "botV < topV"
  shows "\<exists>w. yZoomRef (fst (onWheel expf conv rect tf rows e st)) = Some w \<and> 0 \<le> startValue w \<and>
      (topV - botV) * (55/100) \<le> window_span w \<and> window_span w \<le> (topV - botV) * (18/10) \<and>
      (startValue w > 0 \<longrightarrow> (curV - startValue w) * (topV - botV) = (curV - botV) * window_span w)"
    and "\<exists>w. yZoomRef (fst (onDragMove expf (onDown conv rect (clientX e) (clientY e) drag) cy st')) = Some w \<and>
      0 \<le> startValue w \<and>
      (topV - botV) * (2/10) \<le> window_span w \<and> window_span w \<le> (topV - botV) * 5 \<and>
      (startValue w > 0 \<longrightarrow> (curV - startValue w) * (topV - botV) = (curV - botV) * window_span w)"
proof -
  have anchored: "(a - startValue (scaled_range a ((a - botV) / (topV - botV)) s)) * (topV - botV) =
      (a - botV) * window_span (scaled_range a ((a - botV) / (topV - botV)) s)"
    if "startValue (scaled_range a ((a - botV) / (topV - botV)) s) > 0" for a s
    using that range by (auto simp: scaled_range_def Let_def split: if_splits)
  have scale: "0 \<le> startValue (scaled_range a f ((topV - botV) * c)) \<and>
      (topV - botV) * l \<le> window_span (scaled_range a f ((topV - botV) * c)) \<and>
      window_span (scaled_range a f ((topV - botV) * c)) \<le> (topV - botV) * h"
    if "0 < l" "l \<le> c" "c \<le> h" for a f l c h
    using that range by (simp add: scaled_range_bounds)
  have c1: "55/100 \<le> clamp (55/100) (18/10) x" "clamp (55/100) (18/10) x \<le> 18/10" for x
    by (rule clamp_bounds; simp)+
  have c2: "2/10 \<le> clamp (2/10) 5 x" "clamp (2/10) 5 x \<le> 5" for x by (rule clamp_bounds; simp)+
  show "\<exists>w. yZoomRef (fst (onWheel expf conv rect tf rows e st)) = Some w \<and> 0 \<le> startValue w \<and>
      (topV - botV) * (55/100) \<le> window_span w \<and> window_span w \<le> (topV - botV) * (18/10) \<and>
      (startValue w > 0 \<longrightarrow> (curV - startValue w) * (topV - botV) = (curV - botV) * window_span w)"
    using gutter range scale [OF _ c1] anchored
    by (simp add: onWheel_def wheel_value_axis_def Let_def conv)
  show "\<exists>w. yZoomRef (fst (onDragMove expf (onDown conv rect (clientX e) (clientY e) drag) cy st')) = Some w \<and>
      0 \<le> startValue w \<and>
      (topV - botV) * (2/10) \<le> window_span w \<and> window_span w \<le> (topV - botV) * 5 \<and>
      (startValue w > 0 \<longrightarrow> (curV - startValue w) * (topV - botV) = (curV - botV) * window_span w)"
    using gutter range scale [OF _ c2] anchored
    by (simp add: onDown_def onDragMove_def Let_def conv)
qed

text \<open>
  the value scale stays sound under the wheel and under dragging: the axis starts at zero or above, its
  length is the previous length times a factor between 0.55 and 1.8 (wheel) or the length at the press times
  a factor between 0.2 and 5 (drag), and the value under the pointer keeps its relative height unless the
  axis is held at zero.
\<close>

theorem value_scale_sound:
  assumes conv: "convY conv (clientX e - rect_left rect) 8 = Fin topV"
      "convY conv (clientX e - rect_left rect) (rect_height rect - 22) = Fin botV"
      "convY conv (clientX e - rect_left rect) (clientY e - rect_top rect) = Fin curV"
    and gutter: "rect_width rect - 72 \<le> clientX e - rect_left rect" and range: "botV < topV"
  shows "(\<exists>w. yZoomRef (fst (onWheel expf conv rect tf rows e st)) = Some w \<and> 0 \<le> startValue w \<and>
      (topV - botV) * (55/100) \<le> window_span w \<and> window_span w \<le> (topV - botV) * (18/10) \<and>
      (startValue w > 0 \<longrightarrow> (curV - startValue w) * (topV - botV) = (curV - botV) * window_span w)) \<and>
    (\<exists>w. yZoomRef (fst (onDragMove expf (onDown conv rect (clientX e) (clientY e) drag) cy st')) = Some w \<and>
      0 \<le> startValue w \<and>
      (topV - botV) * (2/10) \<le> window_span w \<and> window_span w \<le> (topV - botV) * 5 \<and>
      (startValue w > 0 \<longrightarrow> (curV - startValue w) * (topV - botV) = (curV - botV) * window_span w))"
  using value_scale_sound_parts [OF assms] by blast

theorem value_scale_sound_witness:
  "\<exists>w. yZoomRef (fst (onWheel (\<lambda>x. 1 + x) (\<lambda>_ y. Some (Fin 0, Fin (250 - y))) sample_rect TF_1m []
      ((sample_wheel 0 (-100))\<lparr>clientX := 790\<rparr>) refs_init)) = Some w \<and> 0 \<le> startValue w"
  using value_scale_sound [of "\<lambda>_ y. Some (Fin 0, Fin (250 - y))" "(sample_wheel 0 (-100))\<lparr>clientX := 790\<rparr>"
      sample_rect 242 12 200 "\<lambda>x. 1 + x" TF_1m "[]" refs_init]
  by (force simp: convY_def sample_wheel_def sample_rect_def)

section \<open>Following the live candles\<close>

abbreviation latest_ts :: "Row list \<Rightarrow> number" where
  "latest_ts rows \<equiv> r_ts (rows ! (length rows - 1))"

definition pinned :: "Timeframe \<Rightarrow> chart_refs \<Rightarrow> bool" where
  "pinned tf st \<longleftrightarrow>
     (case (zoomRef st, lastLatestRef st) of
        (Some w, Some l) \<Rightarrow> l - CANDLE_MS tf \<le> endValue w
      | _ \<Rightarrow> False)"

lemma push_rows_pinned:
  assumes "zoomRef st = Some w" "lastLatestRef st = Some l" "rows \<noteq> []" "l \<le> latest_ts rows"
    and "l - CANDLE_MS tf \<le> endValue w"
  shows "push_rows tf rows st = st\<lparr>lastLatestRef := Some (latest_ts rows),
    zoomRef := Some (if l < latest_ts rows
      then \<lparr>startValue = latest_ts rows - window_span w, endValue = latest_ts rows\<rparr> else w)\<rparr>"
  using assms by (simp add: push_rows_def Let_def algebra_simps)

lemma push_rows_unpinned:
  assumes "zoomRef st = Some w" "lastLatestRef st = Some l" "rows \<noteq> []"
    and "endValue w < l - CANDLE_MS tf"
  shows "push_rows tf rows st = st\<lparr>lastLatestRef := Some (latest_ts rows), zoomRef := Some w\<rparr>"
  using assms by (simp add: push_rows_def Let_def)

lemma sorted_le_last: "sorted (a # xs) \<Longrightarrow> a \<le> last (a # xs)"
  by (cases xs rule: rev_cases) simp_all

lemma pushes_pinned:
  assumes "zoomRef st = Some w" "lastLatestRef st = Some l" "l - CANDLE_MS tf \<le> endValue w"
    and "\<forall>rows \<in> set us. rows \<noteq> []" "sorted (l # map latest_ts us)"
  shows "\<exists>w'. zoomRef (fold (push_rows tf) us st) = Some w' \<and> window_span w' = window_span w \<and>
    (if l < last (l # map latest_ts us) then endValue w' = last (l # map latest_ts us) else w' = w)"
  using assms
proof (induction us arbitrary: st w l)
  case (Cons rows us)
  define l' where "l' = latest_ts rows"
  define w' where "w' = (if l < l' then \<lparr>startValue = l' - window_span w, endValue = l'\<rparr> else w)"
  have le: "l \<le> l'" "sorted (l' # map latest_ts us)" using Cons.prems(5) by (simp_all add: l'_def)
  have step: "push_rows tf rows st = st\<lparr>lastLatestRef := Some l', zoomRef := Some w'\<rparr>"
    using push_rows_pinned [OF Cons.prems(1,2) _ _ Cons.prems(3)] Cons.prems(4) le by (simp add: l'_def w'_def)
  have "l' - CANDLE_MS tf \<le> endValue w'" using Cons.prems(3) le CANDLE_MS_pos(3) [of tf] by (auto simp: w'_def)
  then obtain w'' where w'': "zoomRef (fold (push_rows tf) us (push_rows tf rows st)) = Some w''"
      "window_span w'' = window_span w'"
      "if l' < last (l' # map latest_ts us) then endValue w'' = last (l' # map latest_ts us) else w'' = w'"
    using Cons.IH [of "push_rows tf rows st" w' l'] Cons.prems(4) le step by auto
  have "l' \<le> last (l' # map latest_ts us)" using le(2) by (rule sorted_le_last)
  then show ?case using w'' le by (auto simp: w'_def l'_def split: if_splits)
qed simp

lemma pushes_unpinned:
  assumes "zoomRef st = Some w" "lastLatestRef st = Some l" "endValue w < l - CANDLE_MS tf"
    and "\<forall>rows \<in> set us. rows \<noteq> []" "sorted (l # map latest_ts us)"
  shows "zoomRef (fold (push_rows tf) us st) = Some w"
  using assms
proof (induction us arbitrary: st l)
  case (Cons rows us)
  have "zoomRef (fold (push_rows tf) us (push_rows tf rows st)) = Some w"
  proof (rule Cons.IH [of _ "latest_ts rows"])
    show "endValue w < latest_ts rows - CANDLE_MS tf" using Cons.prems(3,5) by auto
  qed (use Cons.prems push_rows_unpinned [OF Cons.prems(1,2) _ Cons.prems(3)] in auto)
  then show ?case by simp
qed simp

lemma live_view_follows_parts:
  assumes "zoomRef st = Some w" "lastLatestRef st = Some l"
    and "list_all (\<lambda>rows. rows \<noteq> []) us" "sorted (l # map latest_ts us)"
  shows "pinned tf st \<longrightarrow> (\<exists>w'. zoomRef (fold (push_rows tf) us st) = Some w' \<and> window_span w' = window_span w \<and>
      (l < last (l # map latest_ts us) \<longrightarrow> endValue w' = last (l # map latest_ts us)) \<and>
      (l = last (l # map latest_ts us) \<longrightarrow> w' = w))"
    and "\<not> pinned tf st \<longrightarrow> zoomRef (fold (push_rows tf) us st) = Some w"
proof -
  have ne: "\<forall>rows \<in> set us. rows \<noteq> []" using assms(3) by (simp add: list_all_iff)
  show "pinned tf st \<longrightarrow> (\<exists>w'. zoomRef (fold (push_rows tf) us st) = Some w' \<and> window_span w' = window_span w \<and>
      (l < last (l # map latest_ts us) \<longrightarrow> endValue w' = last (l # map latest_ts us)) \<and>
      (l = last (l # map latest_ts us) \<longrightarrow> w' = w))"
  proof
    assume "pinned tf st"
    then have "l - CANDLE_MS tf \<le> endValue w" using assms by (simp add: pinned_def)
    from pushes_pinned [OF assms(1,2) this ne assms(4)] show "\<exists>w'. zoomRef (fold (push_rows tf) us st) = Some w' \<and>
        window_span w' = window_span w \<and>
        (l < last (l # map latest_ts us) \<longrightarrow> endValue w' = last (l # map latest_ts us)) \<and>
        (l = last (l # map latest_ts us) \<longrightarrow> w' = w)"
      by (auto split: if_splits)
  qed
  show "\<not> pinned tf st \<longrightarrow> zoomRef (fold (push_rows tf) us st) = Some w"
    using pushes_unpinned [OF assms(1,2) _ ne assms(4)] assms(1,2) by (simp add: pinned_def)
qed

text \<open>
  the view follows the live candles exactly when it is at their end: through any run of refreshes whose
  newest candle never goes back, a window that reaches the last candle seen (up to one candle) keeps its
  width and ends at the newest candle as soon as a new one has arrived, and a window the user has moved
  further into the past stays where it is.
\<close>

theorem live_view_follows:
  assumes "zoomRef st = Some w" "lastLatestRef st = Some l"
    and "list_all (\<lambda>rows. rows \<noteq> []) us" "sorted (l # map latest_ts us)"
  shows "(pinned tf st \<longrightarrow> (\<exists>w'. zoomRef (fold (push_rows tf) us st) = Some w' \<and> window_span w' = window_span w \<and>
      (l < last (l # map latest_ts us) \<longrightarrow> endValue w' = last (l # map latest_ts us)) \<and>
      (l = last (l # map latest_ts us) \<longrightarrow> w' = w))) \<and>
    (\<not> pinned tf st \<longrightarrow> zoomRef (fold (push_rows tf) us st) = Some w)"
  using live_view_follows_parts [OF assms] by blast

theorem live_view_follows_witness:
  "\<exists>w'. zoomRef (fold (push_rows TF_1m) [[sample_row 60000], [sample_row 60000, sample_row 180000]]
      \<lparr>zoomRef = Some \<lparr>startValue = -60000, endValue = 0\<rparr>, yZoomRef = None, lastLatestRef = Some 60000\<rparr>) = Some w' \<and>
    window_span w' = 60000 \<and> endValue w' = 180000"
  using live_view_follows
    [of "\<lparr>zoomRef = Some \<lparr>startValue = -60000, endValue = 0\<rparr>, yZoomRef = None, lastLatestRef = Some 60000\<rparr>"
      "\<lparr>startValue = -60000, endValue = 0\<rparr>" 60000 "[[sample_row 60000], [sample_row 60000, sample_row 180000]]" TF_1m]
  by (simp add: pinned_def) (simp add: sample_row_def)

section \<open>The view as a state machine\<close>

record chart_view =
  v_tf :: Timeframe
  v_rows :: "Row list"
  v_refs :: chart_refs
  v_drag :: drag_state

definition view_init :: chart_view where
  "view_init = \<lparr>v_tf = TF_1m, v_rows = [], v_refs = refs_init, v_drag = drag_init\<rparr>"

definition proper :: "Window \<Rightarrow> bool" where "proper w \<longleftrightarrow> startValue w < endValue w"

text \<open>The steps: a refresh with chronological rows, a new timeframe (the series starts empty), the wheel,
  the three mouse handlers, the \<open>Latest\<close> button, and a zoom event, for which ECharts reports a proper
  window (it enforces \<open>minValueSpan\<close>).\<close>

inductive view_step :: "(number \<Rightarrow> number) \<Rightarrow> chart_view \<Rightarrow> chart_view \<Rightarrow> bool" for expf where
  rows: "sorted (map r_ts rows) \<Longrightarrow>
    view_step expf v (v\<lparr>v_rows := rows, v_refs := push_rows (v_tf v) rows (v_refs v)\<rparr>)"
| timeframe: "view_step expf v (v\<lparr>v_tf := tf, v_rows := [], v_refs := reset_view (v_refs v)\<rparr>)"
| wheel: "view_step expf v (v\<lparr>v_refs := fst (onWheel expf conv rect (v_tf v) (v_rows v) e (v_refs v))\<rparr>)"
| down: "view_step expf v (v\<lparr>v_drag := onDown conv rect cx cy (v_drag v)\<rparr>)"
| move: "view_step expf v (v\<lparr>v_refs := fst (onDragMove expf (v_drag v) cy (v_refs v))\<rparr>)"
| up: "view_step expf v (v\<lparr>v_drag := onDragUp (v_drag v)\<rparr>)"
| latest: "view_step expf v (v\<lparr>v_refs := fst (onLatest has_chart (v_tf v) (v_rows v) (v_refs v))\<rparr>)"
| zoom: "(\<And>d s e. d \<in> set dzs \<Longrightarrow> dz_startValue d = Some s \<Longrightarrow> dz_endValue d = Some e \<Longrightarrow> s < e) \<Longrightarrow>
    view_step expf v (v\<lparr>v_refs := fst (onZoom (v_tf v) dzs (v_rows v) has_more loading (v_refs v))\<rparr>)"

inductive view_reach :: "(number \<Rightarrow> number) \<Rightarrow> chart_view \<Rightarrow> bool" for expf where
  init: "view_reach expf view_init"
| step: "view_reach expf v \<Longrightarrow> view_step expf v v' \<Longrightarrow> view_reach expf v'"

definition refs_wf :: "chart_refs \<Rightarrow> bool" where
  "refs_wf st \<longleftrightarrow> pred_option proper (zoomRef st) \<and>
     pred_option (\<lambda>w. 0 \<le> startValue w \<and> proper w) (yZoomRef st)"

definition view_wf :: "chart_view \<Rightarrow> bool" where
  "view_wf v \<longleftrightarrow> refs_wf (v_refs v) \<and> sorted (map r_ts (v_rows v)) \<and>
     (drag_active (v_drag v) \<longrightarrow> 0 < drag_span0 (v_drag v))"

lemma proper_scaled: "0 < s \<Longrightarrow> 0 \<le> startValue (scaled_range a f s) \<and> proper (scaled_range a f s)"
  using scaled_range_bounds [of s a f] by (simp add: proper_def)

lemma proper_default: "pred_option proper (defaultWindow rows tf)"
  by (simp add: defaultWindow_def Let_def proper_def DEFAULT_VISIBLE_def)

lemma refs_wf_push: "refs_wf st \<Longrightarrow> refs_wf (push_rows tf rows st)"
  using proper_default [of rows tf]
  by (auto simp: refs_wf_def push_rows_def Let_def proper_def split: option.splits)

lemma refs_wf_reset: "refs_wf st \<Longrightarrow> refs_wf (reset_view st)"
  by (simp add: refs_wf_def reset_view_def)

lemma refs_wf_latest: "refs_wf st \<Longrightarrow> refs_wf (fst (onLatest c tf rows st))"
  using proper_default [of rows tf] by (simp add: refs_wf_def onLatest_def Let_def)

lemma refs_wf_value_axis: "refs_wf st \<Longrightarrow> refs_wf (fst (wheel_value_axis expf conv rect e st))"
proof -
  assume st: "refs_wf st"
  have "0 < (t - b) * clamp (55/100) (18/10) x" if "b < t" for t b x :: number
    using that clamp_bounds(1) [of "55/100" "18/10" x] by (intro mult_pos_pos) auto
  then show ?thesis
    using st by (auto simp: refs_wf_def wheel_value_axis_def Let_def proper_scaled split: jsnum.splits)
qed

lemma refs_wf_drag:
  "refs_wf st \<Longrightarrow> drag_active d \<longrightarrow> 0 < drag_span0 d \<Longrightarrow> refs_wf (fst (onDragMove expf d cy st))"
proof -
  assume st: "refs_wf st" and d: "drag_active d \<longrightarrow> 0 < drag_span0 d"
  have "0 < drag_span0 d * clamp (2/10) 5 x" if "drag_active d" for x
    using that d clamp_bounds(1) [of "2/10" 5 x] by (intro mult_pos_pos) auto
  then show ?thesis using st by (simp add: refs_wf_def onDragMove_def Let_def proper_scaled)
qed

lemma sorted_ends: "sorted (map f rows) \<Longrightarrow> rows \<noteq> [] \<Longrightarrow> f (hd rows) \<le> f (last rows)"
  by (cases rows rule: rev_cases; cases "butlast rows") (auto simp: sorted_append)

lemma onZoom_window:
  assumes "\<And>d s e. d \<in> set dzs \<Longrightarrow> dz_startValue d = Some s \<Longrightarrow> dz_endValue d = Some e \<Longrightarrow> s < e"
    and "refs_wf st"
  shows "refs_wf (fst (onZoom tf dzs rows has_more loading st))"
proof -
  have "d \<in> set dzs" if "find_dzX dzs = Some d" for d
    using that by (auto simp: find_dzX_def find_Some_iff split: option.splits list.splits)
  with assms show ?thesis
    by (auto simp: onZoom_def refs_wf_def proper_def split: option.splits)
qed

lemma refs_wf_wheel:
  assumes "refs_wf st" "sorted (map r_ts rows)"
  shows "refs_wf (fst (onWheel expf conv rect tf rows e st))"
proof (cases "clientX e - rect_left rect < rect_width rect - 72 \<and> rows \<noteq> [] \<and> zoomRef st \<noteq> None")
  case True
  then obtain w where w: "zoomRef st = Some w" by auto
  then have "startValue w < endValue w" using assms by (simp add: refs_wf_def proper_def)
  from wheel_window [OF w this _ sorted_ends [OF assms(2)], of e rect expf conv tf] True
  obtain w' where "onWheel expf conv rect tf rows e st = (st\<lparr>zoomRef := Some w'\<rparr>, [Dispatch_dataZoom w'])"
      "startValue w' < endValue w'" by auto
  then show ?thesis using assms(1) by (simp add: refs_wf_def proper_def)
next
  case False
  then show ?thesis
    using assms(1) refs_wf_value_axis [OF assms(1), of expf conv rect e]
    by (auto simp: onWheel_def Let_def split: option.splits)
qed

lemma view_step_wf: "view_step expf v v' \<Longrightarrow> view_wf v \<Longrightarrow> view_wf v'"
proof (induction rule: view_step.induct)
  case (down v conv rect cx cy)
  then show ?case by (auto simp: view_wf_def onDown_def Let_def split: jsnum.splits)
next
  case (zoom dzs v has_more loading)
  then show ?case using onZoom_window [of dzs "v_refs v"] by (simp add: view_wf_def)
qed (simp_all add: view_wf_def refs_wf_push refs_wf_reset refs_wf_latest refs_wf_drag refs_wf_wheel onDragUp_def)

text \<open>
  C12: the view never degenerates: in every state the chart can reach by refreshes, changes of timeframe,
  wheel, drag, zoom and \<open>Latest\<close>, the time window (if set) is non-empty and the value scale (if set) is
  non-empty and starts at zero or above.
\<close>

theorem view_never_degenerates:
  assumes "view_reach expf v"
  shows "refs_wf (v_refs v)"
proof -
  from assms have "view_wf v"
  proof induction
    case init
    show ?case by (simp add: view_wf_def view_init_def refs_init_def refs_wf_def drag_init_def)
  qed (rule view_step_wf)
  then show ?thesis by (simp add: view_wf_def)
qed

theorem view_never_degenerates_witness:
  "refs_wf (v_refs (view_init\<lparr>v_rows := [sample_row 0], v_refs := push_rows TF_1m [sample_row 0] refs_init\<rparr>))"
proof (rule view_never_degenerates [of "\<lambda>x. 1 + x"])
  have "view_step (\<lambda>x. 1 + x) view_init
      (view_init\<lparr>v_rows := [sample_row 0], v_refs := push_rows (v_tf view_init) [sample_row 0] (v_refs view_init)\<rparr>)"
    by (rule view_step.rows) simp
  then show "view_reach (\<lambda>x. 1 + x)
      (view_init\<lparr>v_rows := [sample_row 0], v_refs := push_rows TF_1m [sample_row 0] refs_init\<rparr>)"
    using view_reach.init view_reach.step by (simp add: view_init_def) blast
qed

end
