(* ===== verification/Candle_Option.thy ===== *)
theory Candle_Option
  imports Candle_Chart
begin

text \<open>
  The chart option, src/web/src/components/charts/candleOption.ts: \<open>buildCandleOption\<close> as the option tree
  it returns, its callbacks as functions of their own, and the geometry of the range bars.  The ECharts
  drawing interface is a parameter: \<open>coord\<close> is \<open>api.coord\<close>, \<open>api_size\<close> what \<open>api.size?.\<close> returns.
\<close>

section \<open>Bars\<close>

record Colors =
  col_rx :: string
  col_tx :: string
  col_border :: string
  col_axis :: string
  col_card :: string
  col_muted :: string

text \<open>What \<open>api.size?.(...)\<close> gives: an array, a number, or undefined.\<close>

datatype size_raw = Size_array number | Size_number number | Size_undefined

record bar_rect =
  bar_x :: number
  bar_y :: number
  bar_width :: number
  bar_height :: number
  bar_fill :: string
  bar_opacity :: number

definition band_of :: "size_raw \<Rightarrow> number" where
  "band_of s = \<bar>case s of Size_array b \<Rightarrow> b | Size_number b \<Rightarrow> b | Size_undefined \<Rightarrow> 6\<bar>"

definition barW_of :: "number \<Rightarrow> number" where
  "barW_of band = max 1 (min 9 (band * (42/100)))"

definition gap_of :: "number \<Rightarrow> number" where
  "gap_of barW = max (5/10) (barW * (12/100))"

definition rangeRenderItem ::
  "(number \<Rightarrow> number \<Rightarrow> number \<times> number) \<Rightarrow> (number \<Rightarrow> number \<Rightarrow> size_raw) \<Rightarrow> Timeframe \<Rightarrow> Colors \<Rightarrow> Row \<Rightarrow> bar_rect list" where
  "rangeRenderItem coord api_size tf colors r =
     (let ts = r_ts r;
          x = fst (coord ts 0);
          barW = barW_of (band_of (api_size (CANDLE_MS tf) 0));
          gap = gap_of barW;
          rxHigh = snd (coord ts (r_rxHigh r));
          rxLow = snd (coord ts (r_rxLow r));
          txHigh = snd (coord ts (r_txHigh r));
          txLow = snd (coord ts (r_txLow r))
      in [\<lparr>bar_x = x - barW - gap / 2, bar_y = rxHigh, bar_width = barW,
            bar_height = max 1 (rxLow - rxHigh), bar_fill = col_rx colors, bar_opacity = 65/100\<rparr>,
          \<lparr>bar_x = x + gap / 2, bar_y = txHigh, bar_width = barW,
            bar_height = max 1 (txLow - txHigh), bar_fill = col_tx colors, bar_opacity = 65/100\<rparr>])"

section \<open>Labels\<close>

text \<open>\<open>s.replace(" ", "")\<close>: the first blank only.\<close>

fun remove_first_blank :: "string \<Rightarrow> string" where
  "remove_first_blank [] = []"
| "remove_first_blank (c # cs) = (if c = CHR '' '' then cs else c # remove_first_blank cs)"

definition middle_dot :: string where
  "middle_dot = map char_of [194 :: nat, 183]"

record label_env =
  le_parse :: "string \<Rightarrow> int option"
  le_tza :: "int \<Rightarrow> int"
  le_prefs :: datetime_prefs
  le_units :: UnitsPref

definition x_label :: "label_env \<Rightarrow> Timeframe \<Rightarrow> number \<Rightarrow> string" where
  "x_label env tf val =
     (if isDaily tf then formatDate (le_parse env) (le_tza env) (le_prefs env) (DV_number val)
      else formatTime (le_parse env) (le_tza env) (le_prefs env) (DV_number val))"

definition y_label :: "label_env \<Rightarrow> number \<Rightarrow> string" where
  "y_label env val = remove_first_blank (formatBps (le_units env) (Fin val))"

definition tooltip_line :: "label_env \<Rightarrow> string \<Rightarrow> string \<Rightarrow> number \<Rightarrow> number \<Rightarrow> number \<Rightarrow> string" where
  "tooltip_line env label color lo hi avg =
     ''<div style='' @ [CHR 0x22] @ ''color:'' @ color @ [CHR 0x22] @ ''>'' @ label @ ''&nbsp;&nbsp;H '' @
     formatBps (le_units env) (Fin hi) @ '' '' @ middle_dot @ '' L '' @ formatBps (le_units env) (Fin lo) @
     '' '' @ middle_dot @ '' avg '' @ formatBps (le_units env) (Fin avg) @ ''</div>''"

text \<open>The tooltip for the value of the first item under the pointer, if it has one.\<close>

definition tooltip :: "label_env \<Rightarrow> Colors \<Rightarrow> Row option \<Rightarrow> string" where
  "tooltip env colors v =
     (case v of
        None \<Rightarrow> ''''
      | Some r \<Rightarrow>
          ''<div style='' @ [CHR 0x22] @ ''color:'' @ col_axis colors @ '';margin-bottom:4px'' @ [CHR 0x22] @ ''>'' @
          formatDateTime (le_parse env) (le_tza env) (le_prefs env) (DV_number (r_ts r)) @ ''</div>'' @
          tooltip_line env ''RX'' (col_rx colors) (r_rxLow r) (r_rxHigh r) (r_rxAvg r) @
          tooltip_line env ''TX'' (col_tx colors) (r_txLow r) (r_txHigh r) (r_txAvg r))"

section \<open>The option tree\<close>

datatype callback = CB_rangeRenderItem | CB_tooltip | CB_x_label | CB_x_pointer | CB_y_label | CB_y_pointer

datatype opt =
    O_num number | O_str string | O_bool bool | O_null | O_rows "Row list" | O_fun callback
  | O_arr "opt list" | O_obj "(string \<times> opt) list"

definition barSeries :: "Row list \<Rightarrow> opt list" where
  "barSeries rows =
     [O_obj [(''type'', O_str ''custom''), (''name'', O_str ''candles''), (''renderItem'', O_fun CB_rangeRenderItem),
       (''encode'', O_obj [(''x'', O_num 0), (''y'', O_arr [O_num 1, O_num 2, O_num 3, O_num 4])]),
       (''data'', O_rows rows), (''clip'', O_bool True), (''z'', O_num 2)]]"

definition line_of :: "string \<Rightarrow> string \<Rightarrow> number \<Rightarrow> Row list \<Rightarrow> opt" where
  "line_of name color column rows =
     O_obj [(''type'', O_str ''line''), (''name'', O_str name), (''showSymbol'', O_bool False),
       (''smooth'', O_bool True), (''lineStyle'', O_obj [(''color'', O_str color), (''width'', O_num (175/100))]),
       (''areaStyle'', O_obj [(''color'', O_str color), (''opacity'', O_num (12/100))]),
       (''encode'', O_obj [(''x'', O_num 0), (''y'', O_num column)]), (''data'', O_rows rows),
       (''clip'', O_bool True), (''z'', O_num 2)]"

definition lineSeries :: "Colors \<Rightarrow> Row list \<Rightarrow> opt list" where
  "lineSeries colors rows = [line_of ''rx'' (col_rx colors) 5 rows, line_of ''tx'' (col_tx colors) 6 rows]"

definition dashed_line :: "Colors \<Rightarrow> opt" where
  "dashed_line colors = O_obj [(''color'', O_str (col_axis colors)), (''width'', O_num 1), (''opacity'', O_num (5/10)),
     (''type'', O_str ''dashed'')]"

definition tooltip_option :: "Colors \<Rightarrow> opt" where
  "tooltip_option colors =
     O_obj [(''trigger'', O_str ''axis''),
       (''axisPointer'', O_obj [(''type'', O_str ''cross''), (''lineStyle'', dashed_line colors),
          (''crossStyle'', dashed_line colors),
          (''label'', O_obj [(''backgroundColor'', O_str (col_muted colors)), (''color'', O_str (col_axis colors)),
             (''borderColor'', O_str (col_border colors)), (''borderWidth'', O_num 1),
             (''fontFamily'', O_str ''monospace''), (''fontSize'', O_num 10)])]),
       (''backgroundColor'', O_str (col_card colors)), (''borderColor'', O_str (col_border colors)),
       (''borderWidth'', O_num 1), (''padding'', O_num 8),
       (''textStyle'', O_obj [(''color'', O_str (col_axis colors)), (''fontSize'', O_num 11),
          (''fontFamily'', O_str ''monospace'')]),
       (''formatter'', O_fun CB_tooltip)]"

definition xAxis_option :: "Timeframe \<Rightarrow> Colors \<Rightarrow> opt" where
  "xAxis_option tf colors =
     O_obj [(''type'', O_str ''time''), (''minInterval'', O_num (CANDLE_MS tf)),
       (''axisLine'', O_obj [(''show'', O_bool False)]), (''axisTick'', O_obj [(''show'', O_bool False)]),
       (''axisLabel'', O_obj [(''color'', O_str (col_axis colors)), (''fontSize'', O_num 10),
          (''fontFamily'', O_str ''monospace''), (''hideOverlap'', O_bool True), (''formatter'', O_fun CB_x_label)]),
       (''axisPointer'', O_obj [(''label'', O_obj [(''formatter'', O_fun CB_x_pointer)])]),
       (''splitLine'', O_obj [(''show'', O_bool False)])]"

definition yAxis_option :: "Colors \<Rightarrow> Window option \<Rightarrow> opt" where
  "yAxis_option colors yWindow =
     O_obj [(''type'', O_str ''value''), (''position'', O_str ''right''),
       (''min'', O_num (case yWindow of Some w \<Rightarrow> startValue w | None \<Rightarrow> 0)),
       (''max'', case yWindow of Some w \<Rightarrow> O_num (endValue w) | None \<Rightarrow> O_null),
       (''axisLine'', O_obj [(''show'', O_bool False)]), (''axisTick'', O_obj [(''show'', O_bool False)]),
       (''axisLabel'', O_obj [(''color'', O_str (col_axis colors)), (''fontSize'', O_num 10),
          (''fontFamily'', O_str ''monospace''), (''formatter'', O_fun CB_y_label)]),
       (''axisPointer'', O_obj [(''label'', O_obj [(''formatter'', O_fun CB_y_pointer)])]),
       (''splitLine'', O_obj [(''lineStyle'', O_obj [(''color'', O_str (col_border colors)),
          (''type'', O_str ''dashed''), (''opacity'', O_num (6/10))])])]"

definition dataZoom_base :: "Timeframe \<Rightarrow> (string \<times> opt) list" where
  "dataZoom_base tf =
     [(''id'', O_str ''dzX''), (''type'', O_str ''inside''), (''xAxisIndex'', O_num 0),
      (''filterMode'', O_str ''filter''), (''zoomOnMouseWheel'', O_bool False), (''moveOnMouseMove'', O_bool True),
      (''moveOnMouseWheel'', O_bool False), (''minValueSpan'', O_num (CANDLE_MS tf * MIN_VISIBLE)),
      (''throttle'', O_num 30)]"

text \<open>The option with the first \<open>dataZoom\<close> entry \<open>dz\<close>.\<close>

definition option_with ::
  "(string \<times> opt) list \<Rightarrow> Row list \<Rightarrow> Timeframe \<Rightarrow> ChartType \<Rightarrow> Colors \<Rightarrow> Window option \<Rightarrow> opt" where
  "option_with dz rows tf chartType colors yWindow =
     O_obj [(''animation'', O_bool False), (''backgroundColor'', O_str ''transparent''),
       (''grid'', O_obj [(''top'', O_num 8), (''right'', O_num 64), (''bottom'', O_num 22), (''left'', O_num 6)]),
       (''tooltip'', tooltip_option colors), (''xAxis'', xAxis_option tf colors),
       (''yAxis'', yAxis_option colors yWindow), (''dataZoom'', O_arr [O_obj dz]),
       (''series'', O_arr (if chartType = Chart_bar then barSeries rows else lineSeries colors rows))]"

definition buildCandleOption ::
  "Row list \<Rightarrow> Timeframe \<Rightarrow> ChartType \<Rightarrow> Colors \<Rightarrow> Window option \<Rightarrow> opt" where
  "buildCandleOption rows tf chartType colors yWindow =
     option_with (dataZoom_base tf) rows tf chartType colors yWindow"

text \<open>What the refresh effect sets, when there are rows: the view it keeps spread over the \<open>dataZoom\<close>
  entry.\<close>

definition pushed_option ::
  "Row list \<Rightarrow> Timeframe \<Rightarrow> ChartType \<Rightarrow> Colors \<Rightarrow> chart_refs \<Rightarrow> chart_refs \<times> opt option" where
  "pushed_option rows tf chartType colors st =
     (if length rows = 0 then (st, None)
      else
        let st' = push_rows tf rows st;
            dz = (case zoomRef st' of
                    None \<Rightarrow> dataZoom_base tf
                  | Some w \<Rightarrow> dataZoom_base tf @
                      [(''startValue'', O_num (startValue w)), (''endValue'', O_num (endValue w))])
        in (st', Some (option_with dz rows tf chartType colors (yZoomRef st'))))"

section \<open>Geometry of the bars\<close>

lemma barW_bounds: "1 \<le> barW_of band" "barW_of band \<le> 9"
  by (simp_all add: barW_of_def)

lemma bars_fit: "25/8 \<le> band \<Longrightarrow> 2 * barW_of band + gap_of (barW_of band) \<le> band"
  by (simp add: barW_of_def gap_of_def max_def min_def)

text \<open>
  the bars never overlap: the download and upload bar of a candle are at least half a pixel apart and at
  least one pixel high, and when a candle takes at least 3.125 pixels, the bars of two candles whose
  centres are a candle apart do not overlap either.
\<close>

theorem bars_never_overlap:
  assumes "25/8 \<le> band_of (api_size (CANDLE_MS tf) 0)"
    and "fst (coord (r_ts r) 0) + band_of (api_size (CANDLE_MS tf) 0) \<le> fst (coord (r_ts r') 0)"
  shows "case rangeRenderItem coord api_size tf colors r @ rangeRenderItem coord api_size tf colors r' of
    [rx, tx, rx', tx'] \<Rightarrow>
      bar_x rx + bar_width rx + 1/2 \<le> bar_x tx \<and> bar_x tx + bar_width tx \<le> bar_x rx' \<and>
      1 \<le> bar_width rx \<and> 1 \<le> bar_height rx \<and> 1 \<le> bar_height tx
  | _ \<Rightarrow> False"
proof -
  define b where "b = band_of (api_size (CANDLE_MS tf) 0)"
  have fit: "2 * barW_of b + gap_of (barW_of b) \<le> b" using assms(1) unfolding b_def by (rule bars_fit)
  have "1/2 \<le> gap_of (barW_of b)" by (simp add: gap_of_def)
  with fit assms(2) barW_bounds(1) [of b] show ?thesis
    by (simp add: rangeRenderItem_def Let_def flip: b_def)
qed

definition sample_colors :: Colors where
  "sample_colors = \<lparr>col_rx = ''blue'', col_tx = ''amber'', col_border = ''gray'', col_axis = ''gray'',
     col_card = ''black'', col_muted = ''gray''\<rparr>"

theorem bars_never_overlap_witness:
  "bar_x (rangeRenderItem (\<lambda>t v. (t / 6000, 200 - v)) (\<lambda>d _. Size_array (d / 6000)) TF_1m sample_colors (sample_row 0) ! 1) +
     bar_width (rangeRenderItem (\<lambda>t v. (t / 6000, 200 - v)) (\<lambda>d _. Size_array (d / 6000)) TF_1m sample_colors (sample_row 0) ! 1)
   \<le> bar_x (rangeRenderItem (\<lambda>t v. (t / 6000, 200 - v)) (\<lambda>d _. Size_array (d / 6000)) TF_1m sample_colors (sample_row 60000) ! 0)"
  using bars_never_overlap [of "\<lambda>d _. Size_array (d / 6000)" TF_1m "\<lambda>t v. (t / 6000, 200 - v)" "sample_row 0"
      "sample_row 60000" sample_colors]
  by (simp add: rangeRenderItem_def Let_def sample_row_def band_of_def)

section \<open>The view survives a refresh\<close>

fun opt_get :: "opt \<Rightarrow> string \<Rightarrow> opt option" where
  "opt_get (O_obj kvs) k = map_of kvs k"
| "opt_get _ k = None"

fun opt_items :: "opt option \<Rightarrow> opt list" where
  "opt_items (Some (O_arr os)) = os"
| "opt_items _ = []"

fun opt_number :: "opt option \<Rightarrow> number option" where
  "opt_number (Some (O_num x)) = Some x"
| "opt_number _ = None"

fun opt_string :: "opt option \<Rightarrow> string option" where
  "opt_string (Some (O_str s)) = Some s"
| "opt_string _ = None"

text \<open>The \<open>dataZoom\<close> entries of an option, as \<open>onZoom\<close> reads them.\<close>

definition dz_entries :: "opt \<Rightarrow> dataZoom_option list" where
  "dz_entries opt =
     map (\<lambda>d. \<lparr>dz_id = opt_string (opt_get d ''id''), dz_startValue = opt_number (opt_get d ''startValue''),
               dz_endValue = opt_number (opt_get d ''endValue'')\<rparr>)
       (opt_items (opt_get opt ''dataZoom''))"

text \<open>Column \<open>i\<close> of a row.\<close>

definition row_column :: "Row \<Rightarrow> number \<Rightarrow> number option" where
  "row_column r i =
     map_of (zip [0, 1, 2, 3, 4, 5, 6] [r_ts r, r_rxLow r, r_rxHigh r, r_txLow r, r_txHigh r, r_rxAvg r, r_txAvg r]) i"

definition encoded_columns :: "opt \<Rightarrow> Row \<Rightarrow> number option list" where
  "encoded_columns series r =
     (case opt_get series ''encode'' of
        None \<Rightarrow> []
      | Some enc \<Rightarrow>
          (case opt_get enc ''y'' of
             Some (O_num i) \<Rightarrow> [row_column r i]
           | Some (O_arr os) \<Rightarrow> map (\<lambda>o'. Option.bind (opt_number (Some o')) (row_column r)) os
           | _ \<Rightarrow> []))"

text \<open>
  a refresh shows the view it keeps: the option pushed to the chart carries the kept time window, so that
  a zoom event reporting it back changes nothing; its value axis is the manual scale or starts at zero; and
  the series plot the low and high columns of the rows as bars or their averages as lines.
\<close>

theorem refresh_shows_view:
  assumes "rows \<noteq> []"
  shows "\<exists>opt ax. snd (pushed_option rows tf ct colors st) = Some opt \<and> opt_get opt ''yAxis'' = Some ax \<and>
    fst (onZoom tf (dz_entries opt) rows m l (fst (pushed_option rows tf ct colors st))) =
      fst (pushed_option rows tf ct colors st) \<and>
    opt_number (opt_get ax ''min'') = Some (case yZoomRef st of Some w \<Rightarrow> startValue w | None \<Rightarrow> 0) \<and>
    opt_number (opt_get ax ''max'') = map_option endValue (yZoomRef st) \<and>
    concat (map (\<lambda>s. encoded_columns s r) (opt_items (opt_get opt ''series''))) =
      map Some (if ct = Chart_bar then [r_rxLow r, r_rxHigh r, r_txLow r, r_txHigh r] else [r_rxAvg r, r_txAvg r])"
proof -
  have y: "yZoomRef (push_rows tf rows st) = yZoomRef st" by (simp add: push_rows_def Let_def)
  have "zoomRef (push_rows tf rows st) \<noteq> None"
    using assms by (simp add: push_rows_def Let_def defaultWindow_def split: option.splits)
  then obtain w where w: "zoomRef (push_rows tf rows st) = Some w" by blast
  have upd: "(push_rows tf rows st)\<lparr>zoomRef := Some w\<rparr> = push_rows tf rows st"
    using w by (metis chart_refs.surjective chart_refs.update_convs(1) chart_refs.select_convs(1))
  show ?thesis
    using assms upd
    by (cases "yZoomRef st")
       (simp_all add: pushed_option_def Let_def w y option_with_def dz_entries_def onZoom_def find_dzX_def
        dataZoom_base_def yAxis_option_def barSeries_def lineSeries_def line_of_def encoded_columns_def row_column_def)
qed

theorem refresh_shows_view_witness:
  "\<exists>opt. snd (pushed_option [sample_row 0] TF_1h Chart_line sample_colors refs_init) = Some opt \<and>
    concat (map (\<lambda>s. encoded_columns s (sample_row 0)) (opt_items (opt_get opt ''series''))) = [Some 5, Some 2]"
  using refresh_shows_view [of "[sample_row 0]" TF_1h Chart_line sample_colors refs_init False False "sample_row 0"]
  by (auto simp: sample_row_def)

end
