(* ===== verification/Notify.thy ===== *)
theory Notify
  imports Api_Enums
begin

text \<open>
  Notifications, src/web/src/lib/notify.ts: the configuration kept in the module, toasts, chimes and the
  operating-system notifications mirrored for a hidden tab.  Every call returns what it does as a list of
  effects.  The browser is an argument: which interfaces exist, the notification permission, whether the
  service worker controls the page and shows what it is asked to, and the audio clock.
\<close>

section \<open>Configuration\<close>

record NotifyConfig =
  toastSound :: bool
  browserNotifications :: bool
  position :: ToastPositionPref

definition config_init :: NotifyConfig where
  "config_init = \<lparr>toastSound = False, browserNotifications = False, position = Toast_bottom_right\<rparr>"

text \<open>A \<open>Partial<NotifyConfig>\<close>.\<close>

record NotifyPatch =
  np_toastSound :: "bool option"
  np_browserNotifications :: "bool option"
  np_position :: "ToastPositionPref option"

definition setNotifyConfig :: "NotifyPatch \<Rightarrow> NotifyConfig \<Rightarrow> NotifyConfig" where
  "setNotifyConfig p c =
     \<lparr>toastSound = (case np_toastSound p of Some b \<Rightarrow> b | None \<Rightarrow> toastSound c),
      browserNotifications = (case np_browserNotifications p of Some b \<Rightarrow> b | None \<Rightarrow> browserNotifications c),
      position = (case np_position p of Some b \<Rightarrow> b | None \<Rightarrow> position c)\<rparr>"

section \<open>Browser and effects\<close>

datatype Variant = Var_success | Var_info | Var_warning | Var_error | Var_message

datatype Permission = Perm_granted | Perm_denied | Perm_default

record browser =
  br_window :: bool
  br_document :: bool
  br_hidden :: bool
  br_Notification :: bool
  br_permission :: Permission
  br_sw_controller :: bool
  br_sw_shows :: bool
  br_page_shows :: bool
  br_audio :: "number option"

text \<open>\<open>br_sw_shows\<close>: the service worker's \<open>showNotification\<close> resolves; \<open>br_page_shows\<close>: the \<open>Notification\<close>
  constructor does not throw; \<open>br_audio\<close>: the clock of the audio context, \<open>None\<close> when there is none or
  using it throws.\<close>

record os_options =
  os_body :: "string option"
  os_tag :: "string option"
  os_icon :: string
  os_badge :: string
  os_url :: string

record bell =
  bell_freq :: number
  bell_partial :: number
  bell_partialGain :: number
  bell_lowpass :: "number \<times> number"
  bell_gain :: "(number \<times> number) list"
  bell_start :: number
  bell_stop :: number

record toast_options =
  to_description :: "string option"
  to_id :: "string option"

datatype notify_effect =
    Toast Variant string toast_options
  | Chime "bell list"
  | Os_shown bool string os_options

text \<open>\<open>Os_shown\<close> carries whether the service worker shows it.\<close>

definition isPageVisible :: "browser \<Rightarrow> bool" where
  "isPageVisible b = (if \<not> br_document b then True else \<not> br_hidden b)"

section \<open>Chimes\<close>

fun CHIME_NOTES :: "Variant \<Rightarrow> number \<times> number" where
  "CHIME_NOTES Var_success = (65925/100, 98777/100)"
| "CHIME_NOTES Var_info = (65925/100, 880)"
| "CHIME_NOTES Var_message = (65925/100, 880)"
| "CHIME_NOTES Var_warning = (69846/100, 58733/100)"
| "CHIME_NOTES Var_error = (58733/100, 440)"

definition bellVoice :: "number \<Rightarrow> number \<Rightarrow> number \<Rightarrow> bell" where
  "bellVoice freq start peak =
     (let dur = 45/100 in
      \<lparr>bell_freq = freq, bell_partial = freq * (2005/1000), bell_partialGain = 28/100,
       bell_lowpass = (3200, 7/10),
       bell_gain = [(1/10000, start), (peak, start + 8/1000), (1/10000, start + dur)],
       bell_start = start, bell_stop = start + dur + 5/100\<rparr>)"

definition playChime :: "browser \<Rightarrow> Variant \<Rightarrow> notify_effect list" where
  "playChime b v =
     (if \<not> br_window b then []
      else case br_audio b of
        None \<Rightarrow> []
      | Some t \<Rightarrow> (case CHIME_NOTES v of (lo, hi) \<Rightarrow>
          [Chime [bellVoice lo t (9/100), bellVoice hi (t + 85/1000) (75/1000)]]))"

definition previewChime :: "browser \<Rightarrow> notify_effect list" where
  "previewChime b = playChime b Var_success"

section \<open>Notifications\<close>

definition fallbackNotification :: "browser \<Rightarrow> string \<Rightarrow> os_options \<Rightarrow> notify_effect list" where
  "fallbackNotification b title opts = (if br_page_shows b then [Os_shown False title opts] else [])"

record os_request =
  or_body :: "string option"
  or_url :: "string option"
  or_tag :: "string option"

definition osNotify :: "browser \<Rightarrow> NotifyConfig \<Rightarrow> string \<Rightarrow> os_request \<Rightarrow> notify_effect list" where
  "osNotify b c title opts =
     (if \<not> browserNotifications c \<or> \<not> br_Notification b \<or> br_permission b \<noteq> Perm_granted \<or>
         \<not> br_document b \<or> \<not> br_hidden b
      then []
      else
        let options = \<lparr>os_body = or_body opts, os_tag = or_tag opts, os_icon = ''/icon.svg'',
              os_badge = ''/icon.svg'', os_url = (case or_url opts of Some u \<Rightarrow> u | None \<Rightarrow> ''/app'')\<rparr>
        in if br_sw_controller b
           then (if br_sw_shows b then [Os_shown True title options] else fallbackNotification b title options)
           else fallbackNotification b title options)"

record NotifyOptions =
  no_important :: bool
  no_body :: "string option"
  no_url :: "string option"
  no_description :: "string option"
  no_id :: "string option"

definition plain_options :: NotifyOptions where
  "plain_options = \<lparr>no_important = False, no_body = None, no_url = None, no_description = None, no_id = None\<rparr>"

definition fire :: "browser \<Rightarrow> NotifyConfig \<Rightarrow> Variant \<Rightarrow> string \<Rightarrow> NotifyOptions \<Rightarrow> notify_effect list" where
  "fire b c v title opts =
     (if toastSound c then playChime b v else []) @
     [Toast v title \<lparr>to_description = no_description opts, to_id = no_id opts\<rparr>] @
     (if no_important opts
      then osNotify b c title
             \<lparr>or_body = (case no_body opts of Some s \<Rightarrow> Some s | None \<Rightarrow> no_description opts),
              or_url = no_url opts, or_tag = no_id opts\<rparr>
      else [])"

definition notify_success :: "browser \<Rightarrow> NotifyConfig \<Rightarrow> string \<Rightarrow> NotifyOptions \<Rightarrow> notify_effect list" where
  "notify_success b c = fire b c Var_success"

definition notify_info :: "browser \<Rightarrow> NotifyConfig \<Rightarrow> string \<Rightarrow> NotifyOptions \<Rightarrow> notify_effect list" where
  "notify_info b c = fire b c Var_info"

definition notify_warning :: "browser \<Rightarrow> NotifyConfig \<Rightarrow> string \<Rightarrow> NotifyOptions \<Rightarrow> notify_effect list" where
  "notify_warning b c = fire b c Var_warning"

definition notify_error :: "browser \<Rightarrow> NotifyConfig \<Rightarrow> string \<Rightarrow> NotifyOptions \<Rightarrow> notify_effect list" where
  "notify_error b c = fire b c Var_error"

definition notify_message :: "browser \<Rightarrow> NotifyConfig \<Rightarrow> string \<Rightarrow> NotifyOptions \<Rightarrow> notify_effect list" where
  "notify_message b c = fire b c Var_message"

lemmas notify_defs = notify_success_def notify_info_def notify_warning_def notify_error_def notify_message_def

section \<open>What reaches the user\<close>

fun is_toast :: "notify_effect \<Rightarrow> bool" where
  "is_toast (Toast v t opts) = True"
| "is_toast _ = False"

fun is_os :: "notify_effect \<Rightarrow> bool" where
  "is_os (Os_shown sw t opts) = True"
| "is_os _ = False"

fun is_chime :: "notify_effect \<Rightarrow> bool" where
  "is_chime (Chime bs) = True"
| "is_chime _ = False"

text \<open>The user may be reached outside the page: opted in, permitted, hidden, and some way to show it.\<close>

definition os_reachable :: "browser \<Rightarrow> NotifyConfig \<Rightarrow> bool" where
  "os_reachable b c \<longleftrightarrow> browserNotifications c \<and> br_Notification b \<and> br_permission b = Perm_granted \<and>
     br_document b \<and> br_hidden b \<and> (br_sw_controller b \<and> br_sw_shows b \<or> br_page_shows b)"

definition shown :: "(notify_effect \<Rightarrow> bool) \<Rightarrow> notify_effect list \<Rightarrow> nat" where
  "shown P es = length (filter P es)"

lemma shown_simps [simp]:
  "shown P [] = 0" "shown P (e # es) = (if P e then Suc (shown P es) else shown P es)"
  "shown P (es @ es') = shown P es + shown P es'"
  by (simp_all add: shown_def)

lemma osNotify_shown [simp]:
  "shown is_os (osNotify b c title opts) = (if os_reachable b c then 1 else 0)"
  "shown is_toast (osNotify b c title opts) = 0"
  "shown is_chime (osNotify b c title opts) = 0"
  by (auto simp: osNotify_def os_reachable_def fallbackNotification_def Let_def)

lemma playChime_shown [simp]:
  "shown is_os (playChime b v) = 0" "shown is_toast (playChime b v) = 0"
  "shown is_chime (playChime b v) = (if br_window b \<and> br_audio b \<noteq> None then 1 else 0)"
  by (cases v; auto simp: playChime_def split: option.splits)+

lemma fire_shown [simp]:
  "shown is_toast (fire b c v title opts) = 1"
  "shown is_chime (fire b c v title opts) = (if toastSound c \<and> br_window b \<and> br_audio b \<noteq> None then 1 else 0)"
  "shown is_os (fire b c v title opts) = (if no_important opts \<and> os_reachable b c then 1 else 0)"
  by (simp_all add: fire_def)

text \<open>
  a notification reaches the user exactly once per channel: it makes one toast, at most one chime (when
  sounds are on and audio works), and one operating-system notification exactly when it is important, the
  user has opted in and permitted it, the tab is hidden and the service worker or the page can show it;
  a failing service worker falls back to the page and never shows it twice.
\<close>

theorem notification_once_per_channel:
  "shown is_toast (fire b c v title opts) = 1 \<and>
   shown is_chime (fire b c v title opts) = (if toastSound c \<and> br_window b \<and> br_audio b \<noteq> None then 1 else 0) \<and>
   shown is_os (fire b c v title opts) = (if no_important opts \<and> os_reachable b c then 1 else 0)"
  by simp

end
