(* ===== verification/Provider.thy ===== *)
theory Provider
  imports Notify Device_State Event_Tail Js_Date Web_Socket
begin

text \<open>
  The event dispatcher, src/web/src/components/layout/LiveStatsProvider.tsx: what one event of the live feed does
  to the stores, to the cached device lists and to the user, depending on whether the tab is visible.
  The query cache is third-party: the entries the dispatcher reads or patches are part of the state
  (\<open>getQueryData\<close> returns what is stored, \<open>setQueryData\<close> replaces it), invalidations are effects.
  An exception ends the handler; the socket's \<open>onmessage\<close> swallows it.
\<close>

section \<open>State and effects\<close>

type_synonym query_key = "string list"

record query_cache =
  qc_devices :: "PublicDevice list option"
  qc_admin_devices :: "PublicDevice list option"
  qc_device :: "PublicDevice Record"

record provider =
  pv_live :: LiveStatsState
  pv_tail :: EventTailState
  pv_cache :: query_cache
  pv_skipped :: bool

datatype effect = Invalidate query_key | Notified notify_effect | Threw_RangeError

record provider_env =
  en_browser :: browser
  en_config :: NotifyConfig
  en_tail :: tail_env
  en_now :: number

definition DEVICE_ACTION_LABEL :: "string \<Rightarrow> string option" where
  "DEVICE_ACTION_LABEL =
     map_of [(''created'', ''added''), (''connected'', ''connected''), (''updated'', ''updated''),
       (''deleted'', ''removed''), (''paused'', ''paused''), (''unpaused'', ''resumed''),
       (''keys_rotated'', ''keys rotated'')]"

definition find_device :: "string \<Rightarrow> query_cache \<Rightarrow> PublicDevice option" where
  "find_device did c = Option.bind (qc_devices c) (find (\<lambda>d. pd_id d = did))"

definition patchList :: "string \<Rightarrow> string \<Rightarrow> PublicDevice list option \<Rightarrow> PublicDevice list option" where
  "patchList did iso_ts =
     map_option (map (\<lambda>d. if pd_id d = did then d\<lparr>pd_last_handshake_at := Some iso_ts\<rparr> else d))"

section \<open>The cases of onEvent\<close>

definition on_stats_delta :: "provider_env \<Rightarrow> StatsDelta \<Rightarrow> provider \<Rightarrow> provider" where
  "on_stats_delta env e p =
     (if isPageVisible (en_browser env)
      then p\<lparr>pv_live := applyDelta (en_now env) (sd_device_id e) (sd_rate_rx_bps e) (sd_rate_tx_bps e)
               (Some (sd_ts_ms e)) (Some (sd_total_rx_bytes e)) (Some (sd_total_tx_bytes e)) (pv_live p)\<rparr>
      else p\<lparr>pv_skipped := True\<rparr>)"

definition on_server_sample :: "provider_env \<Rightarrow> ServerSample \<Rightarrow> provider \<Rightarrow> provider" where
  "on_server_sample env e p =
     (if isPageVisible (en_browser env)
      then p\<lparr>pv_live := applyServerSample (en_now env) (ss_server_id e) (ss_rate_rx_bps e) (ss_rate_tx_bps e)
               (ss_peer_count e) (ss_online_count e) (ss_handshake_count e) (Some (ss_ts_ms e)) (pv_live p)\<rparr>
      else p\<lparr>pv_skipped := True\<rparr>)"

definition on_peer_status :: "provider_env \<Rightarrow> PeerStatusChanged \<Rightarrow> provider \<Rightarrow> effect list" where
  "on_peer_status env e p =
     (let dev = find_device (psc_device_id e) (pv_cache p);
          label = (case dev of Some d \<Rightarrow> pd_name d | None \<Rightarrow> ''A device'');
          notes =
            (if psc_status e = Dev_revoked then
               notify_error (en_browser env) (en_config env) (label @ '' was revoked'')
                 (plain_options\<lparr>no_description := Some ''All sessions for this device have been ended.'',
                    no_important := True, no_id := Some (''dev-'' @ psc_device_id e @ ''-revoked'')\<rparr>)
             else if psc_status e = Dev_paused then
               notify_warning (en_browser env) (en_config env) (label @ '' was paused'')
                 (plain_options\<lparr>no_description := Some ''Reconnect from the device settings when ready.'',
                    no_important := True, no_id := Some (''dev-'' @ psc_device_id e @ ''-paused'')\<rparr>)
             else if psc_status e = Dev_active \<and> (case dev of Some d \<Rightarrow> pd_status d \<noteq> Dev_active | None \<Rightarrow> False) then
               notify_success (en_browser env) (en_config env) (label @ '' is active again'')
                 (plain_options\<lparr>no_id := Some (''dev-'' @ psc_device_id e @ ''-active'')\<rparr>)
             else [])
      in map Notified notes @
         map Invalidate [[''devices''], [''device'', psc_device_id e], [''admin'', ''online-devices''],
           [''admin'', ''user'', psc_user_id e]])"

definition on_handshake :: "HandshakeChange \<Rightarrow> provider \<Rightarrow> provider \<times> effect list" where
  "on_handshake e p =
     (case toISOString (hc_last_handshake_ms e) of
        None \<Rightarrow> (p, [Threw_RangeError])
      | Some iso_ts \<Rightarrow>
          let c = pv_cache p;
              c' = c\<lparr>qc_devices := patchList (hc_device_id e) iso_ts (qc_devices c),
                     qc_admin_devices := patchList (hc_device_id e) iso_ts (qc_admin_devices c),
                     qc_device := (case map_of (qc_device c) (hc_device_id e) of
                        None \<Rightarrow> qc_device c
                      | Some d \<Rightarrow> AList.update (hc_device_id e) (d\<lparr>pd_last_handshake_at := Some iso_ts\<rparr>) (qc_device c))\<rparr>
          in (p\<lparr>pv_cache := c'\<rparr>, [Invalidate [''admin'', ''online-devices'']]))"

definition on_server_health :: "provider_env \<Rightarrow> ServerHealthEvent \<Rightarrow> provider \<Rightarrow> provider" where
  "on_server_health env e p =
     (if isPageVisible (en_browser env)
      then p\<lparr>pv_live := applyServerHealth (en_now env) (she_server_id e) (she_cpu_pct e) (she_mem_used_bytes e)
               (she_mem_total_bytes e) (she_active_peers e) (she_wg_rx_bps e) (she_wg_tx_bps e)
               (she_net_rx_total_bytes e) (she_net_tx_total_bytes e) (she_uptime_sec e) (Some (she_ts_ms e)) (pv_live p)\<rparr>
      else p)"

text \<open>JavaScript's truth of a string that may be null.\<close>

definition truthy :: "string option \<Rightarrow> bool" where
  "truthy s \<longleftrightarrow> (case s of None \<Rightarrow> False | Some t \<Rightarrow> t \<noteq> [])"

definition keys_if :: "string option \<Rightarrow> (string \<Rightarrow> query_key list) \<Rightarrow> query_key list" where
  "keys_if s f = (if truthy s then f (the s) else [])"

definition on_device_changed :: "provider_env \<Rightarrow> DataChanged \<Rightarrow> provider \<Rightarrow> effect list" where
  "on_device_changed env e p =
     (let label = DEVICE_ACTION_LABEL (ChangeAction_str (dc_action e));
          name = (case dc_id e of
                    Some i \<Rightarrow> map_option pd_name (find_device i (pv_cache p))
                  | None \<Rightarrow> None);
          keys = [[''devices''], [''admin'', ''devices''], [''admin'', ''online-devices''], [''me'', ''topology''],
                  [''connections''], [''admin'', ''connections'']] @
                 keys_if (dc_id e) (\<lambda>i. [[''device'', i], [''admin'', ''device'', i]]) @
                 keys_if (dc_user_id e) (\<lambda>u. [[''admin'', ''user'', u]])
      in map Invalidate keys @
         (case label of
            None \<Rightarrow> []
          | Some l \<Rightarrow> map Notified (osNotify (en_browser env) (en_config env) (''Device '' @ l)
              \<lparr>or_body = name,
               or_url = Some (if truthy (dc_id e) then ''/app/devices/'' @ the (dc_id e) else ''/app/devices''),
               or_tag = (if truthy (dc_id e)
                         then Some (''dev-'' @ the (dc_id e) @ ''-'' @ ChangeAction_str (dc_action e)) else None)\<rparr>)))"

definition on_data_changed :: "provider_env \<Rightarrow> DataChanged \<Rightarrow> provider \<Rightarrow> effect list" where
  "on_data_changed env e p =
     (case dc_resource e of
        Res_device \<Rightarrow> on_device_changed env e p
      | Res_user \<Rightarrow> map Invalidate ([[''admin'', ''users''], [''admin'', ''stats''], [''me'', ''topology'']] @
          keys_if (dc_id e) (\<lambda>i. [[''admin'', ''user'', i]]))
      | Res_server \<Rightarrow> map Invalidate ([[''admin'', ''servers''], [''me'', ''server'']] @
          keys_if (dc_id e) (\<lambda>i. [[''admin'', ''server'', i]]))
      | Res_maintenance \<Rightarrow> map Invalidate [[''admin'', ''maintenance''], [''maintenance-banner'']])"

fun level_variant :: "NotifyLevel \<Rightarrow> Variant" where
  "level_variant Lvl_info = Var_info"
| "level_variant Lvl_success = Var_success"
| "level_variant Lvl_warning = Var_warning"
| "level_variant Lvl_error = Var_error"

definition on_notify :: "provider_env \<Rightarrow> NotifyEvent \<Rightarrow> effect list" where
  "on_notify env e =
     map Notified (fire (en_browser env) (en_config env) (level_variant (ne_level e)) (ne_title e)
       (plain_options\<lparr>no_description := ne_body e, no_important := True, no_url := ne_url e, no_id := ne_tag e\<rparr>))"

definition onEvent :: "provider_env \<Rightarrow> Event \<Rightarrow> provider \<Rightarrow> provider \<times> effect list" where
  "onEvent env event p0 =
     (let p = (if isPageVisible (en_browser env) then p0\<lparr>pv_tail := tail_push (en_tail env) event (pv_tail p0)\<rparr> else p0)
      in case event of
           Stats_delta e \<Rightarrow> (on_stats_delta env e p, [])
         | Server_sample e \<Rightarrow> (on_server_sample env e p, [])
         | Peer_status_changed e \<Rightarrow> (p, on_peer_status env e p)
         | Handshake_change e \<Rightarrow> on_handshake e p
         | Server_health e \<Rightarrow> (on_server_health env e p, [])
         | Data_changed e \<Rightarrow> (p, on_data_changed env e p)
         | Notify e \<Rightarrow> (p, on_notify env e)
         | Heartbeat _ \<Rightarrow> (p, []))"

text \<open>The \<open>visibilitychange\<close> listener.\<close>

definition provider_onVis :: "provider_env \<Rightarrow> provider \<Rightarrow> provider \<times> effect list" where
  "provider_onVis env p =
     (if isPageVisible (en_browser env) \<and> pv_skipped p
      then (p\<lparr>pv_skipped := False\<rparr>, [Invalidate [''devices'']])
      else (p, []))"

text \<open>A run of events, each with the environment it arrives in.\<close>

definition run_events :: "(provider_env \<times> Event) list \<Rightarrow> provider \<Rightarrow> provider" where
  "run_events es p = fold (\<lambda>(env, e) p. fst (onEvent env e p)) es p"

section \<open>Visible and hidden tabs\<close>

text \<open>What the live store and the tail make of an event on their own.\<close>

definition live_of :: "number \<Rightarrow> Event \<Rightarrow> LiveStatsState \<Rightarrow> LiveStatsState" where
  "live_of now event s =
     (case event of
        Stats_delta e \<Rightarrow> applyDelta now (sd_device_id e) (sd_rate_rx_bps e) (sd_rate_tx_bps e)
          (Some (sd_ts_ms e)) (Some (sd_total_rx_bytes e)) (Some (sd_total_tx_bytes e)) s
      | Server_sample e \<Rightarrow> applyServerSample now (ss_server_id e) (ss_rate_rx_bps e) (ss_rate_tx_bps e)
          (ss_peer_count e) (ss_online_count e) (ss_handshake_count e) (Some (ss_ts_ms e)) s
      | Server_health e \<Rightarrow> applyServerHealth now (she_server_id e) (she_cpu_pct e) (she_mem_used_bytes e)
          (she_mem_total_bytes e) (she_active_peers e) (she_wg_rx_bps e) (she_wg_tx_bps e)
          (she_net_rx_total_bytes e) (she_net_tx_total_bytes e) (she_uptime_sec e) (Some (she_ts_ms e)) s
      | _ \<Rightarrow> s)"

fun is_sample :: "Event \<Rightarrow> bool" where
  "is_sample (Stats_delta e) = True"
| "is_sample (Server_sample e) = True"
| "is_sample _ = False"

lemmas case_defs = on_stats_delta_def on_server_sample_def on_server_health_def on_handshake_def

lemma onEvent_visible:
  assumes "isPageVisible (en_browser env)"
  shows "pv_live (fst (onEvent env e p)) = live_of (en_now env) e (pv_live p)"
    and "pv_tail (fst (onEvent env e p)) = tail_push (en_tail env) e (pv_tail p)"
    and "pv_skipped (fst (onEvent env e p)) = pv_skipped p"
  using assms by (simp_all add: onEvent_def live_of_def case_defs Let_def split: Event.splits option.splits)

lemma onEvent_hidden:
  assumes "\<not> isPageVisible (en_browser env)"
  shows "pv_live (fst (onEvent env e p)) = pv_live p"
    and "pv_tail (fst (onEvent env e p)) = pv_tail p"
    and "pv_skipped (fst (onEvent env e p)) \<longleftrightarrow> pv_skipped p \<or> is_sample e"
  using assms by (cases e; simp add: onEvent_def case_defs Let_def split: option.splits)+

definition seen_events :: "(provider_env \<times> Event) list \<Rightarrow> (provider_env \<times> Event) list" where
  "seen_events es = filter (\<lambda>(env, e). isPageVisible (en_browser env)) es"

lemma run_events_Cons: "run_events ((env, e) # es) p = run_events es (fst (onEvent env e p))"
  by (simp add: run_events_def)

lemma run_events_stores:
  "pv_live (run_events es p) = fold (\<lambda>(env, e). live_of (en_now env) e) (seen_events es) (pv_live p)"
  "pv_tail (run_events es p) = fold (\<lambda>(env, e). tail_push (en_tail env) e) (seen_events es) (pv_tail p)"
  "pv_skipped (run_events es p) \<longleftrightarrow>
     pv_skipped p \<or> (\<exists>(env, e) \<in> set es. \<not> isPageVisible (en_browser env) \<and> is_sample e)"
proof (induction es arbitrary: p)
  case Nil
  { case 1 show ?case by (simp add: run_events_def seen_events_def) }
  { case 2 show ?case by (simp add: run_events_def seen_events_def) }
  { case 3 show ?case by (simp add: run_events_def) }
next
  case (Cons x es)
  obtain env e where x: "x = (env, e)" by (cases x)
  { case 1 show ?case
      by (cases "isPageVisible (en_browser env)")
         (simp_all add: x run_events_Cons Cons.IH(1) seen_events_def onEvent_visible onEvent_hidden) }
  { case 2 show ?case
      by (cases "isPageVisible (en_browser env)")
         (simp_all add: x run_events_Cons Cons.IH(2) seen_events_def onEvent_visible onEvent_hidden) }
  { case 3 show ?case
      by (cases "isPageVisible (en_browser env)")
         (auto simp add: x run_events_Cons Cons.IH(3) onEvent_visible onEvent_hidden) }
qed


definition sample_browser :: "bool \<Rightarrow> browser" where
  "sample_browser hidden =
     \<lparr>br_window = True, br_document = True, br_hidden = hidden, br_Notification = True, br_permission = Perm_granted,
      br_sw_controller = False, br_sw_shows = False, br_page_shows = True, br_audio = None\<rparr>"

definition sample_env :: "bool \<Rightarrow> provider_env" where
  "sample_env hidden =
     \<lparr>en_browser = sample_browser hidden, en_config = config_init\<lparr>browserNotifications := True\<rparr>,
      en_tail = \<lparr>env_now = 0, env_parse = iso_read, env_tza = (\<lambda>_. 0), env_dt = initial_prefs, env_units = Units_bps\<rparr>,
      en_now = 0\<rparr>"

definition sample_provider :: "PublicDevice list \<Rightarrow> provider" where
  "sample_provider ds =
     \<lparr>pv_live = init_state, pv_tail = tail_init,
      pv_cache = \<lparr>qc_devices = Some ds, qc_admin_devices = None, qc_device = []\<rparr>, pv_skipped = False\<rparr>"

definition sample_sample :: ServerSample where
  "sample_sample = \<lparr>ss_server_id = ''s'', ss_total_rx_bytes = 0, ss_total_tx_bytes = 0, ss_rate_rx_bps = 8,
     ss_rate_tx_bps = 8, ss_peer_count = 1, ss_online_count = 1, ss_handshake_count = 1, ss_ts_ms = 1000\<rparr>"


section \<open>A handshake turns the device online\<close>

lemma toISOString_of_int: "\<bar>t\<bar> \<le> 8640000000000000 \<Longrightarrow> toISOString (of_int t) = Some (iso_of_time t)"
proof -
  assume "\<bar>t\<bar> \<le> 8640000000000000"
  then have "\<not> 8640000000000000 < \<bar>of_int t :: number\<bar>"
    by (simp only: not_less of_int_abs [symmetric] of_int_le_numeral_iff)
  then show ?thesis by (simp add: toISOString_def time_clip_def)
qed

lemma iso_of_time_nonempty: "iso_of_time t \<noteq> []"
  by (simp add: iso_of_time_def Let_def)

lemma connState_patched:
  assumes "0 \<le> year (fields_of t)" "year (fields_of t) \<le> 9999"
    and "pd_status d = Dev_active" "clock - of_int t \<le> 180000"
  shows "connState (map_option of_int \<circ> iso_read) clock (d\<lparr>pd_last_handshake_at := Some (iso_of_time t)\<rparr>) = Online"
  using assms by (simp add: connState_def iso_of_time_nonempty iso_read_of_time ONLINE_HANDSHAKE_WINDOW_MS_def)

definition cached_devices :: "bool \<Rightarrow> query_cache \<Rightarrow> PublicDevice list option" where
  "cached_devices admin c = (if admin then qc_admin_devices c else qc_devices c)"

text \<open>
  C5: a handshake turns the device online at once, hidden tab or not: after a \<open>handshake_change\<close> event with a
  valid time, in every cached list (the user's and the admin's) the devices keep their order and ids, every
  other device is untouched, and an active device of the event reads as online until the handshake is
  three minutes old.
\<close>

theorem handshake_shows_online:
  assumes t: "hc_last_handshake_ms e = of_int t" "\<bar>t\<bar> \<le> 8640000000000000"
      "0 \<le> year (fields_of t)" "year (fields_of t) \<le> 9999"
    and cached: "cached_devices admin (pv_cache p) = Some ds"
    and dev: "i < length ds"
  shows "\<exists>ds'. cached_devices admin (pv_cache (fst (onEvent env (Handshake_change e) p))) = Some ds' \<and>
      map pd_id ds' = map pd_id ds \<and>
      (pd_id (ds ! i) \<noteq> hc_device_id e \<longrightarrow> ds' ! i = ds ! i) \<and>
      (pd_id (ds ! i) = hc_device_id e \<and> pd_status (ds ! i) = Dev_active \<and> clock - of_int t \<le> 180000 \<longrightarrow>
         connState (map_option of_int \<circ> iso_read) clock (ds' ! i) = Online)"
proof -
  define patch :: "PublicDevice \<Rightarrow> PublicDevice"
    where "patch = (\<lambda>d. if pd_id d = hc_device_id e then d\<lparr>pd_last_handshake_at := Some (iso_of_time t)\<rparr> else d)"
  have iso_ts: "toISOString (hc_last_handshake_ms e) = Some (iso_of_time t)"
    unfolding t(1) by (rule toISOString_of_int [OF t(2)])
  have "cached_devices admin (pv_cache (fst (onEvent env (Handshake_change e) p))) =
      map_option (map patch) (cached_devices admin (pv_cache p))"
    by (simp add: onEvent_def on_handshake_def iso_ts Let_def patchList_def patch_def cached_devices_def)
  moreover have "map pd_id (map patch ds) = map pd_id ds" by (simp add: patch_def)
  moreover have "connState (map_option of_int \<circ> iso_read) clock (map patch ds ! i) = Online"
    if "pd_id (ds ! i) = hc_device_id e" "pd_status (ds ! i) = Dev_active" "clock - of_int t \<le> 180000"
    using that dev connState_patched [OF t(3,4)] by (simp add: patch_def)
  moreover have "map patch ds ! i = ds ! i" if "pd_id (ds ! i) \<noteq> hc_device_id e"
    using that dev by (simp add: patch_def)
  ultimately show ?thesis using cached by (intro exI [of _ "map patch ds"]) auto
qed

theorem handshake_shows_online_witness:
  "\<exists>ds'. qc_devices (pv_cache (fst (onEvent (sample_env True)
      (Handshake_change \<lparr>hc_device_id = ''d'', hc_user_id = ''u'', hc_last_handshake_ms = 86400000\<rparr>)
      (sample_provider [sample_device])))) = Some ds' \<and>
    connState (map_option of_int \<circ> iso_read) 86460000 (ds' ! 0) = Online"
proof -
  have "0 \<le> year (fields_of 86400000)" "year (fields_of 86400000) \<le> 9999"
    by code_simp+
  from handshake_shows_online [of "\<lparr>hc_device_id = ''d'', hc_user_id = ''u'', hc_last_handshake_ms = 86400000\<rparr>"
      86400000 False "sample_provider [sample_device]" "[sample_device]" 0 "sample_env True" 86460000, OF _ _ this]
  show ?thesis by (auto simp: cached_devices_def sample_provider_def sample_device_def)
qed

section \<open>Heads-up on other sessions\<close>

fun effect_notes :: "effect list \<Rightarrow> notify_effect list" where
  "effect_notes [] = []"
| "effect_notes (Notified n # es) = n # effect_notes es"
| "effect_notes (_ # es) = effect_notes es"

fun effect_keys :: "effect list \<Rightarrow> query_key list" where
  "effect_keys [] = []"
| "effect_keys (Invalidate k # es) = k # effect_keys es"
| "effect_keys (_ # es) = effect_keys es"

lemma effects_append [simp]:
  "effect_notes (es @ es') = effect_notes es @ effect_notes es'"
  "effect_keys (es @ es') = effect_keys es @ effect_keys es'"
  "effect_notes (map Invalidate ks) = []" "effect_notes (map Notified ns) = ns"
  "effect_keys (map Invalidate ks) = ks" "effect_keys (map Notified ns) = []"
proof -
  show "effect_notes (es @ es') = effect_notes es @ effect_notes es'"
    by (induction es rule: effect_notes.induct) simp_all
  show "effect_keys (es @ es') = effect_keys es @ effect_keys es'"
    by (induction es rule: effect_keys.induct) simp_all
  show "effect_notes (map Invalidate ks) = []" "effect_keys (map Invalidate ks) = ks" by (induction ks) simp_all
  show "effect_notes (map Notified ns) = ns" "effect_keys (map Notified ns) = []" by (induction ns) simp_all
qed

text \<open>
  a change of a device made elsewhere never raises a toast or a sound, and raises one operating-system
  heads-up exactly when the user can be reached there (which needs a hidden tab) and the change is not a
  mere reordering; whatever the visibility, the device lists of the user and the admin, the topology and
  the connections are refetched, and with an id the device's own pages too.
\<close>

theorem device_change_heads_up:
  assumes "dc_resource e = Res_device"
  shows "shown is_toast (effect_notes (snd (onEvent env (Data_changed e) p))) = 0 \<and>
    shown is_chime (effect_notes (snd (onEvent env (Data_changed e) p))) = 0 \<and>
    shown is_os (effect_notes (snd (onEvent env (Data_changed e) p))) =
      (if os_reachable (en_browser env) (en_config env) \<and> dc_action e \<noteq> Act_reordered then 1 else 0) \<and>
    {[''devices''], [''admin'', ''devices''], [''me'', ''topology''], [''connections'']}
      \<subseteq> set (effect_keys (snd (onEvent env (Data_changed e) p))) \<and>
    (\<forall>i. dc_id e = Some i \<and> i \<noteq> [] \<longrightarrow>
       {[''device'', i], [''admin'', ''device'', i]} \<subseteq> set (effect_keys (snd (onEvent env (Data_changed e) p))))"
  using assms
  by (cases "dc_action e")
     (auto simp: onEvent_def on_data_changed_def on_device_changed_def DEVICE_ACTION_LABEL_def Let_def keys_if_def truthy_def)

theorem device_change_heads_up_witness:
  "shown is_os (effect_notes (snd (onEvent (sample_env True)
     (Data_changed \<lparr>dc_user_id = Some ''u'', dc_resource = Res_device, dc_id = Some ''d'', dc_action = Act_created\<rparr>)
     (sample_provider [])))) = 1"
  using device_change_heads_up
    [of "\<lparr>dc_user_id = Some ''u'', dc_resource = Res_device, dc_id = Some ''d'', dc_action = Act_created\<rparr>" "sample_env True"
      "sample_provider []"]
  by (simp add: os_reachable_def sample_env_def sample_browser_def config_init_def)

end
