(* ===== verification/Js_Number.thy ===== *)
theory Js_Number
  imports Js_String "HOL-Library.Word"
begin

text \<open>
  JavaScript's readings of strings as numbers and its 32-bit operations: \<open>Number(s)\<close> (signed decimal
  numerals with fraction and exponent, hexadecimal, octal and binary ones, \<open>Infinity\<close>, the empty string),
  \<open>parseInt(s, 10)\<close>, and the conversion of a number to a 32-bit word.
\<close>

section \<open>Number\<close>

definition span_digits :: "string \<Rightarrow> string \<times> string" where
  "span_digits s = (takeWhile is_digit s, dropWhile is_digit s)"

text \<open>The exponent part \<open>e\<close>, sign, digits: the exponent, \<open>None\<close> when malformed.\<close>

fun read_exponent :: "string \<Rightarrow> int option" where
  "read_exponent [] = Some 0"
| "read_exponent (c # s) =
     (if c = CHR ''e'' \<or> c = CHR ''E'' then
        (case s of
           d # t \<Rightarrow>
             if d = CHR ''-'' then (if t \<noteq> [] \<and> list_all is_digit t then Some (- int (dec_val t)) else None)
             else if d = CHR ''+'' then (if t \<noteq> [] \<and> list_all is_digit t then Some (int (dec_val t)) else None)
             else if list_all is_digit s then Some (int (dec_val s)) else None
         | [] \<Rightarrow> None)
      else None)"

definition scale_ten :: "number \<Rightarrow> int \<Rightarrow> number" where
  "scale_ten x e = (if e \<ge> 0 then x * 10 ^ nat e else x / 10 ^ nat (- e))"

definition read_unsigned :: "string \<Rightarrow> number option" where
  "read_unsigned s =
     (case span_digits s of (ip, r) \<Rightarrow>
        (case r of
           c # r' \<Rightarrow>
             if c = CHR ''.'' then
               (case span_digits r' of (fp, r'') \<Rightarrow>
                  if ip = [] \<and> fp = [] then None
                  else map_option (scale_ten (of_nat (dec_val (ip @ fp)) / 10 ^ length fp)) (read_exponent r''))
             else if ip = [] then None
             else map_option (scale_ten (of_nat (dec_val ip))) (read_exponent r)
         | [] \<Rightarrow> if ip = [] then None else Some (of_nat (dec_val ip))))"

definition radix_digit :: "char \<Rightarrow> nat option" where
  "radix_digit c =
     (let n = of_char c :: nat in
      if 48 \<le> n \<and> n \<le> 57 then Some (n - 48)
      else if 97 \<le> n \<and> n \<le> 102 then Some (n - 87)
      else if 65 \<le> n \<and> n \<le> 70 then Some (n - 55) else None)"

definition read_radix :: "nat \<Rightarrow> string \<Rightarrow> number option" where
  "read_radix b s =
     (case those (map radix_digit s) of
        None \<Rightarrow> None
      | Some ds \<Rightarrow> if ds \<noteq> [] \<and> list_all (\<lambda>d. d < b) ds
                   then Some (of_nat (foldl (\<lambda>a d. b * a + d) 0 ds)) else None)"

fun finite_or_nan :: "number option \<Rightarrow> jsnum" where
  "finite_or_nan (Some x) = Fin x"
| "finite_or_nan None = NaN"

definition Number_of :: "string \<Rightarrow> jsnum" where
  "Number_of s =
     (let t = trim s in
      if t = [] then Fin 0
      else if startsWith t ''0x'' \<or> startsWith t ''0X'' then finite_or_nan (read_radix 16 (drop 2 t))
      else if startsWith t ''0o'' \<or> startsWith t ''0O'' then finite_or_nan (read_radix 8 (drop 2 t))
      else if startsWith t ''0b'' \<or> startsWith t ''0B'' then finite_or_nan (read_radix 2 (drop 2 t))
      else
        let neg = startsWith t ''-'';
            u = (if neg \<or> startsWith t ''+'' then drop 1 t else t)
        in if u = ''Infinity'' then (if neg then NegInf else PosInf)
           else finite_or_nan (map_option (\<lambda>x. if neg then - x else x) (read_unsigned u)))"

text \<open>\<open>parseInt(s, 10)\<close>: \<open>None\<close> is \<open>NaN\<close>.\<close>

definition parseInt10 :: "string \<Rightarrow> int option" where
  "parseInt10 s =
     (let t = dropWhile is_space s;
          neg = startsWith t ''-'';
          u = (if neg \<or> startsWith t ''+'' then drop 1 t else t);
          ds = takeWhile is_digit u
      in if ds = [] then None else Some (if neg then - int (dec_val ds) else int (dec_val ds)))"

section \<open>32-bit operations\<close>

text \<open>\<open>ToUint32\<close>: the operand of a bitwise operator.\<close>

fun to_word32 :: "jsnum \<Rightarrow> 32 word" where
  "to_word32 (Fin x) = of_int (if 0 \<le> x then \<lfloor>x\<rfloor> else \<lceil>x\<rceil>)"
| "to_word32 _ = 0"

section \<open>Decimal numerals\<close>

lemma digit_no_space: "is_digit c \<Longrightarrow> \<not> is_space c"
  by (auto simp: is_digit_def is_space_def)

lemma trim_digits: "list_all is_digit s \<Longrightarrow> trim s = s"
  by (rule trim_no_space) (auto simp: list_all_iff digit_no_space)

lemma digits_startsWith: "list_all is_digit s \<Longrightarrow> c \<in> set p \<Longrightarrow> \<not> is_digit c \<Longrightarrow> \<not> startsWith s p"
  by (metis in_set_takeD list_all_iff startsWith_def)

lemma digits_not_prefixed:
  assumes "list_all is_digit s"
  shows "\<not> startsWith s ''0x''" "\<not> startsWith s ''0X''" "\<not> startsWith s ''0o''" "\<not> startsWith s ''0O''"
    "\<not> startsWith s ''0b''" "\<not> startsWith s ''0B''" "\<not> startsWith s ''-''" "\<not> startsWith s ''+''" "s \<noteq> ''Infinity''"
proof -
  note d = digits_startsWith [OF assms]
  show "\<not> startsWith s ''0x''" by (rule d [of "CHR ''x''"]) (simp_all add: is_digit_def)
  show "\<not> startsWith s ''0X''" by (rule d [of "CHR ''X''"]) (simp_all add: is_digit_def)
  show "\<not> startsWith s ''0o''" by (rule d [of "CHR ''o''"]) (simp_all add: is_digit_def)
  show "\<not> startsWith s ''0O''" by (rule d [of "CHR ''O''"]) (simp_all add: is_digit_def)
  show "\<not> startsWith s ''0b''" by (rule d [of "CHR ''b''"]) (simp_all add: is_digit_def)
  show "\<not> startsWith s ''0B''" by (rule d [of "CHR ''B''"]) (simp_all add: is_digit_def)
  show "\<not> startsWith s ''-''" by (rule d [of "CHR ''-''"]) (simp_all add: is_digit_def)
  show "\<not> startsWith s ''+''" by (rule d [of "CHR ''+''"]) (simp_all add: is_digit_def)
  show "s \<noteq> ''Infinity''" using assms by (auto simp: is_digit_def)
qed

lemma span_all_digits:
  "list_all is_digit s \<Longrightarrow> takeWhile is_digit s = s" "list_all is_digit s \<Longrightarrow> dropWhile is_digit s = []"
  by (simp_all add: list_all_iff takeWhile_eq_all_conv dropWhile_eq_Nil_conv)

text \<open>A string of digits is read as the number it is the numeral of.\<close>

lemma Number_of_digits: "all_digits s \<Longrightarrow> Number_of s = Fin (of_nat (dec_val s))"
  by (simp add: all_digits_def Number_of_def Let_def trim_digits digits_not_prefixed read_unsigned_def
      span_digits_def span_all_digits)

lemma Number_of_nat_dec [simp]: "Number_of (nat_dec n) = Fin (of_nat n)"
  by (simp add: Number_of_digits)

lemma parseInt10_digits: "all_digits s \<Longrightarrow> parseInt10 s = Some (int (dec_val s))"
proof -
  assume s: "all_digits s"
  then have "dropWhile is_space s = s" by (cases s) (auto simp: all_digits_def digit_no_space)
  with s show ?thesis
    by (simp add: all_digits_def parseInt10_def Let_def digits_not_prefixed span_all_digits)
qed

lemma parseInt10_nat_dec [simp]: "parseInt10 (nat_dec n) = Some (int n)"
  by (simp add: parseInt10_digits)

end
