(* ===== verification/Ip_Form.thy ===== *)
theory Ip_Form
  imports Js_Number
begin

unbundle bit_operations_syntax

text \<open>
  The address helpers of the add-device form, src/web/src/components/devices/AddDeviceDialog.tsx: the check
  that a chosen IPv4 address lies in the server's network and is not reserved, the usable range shown to
  the user, and the pattern of an IPv4 address.  The code computes on unsigned 32-bit words; the
  reference it is compared with computes on natural numbers.
\<close>

section \<open>Addresses\<close>

text \<open>\<open>/^(?:(?:25[0-5]|2[0-4]\d|1?\d{1,2})\.){3}(?:...)$/\<close>: four octets between dots.\<close>

definition octet_ok :: "string \<Rightarrow> bool" where
  "octet_ok s =
     (case s of
        [a] \<Rightarrow> is_digit a
      | [a, b] \<Rightarrow> is_digit a \<and> is_digit b
      | [a, b, c] \<Rightarrow>
          a = CHR ''2'' \<and> b = CHR ''5'' \<and> is_digit c \<and> digit_val c \<le> 5 \<or>
          a = CHR ''2'' \<and> is_digit b \<and> digit_val b \<le> 4 \<and> is_digit c \<or>
          a = CHR ''1'' \<and> is_digit b \<and> is_digit c
      | _ \<Rightarrow> False)"

definition ipv4_pattern :: "string \<Rightarrow> bool" where
  "ipv4_pattern s \<longleftrightarrow> length (split_on (CHR ''.'') s) = 4 \<and> list_all octet_ok (split_on (CHR ''.'') s)"

text \<open>\<open>((p[0] << 24) | (p[1] << 16) | (p[2] << 8) | p[3]) >>> 0\<close>\<close>

fun quad_word :: "jsnum list \<Rightarrow> 32 word" where
  "quad_word [a, b, c, d] =
     push_bit 24 (to_word32 a) OR push_bit 16 (to_word32 b) OR push_bit 8 (to_word32 c) OR to_word32 d"
| "quad_word _ = 0"

definition u32ToIp :: "32 word \<Rightarrow> string" where
  "u32ToIp n =
     nat_dec (unat (drop_bit 24 n AND 255)) @ ''.'' @ nat_dec (unat (drop_bit 16 n AND 255)) @ ''.'' @
     nat_dec (unat (drop_bit 8 n AND 255)) @ ''.'' @ nat_dec (unat (n AND 255))"

section \<open>The network check\<close>

definition ipOutsideCidrReason :: "string \<Rightarrow> string \<Rightarrow> string option" where
  "ipOutsideCidrReason ip cidr =
     (let slash = indexOf cidr (CHR ''/'') in
      if slash < 0 then None
      else case parseInt10 (drop (nat slash + 1) cidr) of
        None \<Rightarrow> None
      | Some pfx \<Rightarrow>
          if pfx < 0 \<or> pfx > 32 then None
          else
            let netParts = map Number_of (split_on (CHR ''.'') (take (nat slash) cidr));
                ipParts = map Number_of (split_on (CHR ''.'') ip)
            in if length netParts \<noteq> 4 \<or> length ipParts \<noteq> 4 then None
               else
                 let netU32 = quad_word netParts;
                     ipU32 = quad_word ipParts;
                     host = nat (32 - pfx);
                     total = 2 ^ host :: nat;
                     mask_u32 = (if pfx = 0 then 0 else NOT (push_bit host 1 - 1));
                     baseU32 = netU32 AND mask_u32;
                     broadcastU32 = baseU32 + of_nat total - 1
                 in if ipU32 < baseU32 \<or> ipU32 > broadcastU32 then Some (''outside '' @ cidr)
                    else if total \<ge> 4 \<and> ipU32 = baseU32 then Some ''network address (reserved)''
                    else if total \<ge> 4 \<and> ipU32 = broadcastU32 then Some ''broadcast address (reserved)''
                    else if total \<ge> 4 \<and> ipU32 = baseU32 + 1 then Some ''gateway address (reserved)''
                    else None)"

fun octet_range :: "jsnum \<Rightarrow> bool" where
  "octet_range (Fin x) = (0 \<le> x \<and> x \<le> 255)"
| "octet_range _ = False"

record ip_range =
  ir_first :: string
  ir_last :: string
  ir_total :: int

definition ipRangeFromCidr :: "string \<Rightarrow> ip_range option" where
  "ipRangeFromCidr cidr =
     (let slash = indexOf cidr (CHR ''/'') in
      if slash < 0 then None
      else case parseInt10 (drop (nat slash + 1) cidr) of
        None \<Rightarrow> None
      | Some pfx \<Rightarrow>
          if pfx < 0 \<or> pfx > 32 then None
          else
            let parts = map Number_of (split_on (CHR ''.'') (take (nat slash) cidr)) in
            if length parts \<noteq> 4 then None
            else if \<not> list_all octet_range parts then None
            else
              let base = quad_word parts; total = 2 ^ nat (32 - pfx) :: nat in
              if total < 4 then None
              else Some \<lparr>ir_first = u32ToIp (base + 2), ir_last = u32ToIp (base + of_nat total - 2),
                         ir_total = int total - 3\<rparr>)"

definition ipPlaceholderFor :: "string \<Rightarrow> string" where
  "ipPlaceholderFor cidr =
     (case ipRangeFromCidr cidr of
        None \<Rightarrow> ''10.42.0.42''
      | Some rng \<Rightarrow>
          let slash = indexOf cidr (CHR ''/'');
              pfx = (if slash > 0 then parseInt10 (drop (nat slash + 1) cidr) else Some 32)
          in case pfx of
               None \<Rightarrow> ir_first rng
             | Some p \<Rightarrow>
                 if p \<le> 24 then
                   (let parts = split_on (CHR ''.'') (ir_first rng)
                    in (parts ! 0) @ ''.'' @ (parts ! 1) @ ''.'' @ (parts ! 2) @ ''.42'')
                 else ir_first rng)"

section \<open>Reference\<close>

text \<open>The dotted text of an address and of a network, and the check on natural numbers.\<close>

definition ip_text :: "nat \<Rightarrow> string" where
  "ip_text n = join_with ''.'' [nat_dec (n div 2 ^ 24), nat_dec (n div 2 ^ 16 mod 256),
     nat_dec (n div 2 ^ 8 mod 256), nat_dec (n mod 256)]"

definition cidr_text :: "nat \<Rightarrow> nat \<Rightarrow> string" where
  "cidr_text net p = ip_text net @ ''/'' @ nat_dec p"

definition network_reason :: "nat \<Rightarrow> nat \<Rightarrow> nat \<Rightarrow> string option" where
  "network_reason n net p =
     (let size_n = 2 ^ (32 - p); first = net div size_n * size_n; last_n = first + size_n - 1 in
      if n < first \<or> last_n < n then Some (''outside '' @ cidr_text net p)
      else if p \<le> 30 \<and> n = first then Some ''network address (reserved)''
      else if p \<le> 30 \<and> n = last_n then Some ''broadcast address (reserved)''
      else if p \<le> 30 \<and> n = first + 1 then Some ''gateway address (reserved)''
      else None)"

section \<open>Words and numbers\<close>

lemma to_word32_of_nat [simp]: "to_word32 (Fin (of_nat n)) = of_nat n"
  by simp

lemma nat_or_shifted:
  fixes a b :: nat
  assumes "b < 2 ^ k"
  shows "push_bit k a OR b = a * 2 ^ k + b"
proof -
  have "take_bit k b = b" using assms by (simp add: take_bit_nat_eq_self)
  then have low: "bit b m \<Longrightarrow> m < k" for m by (metis bit_take_bit_iff)
  have "\<not> bit (push_bit k a) m \<or> \<not> bit b m" for m
    using low [of m] by (auto simp: bit_push_bit_iff)
  then have "push_bit k a + b = push_bit k a OR b" by (rule disjunctive_add)
  then show ?thesis by (simp add: push_bit_eq_mult)
qed

lemma quad_number:
  fixes n :: nat
  assumes "n < 2 ^ 32"
  shows "(((n div 2 ^ 24) * 2 ^ 8 + n div 2 ^ 16 mod 256) * 2 ^ 8 + n div 2 ^ 8 mod 256) * 2 ^ 8 + n mod 256 = n"
proof -
  have "n div 2 ^ 24 = n div 2 ^ 16 div 256" "n div 2 ^ 16 = n div 2 ^ 8 div 256" "n div 2 ^ 8 = n div 256"
    by (simp_all flip: div_mult2_eq)
  then show ?thesis by (simp add: div_mult_mod_eq del: div_mult2_eq)
qed

lemma quad_word_bytes:
  assumes "a < 256" "b < 256" "c < 256" "d < 256"
  shows "quad_word [Fin (of_nat a), Fin (of_nat b), Fin (of_nat c), Fin (of_nat d)] =
    of_nat (((a * 2 ^ 8 + b) * 2 ^ 8 + c) * 2 ^ 8 + d)"
proof -
  have "push_bit 24 a OR (push_bit 16 b OR (push_bit 8 c OR d)) = ((a * 2 ^ 8 + b) * 2 ^ 8 + c) * 2 ^ 8 + d"
  proof -
    have 1: "push_bit 8 c OR d = c * 2 ^ 8 + d" using assms by (intro nat_or_shifted) simp
    have 2: "push_bit 16 b OR (c * 2 ^ 8 + d) = b * 2 ^ 16 + (c * 2 ^ 8 + d)"
      using assms by (intro nat_or_shifted) simp
    have 3: "push_bit 24 a OR (b * 2 ^ 16 + (c * 2 ^ 8 + d)) = a * 2 ^ 24 + (b * 2 ^ 16 + (c * 2 ^ 8 + d))"
      using assms by (intro nat_or_shifted) simp
    show ?thesis unfolding 1 2 3 by simp
  qed
  then have "of_nat (push_bit 24 a OR (push_bit 16 b OR (push_bit 8 c OR d))) =
      (of_nat (((a * 2 ^ 8 + b) * 2 ^ 8 + c) * 2 ^ 8 + d) :: 32 word)" by simp
  then show ?thesis by (simp only: quad_word.simps to_word32_of_nat of_nat_or_eq push_bit_of_nat or.assoc)
qed

lemma octets_small: "n < 2 ^ 32 \<Longrightarrow> n div 2 ^ 24 < (256 :: nat)"
  by simp

lemma split_ip_text:
  "split_on (CHR ''.'') (ip_text n) = [nat_dec (n div 2 ^ 24), nat_dec (n div 2 ^ 16 mod 256),
     nat_dec (n div 2 ^ 8 mod 256), nat_dec (n mod 256)]"
proof -
  have "CHR ''.'' \<notin> set (nat_dec m)" for m
    using digits_nat_dec [of m] by (auto simp: list_all_iff is_digit_def)
  then show ?thesis unfolding ip_text_def by (intro split_join) auto
qed

lemma quad_word_ip_text:
  assumes "n < 2 ^ 32"
  shows "quad_word (map Number_of (split_on (CHR ''.'') (ip_text n))) = of_nat n"
proof -
  have "quad_word (map Number_of (split_on (CHR ''.'') (ip_text n))) =
      of_nat ((((n div 2 ^ 24) * 2 ^ 8 + n div 2 ^ 16 mod 256) * 2 ^ 8 + n div 2 ^ 8 mod 256) * 2 ^ 8 + n mod 256)"
    unfolding split_ip_text list.map Number_of_nat_dec
    using octets_small [OF assms] by (intro quad_word_bytes) simp_all
  then show ?thesis unfolding quad_number [OF assms] .
qed

lemma masked_network:
  assumes "n < 2 ^ 32" "k \<le> 32"
  shows "(of_nat n :: 32 word) AND (if k = 32 then 0 else NOT (push_bit k 1 - 1)) = of_nat (n div 2 ^ k * 2 ^ k)"
proof (cases "k = 32")
  case True
  with assms(1) show ?thesis by simp
next
  case False
  have word: "a AND NOT (push_bit k 1 - 1) = a - take_bit k a" for a :: "32 word"
  proof -
    have "a AND NOT (mask k) = push_bit k (drop_bit k a)"
      by (rule bit_eqI) (auto simp: bit_simps)
    moreover have "push_bit k (drop_bit k a) = a - take_bit k a"
      using bits_ident [of k a] by (simp add: eq_diff_eq)
    moreover have "push_bit k 1 - 1 = (mask k :: 32 word)" by (simp add: mask_eq_exp_minus_1 push_bit_of_1)
    ultimately show ?thesis by simp
  qed
  have "take_bit k (of_nat n) = (of_nat (n mod 2 ^ k) :: 32 word)"
    by (simp only: take_bit_of_nat flip: take_bit_eq_mod)
  then have "(of_nat n :: 32 word) AND NOT (push_bit k 1 - 1) = of_nat (n - n mod 2 ^ k)"
    unfolding word by (simp add: of_nat_diff)
  then show ?thesis using False by (simp add: minus_mod_eq_div_mult)
qed

section \<open>The check agrees with the reference\<close>

lemma ip_text_no_slash: "CHR ''/'' \<notin> set (ip_text n)"
proof -
  have "CHR ''/'' \<notin> set (nat_dec m)" for m
    using digits_nat_dec [of m] by (auto simp: list_all_iff is_digit_def)
  then show ?thesis by (simp add: ip_text_def)
qed

lemma cidr_fields:
  "indexOf (cidr_text net p) (CHR ''/'') = int (length (ip_text net))"
  "take (length (ip_text net)) (cidr_text net p) = ip_text net"
  "parseInt10 (drop (Suc (length (ip_text net))) (cidr_text net p)) = Some (int p)"
  using ip_text_no_slash [of net] by (simp_all add: cidr_text_def indexOf_append)

lemma length_ip_parts: "length (split_on (CHR ''.'') (ip_text n)) = 4"
  by (simp add: split_ip_text)

lemma of_nat_word_order:
  assumes "a < 2 ^ 32" "b < 2 ^ 32"
  shows "(of_nat a :: 32 word) < of_nat b \<longleftrightarrow> a < b" "(of_nat a :: 32 word) = of_nat b \<longleftrightarrow> a = b"
proof -
  have u: "unat (of_nat a :: 32 word) = a" "unat (of_nat b :: 32 word) = b"
    using assms by (simp_all add: unat_of_nat take_bit_nat_eq_self)
  show "(of_nat a :: 32 word) < of_nat b \<longleftrightarrow> a < b" by (simp add: word_less_nat_alt u)
  show "(of_nat a :: 32 word) = of_nat b \<longleftrightarrow> a = b" by (metis u)
qed

lemma block_end:
  fixes net :: nat
  assumes "net < 2 ^ 32" "k \<le> 32"
  shows "net div 2 ^ k * 2 ^ k + 2 ^ k \<le> 2 ^ 32"
proof -
  have "(2 :: nat) ^ 32 = 2 ^ (32 - k) * 2 ^ k" using assms(2) by (simp flip: power_add)
  moreover have "net div 2 ^ k < 2 ^ (32 - k)"
    using assms calculation by (metis less_mult_imp_div_less)
  then have "(net div 2 ^ k + 1) * 2 ^ k \<le> 2 ^ (32 - k) * 2 ^ k" by (intro mult_right_mono) auto
  ultimately show ?thesis by simp
qed

lemma ipOutside_reference:
  assumes n: "n < 2 ^ 32" and net: "net < 2 ^ 32" and p: "p \<le> 32"
  shows "ipOutsideCidrReason (ip_text n) (cidr_text net p) = network_reason n net p"
proof -
  define k where "k = 32 - p"
  define f where "f = net div 2 ^ k * 2 ^ k"
  have k: "k \<le> 32" "nat (32 - int p) = k" "int p = 0 \<longleftrightarrow> k = 32" using p by (auto simp: k_def)
  have top: "f + 2 ^ k \<le> 2 ^ 32" unfolding f_def by (rule block_end [OF net k(1)])
  have pos: "(1 :: nat) \<le> 2 ^ k" by simp
  have base: "(of_nat net :: 32 word) AND (if k = 32 then 0 else NOT (push_bit k 1 - 1)) = of_nat f"
    unfolding f_def by (rule masked_network [OF net k(1)])
  have broadcast: "(of_nat f + of_nat (2 ^ k) - 1 :: 32 word) = of_nat (f + 2 ^ k - 1)"
    using pos by (simp only: of_nat_diff of_nat_add of_nat_1 trans_le_add2)
  have next_w: "(of_nat f + 1 :: 32 word) = of_nat (f + 1)" by simp
  have bounds: "f < 2 ^ 32" "f + 2 ^ k - 1 < 2 ^ 32" using top pos by linarith+
  have big: "(4 :: nat) \<le> 2 ^ k \<longleftrightarrow> p \<le> 30"
  proof -
    have "(4 :: nat) \<le> 2 ^ k \<longleftrightarrow> (2 :: nat) ^ 2 \<le> 2 ^ k" by simp
    also have "\<dots> \<longleftrightarrow> 2 \<le> k" by (rule power_increasing_iff) simp
    finally show ?thesis using p by (auto simp: k_def)
  qed
  have gate: "f + 1 < 2 ^ 32" if "(4 :: nat) \<le> 2 ^ k" using top that by linarith
  note words = of_nat_word_order [OF n bounds(1)] of_nat_word_order [OF bounds(1) n]
    of_nat_word_order [OF n bounds(2)] of_nat_word_order [OF bounds(2) n]
  have guard: "(int p < 0 \<or> 32 < int p) = False" "(int (length (ip_text net)) < 0) = False"
    "(length (map Number_of (split_on (CHR ''.'') (ip_text net))) \<noteq> 4 \<or>
      length (map Number_of (split_on (CHR ''.'') (ip_text n))) \<noteq> 4) = False"
    using p by (auto simp: length_ip_parts)
  have "ipOutsideCidrReason (ip_text n) (cidr_text net p) =
     (if (of_nat n :: 32 word) < of_nat f \<or> of_nat (f + 2 ^ k - 1) < (of_nat n :: 32 word)
      then Some (''outside '' @ cidr_text net p)
      else if 4 \<le> (2 ^ k :: nat) \<and> (of_nat n :: 32 word) = of_nat f then Some ''network address (reserved)''
      else if 4 \<le> (2 ^ k :: nat) \<and> (of_nat n :: 32 word) = of_nat (f + 2 ^ k - 1) then Some ''broadcast address (reserved)''
      else if 4 \<le> (2 ^ k :: nat) \<and> (of_nat n :: 32 word) = of_nat (f + 1) then Some ''gateway address (reserved)''
      else None)"
    by (simp only: ipOutsideCidrReason_def Let_def cidr_fields nat_int Suc_eq_plus1 [symmetric] option.case guard
        if_False k quad_word_ip_text [OF n] quad_word_ip_text [OF net] base broadcast next_w)
  also have "\<dots> = network_reason n net p"
    using of_nat_word_order(2) [OF n gate] by (simp only: network_reason_def Let_def words big flip: k_def f_def) auto
  finally show ?thesis .
qed

section \<open>The usable range\<close>

lemma byte_of_word:
  fixes w :: "32 word"
  shows "unat (drop_bit m w AND 255) = unat w div 2 ^ m mod 256"
proof -
  have "drop_bit m w AND 255 = take_bit 8 (drop_bit m w)"
    by (simp add: take_bit_eq_mask mask_numeral)
  moreover have "take_bit 32 (unat w) = unat w"
    using unsigned_less [of w, where ?'a = nat] by (simp add: take_bit_nat_eq_self)
  ultimately have "unat (drop_bit m w AND 255) = take_bit 8 (drop_bit m (unat w))"
    by (simp only: unsigned_take_bit_eq unsigned_drop_bit_eq) simp
  then show ?thesis by (simp add: take_bit_eq_mod drop_bit_eq_div)
qed

lemma u32ToIp_text:
  assumes "n < 2 ^ 32"
  shows "u32ToIp (of_nat n) = ip_text n"
proof -
  have u: "unat (of_nat n :: 32 word) = n" using assms by (simp add: unat_of_nat take_bit_nat_eq_self)
  have "n div 2 ^ 24 mod 256 = n div 2 ^ 24" using octets_small [OF assms] by simp
  with byte_of_word [of 24 "of_nat n"] byte_of_word [of 16 "of_nat n"] byte_of_word [of 8 "of_nat n"]
    byte_of_word [of 0 "of_nat n"] show ?thesis
    unfolding u by (simp only: u32ToIp_def ip_text_def join_with.simps drop_bit_0 power_0 div_by_1 id_apply)
qed

lemma octets_in_range: "n < 2 ^ 32 \<Longrightarrow> list_all octet_range (map Number_of (split_on (CHR ''.'') (ip_text n)))"
proof -
  assume n: "n < 2 ^ 32"
  have "m mod 256 \<le> 255" for m :: nat using mod_less_divisor [of 256 m] by linarith
  with octets_small [OF n] show ?thesis
    by (simp add: split_ip_text)
qed

lemma ipRange_words:
  assumes net: "net < 2 ^ 32" and p: "p \<le> 30"
  shows "ipRangeFromCidr (cidr_text net p) =
    Some \<lparr>ir_first = u32ToIp (of_nat (net + 2)), ir_last = u32ToIp (of_nat (net + 2 ^ (32 - p) - 2)),
          ir_total = 2 ^ (32 - p) - 3\<rparr>"
proof -
  have guard: "(int p < 0 \<or> 32 < int p) = False" "(int (length (ip_text net)) < 0) = False" "nat (32 - int p) = 32 - p"
    "(length (map Number_of (split_on (CHR ''.'') (ip_text net))) \<noteq> 4) = False"
    using p by (auto simp: length_ip_parts)
  have big: "(2 :: nat) \<le> 2 ^ (32 - p)" "(2 ^ (32 - p) < (4 :: nat)) = False"
  proof -
    have "(2 :: nat) ^ 2 \<le> 2 ^ (32 - p)" using p by (intro power_increasing) auto
    then show "(2 :: nat) \<le> 2 ^ (32 - p)" "(2 ^ (32 - p) < (4 :: nat)) = False" by auto
  qed
  have w: "of_nat net + of_nat (2 ^ (32 - p)) - 2 = (of_nat (net + 2 ^ (32 - p) - 2) :: 32 word)"
  proof -
    have "(of_nat (net + 2 ^ (32 - p) - 2) :: 32 word) = of_nat (net + 2 ^ (32 - p)) - of_nat 2"
      using big(1) by (intro of_nat_diff) linarith
    then show ?thesis by simp
  qed
  have w2: "of_nat net + 2 = (of_nat (net + 2) :: 32 word)" by simp
  have t: "int (2 ^ (32 - p)) - 3 = 2 ^ (32 - p) - 3" by simp
  show ?thesis
    by (simp only: ipRangeFromCidr_def Let_def cidr_fields nat_int Suc_eq_plus1 [symmetric] option.case guard
        if_False octets_in_range [OF net] quad_word_ip_text [OF net] big w w2 t simp_thms)
qed



text \<open>
  the check is the arithmetic one: for every address, network and prefix of at most 32 the reason given
  on 32-bit words is the one computed on natural numbers: outside the block of the prefix that holds the
  network address, or, in a block of at least four addresses, its first, last or second address.
\<close>

theorem check_agrees_with_arithmetic:
  assumes "n < 2 ^ 32" and "net < 2 ^ 32" and "p \<le> 32"
  shows "ipOutsideCidrReason (ip_text n) (cidr_text net p) = network_reason n net p"
  by (rule ipOutside_reference [OF assms])

theorem check_agrees_with_arithmetic_witness:
  "ipOutsideCidrReason (ip_text 170524673) (cidr_text 170524672 24) = Some ''gateway address (reserved)''"
  using check_agrees_with_arithmetic [of 170524673 170524672 24] by (simp add: network_reason_def)

text \<open>
  for a network that is not given by its network address the range shown is not the one that passes:
  for 10.0.0.5/24 the form shows 10.0.0.7 to 10.0.1.3, and rejects 10.0.1.3 as outside the network,
  because the range starts from the address as written while the check masks it.
\<close>

theorem unaligned_range_is_wrong:
  "ipRangeFromCidr ''10.0.0.5/24'' = Some \<lparr>ir_first = ''10.0.0.7'', ir_last = ''10.0.1.3'', ir_total = 253\<rparr> \<and>
   ipOutsideCidrReason ''10.0.1.3'' ''10.0.0.5/24'' = Some ''outside 10.0.0.5/24'' \<and>
   ipOutsideCidrReason ''10.0.0.2'' ''10.0.0.5/24'' = None"
proof -
  have written: "cidr_text 167772165 24 = ''10.0.0.5/24''" "ip_text 167772419 = ''10.0.1.3''"
    "ip_text 167772162 = ''10.0.0.2''" "ip_text 167772167 = ''10.0.0.7''"
    by (simp_all add: cidr_text_def ip_text_def nat_dec.simps digit_char_def) code_simp+
  show ?thesis
    using ipRange_words [of 167772165 24] ipOutside_reference [of 167772419 167772165 24]
      ipOutside_reference [of 167772162 167772165 24] u32ToIp_text [of 167772167] u32ToIp_text [of 167772419]
    by (simp add: written network_reason_def)
qed

end
