(* ===== verification/Page_Effect.thy ===== *)
theory Page_Effect
  imports Api_Client
begin

text \<open>
  What the pages and dialogs under src/web/src do outside their own state: toasts, refetches of cached queries, writes
  to the session store, navigation, and closing themselves.  A handler of the model returns the list of
  its effects in the order the code has them.  The rejection of a mutation is \<open>Some e\<close>, where \<open>e\<close> is the
  \<open>ApiError\<close> or nothing for any other error.
\<close>

datatype page_effect =
    Toast_success string
  | Toast_info string
  | Toast_warning string
  | Toast_error json
  | Invalidated "string list"
  | Stored_user PublicUser
  | Navigated string
  | Closed

type_synonym outcome = "ApiError option option"

fun toasts :: "page_effect list \<Rightarrow> page_effect list" where
  "toasts [] = []"
| "toasts (e # es) =
     (case e of Toast_success s \<Rightarrow> [e] | Toast_info s \<Rightarrow> [e] | Toast_warning s \<Rightarrow> [e] | Toast_error j \<Rightarrow> [e] | _ \<Rightarrow> []) @ toasts es"

text \<open>Characters outside ASCII that several labels use.\<close>

definition middle_dot :: string where
  "middle_dot = map char_of [194 :: nat, 183]"

definition en_dash :: string where
  "en_dash = map char_of [226 :: nat, 128, 147]"

definition right_arrow :: string where
  "right_arrow = map char_of [226 :: nat, 134, 146]"

definition down_arrow :: string where
  "down_arrow = map char_of [226 :: nat, 134, 147]"

definition up_arrow :: string where
  "up_arrow = map char_of [226 :: nat, 134, 145]"

definition ellipsis :: string where
  "ellipsis = map char_of [226 :: nat, 128, 166]"

text \<open>A string or null read as a condition: the empty string counts as absent.\<close>

definition truthy_str :: "string option \<Rightarrow> string option" where
  "truthy_str s = (if s = Some [] then None else s)"

text \<open>\<open>ip.replace(/\/(32|128)$/, "")\<close>\<close>

definition strip_host_mask :: "string \<Rightarrow> string" where
  "strip_host_mask ip =
     (let n = length ip in
      if 3 \<le> n \<and> drop (n - 3) ip = ''/32'' then take (n - 3) ip
      else if 4 \<le> n \<and> drop (n - 4) ip = ''/128'' then take (n - 4) ip
      else ip)"

text \<open>\<open>s.includes(p)\<close>\<close>

fun str_includes :: "string \<Rightarrow> string \<Rightarrow> bool" where
  "str_includes [] p = (p = [])"
| "str_includes (c # s) p = (startsWith (c # s) p \<or> str_includes s p)"

text \<open>\<open>s.endsWith(p)\<close>\<close>

definition endsWith :: "string \<Rightarrow> string \<Rightarrow> bool" where
  "endsWith s p \<longleftrightarrow> startsWith (rev s) (rev p)"

end
