(* ===== verification/Cap_Field.thy ===== *)
theory Cap_Field
  imports Js_Number Units
begin

text \<open>
  The monthly-cap field that src/web/src/components/devices/AddDeviceDialog.tsx and EditDeviceDialog.tsx both
  implement: the result type of the validation, what a field has to compute from its toggle, its text and the
  account cap, and the interface \<open>cap_field\<close> under which the facts about caps are proved once.
\<close>

record cap_check =
  cc_ok :: bool
  cc_bytes :: "int option"
  cc_error :: "string option"

text \<open>The contract: no cap when the toggle is off; otherwise a positive number of GiB, rounded to bytes, that
  does not exceed a non-zero account cap.\<close>

definition cap_refused :: "int option \<Rightarrow> string \<Rightarrow> cap_check" where
  "cap_refused b msg = \<lparr>cc_ok = False, cc_bytes = b, cc_error = Some msg\<rparr>"

definition cap_accepted :: "int option \<Rightarrow> cap_check" where
  "cap_accepted b = \<lparr>cc_ok = True, cc_bytes = b, cc_error = None\<rparr>"

definition over_account :: "number option \<Rightarrow> int \<Rightarrow> bool" where
  "over_account acct b \<longleftrightarrow> (\<exists>cap. acct = Some cap \<and> cap \<noteq> 0 \<and> cap < of_int b)"

lemma over_account_simps [simp]:
  "\<not> over_account None b"
  "over_account (Some cap) b \<longleftrightarrow> cap \<noteq> 0 \<and> cap < of_int b"
  by (simp_all add: over_account_def)

definition cap_reference :: "bool \<Rightarrow> string \<Rightarrow> number option \<Rightarrow> cap_check" where
  "cap_reference on gb acct =
     (if \<not> on then cap_accepted None
      else if trim gb = [] then cap_refused None ''enter a monthly cap in GB''
      else case Number_of (trim gb) of
        Fin n \<Rightarrow>
          (let b = Math_round (n * 1024 ^ 3) in
           if n \<le> 0 then cap_refused None ''must be a positive number of GB''
           else if over_account acct b
           then cap_refused (Some b) (''can't exceed your account cap ('' @ formatBytes (Fin (the acct)) @ '')'')
           else cap_accepted (Some b))
      | _ \<Rightarrow> cap_refused None ''must be a positive number of GB'')"

locale cap_field =
  fixes cap_on :: "'f \<Rightarrow> bool"
    and cap_text :: "'f \<Rightarrow> string"
    and account :: "'f \<Rightarrow> number option"
    and validate :: "'f \<Rightarrow> cap_check"
  assumes meets: "validate f = cap_reference (cap_on f) (cap_text f) (account f)"
begin

lemma off_accepted: "\<not> cap_on f \<Longrightarrow> validate f = cap_accepted None"
  by (simp add: meets cap_reference_def)

lemma accepted_within:
  assumes "cc_ok (validate f)" and "cc_bytes (validate f) = Some b"
  shows "0 \<le> b" and "account f = Some cap \<Longrightarrow> cap \<noteq> 0 \<Longrightarrow> of_int b \<le> cap"
  using assms
  by (auto simp: meets cap_reference_def cap_accepted_def cap_refused_def Let_def Math_round_nonneg
      split: if_splits jsnum.splits)

lemma accepted_has_bytes: "cc_ok (validate f) \<Longrightarrow> cap_on f \<Longrightarrow> \<exists>b. cc_bytes (validate f) = Some b"
  by (auto simp: meets cap_reference_def cap_accepted_def cap_refused_def Let_def split: if_splits jsnum.splits)

lemma error_iff_refused: "cc_error (validate f) = None \<longleftrightarrow> cc_ok (validate f)"
  by (auto simp: meets cap_reference_def cap_accepted_def cap_refused_def Let_def split: if_splits jsnum.splits)

lemma whole_accepted:
  assumes "cap_on f" and "cap_text f = nat_dec g" and "0 < g"
    and "\<not> over_account (account f) (int g * 1024 ^ 3)"
  shows "validate f = cap_accepted (Some (int g * 1024 ^ 3))"
proof -
  have "Math_round (of_nat g * 1024 ^ 3) = int g * 1024 ^ 3"
    using Math_round_of_int [of "int g * 1024 ^ 3"] by simp
  moreover have "trim (nat_dec g) = nat_dec g" by (rule trim_digits) simp
  ultimately show ?thesis using assms by (simp add: meets cap_reference_def Let_def)
qed

end

text \<open>The GB text of a cap: \<open>s.replace(/\.0$/, "")\<close> after \<open>toFixed\<close>.\<close>

definition strip_point_zero :: "string \<Rightarrow> string" where
  "strip_point_zero s =
     (if 2 \<le> length s \<and> drop (length s - 2) s = ''.0'' then take (length s - 2) s else s)"

definition formatCapGb :: "number \<Rightarrow> string" where
  "formatCapGb bytes =
     (let gb = bytes / 1024 ^ 3 in
      if gb \<ge> 10 then int_dec (Math_round gb) else strip_point_zero (toFixed 1 gb))"

lemma Math_round_of_nat: "Math_round (of_nat g) = int g"
  using Math_round_of_int [of "int g"] by simp

lemma digit_char_0: "digit_char 0 = CHR ''0''"
  by code_simp

lemma toFixed_whole:
  assumes "0 < g" "g < 10"
  shows "toFixed 1 (of_nat g) = nat_dec g @ ''.0''"
proof -
  have "nat (Math_round (\<bar>of_nat g\<bar> * 10 ^ 1)) = 10 * g"
    using Math_round_of_nat [of "10 * g"] by (simp add: mult.commute)
  moreover have "nat_dec (10 * g) = nat_dec g @ ''0''"
    using assms by (subst nat_dec.simps) (simp add: digit_char_0)
  moreover have "length (nat_dec g) = 1" using assms by (subst nat_dec.simps) simp
  moreover have "\<not> (10 :: number) ^ 21 \<le> \<bar>of_nat g\<bar>" using assms by (simp add: not_le of_nat_less_numeral_iff)
  ultimately show ?thesis
    by (simp only: toFixed_def fixed_digits_def Let_def padStart_def) simp
qed

lemma formatCapGb_whole: "0 < g \<Longrightarrow> formatCapGb (of_nat g * 1024 ^ 3) = nat_dec g"
  using toFixed_whole [of g]
  by (cases "10 \<le> g") (simp_all add: formatCapGb_def Math_round_of_nat strip_point_zero_def)

lemma trim_nat_dec: "trim (nat_dec g) = nat_dec g"
  by (rule trim_digits) simp

text \<open>Reading a fixed-point numeral.\<close>

lemma not_startsWith: "c \<in> set p \<Longrightarrow> c \<notin> set s \<Longrightarrow> \<not> startsWith s p"
  by (metis in_set_takeD startsWith_def)

lemma Number_of_point:
  assumes "all_digits ip" and "list_all is_digit fp"
  shows "Number_of (ip @ ''.'' @ fp) = Fin (of_nat (dec_val (ip @ fp)) / 10 ^ length fp)" and "trim (ip @ ''.'' @ fp) = ip @ ''.'' @ fp"
proof -
  let ?s = "ip @ ''.'' @ fp"
  have ip: "list_all is_digit ip" "ip \<noteq> []" using assms(1) by (auto simp: all_digits_def)
  have chars: "is_digit c \<or> c = CHR ''.''" if "c \<in> set ?s" for c
    using that ip assms(2) by (auto simp: list_all_iff)
  have "\<not> is_space c" if "c \<in> set ?s" for c
    using chars [OF that] digit_no_space by (auto simp: is_space_def)
  then show t: "trim ?s = ?s" by (intro trim_no_space) (simp only: list_all_iff, blast)
  have no: "c \<notin> set ?s" if "\<not> is_digit c" "c \<noteq> CHR ''.''" for c using chars that by blast
  have x: "\<not> startsWith ?s p" if "c \<in> set p" "\<not> is_digit c" "c \<noteq> CHR ''.''" for p c
    using not_startsWith [OF that(1) no [OF that(2,3)]] .
  have "\<not> startsWith ?s ''0x''" by (rule x [of "CHR ''x''"]) (simp_all add: is_digit_def)
  moreover have "\<not> startsWith ?s ''0X''" by (rule x [of "CHR ''X''"]) (simp_all add: is_digit_def)
  moreover have "\<not> startsWith ?s ''0o''" by (rule x [of "CHR ''o''"]) (simp_all add: is_digit_def)
  moreover have "\<not> startsWith ?s ''0O''" by (rule x [of "CHR ''O''"]) (simp_all add: is_digit_def)
  moreover have "\<not> startsWith ?s ''0b''" by (rule x [of "CHR ''b''"]) (simp_all add: is_digit_def)
  moreover have "\<not> startsWith ?s ''0B''" by (rule x [of "CHR ''B''"]) (simp_all add: is_digit_def)
  moreover have "\<not> startsWith ?s ''-''" by (rule x [of "CHR ''-''"]) (simp_all add: is_digit_def)
  moreover have "\<not> startsWith ?s ''+''" by (rule x [of "CHR ''+''"]) (simp_all add: is_digit_def)
  moreover have "?s \<noteq> ''Infinity''" using ip by (cases ip) (auto simp: is_digit_def)
  moreover have "takeWhile is_digit ?s = ip" "dropWhile is_digit ?s = ''.'' @ fp"
    using ip by (simp_all add: list_all_iff is_digit_def takeWhile_append2 dropWhile_append2)
  ultimately show "Number_of ?s = Fin (of_nat (dec_val (ip @ fp)) / 10 ^ length fp)"
    unfolding Number_of_def Let_def t
    using ip by (simp add: read_unsigned_def span_digits_def span_all_digits assms(2) scale_ten_def)
qed

lemma Number_of_toFixed2:
  assumes "0 \<le> x" and "x < 10 ^ 21"
  shows "Number_of (trim (toFixed 2 x)) = Fin (of_int (Math_round (x * 100)) / 100)"
proof -
  define n where "n = nat (Math_round (x * 100))"
  define m where "m = padStart 3 (CHR ''0'') (nat_dec n)"
  have m: "list_all is_digit m" "dec_val m = n" "2 < length m" by (simp_all add: m_def)
  have "toFixed 2 x = fixed_digits 2 n" using assms by (simp add: toFixed_def n_def)
  also have "\<dots> = take (length m - 2) m @ ''.'' @ drop (length m - 2) m"
    unfolding fixed_digits_def m_def Let_def by (simp add: numeral_eq_Suc)
  finally have f: "toFixed 2 x = take (length m - 2) m @ ''.'' @ drop (length m - 2) m" .
  have d: "all_digits (take (length m - 2) m)" "list_all is_digit (drop (length m - 2) m)"
    using m by (auto simp: all_digits_def list_all_iff dest: in_set_takeD in_set_dropD)
  have "of_nat n = (of_int (Math_round (x * 100)) :: number)"
    using assms Math_round_nonneg [of "x * 100"] by (simp add: n_def)
  then show ?thesis
    unfolding f Number_of_point(2) [OF d] Number_of_point(1) [OF d] using m by simp
qed

end
