(* ===== verification/Add_Device.thy ===== *)
theory Add_Device
  imports Ip_Form Page_Effect Cap_Field
begin

text \<open>
  The add-device form, src/web/src/components/devices/AddDeviceDialog.tsx: its state, the validation of name,
  address and monthly cap, the request it sends, and the reading of the WireGuard configuration it
  receives.  The query results it uses (devices, account cap, server network) are arguments.
\<close>

section \<open>State\<close>

datatype IpMode = Ip_auto | Ip_custom

record cap_override =
  co_enabled :: bool
  co_gb :: string

record add_form =
  af_step :: nat
  af_name :: string
  af_os :: "DeviceOs option"
  af_type :: "DeviceType option"
  af_ipMode :: IpMode
  af_ipInput :: string
  af_capOverride :: "cap_override option"
  af_result :: "CreatedDevice option"

record form_queries =
  fq_devices :: "PublicDevice list option"
  fq_accountCap :: "number option"
  fq_cidr :: "string option"

definition resetAll :: "add_form \<Rightarrow> add_form" where
  "resetAll f = \<lparr>af_step = 1, af_name = [], af_os = None, af_type = None, af_ipMode = Ip_auto, af_ipInput = [],
     af_capOverride = None, af_result = None\<rparr>"

section \<open>Caps\<close>

definition has_cap :: "number option \<Rightarrow> bool" where
  "has_cap c \<longleftrightarrow> (case c of None \<Rightarrow> False | Some b \<Rightarrow> b > 0)"

definition capEnabled :: "add_form \<Rightarrow> bool" where
  "capEnabled f = (case af_capOverride f of None \<Rightarrow> False | Some c \<Rightarrow> co_enabled c)"

definition capGbInput :: "form_queries \<Rightarrow> add_form \<Rightarrow> string" where
  "capGbInput q f =
     (case af_capOverride f of
        Some c \<Rightarrow> co_gb c
      | None \<Rightarrow> if has_cap (fq_accountCap q) then formatCapGb (the (fq_accountCap q)) else [])"

text \<open>The switch and the input.\<close>

definition toggleCap :: "form_queries \<Rightarrow> bool \<Rightarrow> add_form \<Rightarrow> add_form" where
  "toggleCap q v f = f\<lparr>af_capOverride := Some \<lparr>co_enabled = v, co_gb = capGbInput q f\<rparr>\<rparr>"

definition typeCap :: "string \<Rightarrow> add_form \<Rightarrow> add_form" where
  "typeCap s f = f\<lparr>af_capOverride := Some \<lparr>co_enabled = capEnabled f, co_gb = s\<rparr>\<rparr>"

definition capValidation :: "form_queries \<Rightarrow> add_form \<Rightarrow> cap_check" where
  "capValidation q f =
     (if \<not> capEnabled f then \<lparr>cc_ok = True, cc_bytes = None, cc_error = None\<rparr>
      else
        let raw = trim (capGbInput q f) in
        if raw = [] then \<lparr>cc_ok = False, cc_bytes = None, cc_error = Some ''enter a monthly cap in GB''\<rparr>
        else case Number_of raw of
          Fin n \<Rightarrow>
            if n \<le> 0 then \<lparr>cc_ok = False, cc_bytes = None, cc_error = Some ''must be a positive number of GB''\<rparr>
            else
              let bytes = Math_round (n * 1024 ^ 3) in
              (case fq_accountCap q of
                 Some cap \<Rightarrow>
                   if cap \<noteq> 0 \<and> of_int bytes > cap
                   then \<lparr>cc_ok = False, cc_bytes = Some bytes,
                          cc_error = Some (''can't exceed your account cap ('' @ formatBytes (Fin cap) @ '')'')\<rparr>
                   else \<lparr>cc_ok = True, cc_bytes = Some bytes, cc_error = None\<rparr>
               | None \<Rightarrow> \<lparr>cc_ok = True, cc_bytes = Some bytes, cc_error = None\<rparr>)
        | _ \<Rightarrow> \<lparr>cc_ok = False, cc_bytes = None, cc_error = Some ''must be a positive number of GB''\<rparr>)"

section \<open>Name and address\<close>

definition existingNames :: "form_queries \<Rightarrow> string set" where
  "existingNames q =
     set (map (\<lambda>d. toLowerCase (trim (pd_name d))) (case fq_devices q of None \<Rightarrow> [] | Some ds \<Rightarrow> ds))"

definition nameTaken :: "form_queries \<Rightarrow> add_form \<Rightarrow> bool" where
  "nameTaken q f \<longleftrightarrow> length (trim (af_name f)) > 0 \<and> toLowerCase (trim (af_name f)) \<in> existingNames q"

definition ipValidation :: "form_queries \<Rightarrow> add_form \<Rightarrow> bool \<times> string option" where
  "ipValidation q f =
     (case af_ipMode f of
        Ip_auto \<Rightarrow> (True, None)
      | Ip_custom \<Rightarrow>
          let v = trim (af_ipInput f) in
          if v = [] then (False, None)
          else if \<not> ipv4_pattern v then (False, Some ''that doesn't look like a valid IPv4 address'')
          else case fq_cidr q of
            None \<Rightarrow> (True, None)
          | Some cidr \<Rightarrow>
              if cidr = [] then (True, None)
              else case ipOutsideCidrReason v cidr of
                None \<Rightarrow> (True, None)
              | Some reason \<Rightarrow> (False, Some reason))"

definition canSubmit :: "form_queries \<Rightarrow> bool \<Rightarrow> add_form \<Rightarrow> bool" where
  "canSubmit q isPending f \<longleftrightarrow>
     length (trim (af_name f)) > 0 \<and> length (trim (af_name f)) \<le> 64 \<and> \<not> nameTaken q f \<and>
     af_os f \<noteq> None \<and> af_type f \<noteq> None \<and> fst (ipValidation q f) \<and> cc_ok (capValidation q f) \<and> \<not> isPending"

section \<open>Submission\<close>

definition form_body :: "form_queries \<Rightarrow> add_form \<Rightarrow> CreateDeviceBody" where
  "form_body q f =
     \<lparr>cdb_name = trim (af_name f), cdb_os = af_os f, cdb_device_type = af_type f,
      cdb_allocated_ip = (if af_ipMode f = Ip_custom \<and> trim (af_ipInput f) \<noteq> [] then Some (trim (af_ipInput f)) else None),
      cdb_monthly_byte_cap = Some (map_option of_int (cc_bytes (capValidation q f)))\<rparr>"

text \<open>The mutation: the request it makes, or the validation error it throws.\<close>

definition addM_request :: "form_queries \<Rightarrow> add_form \<Rightarrow> ApiError + api_request" where
  "addM_request q f =
     (if af_os f = None \<or> af_type f = None
      then Inl \<lparr>ae_status = 422, ae_code = JStr ''validation'', ae_message = JStr ''Choose an OS and device type'',
                ae_requestId = None\<rparr>
      else Inr (createDevice (form_body q f)))"

definition addM_success :: "CreatedDevice \<Rightarrow> add_form \<Rightarrow> add_form \<times> page_effect list" where
  "addM_success d f =
     (f\<lparr>af_result := Some d, af_step := 2\<rparr>, [Invalidated [''devices''], Toast_success ''Device added''])"

text \<open>The rejection handler; \<open>None\<close> is an error that is no \<open>ApiError\<close>.\<close>

definition addM_error :: "ApiError option \<Rightarrow> page_effect list" where
  "addM_error e =
     [Toast_error (case e of Some a \<Rightarrow> ae_message a | None \<Rightarrow> JStr ''Failed to create device'')]"

definition is_alnum_lower :: "char \<Rightarrow> bool" where
  "is_alnum_lower c \<longleftrightarrow> is_digit c \<or> (97 \<le> (of_char c :: nat) \<and> (of_char c :: nat) \<le> 122)"

text \<open>The file name \<open>downloadConfig\<close> offers.\<close>

definition download_name :: "string option \<Rightarrow> string" where
  "download_name name =
     (let base = toLowerCase (case name of Some n \<Rightarrow> n | None \<Rightarrow> ''crimetracker-vpn'');
          safe = take 15 (filter is_alnum_lower base)
      in (if safe = [] then ''wireguard'' else safe) @ ''.conf'')"

section \<open>Prefilled caps\<close>

text \<open>The field of the form meets the cap contract.\<close>

interpretation add_cap: cap_field capEnabled "capGbInput q" "\<lambda>_. fq_accountCap q" "capValidation q" for q
  by unfold_locales
    (auto simp: capValidation_def cap_reference_def cap_accepted_def cap_refused_def Let_def
      split: jsnum.splits option.splits)

text \<open>
  A whole account cap is offered exactly: when the account has a cap of a whole positive number of GiB and
  the user switches the device cap on in a fresh form, the prefilled value is accepted and is the account
  cap to the byte.
\<close>

theorem whole_cap_prefilled_exactly:
  assumes "fq_accountCap q = Some (of_nat g * 1024 ^ 3)" and "0 < g"
  shows "capValidation q (toggleCap q True (resetAll f)) =
    \<lparr>cc_ok = True, cc_bytes = Some (int g * 1024 ^ 3), cc_error = None\<rparr>"
proof -
  have "capGbInput q (toggleCap q True (resetAll f)) = nat_dec g" "capEnabled (toggleCap q True (resetAll f))"
    using assms by (simp_all add: toggleCap_def capGbInput_def resetAll_def has_cap_def capEnabled_def formatCapGb_whole
        del: power_numeral)
  then show ?thesis
    using add_cap.whole_accepted [of "toggleCap q True (resetAll f)" q g] assms by (simp add: cap_accepted_def)
qed

definition sample_queries :: "number option \<Rightarrow> form_queries" where
  "sample_queries cap = \<lparr>fq_devices = None, fq_accountCap = cap, fq_cidr = None\<rparr>"

definition sample_form :: add_form where
  "sample_form = \<lparr>af_step = 1, af_name = '' laptop '', af_os = Some Os_linux, af_type = Some Type_laptop,
     af_ipMode = Ip_auto, af_ipInput = [], af_capOverride = None, af_result = None\<rparr>"

theorem whole_cap_prefilled_exactly_witness:
  "capValidation (sample_queries (Some (of_nat 25 * 1024 ^ 3))) (toggleCap (sample_queries (Some (of_nat 25 * 1024 ^ 3))) True (resetAll sample_form)) =
    \<lparr>cc_ok = True, cc_bytes = Some (int 25 * 1024 ^ 3), cc_error = None\<rparr>"
  by (rule whole_cap_prefilled_exactly) (simp_all add: sample_queries_def)

text \<open>
  a fractional account cap is offered rounded up and then refused: with an account cap of 10.6 GiB
  (11381663334 bytes), switching the device cap on in a fresh form prefills \<open>11\<close>, which fails validation
  as exceeding the account cap.
\<close>

theorem fractional_cap_prefill_refused:
  "capGbInput (sample_queries (Some 11381663334)) (resetAll f) = ''11'' \<and>
   \<not> cc_ok (capValidation (sample_queries (Some 11381663334)) (toggleCap (sample_queries (Some 11381663334)) True (resetAll f)))"
proof -
  have "Math_round (11381663334 / 1024 ^ 3) = 11" by (simp add: Math_round_def floor_eq_iff)
  moreover have eleven: "nat_dec 11 = ''11''"
    by (simp add: nat_dec.simps digit_char_def) code_simp
  ultimately have input: "formatCapGb 11381663334 = ''11''" by (simp add: formatCapGb_def)
  have "Number_of ''11'' = Fin 11" "trim ''11'' = ''11''"
    using Number_of_nat_dec [of 11] trim_nat_dec [of 11] by (simp_all add: eleven)
  moreover have "Math_round (11 * 1024 ^ 3) = 11811160064" using Math_round_of_int [of 11811160064] by simp
  ultimately show ?thesis
    using input by (simp add: capGbInput_def resetAll_def sample_queries_def has_cap_def toggleCap_def capValidation_def
        capEnabled_def)
qed

section \<open>What a submitted form sends\<close>

text \<open>
  C33: a form that can be submitted sends a valid request: the server that decodes it finds the trimmed name of 1
  to 64 characters, not the name of an existing device up to case, an operating system and a device type,
  no address or, in custom mode, one that has the form of an IPv4 address and passes the network check, and
  a cap that is null or a number of bytes within the account cap.
\<close>

theorem submitted_form_valid:
  assumes can: "canSubmit q pending f" and small: "pred_option (\<lambda>b. b < 10 ^ 21) (cc_bytes (capValidation q f))"
  shows "\<exists>r. addM_request q f = Inr r \<and>
    sent_member r ''name'' = Some (Some (JStr (trim (af_name f)))) \<and>
    1 \<le> length (trim (af_name f)) \<and> length (trim (af_name f)) \<le> 64 \<and>
    toLowerCase (trim (af_name f)) \<notin> existingNames q \<and>
    (\<exists>os ty. sent_member r ''os'' = Some (Some (JStr (DeviceOs_str os))) \<and>
       sent_member r ''device_type'' = Some (Some (JStr (DeviceType_str ty)))) \<and>
    (sent_member r ''allocated_ip'' = Some None \<or>
       (\<exists>ip. sent_member r ''allocated_ip'' = Some (Some (JStr ip)) \<and> ipv4_pattern ip \<and>
          (\<forall>cidr. fq_cidr q = Some cidr \<and> cidr \<noteq> [] \<longrightarrow> ipOutsideCidrReason ip cidr = None))) \<and>
    (sent_member r ''monthly_byte_cap'' = Some (Some JNull) \<or>
       (\<exists>b. sent_member r ''monthly_byte_cap'' = Some (Some (JNum (of_int b))) \<and> 0 \<le> b \<and>
          (\<forall>cap. fq_accountCap q = Some cap \<and> cap \<noteq> 0 \<longrightarrow> of_int b \<le> cap)))"
proof -
  define body where "body = form_body q f"
  obtain os ty where os: "af_os f = Some os" and ty: "af_type f = Some ty"
    using can by (auto simp: canSubmit_def)
  have ok: "cc_ok (capValidation q f)" and ip: "fst (ipValidation q f)" using can by (simp_all add: canSubmit_def)
  have whole: "pred_option (pred_option (\<lambda>n. n = of_int \<lfloor>n\<rfloor> \<and> \<bar>n\<bar> < 10 ^ 21)) (cdb_monthly_byte_cap body)"
  proof (cases "cc_bytes (capValidation q f)")
    case (Some b)
    have "0 \<le> b" "b < 10 ^ 21" using add_cap.accepted_within(1) [OF ok Some] small Some by simp_all
    then have "\<bar>of_int b :: number\<bar> < 10 ^ 21" by (simp add: of_int_less_numeral_iff)
    then show ?thesis using Some by (simp add: body_def form_body_def)
  qed (simp add: body_def form_body_def)
  note sent = device_bodies_read_back_parts [OF whole, of None]
  have r: "addM_request q f = Inr (createDevice body)" using os ty by (simp add: addM_request_def body_def)
  have name: "1 \<le> length (trim (af_name f))" "length (trim (af_name f)) \<le> 64" "toLowerCase (trim (af_name f)) \<notin> existingNames q"
    using can by (auto simp: canSubmit_def nameTaken_def Suc_le_eq)
  have addr: "cdb_allocated_ip body = None \<or> (\<exists>v. cdb_allocated_ip body = Some v \<and> ipv4_pattern v \<and>
      (\<forall>cidr. fq_cidr q = Some cidr \<and> cidr \<noteq> [] \<longrightarrow> ipOutsideCidrReason v cidr = None))"
    using ip by (auto simp: ipValidation_def body_def form_body_def Let_def split: IpMode.splits if_splits option.splits)
  have cap: "cdb_monthly_byte_cap body = Some None \<or> (\<exists>b. cdb_monthly_byte_cap body = Some (Some (of_int b)) \<and> 0 \<le> b \<and>
      (\<forall>cap. fq_accountCap q = Some cap \<and> cap \<noteq> 0 \<longrightarrow> of_int b \<le> cap))"
    using add_cap.accepted_within [OF ok] by (cases "cc_bytes (capValidation q f)") (auto simp: body_def form_body_def)
  show ?thesis
    unfolding r using name addr cap sent os ty by (intro exI [of _ "createDevice body"]) (auto simp: body_def form_body_def cap_json_def)
qed

theorem submitted_form_valid_witness:
  "\<exists>r. addM_request (sample_queries None) sample_form = Inr r \<and>
    sent_member r ''name'' = Some (Some (JStr ''laptop'')) \<and> sent_member r ''allocated_ip'' = Some None"
proof -
  have name: "trim '' laptop '' = ''laptop''" by code_simp
  have can: "canSubmit (sample_queries None) False sample_form"
    by (simp add: canSubmit_def sample_form_def sample_queries_def name nameTaken_def existingNames_def ipValidation_def
        capValidation_def capEnabled_def)
  have cap: "cc_bytes (capValidation (sample_queries None) sample_form) = None"
    by (simp add: capValidation_def capEnabled_def sample_form_def)
  have ip: "sent_member (createDevice (form_body (sample_queries None) sample_form)) ''allocated_ip'' = Some None"
    using device_bodies_read_back_parts(4) [of "form_body (sample_queries None) sample_form" None] cap
    by (simp add: form_body_def sample_form_def)
  from submitted_form_valid [OF can] cap show ?thesis
    using ip by (auto simp: addM_request_def sample_form_def name)
qed

section \<open>Reading the configuration\<close>

record conf_interface =
  ci_address :: "string option"
  ci_mtu :: "string option"
  ci_privateKey :: "string option"

record conf_peer =
  cp_publicKey :: "string option"
  cp_endpoint :: "string option"
  cp_allowedIps :: "string option"
  cp_keepalive :: "string option"

record ParsedConf =
  pc_interface :: conf_interface
  pc_peer :: conf_peer

datatype conf_section = Sec_interface | Sec_peer | Sec_none

definition conf_empty :: ParsedConf where
  "conf_empty = \<lparr>pc_interface = \<lparr>ci_address = None, ci_mtu = None, ci_privateKey = None\<rparr>,
     pc_peer = \<lparr>cp_publicKey = None, cp_endpoint = None, cp_allowedIps = None, cp_keepalive = None\<rparr>\<rparr>"

text \<open>\<open>src.split(/\r?\n/)\<close>\<close>

definition strip_cr :: "string \<Rightarrow> string" where
  "strip_cr s = (if s \<noteq> [] \<and> last s = CHR 0x0D then butlast s else s)"

definition split_lines :: "string \<Rightarrow> string list" where
  "split_lines src = (let ps = split_on (CHR 0x0A) src in map strip_cr (butlast ps) @ [last ps])"

text \<open>\<open>line.match(/^\[(.+)\]$/)\<close>: the text between the brackets, without a carriage return.\<close>

definition section_tag :: "string \<Rightarrow> string option" where
  "section_tag line =
     (let inner = butlast (drop 1 line) in
      if 3 \<le> length line \<and> hd line = CHR ''['' \<and> last line = CHR '']'' \<and> CHR 0x0D \<notin> set inner then Some inner else None)"

definition set_interface :: "string \<Rightarrow> string \<Rightarrow> conf_interface \<Rightarrow> conf_interface" where
  "set_interface key value i =
     (if key = ''address'' then i\<lparr>ci_address := Some value\<rparr>
      else if key = ''mtu'' then i\<lparr>ci_mtu := Some value\<rparr>
      else if key = ''privatekey'' then i\<lparr>ci_privateKey := Some value\<rparr>
      else i)"

definition keepalive_text :: "string \<Rightarrow> string" where
  "keepalive_text value = (if all_digits value then value @ ''s'' else value)"

definition set_peer :: "string \<Rightarrow> string \<Rightarrow> conf_peer \<Rightarrow> conf_peer" where
  "set_peer key value p =
     (if key = ''publickey'' then p\<lparr>cp_publicKey := Some value\<rparr>
      else if key = ''endpoint'' then p\<lparr>cp_endpoint := Some value\<rparr>
      else if key = ''allowedips'' then p\<lparr>cp_allowedIps := Some value\<rparr>
      else if key = ''persistentkeepalive'' then p\<lparr>cp_keepalive := Some (keepalive_text value)\<rparr>
      else p)"

definition conf_line :: "string \<Rightarrow> conf_section \<times> ParsedConf \<Rightarrow> conf_section \<times> ParsedConf" where
  "conf_line rawLine st =
     (case st of (sec, out) \<Rightarrow>
        let line = trim rawLine in
        if line = [] \<or> startsWith line ''#'' then (sec, out)
        else case section_tag line of
          Some inner \<Rightarrow>
            (let tag = toLowerCase inner in
             (if tag = ''interface'' then Sec_interface else if tag = ''peer'' then Sec_peer else Sec_none, out))
        | None \<Rightarrow>
            (let eq = indexOf line (CHR ''='') in
             if eq < 0 then (sec, out)
             else
               let key = toLowerCase (trim (take (nat eq) line)); value = trim (drop (nat eq + 1) line) in
               (case sec of
                  Sec_interface \<Rightarrow> (sec, out\<lparr>pc_interface := set_interface key value (pc_interface out)\<rparr>)
                | Sec_peer \<Rightarrow> (sec, out\<lparr>pc_peer := set_peer key value (pc_peer out)\<rparr>)
                | Sec_none \<Rightarrow> (sec, out))))"

definition parseWgConf :: "string \<Rightarrow> ParsedConf" where
  "parseWgConf src = snd (fold conf_line (split_lines src) (Sec_none, conf_empty))"

text \<open>A configuration as WireGuard tools write it, from the entries of its two sections.\<close>

definition entry_text :: "string \<times> string \<Rightarrow> string" where
  "entry_text e = fst e @ '' = '' @ snd e"

definition conf_lines :: "(string \<times> string) list \<Rightarrow> (string \<times> string) list \<Rightarrow> string list" where
  "conf_lines ies pes = ''[Interface]'' # map entry_text ies @ [''''] @ ''[Peer]'' # map entry_text pes"

definition conf_text :: "(string \<times> string) list \<Rightarrow> (string \<times> string) list \<Rightarrow> string" where
  "conf_text ies pes = join_with [CHR 0x0A] (conf_lines ies pes)"

definition entry_ok :: "string \<times> string \<Rightarrow> bool" where
  "entry_ok e \<longleftrightarrow> fst e \<noteq> [] \<and> list_all (\<lambda>c. \<not> is_space c \<and> c \<noteq> CHR ''='') (fst e) \<and>
     hd (fst e) \<noteq> CHR ''#'' \<and> hd (fst e) \<noteq> CHR ''['' \<and>
     CHR 0x0A \<notin> set (snd e) \<and> CHR 0x0D \<notin> set (snd e) \<and> trim (snd e) = snd e"

text \<open>The last value given for a key, whatever the case of its letters.\<close>

definition entry_value :: "(string \<times> string) list \<Rightarrow> string \<Rightarrow> string option" where
  "entry_value es key = map_of (rev (map (\<lambda>(k, v). (toLowerCase k, v)) es)) key"

lemma trim_space_left: "is_space c \<Longrightarrow> trim (c # s) = trim s"
  by (simp add: trim_def)

lemma trim_eq_ends:
  assumes "trim s = s" "s \<noteq> []"
  shows "\<not> is_space (last s)"
proof -
  have "s = rev (dropWhile is_space (rev (dropWhile is_space s)))" using assms(1) by (simp add: trim_def)
  then have "rev s = dropWhile is_space (rev (dropWhile is_space s))" by (metis rev_rev_ident)
  moreover have "rev s \<noteq> []" using assms(2) by simp
  ultimately have "\<not> is_space (hd (rev s))" by (metis hd_dropWhile)
  then show ?thesis by (simp add: hd_rev)
qed

lemma trim_no_ends: "s \<noteq> [] \<Longrightarrow> \<not> is_space (hd s) \<Longrightarrow> \<not> is_space (last s) \<Longrightarrow> trim s = s"
proof -
  assume s: "s \<noteq> []" "\<not> is_space (hd s)" "\<not> is_space (last s)"
  then have "dropWhile is_space s = s" by (cases s) auto
  moreover have "dropWhile is_space (rev s) = rev s" using s by (cases "rev s") (auto simp: hd_rev [symmetric])
  ultimately show ?thesis by (simp add: trim_def)
qed

lemma trim_space_right: "is_space c \<Longrightarrow> s \<noteq> [] \<Longrightarrow> \<not> is_space (hd s) \<Longrightarrow> \<not> is_space (last s) \<Longrightarrow> trim (s @ [c]) = s"
proof -
  assume c: "is_space c" and s: "s \<noteq> []" "\<not> is_space (hd s)" "\<not> is_space (last s)"
  then have "dropWhile is_space (s @ [c]) = s @ [c]" by (cases s) auto
  then have "trim (s @ [c]) = rev (dropWhile is_space (rev s))" using c by (simp add: trim_def)
  moreover have "dropWhile is_space (rev s) = rev s" using s by (cases "rev s") (auto simp: hd_rev [symmetric])
  ultimately show ?thesis by simp
qed

lemma space_blank: "is_space (CHR '' '')" "\<not> is_space (CHR ''='')"
  by (simp_all add: is_space_def)

lemma entry_line:
  assumes "entry_ok (k, v)"
  shows "trim (entry_text (k, v)) = k @ '' ='' @ (if v = [] then [] else CHR '' '' # v)"
    and "trim (k @ '' '') = k"
proof -
  have k: "k \<noteq> []" "\<not> is_space (hd k)" "\<not> is_space (last k)"
    using assms by (auto simp: entry_ok_def list_all_iff)
  show "trim (k @ '' '') = k" using k by (simp add: trim_space_right space_blank)
  show "trim (entry_text (k, v)) = k @ '' ='' @ (if v = [] then [] else CHR '' '' # v)"
  proof (cases "v = []")
    case True
    have "trim ((k @ '' ='') @ [CHR '' '']) = k @ '' =''"
      using k by (intro trim_space_right) (auto simp: space_blank)
    with True show ?thesis by (simp add: entry_text_def)
  next
    case False
    with assms have "\<not> is_space (last v)" using trim_eq_ends [of v] by (simp add: entry_ok_def)
    with False k have "trim (k @ '' = '' @ v) = k @ '' = '' @ v" by (intro trim_no_ends) auto
    with False show ?thesis by (simp add: entry_text_def)
  qed
qed

lemma conf_line_entry:
  assumes "entry_ok (k, v)"
  shows "conf_line (entry_text (k, v)) (Sec_interface, out) =
      (Sec_interface, out\<lparr>pc_interface := set_interface (toLowerCase k) v (pc_interface out)\<rparr>)"
    and "conf_line (entry_text (k, v)) (Sec_peer, out) =
      (Sec_peer, out\<lparr>pc_peer := set_peer (toLowerCase k) v (pc_peer out)\<rparr>)"
proof -
  define line where "line = k @ '' ='' @ (if v = [] then [] else CHR '' '' # v)"
  have t: "trim (entry_text (k, v)) = line" unfolding line_def by (rule entry_line(1) [OF assms])
  have k: "k \<noteq> []" "hd k \<noteq> CHR ''#''" "hd k \<noteq> CHR ''[''" "CHR ''='' \<notin> set k" "trim v = v"
    using assms by (auto simp: entry_ok_def list_all_iff)
  have a: "line \<noteq> []" "\<not> startsWith line ''#''" "section_tag line = None"
    using k by (cases k; simp add: line_def startsWith_def section_tag_def Let_def)+
  have line_eq: "line = (k @ '' '') @ CHR ''='' # (if v = [] then [] else CHR '' '' # v)" by (simp add: line_def)
  have i: "indexOf line (CHR ''='') = int (length k + 1)"
    unfolding line_eq using k by (subst indexOf_append) simp_all
  have b: "take (length k + 1) line = k @ '' ''" "drop (length k + 1 + 1) line = (if v = [] then [] else CHR '' '' # v)"
    by (simp_all add: line_eq)
  have c: "trim (if v = [] then [] else CHR '' '' # v) = v" using k by (simp add: trim_space_left space_blank trim_def)
  show "conf_line (entry_text (k, v)) (Sec_interface, out) =
      (Sec_interface, out\<lparr>pc_interface := set_interface (toLowerCase k) v (pc_interface out)\<rparr>)"
    by (simp only: conf_line_def prod.case Let_def t a i nat_int b c entry_line(2) [OF assms] option.case conf_section.case
        if_False simp_thms) simp
  show "conf_line (entry_text (k, v)) (Sec_peer, out) = (Sec_peer, out\<lparr>pc_peer := set_peer (toLowerCase k) v (pc_peer out)\<rparr>)"
    by (simp only: conf_line_def prod.case Let_def t a i nat_int b c entry_line(2) [OF assms] option.case conf_section.case
        if_False simp_thms) simp
qed

lemma fold_entries:
  assumes "list_all entry_ok es"
  shows "fold conf_line (map entry_text es) (Sec_interface, out) =
      (Sec_interface, out\<lparr>pc_interface := fold (\<lambda>(k, v). set_interface (toLowerCase k) v) es (pc_interface out)\<rparr>)"
    and "fold conf_line (map entry_text es) (Sec_peer, out) =
      (Sec_peer, out\<lparr>pc_peer := fold (\<lambda>(k, v). set_peer (toLowerCase k) v) es (pc_peer out)\<rparr>)"
  using assms by (induction es arbitrary: out) (auto simp: conf_line_entry)

lemma entry_value_snoc:
  "entry_value [] key = None"
  "entry_value (es @ [(k, v)]) key = (if toLowerCase k = key then Some v else entry_value es key)"
  by (simp_all add: entry_value_def)

lemma interface_fields:
  "fold (\<lambda>(k, v). set_interface (toLowerCase k) v) es (pc_interface conf_empty) =
     \<lparr>ci_address = entry_value es ''address'', ci_mtu = entry_value es ''mtu'',
      ci_privateKey = entry_value es ''privatekey''\<rparr>"
proof (induction es rule: rev_induct)
  case (snoc e es)
  obtain k v where "e = (k, v)" by (cases e)
  with snoc show ?case by (auto simp: entry_value_snoc set_interface_def)
qed (simp add: entry_value_snoc conf_empty_def)

lemma peer_fields:
  "fold (\<lambda>(k, v). set_peer (toLowerCase k) v) es (pc_peer conf_empty) =
     \<lparr>cp_publicKey = entry_value es ''publickey'', cp_endpoint = entry_value es ''endpoint'',
      cp_allowedIps = entry_value es ''allowedips'',
      cp_keepalive = map_option keepalive_text (entry_value es ''persistentkeepalive'')\<rparr>"
proof (induction es rule: rev_induct)
  case (snoc e es)
  obtain k v where "e = (k, v)" by (cases e)
  with snoc show ?case by (auto simp: entry_value_snoc set_peer_def)
qed (simp add: entry_value_snoc conf_empty_def)

lemma section_lines:
  "conf_line ''[Interface]'' st = (Sec_interface, snd st)" "conf_line ''[Peer]'' st = (Sec_peer, snd st)"
  "conf_line [] st = st"
proof -
  have t: "trim ''[Interface]'' = ''[Interface]''" "trim ''[Peer]'' = ''[Peer]''" "trim [] = []"
    "section_tag ''[Interface]'' = Some ''Interface''" "section_tag ''[Peer]'' = Some ''Peer''"
    "toLowerCase ''Interface'' = ''interface''" "toLowerCase ''Peer'' = ''peer''"
    by code_simp+
  show "conf_line ''[Interface]'' st = (Sec_interface, snd st)" "conf_line ''[Peer]'' st = (Sec_peer, snd st)"
    "conf_line [] st = st"
    by (simp_all add: conf_line_def t Let_def startsWith_def split: prod.splits)
qed

lemma split_conf_text:
  assumes "list_all entry_ok ies" "list_all entry_ok pes"
  shows "split_lines (conf_text ies pes) = conf_lines ies pes"
proof -
  have clean: "CHR 0x0A \<notin> set (entry_text e) \<and> CHR 0x0D \<notin> set (entry_text e)" if "entry_ok e" for e
  proof -
    have sp: "is_space (CHR 0x0A)" "is_space (CHR 0x0D)" by (simp_all add: is_space_def)
    have key: "\<not> is_space c" if "c \<in> set (fst e)" for c
      using \<open>entry_ok e\<close> that by (simp add: entry_ok_def list_all_iff)
    have "CHR 0x0A \<notin> set (snd e)" "CHR 0x0D \<notin> set (snd e)" using that by (simp_all add: entry_ok_def)
    moreover have "CHR 0x0A \<notin> set (fst e)" "CHR 0x0D \<notin> set (fst e)" using key sp by blast+
    ultimately show ?thesis by (simp add: entry_text_def)
  qed
  have all: "list_all (\<lambda>l. CHR 0x0A \<notin> set l \<and> CHR 0x0D \<notin> set l) (conf_lines ies pes)"
    using assms clean by (auto simp: conf_lines_def list_all_iff)
  then have "split_on (CHR 0x0A) (conf_text ies pes) = conf_lines ies pes"
    unfolding conf_text_def by (intro split_join) (auto simp: conf_lines_def list_all_iff)
  moreover have "map strip_cr (butlast (conf_lines ies pes)) = butlast (conf_lines ies pes)"
  proof (rule map_idI)
    fix l assume "l \<in> set (butlast (conf_lines ies pes))"
    then have "CHR 0x0D \<notin> set l" using all by (auto simp: list_all_iff dest: in_set_butlastD)
    then show "strip_cr l = l" by (metis last_in_set strip_cr_def)
  qed
  moreover have "conf_lines ies pes \<noteq> []" by (simp add: conf_lines_def)
  ultimately show ?thesis
    by (simp add: split_lines_def)
qed

text \<open>
  the configuration shown is the configuration received: for a text with an \<open>[Interface]\<close> and a \<open>[Peer]\<close>
  section of key-value lines in any order and with keys in any case, every field of the two cards is the
  last value given for its key in its own section, absent when there is none, with the keep-alive in
  seconds.
\<close>

theorem parse_reads_conf:
  assumes "list_all entry_ok ies" "list_all entry_ok pes"
  shows "parseWgConf (conf_text ies pes) =
    \<lparr>pc_interface = \<lparr>ci_address = entry_value ies ''address'', ci_mtu = entry_value ies ''mtu'',
       ci_privateKey = entry_value ies ''privatekey''\<rparr>,
     pc_peer = \<lparr>cp_publicKey = entry_value pes ''publickey'', cp_endpoint = entry_value pes ''endpoint'',
       cp_allowedIps = entry_value pes ''allowedips'',
       cp_keepalive = map_option keepalive_text (entry_value pes ''persistentkeepalive'')\<rparr>\<rparr>"
  unfolding parseWgConf_def split_conf_text [OF assms]
  by (simp add: conf_lines_def section_lines fold_entries [OF assms(1)] fold_entries [OF assms(2)] interface_fields peer_fields)

theorem parse_reads_conf_witness:
  "cp_keepalive (pc_peer (parseWgConf (conf_text [(''Address'', ''10.0.0.2/32'')] [(''PersistentKeepalive'', ''25'')]))) = Some ''25s'' \<and>
   ci_address (pc_interface (parseWgConf (conf_text [(''Address'', ''10.0.0.2/32'')] [(''PersistentKeepalive'', ''25'')]))) =
     Some ''10.0.0.2/32''"
proof -
  have ok: "entry_ok (''Address'', ''10.0.0.2/32'')" "entry_ok (''PersistentKeepalive'', ''25'')"
    by (simp_all add: entry_ok_def is_space_def trim_def)
  have "toLowerCase ''Address'' = ''address''" "toLowerCase ''PersistentKeepalive'' = ''persistentkeepalive''"
    by code_simp+
  then have "entry_value [(''Address'', ''10.0.0.2/32'')] ''address'' = Some ''10.0.0.2/32''"
    "map_option keepalive_text (entry_value [(''PersistentKeepalive'', ''25'')] ''persistentkeepalive'') = Some ''25s''"
    by (simp_all add: entry_value_def keepalive_text_def all_digits_def is_digit_def)
  with ok show ?thesis
    using parse_reads_conf [of "[(''Address'', ''10.0.0.2/32'')]" "[(''PersistentKeepalive'', ''25'')]"] by simp
qed

end
