(* ===== verification/Edit_Device.thy ===== *)
theory Edit_Device
  imports Add_Device
begin

text \<open>
  The edit-device form, src/web/src/components/devices/EditDeviceDialog.tsx: the state seeded from the device,
  the cap field, and the mutation, which patches the device and then, on a separate endpoint, its quota.
  The outcome of each request is an argument: \<open>None\<close> when it resolves, \<open>Some e\<close> when it rejects, where \<open>e\<close> is the
  \<open>ApiError\<close> or nothing for any other error.
\<close>

section \<open>State\<close>

record edit_form =
  ef_name :: string
  ef_os :: DeviceOs
  ef_deviceType :: DeviceType
  ef_capEnabled :: bool
  ef_capGbInput :: string

definition edit_formatCapGb :: "number \<Rightarrow> string" where
  "edit_formatCapGb bytes =
     (let gb = bytes / 1024 ^ 3 in
      if gb \<ge> 10 then int_dec (Math_round gb) else strip_point_zero (toFixed 1 gb))"

definition edit_init :: "PublicDevice \<Rightarrow> edit_form" where
  "edit_init d =
     \<lparr>ef_name = pd_name d, ef_os = pd_os d, ef_deviceType = pd_device_type d,
      ef_capEnabled = has_cap (pd_monthly_byte_cap d),
      ef_capGbInput = (if has_cap (pd_monthly_byte_cap d) then edit_formatCapGb (the (pd_monthly_byte_cap d)) else [])\<rparr>"

text \<open>The switch, which seeds an empty field again from the cap of the device.\<close>

definition edit_toggle :: "PublicDevice \<Rightarrow> bool \<Rightarrow> edit_form \<Rightarrow> edit_form" where
  "edit_toggle d v f =
     (let f' = f\<lparr>ef_capEnabled := v\<rparr> in
      if v \<and> ef_capGbInput f = [] \<and> has_cap (pd_monthly_byte_cap d)
      then f'\<lparr>ef_capGbInput := edit_formatCapGb (the (pd_monthly_byte_cap d))\<rparr> else f')"

definition edit_capValidation :: "number option \<Rightarrow> edit_form \<Rightarrow> cap_check" where
  "edit_capValidation accountCapBytes f =
     (if \<not> ef_capEnabled f then \<lparr>cc_ok = True, cc_bytes = None, cc_error = None\<rparr>
      else
        let raw = trim (ef_capGbInput f) in
        if raw = [] then \<lparr>cc_ok = False, cc_bytes = None, cc_error = Some ''enter a monthly cap in GB''\<rparr>
        else case Number_of raw of
          Fin n \<Rightarrow>
            if n \<le> 0 then \<lparr>cc_ok = False, cc_bytes = None, cc_error = Some ''must be a positive number of GB''\<rparr>
            else
              let bytes = Math_round (n * 1024 ^ 3) in
              (case accountCapBytes of
                 Some cap \<Rightarrow>
                   if cap \<noteq> 0 \<and> of_int bytes > cap
                   then \<lparr>cc_ok = False, cc_bytes = Some bytes,
                          cc_error = Some (''can't exceed your account cap ('' @ formatBytes (Fin cap) @ '')'')\<rparr>
                   else \<lparr>cc_ok = True, cc_bytes = Some bytes, cc_error = None\<rparr>
               | None \<Rightarrow> \<lparr>cc_ok = True, cc_bytes = Some bytes, cc_error = None\<rparr>)
        | _ \<Rightarrow> \<lparr>cc_ok = False, cc_bytes = None, cc_error = Some ''must be a positive number of GB''\<rparr>)"

definition canSave :: "number option \<Rightarrow> bool \<Rightarrow> edit_form \<Rightarrow> bool" where
  "canSave acct isPending f \<longleftrightarrow>
     length (trim (ef_name f)) > 0 \<and> length (trim (ef_name f)) \<le> 64 \<and> cc_ok (edit_capValidation acct f) \<and> \<not> isPending"

section \<open>The mutation\<close>

definition changed :: "'a \<Rightarrow> 'a \<Rightarrow> 'a option" where
  "changed next prev = (if next \<noteq> prev then Some next else None)"

definition edit_body :: "PublicDevice \<Rightarrow> edit_form \<Rightarrow> PatchDeviceBody" where
  "edit_body d f =
     \<lparr>pdb_name = changed (trim (ef_name f)) (pd_name d), pdb_os = changed (ef_os f) (pd_os d),
      pdb_device_type = changed (ef_deviceType f) (pd_device_type d)\<rparr>"

definition nextCap :: "number option \<Rightarrow> edit_form \<Rightarrow> number option" where
  "nextCap acct f = map_option of_int (cc_bytes (edit_capValidation acct f))"

definition prevCap :: "PublicDevice \<Rightarrow> number option" where
  "prevCap d = (if has_cap (pd_monthly_byte_cap d) then pd_monthly_byte_cap d else None)"

definition name_error :: ApiError where
  "name_error = \<lparr>ae_status = 422, ae_code = JStr ''validation'',
     ae_message = JStr (''Name must be 1'' @ en_dash @ ''64 characters''), ae_requestId = None\<rparr>"

text \<open>\<open>mutationFn\<close>: the requests it makes, in order, and the rejection it ends with, if any.\<close>

definition edit_mutation ::
  "(api_request \<Rightarrow> ApiError option option) \<Rightarrow> number option \<Rightarrow> PublicDevice \<Rightarrow> edit_form \<Rightarrow>
   api_request list \<times> ApiError option option" where
  "edit_mutation server acct d f =
     (let next = trim (ef_name f);
          patch = patchDevice (pd_id d) (edit_body d f);
          quota = setMyDeviceQuota (pd_id d) (nextCap acct f) in
      if next = [] \<or> length next > 64 then ([], Some (Some name_error))
      else case server patch of
        Some e \<Rightarrow> ([patch], Some e)
      | None \<Rightarrow> if nextCap acct f \<noteq> prevCap d then ([patch, quota], server quota) else ([patch], None))"

definition edit_settled :: "PublicDevice \<Rightarrow> ApiError option option \<Rightarrow> page_effect list" where
  "edit_settled d r =
     (case r of
        None \<Rightarrow> [Invalidated [''devices''], Invalidated [''device'', pd_id d], Closed, Toast_success ''Device updated'']
      | Some (Some a) \<Rightarrow> [Toast_error (ae_message a)]
      | Some None \<Rightarrow> [Toast_error (JStr ''Failed to update device'')])"

definition edit_save ::
  "(api_request \<Rightarrow> ApiError option option) \<Rightarrow> number option \<Rightarrow> PublicDevice \<Rightarrow> edit_form \<Rightarrow>
   api_request list \<times> page_effect list" where
  "edit_save server acct d f = (case edit_mutation server acct d f of (rs, r) \<Rightarrow> (rs, edit_settled d r))"

section \<open>The cap field\<close>

interpretation edit_cap: cap_field ef_capEnabled ef_capGbInput "\<lambda>_. acct" "edit_capValidation acct" for acct
  by unfold_locales
    (auto simp: edit_capValidation_def cap_reference_def cap_accepted_def cap_refused_def Let_def
      split: jsnum.splits option.splits)

text \<open>
  the two device dialogs agree on caps: with the toggle in the same position, the same text in the field and
  the same account cap, the add form and the edit form accept the same caps, with the same bytes and the
  same message, and both prefill a cap with the same text.
\<close>

theorem dialogs_agree_on_caps:
  assumes "ef_capEnabled e = capEnabled a" and "ef_capGbInput e = capGbInput q a"
  shows "edit_capValidation (fq_accountCap q) e = capValidation q a \<and> edit_formatCapGb = formatCapGb"
  using assms by (simp add: edit_cap.meets add_cap.meets fun_eq_iff edit_formatCapGb_def formatCapGb_def)

theorem dialogs_agree_on_caps_witness:
  "edit_capValidation (fq_accountCap (sample_queries (Some 7)))
     \<lparr>ef_name = ''n'', ef_os = Os_linux, ef_deviceType = Type_laptop, ef_capEnabled = False, ef_capGbInput = ''0''\<rparr> =
   capValidation (sample_queries (Some 7)) sample_form \<and> edit_formatCapGb = formatCapGb"
proof (rule dialogs_agree_on_caps)
  have "toFixed 1 (7 / 1024 ^ 3 :: number) = ''0.0''" by code_simp
  then show "ef_capGbInput \<lparr>ef_name = ''n'', ef_os = Os_linux, ef_deviceType = Type_laptop, ef_capEnabled = False, ef_capGbInput = ''0''\<rparr> =
      capGbInput (sample_queries (Some 7)) sample_form"
    by (simp add: capGbInput_def sample_queries_def sample_form_def has_cap_def formatCapGb_def strip_point_zero_def)
qed (simp add: capEnabled_def sample_form_def)

section \<open>What a save sends\<close>

lemma nextCap_seeded:
  assumes "pd_monthly_byte_cap d = Some (of_nat g * 1024 ^ 3)" and "0 < g"
    and "\<not> over_account acct (int g * 1024 ^ 3)" and "ef_capEnabled f" and "ef_capGbInput f = ef_capGbInput (edit_init d)"
  shows "nextCap acct f = pd_monthly_byte_cap d"
proof -
  have "ef_capGbInput f = nat_dec g"
    using assms formatCapGb_whole [of g] by (simp add: edit_init_def has_cap_def edit_formatCapGb_def formatCapGb_def)
  then have "edit_capValidation acct f = cap_accepted (Some (int g * 1024 ^ 3))"
    using assms by (intro edit_cap.whole_accepted) simp_all
  then show ?thesis using assms by (simp add: nextCap_def cap_accepted_def)
qed

lemma patch_fields:
  "sent_member (patchDevice i (edit_body d f)) ''name'' =
     Some (if trim (ef_name f) = pd_name d then None else Some (JStr (trim (ef_name f))))"
  "sent_member (patchDevice i (edit_body d f)) ''os'' =
     Some (if ef_os f = pd_os d then None else Some (JStr (DeviceOs_str (ef_os f))))"
  "sent_member (patchDevice i (edit_body d f)) ''device_type'' =
     Some (if ef_deviceType f = pd_device_type d then None else Some (JStr (DeviceType_str (ef_deviceType f))))"
  using device_bodies_read_back_parts(6-8) [of sample_create None i "edit_body d f"]
  by (simp_all add: sample_create_def edit_body_def changed_def)

text \<open>
  an edit touches only what was edited: when the cap field of the form is as the dialog opened it and the
  device has no cap or one of a whole number of GiB (within the account cap), saving makes no quota
  request, and the patch carries the name, the system and the type only where they differ from the device.
\<close>

theorem edit_touches_only_changes:
  assumes name: "trim (ef_name f) \<noteq> []" "length (trim (ef_name f)) \<le> 64"
    and kept: "ef_capEnabled f = ef_capEnabled (edit_init d)" "ef_capGbInput f = ef_capGbInput (edit_init d)"
    and cap: "pd_monthly_byte_cap d = None \<or>
      (\<exists>g. pd_monthly_byte_cap d = Some (of_nat g * 1024 ^ 3) \<and> 0 < g \<and> \<not> over_account acct (int g * 1024 ^ 3))"
  shows "fst (edit_save server acct d f) = [patchDevice (pd_id d) (edit_body d f)] \<and>
    sent_member (patchDevice (pd_id d) (edit_body d f)) ''name'' =
      Some (if trim (ef_name f) = pd_name d then None else Some (JStr (trim (ef_name f)))) \<and>
    sent_member (patchDevice (pd_id d) (edit_body d f)) ''os'' =
      Some (if ef_os f = pd_os d then None else Some (JStr (DeviceOs_str (ef_os f)))) \<and>
    sent_member (patchDevice (pd_id d) (edit_body d f)) ''device_type'' =
      Some (if ef_deviceType f = pd_device_type d then None else Some (JStr (DeviceType_str (ef_deviceType f))))"
proof -
  have "nextCap acct f = prevCap d"
    using cap
  proof (elim disjE exE conjE)
    assume "pd_monthly_byte_cap d = None"
    then show ?thesis
      using kept by (simp add: nextCap_def prevCap_def has_cap_def edit_init_def edit_capValidation_def)
  next
    fix g :: nat
    assume g: "pd_monthly_byte_cap d = Some (of_nat g * 1024 ^ 3)" "0 < g" "\<not> over_account acct (int g * 1024 ^ 3)"
    have "ef_capEnabled f" using kept g by (simp add: edit_init_def has_cap_def)
    then show ?thesis using nextCap_seeded [OF g] kept g by (simp add: prevCap_def has_cap_def)
  qed
  then have "fst (edit_save server acct d f) = [patchDevice (pd_id d) (edit_body d f)]"
    using name by (simp add: edit_save_def edit_mutation_def Let_def split: option.splits)
  then show ?thesis by (simp add: patch_fields)
qed

definition sample_device :: "number option \<Rightarrow> PublicDevice" where
  "sample_device cap =
     \<lparr>pd_id = ''d1'', pd_user_id = ''u1'', pd_name = ''laptop'', pd_os = Os_linux, pd_device_type = Type_laptop,
      pd_public_key = [], pd_allocated_ip = ''10.42.0.7'', pd_status = Dev_active, pd_server_id = ''s1'',
      pd_last_handshake_at = None, pd_last_peer_endpoint = None, pd_last_peer_endpoint_at = None,
      pd_created_at = ''2026-01-01T00:00:00Z'', pd_total_rx_bytes = 0, pd_total_tx_bytes = 0,
      pd_monthly_byte_cap = cap, pd_current_month_bytes = 0, pd_auto_paused = False\<rparr>"

theorem edit_touches_only_changes_witness:
  "fst (edit_save (\<lambda>_. None) None (sample_device (Some (of_nat 25 * 1024 ^ 3)))
     ((edit_init (sample_device (Some (of_nat 25 * 1024 ^ 3))))\<lparr>ef_name := ''desk''\<rparr>)) =
   [patchDevice ''d1'' (edit_body (sample_device (Some (of_nat 25 * 1024 ^ 3)))
     ((edit_init (sample_device (Some (of_nat 25 * 1024 ^ 3))))\<lparr>ef_name := ''desk''\<rparr>))]"
proof -
  let ?d = "sample_device (Some (of_nat 25 * 1024 ^ 3))"
  have "trim ''desk'' = ''desk''" by code_simp
  then show ?thesis
    using edit_touches_only_changes [of "(edit_init ?d)\<lparr>ef_name := ''desk''\<rparr>" ?d None "\<lambda>_. None"]
    by (auto simp: sample_device_def intro: exI [of _ 25])
qed

text \<open>
  renaming a device rewrites a fractional cap: the dialog seeds the field of a device capped at 10.6 GiB
  (11381663334 bytes) with \<open>11\<close>, so saving a new name alone also sets the quota to 11 GiB.
\<close>

theorem rename_rewrites_fractional_cap:
  "fst (edit_save (\<lambda>_. None) None (sample_device (Some 11381663334))
     ((edit_init (sample_device (Some 11381663334)))\<lparr>ef_name := ''desk''\<rparr>)) =
   [patchDevice ''d1'' \<lparr>pdb_name = Some ''desk'', pdb_os = None, pdb_device_type = None\<rparr>,
    setMyDeviceQuota ''d1'' (Some 11811160064)]"
proof -
  let ?d = "sample_device (Some 11381663334)"
  let ?f = "(edit_init ?d)\<lparr>ef_name := ''desk''\<rparr>"
  have "Math_round (11381663334 / 1024 ^ 3) = 11" by (simp add: Math_round_def floor_eq_iff)
  then have gb: "ef_capGbInput ?f = nat_dec 11" and on: "ef_capEnabled ?f"
    by (simp_all add: edit_init_def sample_device_def has_cap_def edit_formatCapGb_def)
  have "edit_capValidation None ?f = cap_accepted (Some (int 11 * 1024 ^ 3))"
    by (rule edit_cap.whole_accepted [OF on gb]) simp_all
  then have "nextCap None ?f = Some 11811160064" by (simp add: nextCap_def cap_accepted_def)
  moreover have "trim ''desk'' = ''desk''" by code_simp
  ultimately show ?thesis
    by (simp add: edit_save_def edit_mutation_def Let_def edit_body_def changed_def prevCap_def has_cap_def
        sample_device_def edit_init_def)
qed

lemma edit_mutation_runs:
  assumes "trim (ef_name f) \<noteq> []" and "\<not> 64 < length (trim (ef_name f))"
  shows "edit_mutation server acct d f =
    (case server (patchDevice (pd_id d) (edit_body d f)) of
       Some e \<Rightarrow> ([patchDevice (pd_id d) (edit_body d f)], Some e)
     | None \<Rightarrow>
         if nextCap acct f = prevCap d then ([patchDevice (pd_id d) (edit_body d f)], None)
         else ([patchDevice (pd_id d) (edit_body d f), setMyDeviceQuota (pd_id d) (nextCap acct f)],
               server (setMyDeviceQuota (pd_id d) (nextCap acct f))))"
  using assms by (simp add: edit_mutation_def Let_def)

text \<open>
  a save reports what happened: from a form that can be saved the patch is sent first; the quota is sent only
  when the cap changed and after the patch succeeded, with a number of bytes within the account cap or
  null; the dialog closes with a success toast exactly when every request sent succeeded, and otherwise
  stays open with exactly one error toast.
\<close>

theorem edit_save_outcomes:
  assumes "canSave acct False f"
  shows "fst (edit_save server acct d f) =
      patchDevice (pd_id d) (edit_body d f) #
        (if server (patchDevice (pd_id d) (edit_body d f)) = None \<and> nextCap acct f \<noteq> prevCap d
         then [setMyDeviceQuota (pd_id d) (nextCap acct f)] else []) \<and>
    (\<forall>b. nextCap acct f = Some b \<longrightarrow> 0 \<le> b \<and> (\<forall>cap. acct = Some cap \<and> cap \<noteq> 0 \<longrightarrow> b \<le> cap)) \<and>
    (if \<forall>r\<in>set (fst (edit_save server acct d f)). server r = None
     then {Closed, Toast_success ''Device updated''} \<subseteq> set (snd (edit_save server acct d f))
     else \<exists>m. snd (edit_save server acct d f) = [Toast_error m])"
proof -
  have ok: "cc_ok (edit_capValidation acct f)" and name: "trim (ef_name f) \<noteq> []" "\<not> 64 < length (trim (ef_name f))"
    using assms by (auto simp: canSave_def)
  let ?patch = "patchDevice (pd_id d) (edit_body d f)" and ?quota = "setMyDeviceQuota (pd_id d) (nextCap acct f)"
  have ends: "snd (edit_save server acct d f) = edit_settled d (snd (edit_mutation server acct d f))"
    "fst (edit_save server acct d f) = fst (edit_mutation server acct d f)"
    by (simp_all add: edit_save_def split: prod.splits)
  note run = ends edit_mutation_runs [OF name, of server acct d] edit_settled_def
  have bound: "\<forall>b. nextCap acct f = Some b \<longrightarrow> 0 \<le> b \<and> (\<forall>cap. acct = Some cap \<and> cap \<noteq> 0 \<longrightarrow> b \<le> cap)"
    using edit_cap.accepted_within [OF ok] by (auto simp: nextCap_def)
  have sent: "fst (edit_save server acct d f) =
      ?patch # (if server ?patch = None \<and> nextCap acct f \<noteq> prevCap d then [?quota] else [])"
    by (cases "server ?patch") (simp_all add: run)
  have told: "if \<forall>r\<in>set (fst (edit_save server acct d f)). server r = None
     then {Closed, Toast_success ''Device updated''} \<subseteq> set (snd (edit_save server acct d f))
     else \<exists>m. snd (edit_save server acct d f) = [Toast_error m]"
    by (cases "server ?patch"; cases "nextCap acct f = prevCap d"; cases "server ?quota")
      (simp_all add: run split: option.split)
  show ?thesis using sent bound told by blast
qed

theorem edit_save_outcomes_witness:
  "snd (edit_save (\<lambda>_. Some None) None (sample_device None) (edit_init (sample_device None))) =
     [Toast_error (JStr ''Failed to update device'')] \<and>
   fst (edit_save (\<lambda>_. Some None) None (sample_device None) (edit_init (sample_device None))) =
     [patchDevice ''d1'' (edit_body (sample_device None) (edit_init (sample_device None)))]"
proof -
  have "trim ''laptop'' = ''laptop''" by code_simp
  then have "canSave None False (edit_init (sample_device None))"
    and "length (trim (ef_name (edit_init (sample_device None)))) = 6"
    by (simp_all add: canSave_def edit_init_def sample_device_def edit_capValidation_def has_cap_def)
  then show ?thesis
    using edit_save_outcomes [of None "edit_init (sample_device None)" "\<lambda>_. Some None" "sample_device None"]
    by (auto simp: edit_save_def edit_mutation_def edit_settled_def Let_def edit_init_def sample_device_def)
qed

end
