(* ===== verification/History_Hydration.thy ===== *)
theory History_Hydration
  imports Live_Stats Api_Client Js_Date
begin

text \<open>
  The history hook, src/web/src/hooks/useHistoryHydration.ts: the window it asks for, the requests it makes, the
  conversion of sampled byte counts to rates and the effects that seed the live store.  \<open>Date.parse\<close> is
  an argument \<open>parse\<close> whose value may be NaN, so the converted points are over \<open>jsnum\<close>.  The store
  keeps finite numbers: the model of the effects ends (\<open>None\<close>) where a NaN would enter it.
\<close>

section \<open>Requests\<close>

definition hydrate_window :: "number \<Rightarrow> number \<Rightarrow> (string \<times> string) option" where
  "hydrate_window now windowSec = do {
     from \<leftarrow> toISOString (now - windowSec * 1000);
     to \<leftarrow> toISOString now;
     Some (from, to)
   }"

definition hydrate_opts :: "string \<times> string \<Rightarrow> number \<Rightarrow> HistoryOpts" where
  "hydrate_opts w windowSec = \<lparr>ho_from = Some (fst w), ho_to = Some (snd w), ho_limit = Some windowSec\<rparr>"

text \<open>The keys and requests of the enabled queries: an empty identifier disables its query.\<close>

definition deviceQueries ::
  "string \<times> string \<Rightarrow> number \<Rightarrow> string list \<Rightarrow> (string list \<times> api_request) list" where
  "deviceQueries w windowSec deviceIds =
     map (\<lambda>i. ([''device-history'', i, fst w, snd w], deviceHistory i (Some (hydrate_opts w windowSec))))
       (filter (\<lambda>i. i \<noteq> []) deviceIds)"

definition serverQueries ::
  "string \<times> string \<Rightarrow> number \<Rightarrow> string list \<Rightarrow> (string list \<times> api_request) list" where
  "serverQueries w windowSec serverIds =
     map (\<lambda>i. ([''server-history'', i, fst w, snd w], serverHistory i (Some (hydrate_opts w windowSec))))
       (filter (\<lambda>i. i \<noteq> []) serverIds)"

section \<open>From bytes to rates\<close>

record raw_point =
  rp_ts :: jsnum
  rp_rxBps :: jsnum
  rp_txBps :: jsnum

record raw_server_point = raw_point +
  rsp_peerCount :: number
  rsp_onlineCount :: number
  rsp_handshakeCount :: number

text \<open>\<open>Math.max(1, Math.round((ts - prevTs) / 1000))\<close>, NaN when one of the times is.\<close>

fun gapSec :: "jsnum \<Rightarrow> jsnum \<Rightarrow> jsnum" where
  "gapSec (Fin ts) (Fin prevTs) = Fin (max 1 (of_int (Math_round ((ts - prevTs) / 1000))))"
| "gapSec _ _ = NaN"

fun rate_of :: "number \<Rightarrow> jsnum \<Rightarrow> jsnum" where
  "rate_of bytes (Fin g) = Fin (of_int (Math_round ((bytes / g) * 8)))"
| "rate_of bytes _ = NaN"

fun minus_second :: "jsnum \<Rightarrow> jsnum" where
  "minus_second (Fin t) = Fin (t - 1000)"
| "minus_second x = x"

definition prev_ts :: "jsnum list \<Rightarrow> nat \<Rightarrow> jsnum" where
  "prev_ts stamps i = (if i > 0 then stamps ! (i - 1) else minus_second (stamps ! i))"

definition toDevicePoints :: "(string \<Rightarrow> jsnum) \<Rightarrow> DeviceHistoryPoint list \<Rightarrow> raw_point list" where
  "toDevicePoints parse samples =
     map (\<lambda>i. let s = samples ! i;
                  stamps = map (parse \<circ> dhp_sampled_at) samples;
                  ts = stamps ! i;
                  g = gapSec ts (prev_ts stamps i)
              in \<lparr>rp_ts = ts, rp_rxBps = rate_of (dhp_rx_bytes s) g, rp_txBps = rate_of (dhp_tx_bytes s) g\<rparr>)
       [0..<length samples]"

definition toServerPoints :: "(string \<Rightarrow> jsnum) \<Rightarrow> ServerHistoryPoint list \<Rightarrow> raw_server_point list" where
  "toServerPoints parse samples =
     map (\<lambda>i. let s = samples ! i;
                  stamps = map (parse \<circ> svp_sampled_at) samples;
                  ts = stamps ! i;
                  g = gapSec ts (prev_ts stamps i)
              in \<lparr>rp_ts = ts, rp_rxBps = rate_of (svp_total_rx_bytes s) g, rp_txBps = rate_of (svp_total_tx_bytes s) g,
                  rsp_peerCount = svp_peer_count s, rsp_onlineCount = svp_online_count s,
                  rsp_handshakeCount = svp_handshake_count s\<rparr>)
       [0..<length samples]"

section \<open>Seeding the store\<close>

fun fin :: "jsnum \<Rightarrow> number option" where
  "fin (Fin x) = Some x"
| "fin _ = None"

fun sequence :: "'a option list \<Rightarrow> 'a list option" where
  "sequence [] = Some []"
| "sequence (x # xs) = (case x of None \<Rightarrow> None | Some a \<Rightarrow> map_option ((#) a) (sequence xs))"

definition device_point :: "raw_point \<Rightarrow> HistoricalPoint option" where
  "device_point p = do {
     ts \<leftarrow> fin (rp_ts p); rx \<leftarrow> fin (rp_rxBps p); tx \<leftarrow> fin (rp_txBps p);
     Some \<lparr>hp_ts = ts, hp_rxBps = rx, hp_txBps = tx\<rparr>
   }"

definition server_point :: "raw_server_point \<Rightarrow> ServerHistoricalPoint option" where
  "server_point p = do {
     ts \<leftarrow> fin (rp_ts p); rx \<leftarrow> fin (rp_rxBps p); tx \<leftarrow> fin (rp_txBps p);
     Some \<lparr>hp_ts = ts, hp_rxBps = rx, hp_txBps = tx, shp_peerCount = rsp_peerCount p,
           shp_onlineCount = rsp_onlineCount p, shp_handshakeCount = rsp_handshakeCount p\<rparr>
   }"

text \<open>The two effects: \<open>deviceQueries.forEach((q, i) => ...)\<close> over the identifiers and the data that landed.\<close>

fun hydrate_devices ::
  "(string \<Rightarrow> jsnum) \<Rightarrow> (string \<times> DeviceHistoryResponse option) list \<Rightarrow> LiveStatsState \<Rightarrow> LiveStatsState option" where
  "hydrate_devices parse [] s = Some s"
| "hydrate_devices parse ((i, None) # qs) s = hydrate_devices parse qs s"
| "hydrate_devices parse ((i, Some data) # qs) s = do {
     points \<leftarrow> sequence (map device_point (toDevicePoints parse (dhr_samples data)));
     hydrate_devices parse qs (hydrateDevice i points s)
   }"

fun hydrate_servers ::
  "(string \<Rightarrow> jsnum) \<Rightarrow> (string \<times> ServerHistoryResponse option) list \<Rightarrow> LiveStatsState \<Rightarrow> LiveStatsState option" where
  "hydrate_servers parse [] s = Some s"
| "hydrate_servers parse ((i, None) # qs) s = hydrate_servers parse qs s"
| "hydrate_servers parse ((i, Some data) # qs) s = do {
     points \<leftarrow> sequence (map server_point (toServerPoints parse (shr_samples data)));
     hydrate_servers parse qs (hydrateServer i points s)
   }"

section \<open>What the charts receive\<close>

text \<open>Specification: the seconds a sample covers, and the point it becomes, when every time parses.\<close>

definition covered :: "('s \<Rightarrow> number) \<Rightarrow> 's list \<Rightarrow> nat \<Rightarrow> number" where
  "covered t samples i =
     (if i = 0 then 1 else max 1 (of_int (Math_round ((t (samples ! i) - t (samples ! (i - 1))) / 1000))))"

definition bps :: "number \<Rightarrow> number \<Rightarrow> number" where
  "bps bytes g = of_int (Math_round ((bytes / g) * 8))"

definition point_at :: "(DeviceHistoryPoint \<Rightarrow> number) \<Rightarrow> DeviceHistoryPoint list \<Rightarrow> nat \<Rightarrow> HistoricalPoint" where
  "point_at t samples i =
     \<lparr>hp_ts = t (samples ! i), hp_rxBps = bps (dhp_rx_bytes (samples ! i)) (covered t samples i),
      hp_txBps = bps (dhp_tx_bytes (samples ! i)) (covered t samples i)\<rparr>"

lemma sequence_map_Some: "(\<And>x. x \<in> set xs \<Longrightarrow> f x = Some (g x)) \<Longrightarrow> sequence (map f xs) = Some (map g xs)"
  by (induction xs) simp_all

lemma covered_pos: "1 \<le> covered t samples i"
  by (simp add: covered_def)

lemma gap_covered:
  assumes "\<And>x. x \<in> set samples \<Longrightarrow> parse (stamp x) = Fin (t x)" and "i < length samples"
  shows "gapSec (map (parse \<circ> stamp) samples ! i) (prev_ts (map (parse \<circ> stamp) samples) i) = Fin (covered t samples i)"
  using assms by (auto simp: prev_ts_def covered_def Math_round_def less_imp_diff_less)

lemma device_points_spec:
  assumes "\<And>x. x \<in> set samples \<Longrightarrow> parse (dhp_sampled_at x) = Fin (t x)"
  shows "sequence (map device_point (toDevicePoints parse samples)) = Some (map (point_at t samples) [0..<length samples])"
  unfolding toDevicePoints_def map_map
  by (rule sequence_map_Some)
    (use assms gap_covered [of samples parse dhp_sampled_at t, OF assms] in \<open>auto simp: device_point_def point_at_def bps_def Let_def\<close>)

lemma bps_close:
  assumes "0 < g"
  shows "\<bar>bps b g * g - 8 * b\<bar> \<le> g / 2"
proof -
  have "\<bar>bps b g - b / g * 8\<bar> \<le> 1 / 2" unfolding bps_def Math_round_def by linarith
  then have "\<bar>(bps b g - b / g * 8) * g\<bar> \<le> 1 / 2 * g" unfolding abs_mult using assms by (intro mult_mono) simp_all
  moreover have "(bps b g - b / g * 8) * g = bps b g * g - 8 * b" using assms by (simp add: algebra_simps)
  ultimately show ?thesis by simp
qed

lemma bps_whole: "bps (of_int b) 1 = 8 * of_int b"
  using Math_round_of_int [of "8 * b"] by (simp add: bps_def mult.commute)

text \<open>
  history becomes rates that account for every byte: when the sampled times parse, the hook yields one point per
  sample, in order and at its time, and the rate of a sample times the whole seconds since the previous
  one (at least one) gives back the sampled bits up to half a bit per second; samples taken a second
  apart give exactly eight times their bytes.
\<close>

theorem history_rates_account_for_bytes:
  assumes "\<And>x. x \<in> set samples \<Longrightarrow> parse (dhp_sampled_at x) = Fin (t x)"
  shows "\<exists>pts. sequence (map device_point (toDevicePoints parse samples)) = Some pts \<and>
    map hp_ts pts = map t samples \<and>
    (\<forall>i<length samples. let g = covered t samples i in
       \<bar>hp_rxBps (pts ! i) * g - 8 * dhp_rx_bytes (samples ! i)\<bar> \<le> g / 2 \<and>
       \<bar>hp_txBps (pts ! i) * g - 8 * dhp_tx_bytes (samples ! i)\<bar> \<le> g / 2 \<and>
       (\<forall>b. g = 1 \<and> dhp_rx_bytes (samples ! i) = of_int b \<longrightarrow> hp_rxBps (pts ! i) = 8 * of_int b))"
proof (intro exI conjI)
  show "sequence (map device_point (toDevicePoints parse samples)) = Some (map (point_at t samples) [0..<length samples])"
    by (rule device_points_spec) (rule assms)
  show "map hp_ts (map (point_at t samples) [0..<length samples]) = map t samples"
    by (rule nth_equalityI) (simp_all add: point_at_def)
  show "\<forall>i<length samples. let g = covered t samples i in
       \<bar>hp_rxBps (map (point_at t samples) [0..<length samples] ! i) * g - 8 * dhp_rx_bytes (samples ! i)\<bar> \<le> g / 2 \<and>
       \<bar>hp_txBps (map (point_at t samples) [0..<length samples] ! i) * g - 8 * dhp_tx_bytes (samples ! i)\<bar> \<le> g / 2 \<and>
       (\<forall>b. g = 1 \<and> dhp_rx_bytes (samples ! i) = of_int b \<longrightarrow>
          hp_rxBps (map (point_at t samples) [0..<length samples] ! i) = 8 * of_int b)"
    using bps_close covered_pos [of t samples] by (auto simp: point_at_def Let_def bps_whole less_le_trans [OF zero_less_one])
qed

definition sample_history :: "DeviceHistoryPoint list" where
  "sample_history =
     [\<lparr>dhp_sampled_at = iso_of_time 0, dhp_rx_bytes = 100, dhp_tx_bytes = 7\<rparr>,
      \<lparr>dhp_sampled_at = iso_of_time 3000, dhp_rx_bytes = 100, dhp_tx_bytes = 0\<rparr>]"

definition parse_iso :: "string \<Rightarrow> jsnum" where
  "parse_iso s = (case iso_read s of None \<Rightarrow> NaN | Some n \<Rightarrow> Fin (of_int n))"

lemma parse_iso_of_time: "0 \<le> year (fields_of n) \<Longrightarrow> year (fields_of n) \<le> 9999 \<Longrightarrow> parse_iso (iso_of_time n) = Fin (of_int n)"
  by (simp add: parse_iso_def iso_read_of_time)

theorem history_rates_account_for_bytes_witness:
  "\<exists>pts. sequence (map device_point (toDevicePoints parse_iso sample_history)) = Some pts \<and>
     map hp_ts pts = [0, 3000] \<and> hp_rxBps (pts ! 0) = 800 \<and> \<bar>hp_rxBps (pts ! 1) * 3 - 800\<bar> \<le> 3 / 2"
proof -
  define t where "t x = (if x = sample_history ! 0 then 0 else 3000 :: number)" for x
  have "fields_of 0 = \<lparr>year = 1970, month = 0, date = 1, hours = 0, minutes = 0, seconds = 0, ms = 0\<rparr>"
    "fields_of 3000 = \<lparr>year = 1970, month = 0, date = 1, hours = 0, minutes = 0, seconds = 3, ms = 0\<rparr>"
    by code_simp+
  then have "parse_iso (dhp_sampled_at x) = Fin (t x)" if "x \<in> set sample_history" for x
    using that by (auto simp: sample_history_def t_def parse_iso_of_time)
  note main = history_rates_account_for_bytes [of sample_history parse_iso t, OF this]
  have c: "covered t sample_history 0 = 1" "covered t sample_history 1 = 3"
    by (simp_all add: covered_def t_def sample_history_def Math_round_def)
  have r: "dhp_rx_bytes (sample_history ! 0) = of_int 100" "dhp_rx_bytes (sample_history ! Suc 0) = 100" "length sample_history = 2"
    "map t sample_history = [0, 3000]"
    by (simp_all add: sample_history_def t_def)
  show ?thesis
    using main c r by (auto simp: Let_def less_2_cases_iff all_conj_distrib)
qed

lemma hydrateDevice_other: "j \<noteq> i \<Longrightarrow> map_of (devices (hydrateDevice i points s)) j = map_of (devices s) j"
  by (simp add: hydrateDevice_def Let_def update_conv')

lemma hydrateDevice_servers: "servers (hydrateDevice i points s) = servers s"
  by (simp add: hydrateDevice_def Let_def)

lemma hydrateDevice_fresh:
  assumes "map_of (devices s) i = None" and "length points \<le> HISTORY_CAP"
  shows "\<exists>d. map_of (devices (hydrateDevice i points s)) i = Some d \<and>
    dl_rxHistory d = map hp_rxBps points \<and> dl_txHistory d = map hp_txBps points"
  using assms by (simp add: hydrateDevice_def Let_def update_conv' hydrate_slot_def empty_device_def slice_last_def)

definition landed_parse :: "(string \<Rightarrow> jsnum) \<Rightarrow> (DeviceHistoryPoint \<Rightarrow> number) \<Rightarrow> (string \<times> DeviceHistoryResponse option) list \<Rightarrow> bool" where
  "landed_parse parse t qs \<longleftrightarrow>
     list_all (\<lambda>(i, r). pred_option (\<lambda>data. list_all (\<lambda>x. parse (dhp_sampled_at x) = Fin (t x)) (dhr_samples data)) r) qs"

lemma hydrate_devices_step:
  assumes "landed_parse parse t ((i, Some data) # qs)"
  shows "hydrate_devices parse ((i, Some data) # qs) s =
    hydrate_devices parse qs (hydrateDevice i (map (point_at t (dhr_samples data)) [0..<length (dhr_samples data)]) s)"
  using assms device_points_spec [of "dhr_samples data" parse t] by (auto simp: landed_parse_def list_all_iff)

lemma hydrate_devices_frame:
  "landed_parse parse t qs \<Longrightarrow> live_wf s \<Longrightarrow>
   \<exists>s'. hydrate_devices parse qs s = Some s' \<and> live_wf s' \<and> servers s' = servers s \<and>
     (\<forall>j. j \<notin> fst ` set qs \<longrightarrow> map_of (devices s') j = map_of (devices s) j)"
proof (induction qs arbitrary: s)
  case (Cons q qs)
  have rest: "landed_parse parse t qs" using Cons.prems by (simp add: landed_parse_def)
  obtain i r where q: "q = (i, r)" by (cases q)
  show ?case
  proof (cases r)
    case None
    then show ?thesis using Cons.IH [OF rest Cons.prems(2)] q by auto
  next
    case (Some data)
    let ?s = "hydrateDevice i (map (point_at t (dhr_samples data)) [0..<length (dhr_samples data)]) s"
    have "hydrate_devices parse (q # qs) s = hydrate_devices parse qs ?s"
      using hydrate_devices_step [of parse t i data qs s] Cons.prems(1) unfolding q Some .
    then show ?thesis
      using Cons.IH [OF rest live_wf_hydrateDevice [OF Cons.prems(2)], of i] q
      by (fastforce simp: hydrateDevice_other hydrateDevice_servers)
  qed
qed simp

lemma hydrated_slot:
  assumes "live_wf s" and "distinct (map fst qs)" and "landed_parse parse t qs"
    and "(i, Some data) \<in> set qs" and "map_of (devices s) i = None" and "hydrate_devices parse qs s = Some s'"
    and "length (dhr_samples data) \<le> HISTORY_CAP"
  shows "\<exists>d. map_of (devices s') i = Some d \<and>
      dl_rxHistory d = map hp_rxBps (map (point_at t (dhr_samples data)) [0..<length (dhr_samples data)]) \<and>
      dl_txHistory d = map hp_txBps (map (point_at t (dhr_samples data)) [0..<length (dhr_samples data)])"
using assms(1-6)
proof (induction qs arbitrary: s)
  case (Cons q qs)
  have rest: "landed_parse parse t qs" using Cons.prems(3) by (simp add: landed_parse_def)
  obtain j r where q: "q = (j, r)" by (cases q)
  show ?case
  proof (cases r)
    case None
    then show ?thesis using Cons.IH [of s] Cons.prems rest q by auto
  next
    case (Some data')
    let ?pts = "map (point_at t (dhr_samples data')) [0..<length (dhr_samples data')]"
    have run: "hydrate_devices parse qs (hydrateDevice j ?pts s) = Some s'"
      using hydrate_devices_step [of parse t j data' qs s] Cons.prems(3,6) unfolding q Some by simp
    have wf: "live_wf (hydrateDevice j ?pts s)" by (rule live_wf_hydrateDevice [OF Cons.prems(1)])
    show ?thesis
    proof (cases "(i, Some data) = q")
      case True
      then have "i = j" "data = data'" "i \<notin> fst ` set qs" using q Some Cons.prems(2) by auto
      then show ?thesis
        using hydrate_devices_frame [OF rest wf] run hydrateDevice_fresh [of s i ?pts] Cons.prems(5) assms(7) by auto
    next
      case False
      then have mem: "(i, Some data) \<in> set qs" using Cons.prems(4) by auto
      then have "i \<noteq> j" using Cons.prems(2) q by force
      then show ?thesis using Cons.IH [OF wf _ rest mem _ run] Cons.prems(2,5) by (simp add: hydrateDevice_other)
    qed
  qed
qed simp

text \<open>
  landed histories seed the charts: when the times parse and the identifiers are distinct, running the effect
  ends in a well-formed store in which a device not yet seen live, with at most 1800 samples, shows exactly
  the rates of its samples in order, while devices without a query and every server are untouched.
\<close>

theorem landed_histories_seed_charts:
  assumes "live_wf s" and "distinct (map fst qs)" and "landed_parse parse t qs"
    and "(i, Some data) \<in> set qs" and "map_of (devices s) i = None" and "length (dhr_samples data) \<le> HISTORY_CAP"
  shows "\<exists>s'. hydrate_devices parse qs s = Some s' \<and> live_wf s' \<and> servers s' = servers s \<and>
    (\<forall>j. j \<notin> fst ` set qs \<longrightarrow> map_of (devices s') j = map_of (devices s) j) \<and>
    (\<exists>d. map_of (devices s') i = Some d \<and>
       dl_rxHistory d = map (\<lambda>k. bps (dhp_rx_bytes (dhr_samples data ! k)) (covered t (dhr_samples data) k)) [0..<length (dhr_samples data)] \<and>
       dl_txHistory d = map (\<lambda>k. bps (dhp_tx_bytes (dhr_samples data ! k)) (covered t (dhr_samples data) k)) [0..<length (dhr_samples data)])"
proof -
  obtain s' where s': "hydrate_devices parse qs s = Some s'" "live_wf s'" "servers s' = servers s"
    "\<forall>j. j \<notin> fst ` set qs \<longrightarrow> map_of (devices s') j = map_of (devices s) j"
    using hydrate_devices_frame [OF assms(3,1)] by blast
  have "\<exists>d. map_of (devices s') i = Some d \<and>
      dl_rxHistory d = map hp_rxBps (map (point_at t (dhr_samples data)) [0..<length (dhr_samples data)]) \<and>
      dl_txHistory d = map hp_txBps (map (point_at t (dhr_samples data)) [0..<length (dhr_samples data)])"
    by (rule hydrated_slot [OF assms(1-5) s'(1) assms(6)])
  then show ?thesis using s' by (auto simp: point_at_def o_def)
qed


theorem landed_histories_seed_charts_witness:
  "\<exists>s'. hydrate_devices parse_iso
       [(''a'', None), (''b'', Some \<lparr>dhr_device_id = ''b'', dhr_from = [], dhr_to = [], dhr_samples = take 1 sample_history\<rparr>)]
       init_state = Some s' \<and>
     (\<exists>d. map_of (devices s') ''b'' = Some d \<and> dl_rxHistory d = [800])"
proof -
  have "fields_of 0 = \<lparr>year = 1970, month = 0, date = 1, hours = 0, minutes = 0, seconds = 0, ms = 0\<rparr>" by code_simp
  then show ?thesis
    using landed_histories_seed_charts [OF live_wf_init,
        of "[(''a'', None), (''b'', Some \<lparr>dhr_device_id = ''b'', dhr_from = [], dhr_to = [], dhr_samples = take 1 sample_history\<rparr>)]"
          parse_iso "\<lambda>_. 0" "''b''" "\<lparr>dhr_device_id = ''b'', dhr_from = [], dhr_to = [], dhr_samples = take 1 sample_history\<rparr>"]
      bps_whole [of 100]
    by (auto simp: landed_parse_def sample_history_def parse_iso_of_time init_state_def covered_def HISTORY_CAP_def)
qed

end
