(* ===== verification/Js_Sort.thy ===== *)
theory Js_Sort
  imports Js_Date "HOL-Library.Multiset"
begin

text \<open>
  \<open>Array.prototype.sort\<close> with a comparison function, as the stable sort the language prescribes, the order of strings
  by code units, and the fact that on timestamps of the form \<open>toISOString\<close> prints that order is the
  order in time.  The interface \<open>comparison\<close> is what a comparison function owes the sort.
\<close>

section \<open>Sorting\<close>

fun sort_insert :: "('a \<Rightarrow> 'a \<Rightarrow> int) \<Rightarrow> 'a \<Rightarrow> 'a list \<Rightarrow> 'a list" where
  "sort_insert cmp x [] = [x]"
| "sort_insert cmp x (y # ys) = (if cmp x y \<le> 0 then x # y # ys else y # sort_insert cmp x ys)"

definition Array_sort :: "('a \<Rightarrow> 'a \<Rightarrow> int) \<Rightarrow> 'a list \<Rightarrow> 'a list" where
  "Array_sort cmp xs = foldr (sort_insert cmp) xs []"

lemma mset_sort_insert [simp]: "mset (sort_insert cmp x ys) = add_mset x (mset ys)"
  by (induction ys) auto

lemma mset_Array_sort [simp]: "mset (Array_sort cmp xs) = mset xs"
  by (induction xs) (simp_all add: Array_sort_def)

lemma set_Array_sort [simp]: "set (Array_sort cmp xs) = set xs"
  by (metis mset_Array_sort set_mset_mset)

lemma length_Array_sort [simp]: "length (Array_sort cmp xs) = length xs"
  by (metis mset_Array_sort size_mset)

locale comparison =
  fixes cmp :: "'a \<Rightarrow> 'a \<Rightarrow> int"
  assumes cmp_swap: "cmp x y < 0 \<longleftrightarrow> 0 < cmp y x"
    and cmp_trans: "cmp x y \<le> 0 \<Longrightarrow> cmp y z \<le> 0 \<Longrightarrow> cmp x z \<le> 0"
begin

lemma cmp_total: "cmp x y \<le> 0 \<or> cmp y x \<le> 0"
  using cmp_swap [of x y] by linarith

lemma cmp_zero_sym: "cmp x y = 0 \<longleftrightarrow> cmp y x = 0"
  using cmp_swap [of x y] cmp_swap [of y x] by linarith

lemma sorted_insert: "sorted_wrt (\<lambda>a b. cmp a b \<le> 0) ys \<Longrightarrow> sorted_wrt (\<lambda>a b. cmp a b \<le> 0) (sort_insert cmp x ys)"
proof (induction ys)
  case (Cons y ys)
  have "set (sort_insert cmp x ys) = insert x (set ys)" by (metis mset_sort_insert set_mset_add_mset_insert set_mset_mset)
  with Cons show ?case
    using cmp_trans [of x y] cmp_total [of x y] by (auto simp: ball_Un)
qed simp

lemma sorted: "sorted_wrt (\<lambda>a b. cmp a b \<le> 0) (Array_sort cmp xs)"
  by (induction xs) (simp_all add: Array_sort_def sorted_insert)

lemma insert_filter:
  "filter (\<lambda>y. cmp z y = 0) (sort_insert cmp x ys) =
    (if cmp z x = 0 then x # filter (\<lambda>y. cmp z y = 0) ys else filter (\<lambda>y. cmp z y = 0) ys)"
proof (induction ys)
  case (Cons y ys)
  have "cmp x y \<le> 0" if "cmp z x = 0" "cmp z y = 0"
    using that cmp_trans [of x z y] cmp_zero_sym [of z x] by simp
  then show ?case using Cons by auto
qed simp

lemma stable: "filter (\<lambda>y. cmp z y = 0) (Array_sort cmp xs) = filter (\<lambda>y. cmp z y = 0) xs"
  by (induction xs) (simp_all add: Array_sort_def insert_filter)

end

section \<open>Strings by code unit\<close>

fun str_less :: "string \<Rightarrow> string \<Rightarrow> bool" where
  "str_less s [] = False"
| "str_less [] (c # t) = True"
| "str_less (a # s) (c # t) = ((of_char a :: nat) < of_char c \<or> a = c \<and> str_less s t)"

lemma str_less_irrefl [simp]: "\<not> str_less s s"
  by (induction s) simp_all

lemma str_less_trans: "str_less s t \<Longrightarrow> str_less t u \<Longrightarrow> str_less s u"
proof (induction s t arbitrary: u rule: str_less.induct)
  case (2 c t)
  then show ?case by (cases u) simp_all
next
  case (3 a s c t)
  then show ?case by (cases u) auto
qed simp

lemma str_less_total: "str_less s t \<or> s = t \<or> str_less t s"
proof (induction s t rule: str_less.induct)
  case (1 s)
  then show ?case by (cases s) simp_all
next
  case (3 a s c t)
  then show ?case
    using linorder_less_linear [of "of_char a :: nat" "of_char c"] by auto
qed simp

lemma str_less_asym: "str_less s t \<Longrightarrow> \<not> str_less t s"
  using str_less_trans [of s t s] by auto

lemma str_less_append: "length s = length t \<Longrightarrow> str_less (s @ s') (t @ t') \<longleftrightarrow> str_less s t \<or> s = t \<and> str_less s' t'"
  by (induction s t rule: list_induct2) auto

lemma str_less_Cons_same [simp]: "str_less (c # s) (c # t) \<longleftrightarrow> str_less s t"
  by simp

text \<open>Digit strings of one length are ordered as their values.\<close>

lemma dec_val_Cons: "dec_val (c # s) = digit_val c * 10 ^ length s + dec_val s"
  using dec_val_append [of "[c]" s] by (simp add: dec_val_def)

lemma digit_order:
  assumes "is_digit a" and "is_digit c"
  shows "(of_char a :: nat) < of_char c \<longleftrightarrow> digit_val a < digit_val c"
  using assms by (auto simp: is_digit_def digit_val_def)

lemma str_less_digits:
  "length s = length t \<Longrightarrow> list_all is_digit s \<Longrightarrow> list_all is_digit t \<Longrightarrow> str_less s t \<longleftrightarrow> dec_val s < dec_val t"
proof (induction s t rule: list_induct2)
  case (Cons a s c t)
  have bound: "dec_val s < 10 ^ length t" "dec_val t < 10 ^ length t"
    using Cons.prems dec_val_less [of s] dec_val_less [of t] Cons.hyps by simp_all
  have step: "m * 10 ^ length t + dec_val u < n * 10 ^ length t + dec_val v"
    if "m < n" "dec_val u < 10 ^ length t" for m n :: nat and u v
  proof -
    have "Suc m * 10 ^ length t \<le> n * 10 ^ length t" using that(1) by (intro mult_le_mono1) simp
    then show ?thesis using that(2) by simp
  qed
  have "digit_char (digit_val a) = a" "digit_char (digit_val c) = c" using Cons.prems digit_char_val by simp_all
  then consider (lt) "digit_val a < digit_val c" | (eq) "a = c" | (gt) "digit_val c < digit_val a"
    by (metis linorder_less_linear)
  then show ?case
  proof cases
    case lt
    then show ?thesis
      using step [OF lt bound(1), of t] Cons.prems Cons.hyps digit_order [of a c] by (simp add: dec_val_Cons)
  next
    case eq
    then show ?thesis using Cons by (simp add: dec_val_Cons)
  next
    case gt
    then show ?thesis
      using step [OF gt bound(2), of s] Cons.prems Cons.hyps digit_order [of a c] by (auto simp: dec_val_Cons)
  qed
qed simp

lemma str_less_pad0:
  assumes "m < 10 ^ k" "n < 10 ^ k" "0 < k"
  shows "str_less (pad0 k m @ s) (pad0 k n @ t) \<longleftrightarrow> m < n \<or> m = n \<and> str_less s t"
  using assms by (simp add: str_less_append length_pad0 str_less_digits)

section \<open>Timestamps\<close>

text \<open>The order of the fields of two times, most significant first.\<close>

fun lex_less :: "int list \<Rightarrow> int list \<Rightarrow> bool" where
  "lex_less (x # xs) (y # ys) = (x < y \<or> x = y \<and> lex_less xs ys)"
| "lex_less _ _ = False"

definition field_list :: "date_fields \<Rightarrow> int list" where
  "field_list f = [year f, month f, date f, hours f, minutes f, seconds f, ms f]"

lemma year_of_day_mono: "d \<le> e \<Longrightarrow> year_of_day d \<le> year_of_day e"
proof (rule ccontr)
  assume "d \<le> e" "\<not> year_of_day d \<le> year_of_day e"
  then show False
    using year_of_day_spec [of d] year_of_day_spec [of e] day_from_year_diff(1) [of "year_of_day e + 1" "year_of_day d"]
    by simp
qed

lemma length_takeWhile_mono: "(\<And>x. P x \<Longrightarrow> Q x) \<Longrightarrow> length (takeWhile P xs) \<le> length (takeWhile Q xs)"
  by (induction xs) auto

lemma month_of_yday_mono: "m \<le> n \<Longrightarrow> month_of_yday leap m \<le> month_of_yday leap n"
  unfolding month_of_yday_def by (rule length_takeWhile_mono) simp

lemma fields_later_day:
  assumes "t div msPerDay < u div msPerDay"
  shows "lex_less (field_list (fields_of t)) (field_list (fields_of u))"
proof -
  define d e where "d = t div msPerDay" and "e = u div msPerDay"
  have years: "year (fields_of t) = year_of_day d" "year (fields_of u) = year_of_day e"
    by (simp_all add: d_def e_def fields_of_def Let_def)
  have "year_of_day d \<le> year_of_day e" using assms by (intro year_of_day_mono) (simp add: d_def e_def)
  then consider "year_of_day d < year_of_day e" | (same) "year_of_day d = year_of_day e" by linarith
  then show ?thesis
  proof cases
    case same
    define y where "y = year_of_day e"
    define m n where "m = month_of_yday (is_leap y) (d - day_from_year y)" and "n = month_of_yday (is_leap y) (e - day_from_year y)"
    have "m \<le> n" unfolding m_def n_def using assms by (intro month_of_yday_mono) (simp add: d_def e_def)
    moreover have "month (fields_of t) = int m" "month (fields_of u) = int n"
      "date (fields_of t) = d - day_from_year y - month_starts (is_leap y) ! m + 1"
      "date (fields_of u) = e - day_from_year y - month_starts (is_leap y) ! n + 1"
      using same by (simp_all add: fields_of_def Let_def m_def n_def y_def d_def e_def)
    moreover have "d < e" using assms by (simp add: d_def e_def)
    ultimately show ?thesis using same years by (cases "m = n") (simp_all add: field_list_def)
  qed (simp add: field_list_def years)
qed

lemma clock_later:
  fixes h h' mi mi' s s' ms ms' :: int
  assumes "h * 3600000 + mi * 60000 + s * 1000 + ms < h' * 3600000 + mi' * 60000 + s' * 1000 + ms'"
    and "0 \<le> mi" "mi \<le> 59" "0 \<le> s" "s \<le> 59" "0 \<le> ms" "ms \<le> 999"
    and "0 \<le> mi'" "mi' \<le> 59" "0 \<le> s'" "s' \<le> 59" "0 \<le> ms'" "ms' \<le> 999"
  shows "lex_less [h, mi, s, ms] [h', mi', s', ms']"
  using assms by simp linarith

lemma fields_later:
  assumes "t < u"
  shows "lex_less (field_list (fields_of t)) (field_list (fields_of u))"
proof (cases "t div msPerDay = u div msPerDay")
  case False
  moreover have "t div msPerDay \<le> u div msPerDay" using assms by (simp add: zdiv_mono1 msPerDay_def)
  ultimately show ?thesis by (intro fields_later_day) simp
next
  case True
  let ?f = "fields_of t" and ?g = "fields_of u"
  have day: "year ?f = year ?g" "month ?f = month ?g" "date ?f = date ?g" using True by (simp_all add: fields_of_def Let_def)
  have "time_of_fields ?f < time_of_fields ?g" using assms by simp
  then have "lex_less [hours ?f, minutes ?f, seconds ?f, ms ?f] [hours ?g, minutes ?g, seconds ?g, ms ?g]"
    using fields_of_bounds [of t] fields_of_bounds [of u] day by (intro clock_later) (simp_all add: time_of_fields_def)
  then show ?thesis using day by (simp add: field_list_def)
qed

text \<open>Timestamps of four-digit years are ordered as strings exactly as they are in time.\<close>

lemma iso_less_forward:
  assumes "0 \<le> year (fields_of t)" "year (fields_of t) \<le> 9999" "0 \<le> year (fields_of u)" "year (fields_of u) \<le> 9999" "t < u"
  shows "str_less (iso_of_time t) (iso_of_time u)"
proof -
  have num: "nat i < nat j \<longleftrightarrow> i < j" "nat i = nat j \<longleftrightarrow> i = j" if "0 \<le> i" "0 \<le> j" for i j :: int
    using that by auto
  note b = fields_of_bounds [of t] fields_of_bounds [of u]
  have "nat (year (fields_of t)) < 10 ^ 4" "nat (year (fields_of u)) < 10 ^ 4"
    "nat (month (fields_of t) + 1) < 10 ^ 2" "nat (month (fields_of u) + 1) < 10 ^ 2"
    "nat (date (fields_of t)) < 10 ^ 2" "nat (date (fields_of u)) < 10 ^ 2"
    "nat (hours (fields_of t)) < 10 ^ 2" "nat (hours (fields_of u)) < 10 ^ 2"
    "nat (minutes (fields_of t)) < 10 ^ 2" "nat (minutes (fields_of u)) < 10 ^ 2"
    "nat (seconds (fields_of t)) < 10 ^ 2" "nat (seconds (fields_of u)) < 10 ^ 2"
    "nat (ms (fields_of t)) < 10 ^ 3" "nat (ms (fields_of u)) < 10 ^ 3"
    using assms(1-4) b by (simp_all add: nat_less_iff)
  note small = this
  have pads: "str_less (pad0 k (nat i) @ s) (pad0 k (nat j) @ s') \<longleftrightarrow> i < j \<or> i = j \<and> str_less s s'"
    if "0 \<le> i" "0 \<le> j" "nat i < 10 ^ k" "nat j < 10 ^ k" "0 < k" for k i j s s'
    using that by (simp only: str_less_pad0 num)
  have nn: "0 \<le> month (fields_of t) + 1" "0 \<le> month (fields_of u) + 1" "0 \<le> date (fields_of t)" "0 \<le> date (fields_of u)"
    "0 \<le> hours (fields_of t)" "0 \<le> hours (fields_of u)" "0 \<le> minutes (fields_of t)" "0 \<le> minutes (fields_of u)"
    "0 \<le> seconds (fields_of t)" "0 \<le> seconds (fields_of u)" "0 \<le> ms (fields_of t)" "0 \<le> ms (fields_of u)"
    using b by simp_all
  show ?thesis
    using fields_later [OF assms(5)] assms(1-4)
    by (simp add: iso_of_time_def iso_year_def Let_def field_list_def pads [OF assms(1,3) small(1,2)] pads [OF nn(1,2) small(3,4)]
        pads [OF nn(3,4) small(5,6)] pads [OF nn(5,6) small(7,8)] pads [OF nn(7,8) small(9,10)]
        pads [OF nn(9,10) small(11,12)] pads [OF nn(11,12) small(13,14)]
        add1_zle_eq)
qed

lemma iso_less_iff:
  assumes "0 \<le> year (fields_of t)" "year (fields_of t) \<le> 9999" "0 \<le> year (fields_of u)" "year (fields_of u) \<le> 9999"
  shows "str_less (iso_of_time t) (iso_of_time u) \<longleftrightarrow> t < u"
proof (cases t u rule: linorder_cases)
  case less
  then show ?thesis using iso_less_forward [OF assms] by blast
next
  case greater
  then have "str_less (iso_of_time u) (iso_of_time t)" using assms by (intro iso_less_forward)
  from str_less_asym [OF this] greater show ?thesis by simp
qed simp

end
