(* ===== verification/Status_Pill.thy ===== *)
theory Status_Pill
  imports Prelude
begin

text \<open>
  The status pill of src/web/src/components/StatusPill.tsx: the statuses, the tone, the label and the dot
  colour of each, and what the component renders.
\<close>

datatype Status = Pill_online | Pill_active | Pill_degraded | Pill_offline | Pill_paused | Pill_revoked | Pill_pending

datatype PillTone = Tone_ok | Tone_warn | Tone_err | Tone_info | Tone_paused | Tone_neutral

fun TONE :: "Status \<Rightarrow> PillTone" where
  "TONE Pill_online = Tone_ok"
| "TONE Pill_active = Tone_ok"
| "TONE Pill_degraded = Tone_warn"
| "TONE Pill_offline = Tone_paused"
| "TONE Pill_paused = Tone_paused"
| "TONE Pill_revoked = Tone_err"
| "TONE Pill_pending = Tone_warn"

fun LABEL :: "Status \<Rightarrow> string" where
  "LABEL Pill_online = ''Live''"
| "LABEL Pill_active = ''Live''"
| "LABEL Pill_degraded = ''Degraded''"
| "LABEL Pill_offline = ''Offline''"
| "LABEL Pill_paused = ''Paused''"
| "LABEL Pill_revoked = ''Revoked''"
| "LABEL Pill_pending = ''Pending''"

fun DOT_BG :: "Status \<Rightarrow> string" where
  "DOT_BG Pill_online = ''bg-status-online''"
| "DOT_BG Pill_active = ''bg-status-online''"
| "DOT_BG Pill_degraded = ''bg-status-degraded''"
| "DOT_BG Pill_offline = ''bg-status-offline''"
| "DOT_BG Pill_paused = ''bg-status-paused''"
| "DOT_BG Pill_revoked = ''bg-status-revoked''"
| "DOT_BG Pill_pending = ''bg-status-degraded''"

datatype pill_view = Dot_view (dot_class: string) (dot_label: string) | Tone_view PillTone string

text \<open>\<open>StatusPill\<close>: a dot with an accessible label, or a toned pill with a visible one.\<close>

definition StatusPill :: "Status \<Rightarrow> string option \<Rightarrow> bool \<Rightarrow> pill_view" where
  "StatusPill status label dotOnly =
     (let l = (case label of Some s \<Rightarrow> s | None \<Rightarrow> LABEL status) in
      if dotOnly then Dot_view (DOT_BG status) l else Tone_view (TONE status) l)"

text \<open>Statuses with the same label also look the same.\<close>

lemma pill_label_determines_tone: "LABEL s = LABEL t \<Longrightarrow> TONE s = TONE t"
  by (cases s; cases t) simp_all

lemma pill_label_determines_dot: "LABEL s = LABEL t \<Longrightarrow> DOT_BG s = DOT_BG t"
  by (cases s; cases t) simp_all

end
