(* ===== verification/Timeline.thy ===== *)
theory Timeline
  imports Js_Sort Page_Effect Status_Pill Units Datetime
begin

text \<open>
  The activity timeline of the user page, src/web/src/pages/admin/UserDetail.tsx: three feeds (audit entries, session
  events and connection sessions) merged newest first, the text of each row, and the two duration
  formatters of that page.  \<open>new Date(s).getTime()\<close> is an argument \<open>parse\<close> whose value may be NaN.
\<close>

section \<open>Items\<close>

datatype TimelineItem =
    T_audit (ti_id: number) (ti_ts: string) (ti_action: string) (ti_metadata: json) (ti_ip: "string option")
      (ti_user_agent: "string option") (ti_target_type: "string option") (ti_target_id: "string option")
  | T_session (ti_id: number) (ti_ts: string) (ti_event: string) (ti_ip: "string option")
      (ti_user_agent: "string option") (ti_metadata: json)
  | T_connection (ti_id: number) (ti_ts: string) (ti_device_id: string) (ti_started_at: string)
      (ti_ended_at: "string option") (ti_endpoint_start: "string option") (ti_endpoint_end: "string option")
      (ti_rx: "number option") (ti_tx: "number option")

definition audit_item :: "AdminUserActivity \<Rightarrow> TimelineItem" where
  "audit_item a = T_audit (aua_id a) (aua_created_at a) (aua_action a) (aua_metadata a) (aua_ip a)
     (aua_user_agent a) (aua_target_type a) (aua_target_id a)"

definition session_item :: "SessionEventRow \<Rightarrow> TimelineItem" where
  "session_item e = T_session (ser_id e) (ser_created_at e) (SessionEventKind_str (ser_event e)) (ser_ip e)
     (ser_user_agent e) (ser_metadata e)"

definition moved :: "number \<Rightarrow> number option \<Rightarrow> number option" where
  "moved start stop = map_option (\<lambda>e. max 0 (e - start)) stop"

definition connection_item :: "ConnectionSessionRow \<Rightarrow> TimelineItem" where
  "connection_item c = T_connection (csr_id c) (csr_started_at c) (csr_device_id c) (csr_started_at c)
     (csr_ended_at c) (csr_peer_endpoint_at_start c) (csr_peer_endpoint_at_end c)
     (moved (csr_rx_bytes_at_start c) (csr_rx_bytes_at_end c))
     (moved (csr_tx_bytes_at_start c) (csr_tx_bytes_at_end c))"

definition newer_first :: "TimelineItem \<Rightarrow> TimelineItem \<Rightarrow> int" where
  "newer_first a b = (if str_less (ti_ts a) (ti_ts b) then 1 else if str_less (ti_ts b) (ti_ts a) then -1 else 0)"

definition timeline_items :: "AdminUserDetailResponse \<Rightarrow> TimelineItem list" where
  "timeline_items d = map audit_item (aur_activity d) @ map session_item (aur_session_events d) @
     map connection_item (aur_connection_sessions d)"

definition buildTimeline :: "AdminUserDetailResponse \<Rightarrow> TimelineItem list" where
  "buildTimeline d = Array_sort newer_first (timeline_items d)"

definition ACTIVITY_PREVIEW_COUNT :: nat where
  "ACTIVITY_PREVIEW_COUNT = 10"

definition timeline_of :: "AdminUserDetailResponse option \<Rightarrow> TimelineItem list" where
  "timeline_of data = (case data of None \<Rightarrow> [] | Some d \<Rightarrow> buildTimeline d)"

definition timeline_preview :: "TimelineItem list \<Rightarrow> TimelineItem list" where
  "timeline_preview timeline = take ACTIVITY_PREVIEW_COUNT timeline"

section \<open>Rows\<close>

text \<open>\<open>Object.entries\<close> of a JSON value: an object's members in the order they were read, an array's by index.\<close>

fun entries :: "json \<Rightarrow> (string \<times> json) list" where
  "entries (JObj kvs) = kvs"
| "entries (JArr xs) = zip (map nat_dec [0..<length xs]) xs"
| "entries _ = []"

text \<open>\<open>String(v)\<close> of a primitive; \<open>None\<close> for null, arrays and objects, which the summary skips.\<close>

fun primitive_text :: "json \<Rightarrow> string option" where
  "primitive_text (JBool b) = Some (if b then ''true'' else ''false'')"
| "primitive_text (JNum n) = Some (num_string n)"
| "primitive_text (JStr s) = Some s"
| "primitive_text _ = None"

definition summarizeMetadata :: "json \<Rightarrow> string" where
  "summarizeMetadata metadata =
     join_with ('' '' @ middle_dot @ '' '')
       (take 3 (List.map_filter (\<lambda>(k, v). map_option (\<lambda>t. k @ ''='' @ t) (primitive_text v)) (entries metadata)))"

definition toneForAction :: "string \<Rightarrow> PillTone" where
  "toneForAction action =
     (if startsWith action ''admin.impersonate'' then Tone_warn
      else if str_includes action ''suspend'' \<or> str_includes action ''delete'' then Tone_err
      else if str_includes action ''status'' then Tone_info
      else if str_includes action ''quota'' then Tone_info
      else if str_includes action ''role'' then Tone_info
      else if str_includes action ''password_reset'' then Tone_warn
      else if str_includes action ''2fa'' then Tone_warn
      else Tone_neutral)"

definition ip_cell :: "string option \<Rightarrow> string" where
  "ip_cell ip = (case truthy_str ip of None \<Rightarrow> em_dash | Some s \<Rightarrow> strip_host_mask s)"

definition connectionDuration :: "(string \<Rightarrow> jsnum) \<Rightarrow> string \<Rightarrow> string \<Rightarrow> string" where
  "connectionDuration parse startIso endIso =
     (case (parse endIso, parse startIso) of
        (Fin e, Fin b) \<Rightarrow>
          (let ms = e - b in
           if ms < 0 then em_dash
           else
             let s = Math_floor (ms / 1000) in
             if s < 60 then int_dec s @ ''s''
             else
               let m = s div 60 in
               if m < 60 then int_dec m @ ''m '' @ padStart 2 (CHR ''0'') (int_dec (s mod 60)) @ ''s''
               else
                 let h = m div 60 in
                 int_dec h @ ''h '' @ padStart 2 (CHR ''0'') (int_dec (m mod 60)) @ ''m'')
      | _ \<Rightarrow> em_dash)"

definition session_formatDuration :: "(string \<Rightarrow> jsnum) \<Rightarrow> string \<Rightarrow> string \<Rightarrow> string" where
  "session_formatDuration parse startIso endIso =
     (case (parse endIso, parse startIso) of
        (Fin e, Fin b) \<Rightarrow>
          (let ms = e - b in
           if ms < 0 then em_dash
           else
             let totalSec = Math_floor (ms / 1000) in
             if totalSec < 60 then int_dec totalSec @ ''s''
             else
               let totalMin = totalSec div 60 in
               if totalMin < 60
               then (let s = totalSec mod 60 in int_dec totalMin @ ''m '' @ padStart 2 (CHR ''0'') (int_dec s) @ ''s'')
               else
                 let h = totalMin div 60; m = totalMin mod 60 in
                 int_dec h @ ''h '' @ padStart 2 (CHR ''0'') (int_dec m) @ ''m'')
      | _ \<Rightarrow> em_dash)"

text \<open>The cells of a row: kind, its tone, event, address and detail.\<close>

record timeline_row =
  tr_kind :: string
  tr_tone :: PillTone
  tr_event :: string
  tr_ip :: string
  tr_detail :: string

definition target_label :: "string option \<Rightarrow> string option \<Rightarrow> string option" where
  "target_label ttype tid =
     (case truthy_str ttype of
        None \<Rightarrow> None
      | Some t \<Rightarrow> Some (t @ (case truthy_str tid of None \<Rightarrow> [] | Some i \<Rightarrow> middle_dot @ take 6 i)))"

definition endpoint_cell :: "string option \<Rightarrow> string option \<Rightarrow> string" where
  "endpoint_cell s e =
     (case truthy_str s of
        None \<Rightarrow> em_dash
      | Some a \<Rightarrow>
          a @ (case truthy_str e of
                 None \<Rightarrow> []
               | Some b \<Rightarrow> if b \<noteq> a then '' '' @ right_arrow @ '' '' @ b else []))"

fun TimelineRow :: "(string \<Rightarrow> jsnum) \<Rightarrow> (string \<Rightarrow> string option) \<Rightarrow> TimelineItem \<Rightarrow> timeline_row" where
  "TimelineRow parse names (T_audit i ts action metadata ip ua ttype tid) =
     \<lparr>tr_kind = ''audit'', tr_tone = toneForAction action, tr_event = action, tr_ip = ip_cell ip,
      tr_detail = (case target_label ttype tid of None \<Rightarrow> [] | Some l \<Rightarrow> right_arrow @ '' '' @ l) @ summarizeMetadata metadata\<rparr>"
| "TimelineRow parse names (T_session i ts event ip ua metadata) =
     \<lparr>tr_kind = ''session'', tr_tone = Tone_ok, tr_event = event, tr_ip = ip_cell ip,
      tr_detail = summarizeMetadata metadata @ (case truthy_str ua of None \<Rightarrow> [] | Some s \<Rightarrow> s)\<rparr>"
| "TimelineRow parse names (T_connection i ts dev started ended ep_start ep_end rx tx) =
     (let open = (ended = None);
          deviceName = (case names dev of Some n \<Rightarrow> n | None \<Rightarrow> take 8 dev)
      in \<lparr>tr_kind = ''connection'', tr_tone = (if open then Tone_ok else Tone_neutral),
          tr_event = deviceName @ '' '' @ middle_dot @ '' '' @
            (case ended of None \<Rightarrow> ''active'' | Some e \<Rightarrow> ''closed after '' @ connectionDuration parse started e),
          tr_ip = endpoint_cell ep_start ep_end,
          tr_detail = (case (rx, tx) of
              (Some r, Some t) \<Rightarrow> down_arrow @ '' '' @ formatBytes (Fin r) @ '' '' @ middle_dot @ '' '' @ up_arrow @ '' '' @ formatBytes (Fin t)
            | _ \<Rightarrow> if open then ''in flight'' else em_dash)\<rparr>)"

text \<open>\<open>new Map(devices.map(d => [d.id, d.name]))\<close>: of two devices with one identifier the later counts.\<close>

definition deviceNameById :: "AdminUserDevice list \<Rightarrow> string \<Rightarrow> string option" where
  "deviceNameById ds = map_of (rev (map (\<lambda>d. (adv_id d, adv_name d)) ds))"

section \<open>The merge\<close>

interpretation newer: comparison newer_first
proof unfold_locales
  show "newer_first x y < 0 \<longleftrightarrow> 0 < newer_first y x" for x y
    using str_less_asym [of "ti_ts x" "ti_ts y"] by (auto simp: newer_first_def)
  show "newer_first x y \<le> 0 \<Longrightarrow> newer_first y z \<le> 0 \<Longrightarrow> newer_first x z \<le> 0" for x y z
    using str_less_trans [of "ti_ts x" "ti_ts z" "ti_ts y"] str_less_total [of "ti_ts y" "ti_ts z"]
    by (auto simp: newer_first_def split: if_splits)
qed

lemma newer_first_zero: "newer_first x y = 0 \<longleftrightarrow> ti_ts x = ti_ts y"
  using str_less_total [of "ti_ts x" "ti_ts y"] by (auto simp: newer_first_def)

definition four_digit_year :: "int \<Rightarrow> bool" where
  "four_digit_year t \<longleftrightarrow> 0 \<le> year (fields_of t) \<and> year (fields_of t) \<le> 9999"

definition stamped :: "(TimelineItem \<Rightarrow> int) \<Rightarrow> TimelineItem list \<Rightarrow> bool" where
  "stamped t items \<longleftrightarrow> list_all (\<lambda>x. ti_ts x = iso_of_time (t x) \<and> four_digit_year (t x)) items"

text \<open>
  the timeline is the feeds merged newest first: it holds every entry of the three feeds exactly as often as they
  do, entries of one timestamp in the order audit, session, connection and within a feed as received, and,
  when the timestamps have the form \<open>toISOString\<close> prints, each entry is at least as recent as those below
  it, although the code compares the timestamps as strings.
\<close>

theorem timeline_newest_first:
  assumes "stamped t (timeline_items d)"
  shows "mset (buildTimeline d) = mset (map audit_item (aur_activity d)) + mset (map session_item (aur_session_events d)) +
      mset (map connection_item (aur_connection_sessions d)) \<and>
    sorted_wrt (\<lambda>a b. t b \<le> t a) (buildTimeline d) \<and>
    (\<forall>ts. filter (\<lambda>x. ti_ts x = ts) (buildTimeline d) = filter (\<lambda>x. ti_ts x = ts) (timeline_items d))"
proof (intro conjI allI)
  show "mset (buildTimeline d) = mset (map audit_item (aur_activity d)) + mset (map session_item (aur_session_events d)) +
      mset (map connection_item (aur_connection_sessions d))"
    by (simp add: buildTimeline_def timeline_items_def)
  have "set (buildTimeline d) = set (timeline_items d)" by (simp add: buildTimeline_def)
  then have ts: "ti_ts x = iso_of_time (t x)" "four_digit_year (t x)" if "x \<in> set (buildTimeline d)" for x
    using assms that by (auto simp: stamped_def list_all_iff)
  show "sorted_wrt (\<lambda>a b. t b \<le> t a) (buildTimeline d)"
  proof (rule sorted_wrt_mono_rel [OF _ newer.sorted [of "timeline_items d", folded buildTimeline_def]])
    fix a b
    assume ab: "a \<in> set (buildTimeline d)" "b \<in> set (buildTimeline d)" and "newer_first a b \<le> 0"
    then have "\<not> str_less (ti_ts a) (ti_ts b)" by (auto simp: newer_first_def split: if_splits)
    then show "t b \<le> t a"
      using ts [OF ab(1)] ts [OF ab(2)] by (simp add: iso_less_iff four_digit_year_def)
  qed
  show "filter (\<lambda>x. ti_ts x = ts) (buildTimeline d) = filter (\<lambda>x. ti_ts x = ts) (timeline_items d)" for ts
  proof -
    have "(newer_first (T_audit 0 ts [] JNull None None None None) x = 0) = (ti_ts x = ts)" for x
      by (auto simp: newer_first_zero)
    then show ?thesis
      using newer.stable [of "T_audit 0 ts [] JNull None None None None" "timeline_items d"] by (simp add: buildTimeline_def)
  qed
qed

definition sample_detail :: AdminUserDetailResponse where
  "sample_detail = \<lparr>aur_user = undefined, aur_devices = [],
     aur_activity = [\<lparr>aua_id = 1, aua_action = ''user.login'', aua_metadata = JNull, aua_ip = None, aua_user_agent = None,
       aua_target_type = None, aua_target_id = None, aua_created_at = iso_of_time 0\<rparr>],
     aur_session_events = [],
     aur_connection_sessions = [\<lparr>csr_id = 7, csr_device_id = ''d'', csr_user_id = ''u'', csr_started_at = iso_of_time 1000,
       csr_ended_at = None, csr_peer_endpoint_at_start = None, csr_peer_endpoint_at_end = None, csr_rx_bytes_at_start = 5,
       csr_tx_bytes_at_start = 0, csr_rx_bytes_at_end = None, csr_tx_bytes_at_end = None\<rparr>]\<rparr>"

theorem timeline_newest_first_witness:
  "sorted_wrt (\<lambda>a b. (if ti_id b = 7 then 1000 else 0) \<le> (if ti_id a = 7 then 1000 else 0 :: int)) (buildTimeline sample_detail)"
proof -
  have "fields_of 0 = \<lparr>year = 1970, month = 0, date = 1, hours = 0, minutes = 0, seconds = 0, ms = 0\<rparr>"
    "fields_of 1000 = \<lparr>year = 1970, month = 0, date = 1, hours = 0, minutes = 0, seconds = 1, ms = 0\<rparr>"
    by code_simp+
  then have "stamped (\<lambda>x. if ti_id x = 7 then 1000 else 0) (timeline_items sample_detail)"
    by (simp add: stamped_def timeline_items_def sample_detail_def audit_item_def connection_item_def four_digit_year_def)
  then show ?thesis by (rule timeline_newest_first [THEN conjunct2, THEN conjunct1])
qed

section \<open>Durations\<close>

lemma durations_same: "session_formatDuration = connectionDuration"
  unfolding session_formatDuration_def connectionDuration_def Let_def by (rule refl)

text \<open>A reader of durations: the seconds shown and the seconds the last unit stands for.\<close>

definition read_duration :: "string \<Rightarrow> (nat \<times> nat) option" where
  "read_duration s =
     (let a = takeWhile is_digit s; r = dropWhile is_digit s in
      if r = ''s'' then Some (dec_val a, 1)
      else if startsWith r ''m '' then Some (dec_val a * 60 + dec_val (takeWhile is_digit (drop 2 r)), 1)
      else if startsWith r ''h '' then Some (dec_val a * 3600 + dec_val (takeWhile is_digit (drop 2 r)) * 60, 60)
      else None)"

lemma span_digits:
  "list_all is_digit a \<Longrightarrow> \<not> is_digit c \<Longrightarrow> takeWhile is_digit (a @ c # r) = a"
  "list_all is_digit a \<Longrightarrow> \<not> is_digit c \<Longrightarrow> dropWhile is_digit (a @ c # r) = c # r"
  by (induction a) auto

lemma unit_chars: "\<not> is_digit (CHR ''s'')" "\<not> is_digit (CHR ''m'')" "\<not> is_digit (CHR ''h'')"
  by (simp_all add: is_digit_def)

lemma read_duration_forms:
  "read_duration (nat_dec a @ ''s'') = Some (a, 1)"
  "read_duration (nat_dec a @ ''m '' @ padStart 2 (CHR ''0'') (nat_dec b) @ ''s'') = Some (a * 60 + b, 1)"
  "read_duration (nat_dec a @ ''h '' @ padStart 2 (CHR ''0'') (nat_dec b) @ ''m'') = Some (a * 3600 + b * 60, 60)"
  by (simp_all add: read_duration_def Let_def span_digits unit_chars startsWith_def)

text \<open>
  the duration of a closed connection is shown truncated: for parsable times that do not run backwards the text is
  readable, what it shows is at most the true duration and less than one last unit short of it, the last
  unit being a second under an hour and a minute from there on; the history dialog's own formatter prints
  the same text.
\<close>

theorem duration_truncates:
  assumes "parse startIso = Fin b" and "parse endIso = Fin e" and "b \<le> e"
  shows "\<exists>secs u. read_duration (connectionDuration parse startIso endIso) = Some (secs, u) \<and>
    of_nat secs * 1000 \<le> e - b \<and> e - b < of_nat (secs + u) * 1000 \<and>
    u = (if e - b < 3600000 then 1 else 60) \<and>
    session_formatDuration parse startIso endIso = connectionDuration parse startIso endIso"
proof -
  define n where "n = nat (Math_floor ((e - b) / 1000))"
  have n: "Math_floor ((e - b) / 1000) = int n" using assms(3) by (simp add: n_def Math_floor_def)
  have "of_int (Math_floor ((e - b) / 1000)) \<le> (e - b) / 1000" "(e - b) / 1000 < of_int (Math_floor ((e - b) / 1000)) + 1"
    unfolding Math_floor_def by linarith+
  then have b: "of_nat n * 1000 \<le> e - b" "e - b < of_nat (n + 1) * 1000" unfolding n by (simp_all add: field_simps)
  have hour: "e - b < 3600000 \<longleftrightarrow> n < 3600"
  proof (cases "n < 3600")
    case True
    then have "of_nat (n + 1) \<le> (of_nat 3600 :: number)" by (simp only: of_nat_le_iff)
    with True b show ?thesis by simp
  next
    case False
    then have "of_nat 3600 \<le> (of_nat n :: number)" by (simp only: of_nat_le_iff not_less)
    with False b show ?thesis by simp
  qed
  have shown: "connectionDuration parse startIso endIso =
      (if n < 60 then nat_dec n @ ''s''
       else if n < 3600 then nat_dec (n div 60) @ ''m '' @ padStart 2 (CHR ''0'') (nat_dec (n mod 60)) @ ''s''
       else nat_dec (n div 60 div 60) @ ''h '' @ padStart 2 (CHR ''0'') (nat_dec (n div 60 mod 60)) @ ''m'')"
  proof -
    have "int n < 60 \<longleftrightarrow> n < 60" "int n div 60 < 60 \<longleftrightarrow> n < 3600" by linarith+
    then show ?thesis
      using assms by (simp add: connectionDuration_def Let_def n int_dec_nonneg nat_div_distrib nat_mod_distrib)
  qed
  define secs where "secs = (if n < 3600 then n else n div 60 * 60)"
  have "n div 60 div 60 * 3600 + n div 60 mod 60 * 60 = n div 60 * 60"
    using div_mult_mod_eq [of "n div 60" 60] by linarith
  then have "read_duration (connectionDuration parse startIso endIso) = Some (secs, if n < 3600 then 1 else 60)"
    by (simp only: shown secs_def read_duration_forms split: if_split) simp
  moreover have "n mod 60 < 60" by simp
  then have "n < n div 60 * 60 + 60" using div_mult_mod_eq [of n 60] by linarith
  then have "secs \<le> n" "n + 1 \<le> secs + (if n < 3600 then 1 else 60)"
    unfolding secs_def by simp_all
  then have "of_nat secs * 1000 \<le> (of_nat n * 1000 :: number)"
    "of_nat (n + 1) * 1000 \<le> (of_nat (secs + (if n < 3600 then 1 else 60)) * 1000 :: number)"
    by (auto simp only: mult_le_cancel_right of_nat_le_iff zero_less_numeral not_numeral_less_zero)
  ultimately show ?thesis
    using b hour by (auto simp: durations_same)
qed

theorem duration_truncates_witness:
  "\<exists>secs u. read_duration (connectionDuration (\<lambda>s. Fin (if s = ''b'' then 3725500 else 0)) ''a'' ''b'') = Some (secs, u) \<and>
    of_nat secs * 1000 \<le> (3725500 :: number) \<and> (3725500 :: number) < of_nat (secs + u) * 1000 \<and> u = 60"
  using duration_truncates [of "\<lambda>s. Fin (if s = ''b'' then 3725500 else 0)" "''a''" 0 "''b''" 3725500] by auto

end
