(* ===== verification/Page_Visit.thy ===== *)
theory Page_Visit
  imports Page_Effect
begin

text \<open>
  A visit to a page that starts mutations: react-query's \<open>useMutation\<close> and the confirmation dialog
  src/web/src/components/ConfirmDialog.tsx as the pages use them.  A control of a page is pressed in a context (what the
  render sees) while some mutations are in flight; it changes the page's state, and may start a
  mutation.  A mutation in flight settles at any later time: it resolves, and its handler changes
  the page, or it is rejected, and the page stays.
\<close>

definition only_if :: "bool \<Rightarrow> 'a \<Rightarrow> 'a option" where
  "only_if g x = (if g then Some x else None)"

text \<open>\<open>ConfirmDialog\<close>: whether its button is enabled for the typed text.\<close>

definition confirm_enabled :: "string option \<Rightarrow> string \<Rightarrow> bool \<Rightarrow> bool" where
  "confirm_enabled confirmText typed pending \<longleftrightarrow>
     (case confirmText of None \<Rightarrow> True | Some t \<Rightarrow> t = [] \<or> trim typed = trim t) \<and> \<not> pending"

text \<open>The rejection handler the pages share: it reports an \<open>ApiError\<close> and nothing else.\<close>

definition mutation_error :: "ApiError option \<Rightarrow> page_effect list" where
  "mutation_error e = (case e of Some a \<Rightarrow> [Toast_error (ae_message a)] | None \<Rightarrow> [])"

section \<open>Visits\<close>

text \<open>The page, the mutations in flight and the mutations started so far.\<close>

record ('p, 'm) page_visit =
  vs_page :: 'p
  vs_flight :: "'m list"
  vs_started :: "'m list"

definition page_visit_init :: "'p \<Rightarrow> ('p, 'm) page_visit" where
  "page_visit_init p = \<lparr>vs_page = p, vs_flight = [], vs_started = []\<rparr>"

definition after_press :: "'p \<times> 'm option \<Rightarrow> ('p, 'm) page_visit \<Rightarrow> ('p, 'm) page_visit" where
  "after_press r v =
     \<lparr>vs_page = fst r, vs_flight = vs_flight v @ (case snd r of None \<Rightarrow> [] | Some m \<Rightarrow> [m]),
      vs_started = vs_started v @ (case snd r of None \<Rightarrow> [] | Some m \<Rightarrow> [m])\<rparr>"

inductive page_step ::
  "('m list \<Rightarrow> 'p \<Rightarrow> 'k \<Rightarrow> ('p \<times> 'm option) option) \<Rightarrow> ('m \<Rightarrow> 'p \<Rightarrow> 'p \<Rightarrow> bool) \<Rightarrow>
   ('p, 'm) page_visit \<Rightarrow> ('p, 'm) page_visit \<Rightarrow> bool" for press resolve where
  pressed: "press (vs_flight v) (vs_page v) k = Some r \<Longrightarrow> page_step press resolve v (after_press r v)"
| resolved: "m \<in> set (vs_flight v) \<Longrightarrow> resolve m (vs_page v) p \<Longrightarrow>
    page_step press resolve v (v\<lparr>vs_page := p, vs_flight := remove1 m (vs_flight v)\<rparr>)"
| rejected: "m \<in> set (vs_flight v) \<Longrightarrow> page_step press resolve v (v\<lparr>vs_flight := remove1 m (vs_flight v)\<rparr>)"

text \<open>The context may change between steps (a refetch, a change of the session) within a set of contexts.\<close>

inductive page_visited ::
  "('c \<Rightarrow> 'm list \<Rightarrow> 'p \<Rightarrow> 'k \<Rightarrow> ('p \<times> 'm option) option) \<Rightarrow> ('c \<Rightarrow> 'm \<Rightarrow> 'p \<Rightarrow> 'p \<Rightarrow> bool) \<Rightarrow> 'p \<Rightarrow> 'c set \<Rightarrow>
   ('p, 'm) page_visit \<Rightarrow> bool" for press resolve p C where
  start: "page_visited press resolve p C (page_visit_init p)"
| step: "page_visited press resolve p C v \<Longrightarrow> c \<in> C \<Longrightarrow> page_step (press c) (resolve c) v w \<Longrightarrow>
    page_visited press resolve p C w"

lemma visited_press:
  "page_visited press resolve p C v \<Longrightarrow> c \<in> C \<Longrightarrow> press c (vs_flight v) (vs_page v) k = Some r \<Longrightarrow>
   page_visited press resolve p C (after_press r v)"
  by (rule page_visited.step) (auto intro: page_step.pressed)

section \<open>What holds throughout a visit\<close>

text \<open>An invariant of the page with a property of the mutations that leave it.\<close>

theorem visit_invariant:
  assumes "page_visited press resolve p C v" and "I p"
    and press: "\<And>c fl q k q' m. c \<in> C \<Longrightarrow> I q \<Longrightarrow> press c fl q k = Some (q', m) \<Longrightarrow> I q' \<and> pred_option Q m"
    and resolve: "\<And>c m q q'. c \<in> C \<Longrightarrow> I q \<Longrightarrow> Q m \<Longrightarrow> resolve c m q q' \<Longrightarrow> I q'"
  shows "I (vs_page v) \<and> list_all Q (vs_started v) \<and> list_all Q (vs_flight v)"
  using assms(1)
proof induction
  case start
  then show ?case using assms(2) by (simp add: page_visit_init_def)
next
  case (step v c w)
  from step.hyps(3) show ?case
  proof cases
    case (pressed k r)
    then show ?thesis
      using press [OF step.hyps(2), of "vs_page v" "vs_flight v" k "fst r" "snd r"] step.IH
      by (auto simp: after_press_def split: option.splits)
  next
    case (resolved m q)
    then show ?thesis
      using resolve [OF step.hyps(2), of "vs_page v" m q] step.IH
      by (auto simp: list_all_iff dest: notin_set_remove1)
  next
    case (rejected m)
    then show ?thesis using step.IH by (auto simp: list_all_iff dest: notin_set_remove1)
  qed
qed

lemma distinct_map_remove1: "distinct (map f (filter P xs)) \<Longrightarrow> distinct (map f (filter P (remove1 x xs)))"
proof (induction xs)
  case (Cons y xs)
  have "set (remove1 x xs) \<subseteq> set xs" by (rule set_remove1_subset)
  with Cons show ?case by auto
qed simp

text \<open>When a guarded mutation starts only while none of its hook is in flight, at most one of each hook is.\<close>

theorem visit_one_each:
  assumes "page_visited press resolve p C v"
    and free: "\<And>c fl q k q' m x. c \<in> C \<Longrightarrow> press c fl q k = Some (q', Some m) \<Longrightarrow> guarded m \<Longrightarrow> x \<in> set fl \<Longrightarrow>
      guarded x \<Longrightarrow> hook x \<noteq> hook m"
  shows "distinct (map hook (filter guarded (vs_flight v)))"
  using assms(1)
proof induction
  case start
  then show ?case by (simp add: page_visit_init_def)
next
  case (step v c w)
  from step.hyps(3) show ?case
  proof cases
    case (pressed k r)
    then show ?thesis
      using free [OF step.hyps(2), of "vs_flight v" "vs_page v" k "fst r"] step.IH
      by (cases "snd r") (auto simp: after_press_def prod_eq_iff, metis prod.collapse)
  qed (use step.IH distinct_map_remove1 in \<open>auto\<close>)
qed

end
