(* ===== verification/Admin_User.thy ===== *)
theory Admin_User
  imports Timeline Cap_Field Page_Visit
begin

text \<open>
  The user page of the administration area, src/web/src/pages/admin/UserDetail.tsx, with the confirmation dialog
  src/web/src/components/ConfirmDialog.tsx: the dialogs it opens, the controls it offers, the mutations they start and what
  a mutation does when it settles.  DashboardLayout keys the page by its path, so the state lives for
  one visit to one user.
\<close>

section \<open>State\<close>

record user_page =
  suspendOpen :: bool
  impersonateOpen :: bool
  quotaOpen :: bool
  deviceLimitOpen :: bool
  disable2faOpen :: bool
  deleteOpen :: bool
  roleOpen :: bool
  revokeSessionsOpen :: bool
  editEmailOpen :: bool
  quotaDevice :: "(string \<times> string \<times> number option) option"
  endpointDevice :: "(string \<times> string) option"
  connectionDevice :: "(string \<times> string) option"
  activityOpen :: bool
  revokeDevice :: "(string \<times> string) option"

definition user_page_init :: user_page where
  "user_page_init =
     \<lparr>suspendOpen = False, impersonateOpen = False, quotaOpen = False, deviceLimitOpen = False, disable2faOpen = False,
      deleteOpen = False, roleOpen = False, revokeSessionsOpen = False, editEmailOpen = False, quotaDevice = None,
      endpointDevice = None, connectionDevice = None, activityOpen = False, revokeDevice = None\<rparr>"

text \<open>What a render sees: the route parameter, the signed-in user and the loaded detail.\<close>

record user_ctx =
  ux_id :: string
  ux_self :: "PublicUser option"
  ux_detail :: "AdminUserDetailResponse option"

definition shown_user :: "user_ctx \<Rightarrow> AdminUserDetail option" where
  "shown_user c = map_option aur_user (ux_detail c)"

definition isSelf :: "user_ctx \<Rightarrow> bool" where
  "isSelf c \<longleftrightarrow> map_option aud_id (shown_user c) = map_option pu_id (ux_self c)"

section \<open>Mutations\<close>

datatype user_mutation =
    M_devicePause string bool
  | M_deviceRevoke string
  | M_setStatus UserStatus
  | M_setRole UserRole
  | M_disable2fa
  | M_revokeSessions
  | M_setEmail string
  | M_delete
  | M_impersonate
  | M_quota "number option"
  | M_deviceLimit number
  | M_deviceQuota string "number option"

fun mutation_request :: "string \<Rightarrow> user_mutation \<Rightarrow> api_request" where
  "mutation_request i (M_devicePause d paused) = (if paused then adminUnpauseDevice d else adminPauseDevice d)"
| "mutation_request i (M_deviceRevoke d) = adminRevokeDevice d"
| "mutation_request i (M_setStatus st) = adminSetUserStatus i st"
| "mutation_request i (M_setRole r) = adminSetUserRole i r"
| "mutation_request i M_disable2fa = adminDisableUser2FA i"
| "mutation_request i M_revokeSessions = adminRevokeUserSessions i"
| "mutation_request i (M_setEmail e) = adminSetUserEmail i e"
| "mutation_request i M_delete = adminDeleteUser i"
| "mutation_request i M_impersonate = adminImpersonateUser i"
| "mutation_request i (M_quota cap) = adminSetUserQuota i cap"
| "mutation_request i (M_deviceLimit n) = adminSetUserDeviceLimit i n"
| "mutation_request i (M_deviceQuota d cap) = adminSetDeviceQuota d cap"

definition invalidateUser :: "string \<Rightarrow> page_effect list" where
  "invalidateUser i = [Invalidated [''admin'', ''user'', i], Invalidated [''admin'', ''users'']]"

text \<open>The success handlers.  \<open>refetched\<close> is the outcome of \<open>fetchMe()\<close>, which only impersonation awaits.\<close>

fun mutation_success ::
  "user_ctx \<Rightarrow> PublicUser option \<Rightarrow> user_mutation \<Rightarrow> user_page \<Rightarrow> user_page \<times> page_effect list" where
  "mutation_success c refetched (M_devicePause d paused) p =
     (p, invalidateUser (ux_id c) @ [Toast_success (if paused then ''Device resumed'' else ''Device paused'')])"
| "mutation_success c refetched (M_deviceRevoke d) p =
     (p\<lparr>revokeDevice := None\<rparr>, invalidateUser (ux_id c) @
        [Toast_success (''Device revoked '' @ em_dash @ '' IP released and peer removed'')])"
| "mutation_success c refetched (M_setStatus st) p =
     (p\<lparr>suspendOpen := False\<rparr>, invalidateUser (ux_id c) @ [Toast_success ''User status updated''])"
| "mutation_success c refetched (M_setRole r) p =
     (p\<lparr>roleOpen := False\<rparr>, invalidateUser (ux_id c) @ [Toast_success (''Role set to '' @ UserRole_str r)])"
| "mutation_success c refetched M_disable2fa p =
     (p\<lparr>disable2faOpen := False\<rparr>, invalidateUser (ux_id c) @
        [Toast_success (''2FA disabled '' @ em_dash @ '' user can re-enroll on next sign-in'')])"
| "mutation_success c refetched M_revokeSessions p =
     (p\<lparr>revokeSessionsOpen := False\<rparr>, [Toast_success ''All sessions for this user invalidated''])"
| "mutation_success c refetched (M_setEmail e) p =
     (p\<lparr>editEmailOpen := False\<rparr>, invalidateUser (ux_id c) @ [Toast_success ''Email updated''])"
| "mutation_success c refetched M_delete p =
     (p\<lparr>deleteOpen := False\<rparr>, [Invalidated [''admin'', ''users''], Toast_success ''User deleted'', Navigated ''/admin/users''])"
| "mutation_success c refetched M_impersonate p =
     (case refetched of
        Some u \<Rightarrow>
          (p\<lparr>impersonateOpen := False\<rparr>,
           [Stored_user u,
            Toast_success (''Now acting as '' @ (case shown_user c of Some v \<Rightarrow> aud_email v | None \<Rightarrow> ''user'')),
            Navigated ''/app''])
      | None \<Rightarrow> (p, [Toast_error (JStr ''Impersonation started but failed to refresh session'')]))"
| "mutation_success c refetched (M_quota cap) p =
     (p\<lparr>quotaOpen := False\<rparr>, Toast_success ''Quota updated'' # invalidateUser (ux_id c))"
| "mutation_success c refetched (M_deviceLimit n) p =
     (p\<lparr>deviceLimitOpen := False\<rparr>, Toast_success ''Device limit updated'' # invalidateUser (ux_id c))"
| "mutation_success c refetched (M_deviceQuota d cap) p =
     (p\<lparr>quotaDevice := None\<rparr>, Toast_success ''Device quota updated'' # invalidateUser (ux_id c))"

section \<open>The forms of the dialogs\<close>

definition GIB :: number where
  "GIB = 1024 ^ 3"

text \<open>The cap forms of the account and of a device: a switch and a text.\<close>

record gib_form =
  gf_capEnabled :: bool
  gf_gibStr :: string

definition gib_form_init :: "number option \<Rightarrow> gib_form" where
  "gib_form_init cap =
     \<lparr>gf_capEnabled = (case cap of Some c \<Rightarrow> c > 0 | None \<Rightarrow> False),
      gf_gibStr = (case cap of Some c \<Rightarrow> if c = 0 then [] else toFixed 2 (c / GIB) | None \<Rightarrow> [])\<rparr>"

definition capValid :: "gib_form \<Rightarrow> bool" where
  "capValid f \<longleftrightarrow> trim (gf_gibStr f) \<noteq> [] \<and> (case Number_of (trim (gf_gibStr f)) of Fin g \<Rightarrow> g > 0 | _ \<Rightarrow> False)"

definition cap_canSave :: "bool \<Rightarrow> gib_form \<Rightarrow> bool" where
  "cap_canSave isPending f \<longleftrightarrow> \<not> isPending \<and> (\<not> gf_capEnabled f \<or> capValid f)"

definition submitted_cap :: "gib_form \<Rightarrow> number option" where
  "submitted_cap f =
     (if gf_capEnabled f
      then (case Number_of (trim (gf_gibStr f)) of Fin g \<Rightarrow> Some (of_int (Math_round (g * GIB))) | _ \<Rightarrow> None)
      else None)"

definition limit_init :: "number \<Rightarrow> string" where
  "limit_init currentLimit = num_string currentLimit"

definition limit_valid :: "string \<Rightarrow> number option" where
  "limit_valid limitStr =
     (case Number_of (trim limitStr) of
        Fin n \<Rightarrow> if trim limitStr \<noteq> [] \<and> n = of_int \<lfloor>n\<rfloor> \<and> 1 \<le> n \<and> n \<le> 1000 then Some n else None
      | _ \<Rightarrow> None)"

definition email_trimmed :: "string \<Rightarrow> string" where
  "email_trimmed value = toLowerCase (trim value)"

definition email_canSubmit :: "bool \<Rightarrow> string \<Rightarrow> string \<Rightarrow> bool" where
  "email_canSubmit pending currentEmail value \<longleftrightarrow>
     \<not> pending \<and> CHR ''@'' \<in> set (email_trimmed value) \<and> 3 \<le> length (email_trimmed value) \<and>
     email_trimmed value \<noteq> toLowerCase currentEmail"

section \<open>Controls\<close>

datatype control =
    C_open_impersonate | C_open_suspend | C_unsuspend | C_open_email | C_open_2fa | C_open_sessions | C_open_role
  | C_open_delete | C_open_limit | C_open_quota | C_open_activity
  | C_pause AdminUserDevice | C_open_revoke AdminUserDevice | C_open_deviceQuota AdminUserDevice
  | C_open_endpoints AdminUserDevice | C_open_connections AdminUserDevice
  | C_confirm_suspend | C_confirm_impersonate | C_confirm_2fa | C_confirm_sessions | C_confirm_role
  | C_confirm_delete string | C_confirm_revoke
  | C_save_email string | C_save_quota gib_form | C_save_limit string | C_save_deviceQuota gib_form
  | C_dismiss_suspend | C_dismiss_impersonate | C_dismiss_2fa | C_dismiss_sessions | C_dismiss_role | C_dismiss_delete
  | C_dismiss_email | C_dismiss_quota | C_dismiss_limit | C_dismiss_deviceQuota | C_dismiss_endpoints
  | C_dismiss_connections | C_dismiss_revoke | C_dismiss_activity

fun is_pause :: "user_mutation \<Rightarrow> bool" where
  "is_pause (M_devicePause _ _) = True" | "is_pause _ = False"

fun is_revoke :: "user_mutation \<Rightarrow> bool" where
  "is_revoke (M_deviceRevoke _) = True" | "is_revoke _ = False"

fun is_status :: "user_mutation \<Rightarrow> bool" where
  "is_status (M_setStatus _) = True" | "is_status _ = False"

fun is_role :: "user_mutation \<Rightarrow> bool" where
  "is_role (M_setRole _) = True" | "is_role _ = False"

fun is_email :: "user_mutation \<Rightarrow> bool" where
  "is_email (M_setEmail _) = True" | "is_email _ = False"

fun is_quota :: "user_mutation \<Rightarrow> bool" where
  "is_quota (M_quota _) = True" | "is_quota _ = False"

fun is_limit :: "user_mutation \<Rightarrow> bool" where
  "is_limit (M_deviceLimit _) = True" | "is_limit _ = False"

fun is_deviceQuota :: "user_mutation \<Rightarrow> bool" where
  "is_deviceQuota (M_deviceQuota _ _) = True" | "is_deviceQuota _ = False"

text \<open>The header's buttons and menu, shown for another user only.\<close>

definition header_shown :: "user_ctx \<Rightarrow> bool" where
  "header_shown c \<longleftrightarrow> shown_user c \<noteq> None \<and> \<not> isSelf c"

definition other_active :: "user_ctx \<Rightarrow> bool" where
  "other_active c \<longleftrightarrow> header_shown c \<and> map_option aud_status (shown_user c) = Some User_active"

definition row_shown :: "user_ctx \<Rightarrow> AdminUserDevice \<Rightarrow> bool" where
  "row_shown c d \<longleftrightarrow> (case ux_detail c of None \<Rightarrow> False | Some r \<Rightarrow> d \<in> set (aur_devices r))"

text \<open>\<open>pressed c fl p k\<close>: what control \<open>k\<close> does to page \<open>p\<close> while the mutations \<open>fl\<close> are in flight, with the mutation it
  starts; \<open>None\<close> when the control is not shown or disabled.\<close>

fun pressed ::
  "user_ctx \<Rightarrow> user_mutation list \<Rightarrow> user_page \<Rightarrow> control \<Rightarrow> (user_page \<times> user_mutation option) option" where
  "pressed c fl p C_open_impersonate = only_if (other_active c) (p\<lparr>impersonateOpen := True\<rparr>, None)"
| "pressed c fl p C_open_suspend = only_if (other_active c) (p\<lparr>suspendOpen := True\<rparr>, None)"
| "pressed c fl p C_unsuspend =
     only_if (header_shown c \<and> map_option aud_status (shown_user c) = Some User_suspended) (p, Some (M_setStatus User_active))"
| "pressed c fl p C_open_email = only_if (header_shown c) (p\<lparr>editEmailOpen := True\<rparr>, None)"
| "pressed c fl p C_open_2fa =
     only_if (header_shown c \<and> map_option aud_totp_enabled (shown_user c) = Some True) (p\<lparr>disable2faOpen := True\<rparr>, None)"
| "pressed c fl p C_open_sessions = only_if (header_shown c) (p\<lparr>revokeSessionsOpen := True\<rparr>, None)"
| "pressed c fl p C_open_role = only_if (header_shown c) (p\<lparr>roleOpen := True\<rparr>, None)"
| "pressed c fl p C_open_delete = only_if (header_shown c) (p\<lparr>deleteOpen := True\<rparr>, None)"
| "pressed c fl p C_open_limit = only_if (shown_user c \<noteq> None) (p\<lparr>deviceLimitOpen := True\<rparr>, None)"
| "pressed c fl p C_open_quota = only_if (shown_user c \<noteq> None) (p\<lparr>quotaOpen := True\<rparr>, None)"
| "pressed c fl p C_open_activity =
     only_if (shown_user c \<noteq> None \<and> ACTIVITY_PREVIEW_COUNT < length (timeline_of (ux_detail c))) (p\<lparr>activityOpen := True\<rparr>, None)"
| "pressed c fl p (C_pause d) =
     only_if (row_shown c d \<and> adv_status d \<noteq> Dev_revoked \<and> \<not> list_ex is_pause fl)
       (p, Some (M_devicePause (adv_id d) (adv_status d = Dev_paused)))"
| "pressed c fl p (C_open_revoke d) =
     only_if (row_shown c d \<and> adv_status d \<noteq> Dev_revoked) (p\<lparr>revokeDevice := Some (adv_id d, adv_name d)\<rparr>, None)"
| "pressed c fl p (C_open_deviceQuota d) =
     only_if (row_shown c d) (p\<lparr>quotaDevice := Some (adv_id d, adv_name d, adv_monthly_byte_cap d)\<rparr>, None)"
| "pressed c fl p (C_open_endpoints d) =
     only_if (row_shown c d \<and> truthy_str (adv_last_peer_endpoint d) \<noteq> None)
       (p\<lparr>endpointDevice := Some (adv_id d, adv_name d)\<rparr>, None)"
| "pressed c fl p (C_open_connections d) =
     only_if (row_shown c d) (p\<lparr>connectionDevice := Some (adv_id d, adv_name d)\<rparr>, None)"
| "pressed c fl p C_confirm_suspend =
     only_if (suspendOpen p \<and> confirm_enabled None [] (list_ex is_status fl)) (p, Some (M_setStatus User_suspended))"
| "pressed c fl p C_confirm_impersonate =
     only_if (impersonateOpen p \<and> confirm_enabled None [] (M_impersonate \<in> set fl)) (p, Some M_impersonate)"
| "pressed c fl p C_confirm_2fa =
     only_if (disable2faOpen p \<and> confirm_enabled None [] (M_disable2fa \<in> set fl)) (p, Some M_disable2fa)"
| "pressed c fl p C_confirm_sessions =
     only_if (revokeSessionsOpen p \<and> confirm_enabled None [] (M_revokeSessions \<in> set fl)) (p, Some M_revokeSessions)"
| "pressed c fl p C_confirm_role =
     only_if (roleOpen p \<and> confirm_enabled None [] (list_ex is_role fl))
       (p, Some (M_setRole (if map_option aud_role (shown_user c) = Some Role_admin then Role_user else Role_admin)))"
| "pressed c fl p (C_confirm_delete typed) =
     (case shown_user c of
        None \<Rightarrow> None
      | Some u \<Rightarrow> only_if (deleteOpen p \<and> confirm_enabled (Some (aud_email u)) typed (M_delete \<in> set fl)) (p, Some M_delete))"
| "pressed c fl p C_confirm_revoke =
     (case revokeDevice p of
        None \<Rightarrow> None
      | Some (i, n) \<Rightarrow> only_if (confirm_enabled None [] (list_ex is_revoke fl)) (p, Some (M_deviceRevoke i)))"
| "pressed c fl p (C_save_email value) =
     (case shown_user c of
        None \<Rightarrow> None
      | Some u \<Rightarrow> only_if (editEmailOpen p \<and> email_canSubmit (list_ex is_email fl) (aud_email u) value)
          (p, Some (M_setEmail (email_trimmed value))))"
| "pressed c fl p (C_save_quota f) =
     only_if (shown_user c \<noteq> None \<and> quotaOpen p \<and> cap_canSave (list_ex is_quota fl) f) (p, Some (M_quota (submitted_cap f)))"
| "pressed c fl p (C_save_limit s) =
     (case limit_valid s of
        None \<Rightarrow> None
      | Some n \<Rightarrow> only_if (shown_user c \<noteq> None \<and> deviceLimitOpen p \<and> \<not> list_ex is_limit fl) (p, Some (M_deviceLimit n)))"
| "pressed c fl p (C_save_deviceQuota f) =
     (case quotaDevice p of
        None \<Rightarrow> None
      | Some (i, n, cap) \<Rightarrow> only_if (cap_canSave (list_ex is_deviceQuota fl) f) (p, Some (M_deviceQuota i (submitted_cap f))))"
| "pressed c fl p C_dismiss_suspend = Some (p\<lparr>suspendOpen := False\<rparr>, None)"
| "pressed c fl p C_dismiss_impersonate = Some (p\<lparr>impersonateOpen := False\<rparr>, None)"
| "pressed c fl p C_dismiss_2fa = Some (p\<lparr>disable2faOpen := False\<rparr>, None)"
| "pressed c fl p C_dismiss_sessions = Some (p\<lparr>revokeSessionsOpen := False\<rparr>, None)"
| "pressed c fl p C_dismiss_role = Some (p\<lparr>roleOpen := False\<rparr>, None)"
| "pressed c fl p C_dismiss_delete = Some (p\<lparr>deleteOpen := False\<rparr>, None)"
| "pressed c fl p C_dismiss_email = Some (p\<lparr>editEmailOpen := False\<rparr>, None)"
| "pressed c fl p C_dismiss_quota = Some (p\<lparr>quotaOpen := False\<rparr>, None)"
| "pressed c fl p C_dismiss_limit = Some (p\<lparr>deviceLimitOpen := False\<rparr>, None)"
| "pressed c fl p C_dismiss_deviceQuota = Some (p\<lparr>quotaDevice := None\<rparr>, None)"
| "pressed c fl p C_dismiss_endpoints = Some (p\<lparr>endpointDevice := None\<rparr>, None)"
| "pressed c fl p C_dismiss_connections = Some (p\<lparr>connectionDevice := None\<rparr>, None)"
| "pressed c fl p C_dismiss_revoke = Some (p\<lparr>revokeDevice := None\<rparr>, None)"
| "pressed c fl p C_dismiss_activity = Some (p\<lparr>activityOpen := False\<rparr>, None)"

section \<open>A visit\<close>

text \<open>\<open>refetched\<close> ranges over the outcomes of \<open>fetchMe()\<close>.\<close>

definition resolves :: "user_ctx \<Rightarrow> user_mutation \<Rightarrow> user_page \<Rightarrow> user_page \<Rightarrow> bool" where
  "resolves c m p q \<longleftrightarrow> (\<exists>refetched. q = fst (mutation_success c refetched m p))"

abbreviation visited :: "user_ctx set \<Rightarrow> (user_page, user_mutation) page_visit \<Rightarrow> bool" where
  "visited C v \<equiv> page_visited pressed resolves user_page_init C v"

section \<open>Safety of the controls\<close>

lemmas pressed_defs = only_if_def other_active_def header_shown_def row_shown_def

text \<open>The mutations that act on the account itself: they are offered for other users only.\<close>

fun on_account :: "user_mutation \<Rightarrow> bool" where
  "on_account (M_setStatus _) = True"
| "on_account (M_setRole _) = True"
| "on_account M_disable2fa = True"
| "on_account M_revokeSessions = True"
| "on_account (M_setEmail _) = True"
| "on_account M_delete = True"
| "on_account M_impersonate = True"
| "on_account _ = False"

definition account_dialogs_closed :: "user_page \<Rightarrow> bool" where
  "account_dialogs_closed p \<longleftrightarrow> \<not> suspendOpen p \<and> \<not> impersonateOpen p \<and> \<not> disable2faOpen p \<and> \<not> deleteOpen p \<and>
     \<not> roleOpen p \<and> \<not> revokeSessionsOpen p \<and> \<not> editEmailOpen p"

lemma pressed_own_account:
  assumes "pressed c fl p k = Some (p', m)" and "\<not> header_shown c" and "account_dialogs_closed p"
  shows "account_dialogs_closed p' \<and> pred_option (\<lambda>x. \<not> on_account x) m"
  using assms by (cases k) (auto simp: pressed_defs account_dialogs_closed_def split: if_splits option.splits)

lemma success_keeps_closed:
  "account_dialogs_closed p \<Longrightarrow> account_dialogs_closed (fst (mutation_success c refetched m p))"
  by (cases m) (auto simp: account_dialogs_closed_def split: option.split)

lemma own_visit:
  assumes "visited C v" and "\<forall>c\<in>C. \<not> header_shown c"
  shows "list_all (\<lambda>m. \<not> on_account m) (vs_started v)"
proof -
  have "account_dialogs_closed (vs_page v) \<and> list_all (\<lambda>m. \<not> on_account m) (vs_started v) \<and>
      list_all (\<lambda>m. \<not> on_account m) (vs_flight v)"
  proof (rule visit_invariant [OF assms(1)])
    show "account_dialogs_closed user_page_init" by (simp add: user_page_init_def account_dialogs_closed_def)
  qed (use assms(2) pressed_own_account success_keeps_closed in \<open>auto simp: resolves_def\<close>)
  then show ?thesis by blast
qed

text \<open>
  an administrator cannot act on their own account from this page: throughout a visit on which the loaded user is
  always the signed-in one, whatever is pressed in whatever order, no mutation that suspends, promotes,
  demotes, deletes, impersonates or logs out the account or changes its email or second factor is ever started.
\<close>

theorem own_account_protected:
  assumes "visited C v"
    and "\<forall>c\<in>C. \<forall>u. shown_user c = Some u \<longrightarrow> map_option pu_id (ux_self c) = Some (aud_id u)"
  shows "\<forall>m\<in>set (vs_started v). \<not> on_account m"
proof -
  have "\<forall>c\<in>C. \<not> header_shown c"
  proof
    fix c assume "c \<in> C"
    with assms(2) show "\<not> header_shown c" by (cases "shown_user c") (force simp: header_shown_def isSelf_def)+
  qed
  then show ?thesis using own_visit [OF assms(1)] by (simp add: list_all_iff)
qed

definition sample_user :: AdminUserDetail where
  "sample_user = \<lparr>aud_id = ''u1'', aud_email = ''a@b.c'', aud_role = Role_admin, aud_status = User_active,
     aud_totp_enabled = True, aud_must_change_password = False, aud_created_at = [], aud_last_login_at = None,
     aud_email_verified_at = None, aud_password_changed_at = [], aud_current_month_bytes = 0,
     aud_monthly_byte_cap = None, aud_quota_resets_at = None, aud_device_count = 0, aud_device_limit = 5\<rparr>"

definition sample_ctx :: "string \<Rightarrow> user_ctx" where
  "sample_ctx me_id = \<lparr>ux_id = ''u1'',
     ux_self = Some \<lparr>pu_id = me_id, pu_email = [], pu_role = Role_admin, pu_totp_enabled = False,
       pu_is_impersonated = None, pu_impersonator_email = None, pu_user_policy = undefined\<rparr>,
     ux_detail = Some \<lparr>aur_user = sample_user, aur_devices = [], aur_activity = [], aur_session_events = [],
       aur_connection_sessions = []\<rparr>\<rparr>"

theorem own_account_protected_witness:
  "visited {sample_ctx ''u1''} (after_press (user_page_init\<lparr>quotaOpen := True\<rparr>, None) (page_visit_init user_page_init)) \<and>
   list_all (\<lambda>m. \<not> on_account m)
     (vs_started (after_press (user_page_init\<lparr>quotaOpen := True\<rparr>, None) (page_visit_init user_page_init)))"
proof -
  have "pressed (sample_ctx ''u1'') [] user_page_init C_open_quota = Some (user_page_init\<lparr>quotaOpen := True\<rparr>, None)"
    by (simp add: only_if_def shown_user_def sample_ctx_def)
  then have v: "visited {sample_ctx ''u1''} (after_press (user_page_init\<lparr>quotaOpen := True\<rparr>, None) (page_visit_init user_page_init))"
    by (intro visited_press [OF page_visited.start, where k = C_open_quota and c = "sample_ctx ''u1''"])
      (simp_all add: page_visit_init_def)
  then show ?thesis
    using own_account_protected [OF v] by (auto simp: list_all_iff sample_ctx_def sample_user_def shown_user_def)
qed

text \<open>
  a user is deleted only on purpose: a press starts the deletion exactly when it is the confirm button of the open
  delete dialog, with the typed text equal to the email of the loaded user up to surrounding blanks (when
  the email is not empty) and with no deletion in flight.
\<close>

theorem deletion_confirmed:
  "(\<exists>p'. pressed c fl p k = Some (p', Some M_delete)) \<longleftrightarrow>
   (\<exists>typed u. k = C_confirm_delete typed \<and> shown_user c = Some u \<and> deleteOpen p \<and>
      (aud_email u = [] \<or> trim typed = trim (aud_email u)) \<and> M_delete \<notin> set fl)"
  by (cases k) (auto simp: pressed_defs confirm_enabled_def split: option.splits)

section \<open>One request per action\<close>

text \<open>The mutation hook a mutation belongs to.\<close>

fun hook :: "user_mutation \<Rightarrow> nat" where
  "hook (M_devicePause _ _) = 0"
| "hook (M_deviceRevoke _) = 1"
| "hook (M_setStatus _) = 2"
| "hook (M_setRole _) = 3"
| "hook M_disable2fa = 4"
| "hook M_revokeSessions = 5"
| "hook (M_setEmail _) = 6"
| "hook M_delete = 7"
| "hook M_impersonate = 8"
| "hook (M_quota _) = 9"
| "hook (M_deviceLimit _) = 10"
| "hook (M_deviceQuota _ _) = 11"

lemma hook_cases:
  "hook m = 0 \<longleftrightarrow> is_pause m" "hook m = 1 \<longleftrightarrow> is_revoke m" "hook m = 3 \<longleftrightarrow> is_role m" "hook m = 4 \<longleftrightarrow> m = M_disable2fa"
  "hook m = 5 \<longleftrightarrow> m = M_revokeSessions" "hook m = 6 \<longleftrightarrow> is_email m" "hook m = 7 \<longleftrightarrow> m = M_delete"
  "hook m = 8 \<longleftrightarrow> m = M_impersonate" "hook m = 9 \<longleftrightarrow> is_quota m" "hook m = 10 \<longleftrightarrow> is_limit m" "hook m = 11 \<longleftrightarrow> is_deviceQuota m"
  by (cases m; simp)+

lemma pressed_hook_free:
  assumes "pressed c fl p k = Some (p', Some m)" and "\<not> is_status m" and "x \<in> set fl" and "hook x = hook m"
  shows False
  using assms
  by (cases k) (auto simp: pressed_defs confirm_enabled_def cap_canSave_def email_canSubmit_def list_ex_iff
      hook_cases hook_cases(2) [unfolded One_nat_def] split: if_splits option.splits)

text \<open>
  no action of the page is sent twice at once: in every state of a visit, of each kind of mutation other than the
  change of status at most one is in flight, since each control is disabled while its mutation is pending.
\<close>

theorem one_mutation_at_a_time:
  assumes "visited C v"
  shows "distinct (map hook (filter (\<lambda>m. \<not> is_status m) (vs_flight v)))"
  by (rule visit_one_each [OF assms]) (use pressed_hook_free in blast)

theorem one_mutation_at_a_time_witness:
  "distinct (map hook (filter (\<lambda>m. \<not> is_status m) (vs_flight (page_visit_init user_page_init))))"
  using one_mutation_at_a_time [OF page_visited.start [of _ _ _ "{}"]] .

text \<open>
  the button that lifts a suspension has no such guard: pressed twice before the first request settles it starts the
  same mutation twice.
\<close>

theorem unsuspend_sent_twice:
  "\<exists>c v. visited {c} v \<and> vs_flight v = [M_setStatus User_active, M_setStatus User_active]"
proof -
  define u where "u = sample_user\<lparr>aud_status := User_suspended\<rparr>"
  define c where "c = (sample_ctx ''me'')\<lparr>ux_detail := Some \<lparr>aur_user = u, aur_devices = [], aur_activity = [],
      aur_session_events = [], aur_connection_sessions = []\<rparr>\<rparr>"
  have press: "pressed c fl p C_unsuspend = Some (p, Some (M_setStatus User_active))" for fl p
    by (simp add: pressed_defs c_def u_def sample_ctx_def shown_user_def isSelf_def sample_user_def)
  let ?press = "after_press (user_page_init, Some (M_setStatus User_active))"
  let ?v = "?press (page_visit_init user_page_init)"
  have v: "visited {c} ?v"
    by (intro visited_press [OF page_visited.start, where k = C_unsuspend and c = c]) (simp_all add: press page_visit_init_def del: pressed.simps)
  have "visited {c} (?press ?v)"
    by (rule visited_press [OF v, where k = C_unsuspend and c = c]) (simp_all add: press after_press_def del: pressed.simps)
  then show ?thesis by (intro exI [of _ c] exI [of _ "?press ?v"]) (simp add: after_press_def page_visit_init_def)
qed

section \<open>Outcomes\<close>

text \<open>
  a settled mutation reports once: on success exactly one toast is shown; on rejection the page stays as it is and
  exactly one error toast is shown when the server answered with an error, and none at all when the request
  failed otherwise.
\<close>

theorem settled_mutation_reports:
  "length (toasts (snd (mutation_success c refetched m p))) = 1 \<and>
   toasts (mutation_error (Some a)) = [Toast_error (ae_message a)] \<and> toasts (mutation_error None) = []"
  by (cases m) (simp_all add: invalidateUser_def mutation_error_def split: option.split)

section \<open>Re-saving a cap\<close>

text \<open>
  saving a cap dialog as it opened moves the cap by at most 0.005 GiB and half a byte: when the form seeded from a
  positive cap can be saved untouched, what it sends is a positive number of bytes that close to the cap; a
  cap under 0.005 GiB is shown as \<open>0.00\<close> and cannot be saved back.
\<close>

theorem cap_resave_close:
  assumes "0 < cap" and "cap / GIB < 10 ^ 21"
  shows "(cap_canSave False (gib_form_init (Some cap)) \<longrightarrow>
      (\<exists>b. submitted_cap (gib_form_init (Some cap)) = Some b \<and> 0 < b \<and> \<bar>b - cap\<bar> \<le> GIB / 200 + 1 / 2)) \<and>
    (cap < GIB / 200 \<longrightarrow> \<not> cap_canSave False (gib_form_init (Some cap)))"
proof -
  define x r where "x = cap / GIB" and "r = Math_round (x * 100)"
  have G: "0 < GIB" by (simp add: GIB_def)
  have x: "0 \<le> x" "cap = x * GIB" using assms G by (simp_all add: x_def)
  have num: "Number_of (trim (gf_gibStr (gib_form_init (Some cap)))) = Fin (of_int r / 100)"
    using Number_of_toFixed2 [OF x(1)] assms unfolding r_def by (simp add: gib_form_init_def flip: x_def)
  have on: "gf_capEnabled (gib_form_init (Some cap))" using assms by (simp add: gib_form_init_def)
  have near: "\<bar>of_int r - x * 100\<bar> \<le> 1 / 2" unfolding r_def by (rule Math_round_err)
  have save: "cap_canSave False (gib_form_init (Some cap)) \<Longrightarrow> 0 < r"
    using on num by (simp add: cap_canSave_def capValid_def)
  define b where "b = Math_round (of_int r / 100 * GIB)"
  have sub: "submitted_cap (gib_form_init (Some cap)) = Some (of_int b)"
    using on num by (simp add: submitted_cap_def b_def)
  have b_near: "\<bar>of_int b - of_int r / 100 * GIB\<bar> \<le> 1 / 2" unfolding b_def by (rule Math_round_err)
  have "\<bar>(of_int r - x * 100) * (GIB / 100)\<bar> \<le> 1 / 2 * (GIB / 100)"
    unfolding abs_mult using near G by (intro mult_mono) simp_all
  moreover have "(of_int r - x * 100) * (GIB / 100) = of_int r / 100 * GIB - cap" by (simp add: x(2) algebra_simps)
  ultimately have close: "\<bar>of_int b - cap\<bar> \<le> GIB / 200 + 1 / 2" using b_near by linarith
  have pos: "0 < (of_int b :: number)" if "0 < r"
  proof -
    have "1 / 100 * GIB \<le> of_int r / 100 * GIB" using that G by (intro mult_right_mono) simp_all
    moreover have "1 < 1 / 100 * GIB" by (simp add: GIB_def)
    ultimately show ?thesis using b_near by linarith
  qed
  have "r \<le> 0" if "cap < GIB / 200"
  proof -
    have "x * 100 < 1 / 2" using that G x(2) by (simp add: field_simps)
    then show ?thesis by (simp add: r_def Math_round_def)
  qed
  then have "cap < GIB / 200 \<longrightarrow> \<not> cap_canSave False (gib_form_init (Some cap))" using save by force
  moreover have "cap_canSave False (gib_form_init (Some cap)) \<longrightarrow>
      (\<exists>b. submitted_cap (gib_form_init (Some cap)) = Some b \<and> 0 < b \<and> \<bar>b - cap\<bar> \<le> GIB / 200 + 1 / 2)"
    using save sub close pos by blast
  ultimately show ?thesis by (rule conjI [rotated])
qed

theorem cap_resave_close_witness:
  "\<exists>b. submitted_cap (gib_form_init (Some (3 * GIB))) = Some b \<and> 0 < b \<and> \<bar>b - 3 * GIB\<bar> \<le> GIB / 200 + 1 / 2"
proof -
  have "Math_round (3 * 100 :: number) = 300" using Math_round_of_int [of 300] by simp
  moreover have "Number_of [] = Fin 0" by (simp add: Number_of_def trim_def)
  ultimately have "cap_canSave False (gib_form_init (Some (3 * GIB)))"
    using Number_of_toFixed2 [of 3]
    by (auto simp: cap_canSave_def capValid_def gib_form_init_def GIB_def)
  then show ?thesis using cap_resave_close [of "3 * GIB"] by (simp add: GIB_def)
qed

end
