(* ===== verification/Device_Activity.thy ===== *)
theory Device_Activity
  imports Js_Sort Page_Effect Datetime
begin

text \<open>
  The activity log of the device page, src/web/src/pages/app/DeviceDetail.tsx: the pages the sheet loads by cursor, the catalogue
  of actions, the day labels, and the time spent in a state between two transitions.  The server's list
  operation is an argument of the pager; \<open>new Date(s).getTime()\<close> is an argument \<open>parse\<close>.
\<close>

section \<open>Cursor pages\<close>

definition ACTIVITY_PAGE_SIZE :: nat where
  "ACTIVITY_PAGE_SIZE = 30"

definition getNextPageParam :: "DeviceEvent list \<Rightarrow> number option" where
  "getNextPageParam last_page =
     (if length last_page = ACTIVITY_PAGE_SIZE then Some (de_id (last_page ! (length last_page - 1))) else None)"

text \<open>\<open>useInfiniteQuery\<close>: the pages loaded so far; the first is fetched without a cursor.\<close>

definition hasNextPage :: "DeviceEvent list list \<Rightarrow> bool" where
  "hasNextPage pages \<longleftrightarrow> pages \<noteq> [] \<and> getNextPageParam (last pages) \<noteq> None"

definition fetchNextPage :: "(number option \<Rightarrow> DeviceEvent list) \<Rightarrow> DeviceEvent list list \<Rightarrow> DeviceEvent list list" where
  "fetchNextPage fetch pages = pages @ [fetch (if pages = [] then None else getNextPageParam (last pages))]"

definition loadMore :: "(number option \<Rightarrow> DeviceEvent list) \<Rightarrow> bool \<Rightarrow> DeviceEvent list list \<Rightarrow> DeviceEvent list list" where
  "loadMore fetch isFetchingNextPage pages =
     (if hasNextPage pages \<and> \<not> isFetchingNextPage then fetchNextPage fetch pages else pages)"

definition sheet_request :: "string \<Rightarrow> number option \<Rightarrow> api_request" where
  "sheet_request deviceId pageParam = listDeviceEvents deviceId (Some (of_nat ACTIVITY_PAGE_SIZE)) pageParam"

definition sheet_events :: "DeviceEvent list list \<Rightarrow> DeviceEvent list" where
  "sheet_events pages = concat pages"

section \<open>Rows\<close>

datatype EventTone = Tone_online | Tone_offline | Tone_warning | Tone_information | Tone_plain

record ActionSpec =
  as_label :: string
  as_tone :: EventTone

definition ACTION_CATALOG :: "(string \<times> ActionSpec) list" where
  "ACTION_CATALOG =
     [(''device.created'', \<lparr>as_label = ''Device created'', as_tone = Tone_information\<rparr>),
      (''device.online'', \<lparr>as_label = ''Came online'', as_tone = Tone_online\<rparr>),
      (''device.reconnected'', \<lparr>as_label = ''Reconnected'', as_tone = Tone_online\<rparr>),
      (''device.offline'', \<lparr>as_label = ''Went offline'', as_tone = Tone_offline\<rparr>),
      (''device.paused'', \<lparr>as_label = ''Paused'', as_tone = Tone_warning\<rparr>),
      (''device.unpaused'', \<lparr>as_label = ''Resumed'', as_tone = Tone_online\<rparr>),
      (''device.revoked'', \<lparr>as_label = ''Revoked'', as_tone = Tone_warning\<rparr>),
      (''device.updated'', \<lparr>as_label = ''Settings updated'', as_tone = Tone_information\<rparr>),
      (''device.keys_rotated'', \<lparr>as_label = ''Keys rotated'', as_tone = Tone_information\<rparr>),
      (''device.conf_redownloaded'', \<lparr>as_label = ''Config re-downloaded'', as_tone = Tone_plain\<rparr>),
      (''device.stored_key_cleared'', \<lparr>as_label = ''Stored private key cleared'', as_tone = Tone_warning\<rparr>),
      (''device.reordered'', \<lparr>as_label = ''Re-ordered in list'', as_tone = Tone_plain\<rparr>)]"

definition actionSpec :: "string \<Rightarrow> ActionSpec" where
  "actionSpec action =
     (case map_of ACTION_CATALOG action of Some s \<Rightarrow> s | None \<Rightarrow> \<lparr>as_label = action, as_tone = Tone_plain\<rparr>)"

fun TONE_DOT :: "EventTone \<Rightarrow> string" where
  "TONE_DOT Tone_online = ''bg-status-online''"
| "TONE_DOT Tone_offline = ''bg-foreground/40''"
| "TONE_DOT Tone_warning = ''bg-status-degraded''"
| "TONE_DOT Tone_information = ''bg-primary''"
| "TONE_DOT Tone_plain = ''bg-muted-foreground''"

text \<open>What is shown of an event's metadata: a line, a toggle for the whole record, or nothing.\<close>

datatype metadata_view = Meta_line string | Meta_details | Meta_none

definition EventMetadata :: "string \<Rightarrow> (string \<times> json) list \<Rightarrow> metadata_view" where
  "EventMetadata action metadata =
     (if action = ''device.paused'' \<or> action = ''device.unpaused'' then
        (case map_of metadata ''to'' of Some (JStr to) \<Rightarrow> Meta_line (''now '' @ to) | _ \<Rightarrow> Meta_none)
      else if action = ''device.updated'' then (if metadata = [] then Meta_none else Meta_details)
      else Meta_none)"

definition isTransition :: "string \<Rightarrow> bool" where
  "isTransition a \<longleftrightarrow> a = ''device.online'' \<or> a = ''device.offline''"

text \<open>The entries of \<open>computeTransitionDurations\<close>: seconds and whether the device was online.\<close>

definition transition_duration :: "(string \<Rightarrow> jsnum) \<Rightarrow> DeviceEvent \<Rightarrow> DeviceEvent option \<Rightarrow> (number \<times> bool) option" where
  "transition_duration parse ev prev =
     (case prev of
        None \<Rightarrow> None
      | Some pr \<Rightarrow>
          if \<not> isTransition (de_action ev) \<or> \<not> isTransition (de_action pr) then None
          else case (parse (de_created_at ev), parse (de_created_at pr)) of
            (Fin t, Fin s) \<Rightarrow>
              (let elapsed = (t - s) / 1000 in
               if elapsed \<le> 0 then None else Some (elapsed, de_action pr = ''device.online''))
          | _ \<Rightarrow> None)"

definition computeTransitionDurations :: "(string \<Rightarrow> jsnum) \<Rightarrow> DeviceEvent list \<Rightarrow> (number \<times> bool) option list" where
  "computeTransitionDurations parse events =
     map (\<lambda>i. transition_duration parse (events ! i) (if i + 1 < length events then Some (events ! (i + 1)) else None))
       [0..<length events]"

definition device_formatDuration :: "number \<Rightarrow> string" where
  "device_formatDuration secs =
     (if secs < 60 then int_dec (Math_round secs) @ ''s''
      else
        let m = Math_round (secs / 60) in
        if m < 60 then int_dec m @ ''m''
        else
          let h = m div 60; remM = m mod 60 in
          if h < 24 then (if remM > 0 then int_dec h @ ''h '' @ int_dec remM @ ''m'' else int_dec h @ ''h'')
          else
            let d = h div 24; remH = h mod 24 in
            if remH > 0 then int_dec d @ ''d '' @ int_dec remH @ ''h'' else int_dec d @ ''d'')"

text \<open>\<open>formatDayLabel\<close> at the current time \<open>now\<close>, in the time zone \<open>tza\<close> with the preferences \<open>prefs\<close>; \<open>None\<close>
  where \<open>toISOString\<close> would throw.\<close>

definition formatDayLabel ::
  "number \<Rightarrow> (string \<Rightarrow> int option) \<Rightarrow> (int \<Rightarrow> int) \<Rightarrow> datetime_prefs \<Rightarrow> string \<Rightarrow> string option" where
  "formatDayLabel now parse tza prefs day = do {
     today \<leftarrow> toISOString now;
     yesterday \<leftarrow> toISOString (now - 24 * 60 * 60 * 1000);
     Some (if day = take 10 today then ''Today'' else if day = take 10 yesterday then ''Yesterday''
           else formatDate parse tza prefs (DV_string day))
   }"

definition event_day :: "DeviceEvent \<Rightarrow> string" where
  "event_day ev = take 10 (de_created_at ev)"

definition showDay :: "DeviceEvent list \<Rightarrow> nat \<Rightarrow> bool" where
  "showDay events i \<longleftrightarrow> i = 0 \<or> event_day (events ! i) \<noteq> event_day (events ! (i - 1))"

section \<open>The pager reaches the whole log\<close>

text \<open>What a newest-first feed with a cursor promises, and what a client gets from it.\<close>

locale cursor_feed =
  fixes key :: "'e \<Rightarrow> 'k :: linorder"
    and page :: nat
    and serve :: "'e list \<Rightarrow> 'k option \<Rightarrow> 'e list"
  assumes page_pos: "0 < page"
    and serve_first: "serve feed None = take page feed"
    and serve_before: "serve feed (Some k) = take page (filter (\<lambda>e. key e < k) feed)"
begin

lemma filter_older:
  assumes "sorted_wrt (\<lambda>a b. key b < key a) feed" and "i < length feed"
  shows "filter (\<lambda>e. key e < key (feed ! i)) feed = drop (Suc i) feed"
proof -
  have "key (feed ! i) \<le> key (feed ! j)" if "j < Suc i" for j
    using assms that by (cases "j = i") (auto simp: sorted_wrt_iff_nth_less less_imp_le)
  then have "filter (\<lambda>e. key e < key (feed ! i)) (take (Suc i) feed) = []"
    using assms(2) by (auto simp: filter_empty_conv in_set_conv_nth not_less)
  moreover have "filter (\<lambda>e. key e < key (feed ! i)) (drop (Suc i) feed) = drop (Suc i) feed"
    using assms by (auto simp: filter_id_conv in_set_conv_nth sorted_wrt_iff_nth_less)
  moreover have "feed = take (Suc i) feed @ drop (Suc i) feed" by simp
  ultimately show ?thesis by (metis append_Nil filter_append)
qed

lemma serve_after:
  assumes "sorted_wrt (\<lambda>a b. key b < key a) feed" and "0 < n" and "n \<le> length feed"
  shows "serve feed (Some (key (feed ! (n - 1)))) = take page (drop n feed)"
  using filter_older [OF assms(1), of "n - 1"] assms by (simp add: serve_before)

end

text \<open>The server's list operation: up to a page of the events older than the cursor, newest first.\<close>

definition server_events :: "DeviceEvent list \<Rightarrow> number option \<Rightarrow> DeviceEvent list" where
  "server_events feed before =
     take ACTIVITY_PAGE_SIZE (case before of None \<Rightarrow> feed | Some k \<Rightarrow> filter (\<lambda>e. de_id e < k) feed)"

interpretation events: cursor_feed de_id ACTIVITY_PAGE_SIZE server_events
  by unfold_locales (simp_all add: server_events_def ACTIVITY_PAGE_SIZE_def)

text \<open>After \<open>m\<close> pages the sheet holds the first \<open>m\<close> pages' worth of the feed.\<close>

definition events_paged :: "DeviceEvent list \<Rightarrow> nat \<Rightarrow> DeviceEvent list list \<Rightarrow> bool" where
  "events_paged feed m pages \<longleftrightarrow> length pages = m \<and> 0 < m \<and> concat pages = take (ACTIVITY_PAGE_SIZE * m) feed \<and>
     last pages = take ACTIVITY_PAGE_SIZE (drop (ACTIVITY_PAGE_SIZE * (m - 1)) feed)"

lemma paged_next:
  assumes "events_paged feed m pages"
  shows "hasNextPage pages \<longleftrightarrow> ACTIVITY_PAGE_SIZE * m \<le> length feed"
    and "hasNextPage pages \<Longrightarrow> getNextPageParam (last pages) = Some (de_id (feed ! (ACTIVITY_PAGE_SIZE * m - 1)))"
proof -
  have m: "0 < m" "pages \<noteq> []" "last pages = take ACTIVITY_PAGE_SIZE (drop (ACTIVITY_PAGE_SIZE * (m - 1)) feed)"
    using assms by (auto simp: events_paged_def)
  have idx: "ACTIVITY_PAGE_SIZE * (m - 1) + ACTIVITY_PAGE_SIZE = ACTIVITY_PAGE_SIZE * m"
    using m(1) by (cases m) simp_all
  show more: "hasNextPage pages \<longleftrightarrow> ACTIVITY_PAGE_SIZE * m \<le> length feed"
    using m idx events.page_pos by (auto simp: hasNextPage_def getNextPageParam_def)
  show "getNextPageParam (last pages) = Some (de_id (feed ! (ACTIVITY_PAGE_SIZE * m - 1)))" if "hasNextPage pages"
  proof -
    have le: "ACTIVITY_PAGE_SIZE * m \<le> length feed" using more that by simp
    then have "length (last pages) = ACTIVITY_PAGE_SIZE" using m idx by simp
    moreover have "last pages ! (ACTIVITY_PAGE_SIZE - 1) = feed ! (ACTIVITY_PAGE_SIZE * (m - 1) + (ACTIVITY_PAGE_SIZE - 1))"
      using m(3) le idx events.page_pos by (simp add: nth_drop)
    moreover have "ACTIVITY_PAGE_SIZE * (m - 1) + (ACTIVITY_PAGE_SIZE - 1) = ACTIVITY_PAGE_SIZE * m - 1"
      using idx events.page_pos by linarith
    ultimately show ?thesis by (simp add: getNextPageParam_def)
  qed
qed

lemma paged_step:
  assumes "sorted_wrt (\<lambda>a b. de_id b < de_id a) feed" and "events_paged feed m pages" and "hasNextPage pages"
  shows "events_paged feed (Suc m) (fetchNextPage (server_events feed) pages)"
proof -
  have le: "ACTIVITY_PAGE_SIZE * m \<le> length feed" and pos: "0 < ACTIVITY_PAGE_SIZE * m" and ne: "pages \<noteq> []"
    using paged_next(1) [OF assms(2)] assms(2,3) events.page_pos by (auto simp: events_paged_def)
  have "fetchNextPage (server_events feed) pages = pages @ [take ACTIVITY_PAGE_SIZE (drop (ACTIVITY_PAGE_SIZE * m) feed)]"
    using ne events.serve_after [OF assms(1) pos le] by (simp add: fetchNextPage_def paged_next(2) [OF assms(2,3)])
  then show ?thesis
    using assms(2) take_add [of "ACTIVITY_PAGE_SIZE * m" ACTIVITY_PAGE_SIZE feed] by (simp add: events_paged_def add.commute)
qed

text \<open>
  C31: scrolling to the end shows the whole feed: against a server that serves the events older than the cursor newest
  first, \<open>k\<close> loads after the first page the sheet shows exactly the \<open>30 \<sqdot> (k + 1)\<close> newest events in order, a
  further load is offered exactly when that many events exist, and after \<open>length feed div 30\<close> loads the sheet
  shows the feed completely and stops loading.
\<close>

theorem activity_sheet_complete:
  assumes "sorted_wrt (\<lambda>a b. de_id b < de_id a) feed" and "fetch = server_events feed"
  shows "(let pages = ((loadMore fetch False) ^^ k) [fetch None] in
      sheet_events pages = take (ACTIVITY_PAGE_SIZE * (k + 1)) feed \<and>
      (hasNextPage pages \<longleftrightarrow> ACTIVITY_PAGE_SIZE * (k + 1) \<le> length feed)) \<and>
    (let pages = ((loadMore fetch False) ^^ (length feed div ACTIVITY_PAGE_SIZE)) [fetch None] in
      sheet_events pages = feed \<and> \<not> hasNextPage pages)"
proof -
  have run: "\<exists>m. events_paged feed m (((loadMore fetch False) ^^ k) [fetch None]) \<and> m \<le> k + 1 \<and>
      (m = k + 1 \<or> length feed < ACTIVITY_PAGE_SIZE * m)" for k
  proof (induction k)
    case 0
    have "events_paged feed 1 [fetch None]" by (simp add: events_paged_def assms(2) events.serve_first)
    then show ?case by auto
  next
    case (Suc k)
    let ?pages = "((loadMore fetch False) ^^ k) [fetch None]"
    obtain m where m: "events_paged feed m ?pages" "m \<le> k + 1" "m = k + 1 \<or> length feed < ACTIVITY_PAGE_SIZE * m"
      using Suc by blast
    show ?case
    proof (cases "hasNextPage ?pages")
      case True
      then have "events_paged feed (Suc m) (((loadMore fetch False) ^^ Suc k) [fetch None])" "m = k + 1"
        using paged_step [OF assms(1) m(1) True] paged_next(1) [OF m(1)] m(3) by (auto simp: loadMore_def assms(2))
      then show ?thesis by auto
    next
      case False
      then have "((loadMore fetch False) ^^ Suc k) [fetch None] = ?pages" by (simp add: loadMore_def)
      then show ?thesis using m False paged_next(1) [OF m(1)] by (intro exI [of _ m]) auto
    qed
  qed
  have at: "sheet_events (((loadMore fetch False) ^^ k) [fetch None]) = take (ACTIVITY_PAGE_SIZE * (k + 1)) feed \<and>
      (hasNextPage (((loadMore fetch False) ^^ k) [fetch None]) \<longleftrightarrow> ACTIVITY_PAGE_SIZE * (k + 1) \<le> length feed)" for k
  proof -
    obtain m where m: "events_paged feed m (((loadMore fetch False) ^^ k) [fetch None])" "m \<le> k + 1"
      "m = k + 1 \<or> length feed < ACTIVITY_PAGE_SIZE * m" using run by blast
    have "ACTIVITY_PAGE_SIZE * m \<le> ACTIVITY_PAGE_SIZE * (k + 1)" using m(2) by (rule mult_le_mono2)
    then show ?thesis using m paged_next(1) [OF m(1)] by (auto simp: events_paged_def sheet_events_def)
  qed
  have "length feed < ACTIVITY_PAGE_SIZE * (length feed div ACTIVITY_PAGE_SIZE + 1)"
    using dividend_less_div_times [OF events.page_pos, of "length feed"] by (simp add: algebra_simps)
  then show ?thesis using at [of k] at [of "length feed div ACTIVITY_PAGE_SIZE"] by (simp add: Let_def)
qed


theorem activity_sheet_complete_witness:
  "let pages = ((loadMore (server_events [\<lparr>de_id = 2, de_action = [], de_metadata = JNull, de_created_at = []\<rparr>,
       \<lparr>de_id = 1, de_action = [], de_metadata = JNull, de_created_at = []\<rparr>]) False) ^^ 3)
       [server_events [\<lparr>de_id = 2, de_action = [], de_metadata = JNull, de_created_at = []\<rparr>,
       \<lparr>de_id = 1, de_action = [], de_metadata = JNull, de_created_at = []\<rparr>] None]
   in map de_id (sheet_events pages) = [2, 1] \<and> \<not> hasNextPage pages"
  using activity_sheet_complete [of "[\<lparr>de_id = 2, de_action = [], de_metadata = JNull, de_created_at = []\<rparr>,
       \<lparr>de_id = 1, de_action = [], de_metadata = JNull, de_created_at = []\<rparr>]" _ 3]
  by (simp add: Let_def ACTIVITY_PAGE_SIZE_def)

section \<open>Times between transitions\<close>

lemma computeTransitionDurations_Cons:
  "computeTransitionDurations parse (e # f # es) =
     transition_duration parse e (Some f) # computeTransitionDurations parse (f # es)"
  "computeTransitionDurations parse [e] = [None]"
  "computeTransitionDurations parse [] = []"
proof -
  have "[0..<length (e # f # es)] = 0 # map Suc [0..<length (f # es)]" by (simp add: upt_conv_Cons map_Suc_upt del: upt_Suc)
  then show "computeTransitionDurations parse (e # f # es) =
     transition_duration parse e (Some f) # computeTransitionDurations parse (f # es)"
    by (simp add: computeTransitionDurations_def o_def del: upt_Suc)
qed (simp_all add: computeTransitionDurations_def transition_duration_def)

definition duration_secs :: "(number \<times> bool) option \<Rightarrow> number" where
  "duration_secs d = (case d of None \<Rightarrow> 0 | Some (s, _) \<Rightarrow> s)"

text \<open>
  the times shown between transitions add up: for a log of online and offline transitions with times strictly
  decreasing, every entry but the oldest shows the time since the entry below it, in the state that entry
  recorded, and the times shown sum to the time between the newest and the oldest entry.
\<close>

theorem transition_times_add_up:
  assumes "evs \<noteq> []" and "list_all (\<lambda>e. isTransition (de_action e) \<and> parse (de_created_at e) = Fin (t e)) evs"
    and "sorted_wrt (\<lambda>a b. t b < t a) evs"
  shows "sum_list (map duration_secs (computeTransitionDurations parse evs)) = (t (hd evs) - t (last evs)) / 1000 \<and>
    (\<forall>i. Suc i < length evs \<longrightarrow> computeTransitionDurations parse evs ! i =
       Some ((t (evs ! i) - t (evs ! Suc i)) / 1000, de_action (evs ! Suc i) = ''device.online''))"
  using assms
proof (induction evs rule: induct_list012)
  case (3 e f es)
  have d: "transition_duration parse e (Some f) = Some ((t e - t f) / 1000, de_action f = ''device.online'')"
    using 3(4,5) by (simp add: transition_duration_def Let_def)
  have IH: "sum_list (map duration_secs (computeTransitionDurations parse (f # es))) = (t f - t (last (f # es))) / 1000"
    "\<forall>i. Suc i < length (f # es) \<longrightarrow> computeTransitionDurations parse (f # es) ! i =
       Some ((t ((f # es) ! i) - t ((f # es) ! Suc i)) / 1000, de_action ((f # es) ! Suc i) = ''device.online'')"
    using 3(2) 3(4,5) by simp_all
  have "sum_list (map duration_secs (computeTransitionDurations parse (e # f # es))) =
      (t e - t f) / 1000 + (t f - t (last (f # es))) / 1000"
    using IH(1) by (simp add: computeTransitionDurations_Cons d duration_secs_def)
  also have "\<dots> = (t e - t (last (f # es))) / 1000" by (simp add: diff_divide_distrib)
  finally show ?case
    using IH(2) d by (auto simp: computeTransitionDurations_Cons nth_Cons' less_Suc_eq_0_disj gr0_conv_Suc)
qed (simp_all add: computeTransitionDurations_Cons duration_secs_def)

theorem transition_times_add_up_witness:
  "computeTransitionDurations (\<lambda>s. Fin (if s = ''b'' then 5000 else 0))
     [\<lparr>de_id = 2, de_action = ''device.offline'', de_metadata = JNull, de_created_at = ''b''\<rparr>,
      \<lparr>de_id = 1, de_action = ''device.online'', de_metadata = JNull, de_created_at = ''a''\<rparr>] ! 0 = Some (5, True)"
  using transition_times_add_up [of "[\<lparr>de_id = 2, de_action = ''device.offline'', de_metadata = JNull, de_created_at = ''b''\<rparr>,
      \<lparr>de_id = 1, de_action = ''device.online'', de_metadata = JNull, de_created_at = ''a''\<rparr>]"
      "\<lambda>s. Fin (if s = ''b'' then 5000 else 0)" "\<lambda>e. if de_created_at e = ''b'' then 5000 else 0"]
  by (simp add: isTransition_def)

section \<open>Day labels\<close>

text \<open>
  the day above an event can be the wrong one: \<open>formatDayLabel\<close> prints the UTC day of an event in the local time
  zone, so five hours west of UTC an event of 5 January 2026, shown later that month, is filed under 4 January.
\<close>

theorem day_label_off_by_one:
  "formatDayLabel 1768478400000 (\<lambda>s. if s = ''2026-01-05'' then Some 1767571200000 else None) (\<lambda>_. -18000000)
     initial_prefs (event_day \<lparr>de_id = 1, de_action = ''device.online'', de_metadata = JNull, de_created_at = ''2026-01-05T12:00:00Z''\<rparr>)
   = Some ''2026-01-04''"
proof -
  have "iso_of_time 1768478400000 = ''2026-01-15T12:00:00.000Z''" "iso_of_time 1768392000000 = ''2026-01-14T12:00:00.000Z''"
    by code_simp+
  moreover have "formatDateWith (\<lambda>s. Some 1767571200000) (\<lambda>_. -18000000) (DV_string ''2026-01-05'') Date_iso = ''2026-01-04''"
    by code_simp
  ultimately show ?thesis
    by (simp add: formatDayLabel_def toISOString_def time_clip_def event_day_def formatDate_def initial_prefs_def formatDateWith_def toDate_def)
qed

end
