(* ===== verification/Device_Page.thy ===== *)
theory Device_Page
  imports Device_Activity Add_Device
begin

text \<open>
  The device page, src/web/src/pages/app/DeviceDetail.tsx: its dialogs, the controls it offers in each device status, its
  mutations and the configuration it shows and offers for download.
\<close>

section \<open>State\<close>

text \<open>The open dialogs, the rotated configuration still to be shown, and the cached entry \<open>["device", id, "conf"]\<close>.\<close>

record device_page =
  dp_revokeOpen :: bool
  dp_pauseOpen :: bool
  dp_unpauseOpen :: bool
  dp_configOpen :: bool
  dp_rotateConfirmOpen :: bool
  dp_rotated :: "CreatedDevice option"
  dp_renameOpen :: bool
  dp_activityOpen :: bool
  dp_conf :: "CreatedDevice option"

definition device_page_init :: device_page where
  "device_page_init =
     \<lparr>dp_revokeOpen = False, dp_pauseOpen = False, dp_unpauseOpen = False, dp_configOpen = False,
      dp_rotateConfirmOpen = False, dp_rotated = None, dp_renameOpen = False, dp_activityOpen = False, dp_conf = None\<rparr>"

section \<open>Mutations\<close>

datatype device_mutation = D_pause | D_unpause | D_rotate | D_delete

fun device_request :: "string \<Rightarrow> device_mutation \<Rightarrow> api_request" where
  "device_request i D_pause = pauseDevice i"
| "device_request i D_unpause = unpauseDevice i"
| "device_request i D_rotate = rotateDeviceKeys i"
| "device_request i D_delete = deleteDevice i"

definition device_refetch :: "string \<Rightarrow> page_effect list" where
  "device_refetch i = [Invalidated [''device'', i], Invalidated [''devices'']]"

definition rotate_success :: "string \<Rightarrow> CreatedDevice \<Rightarrow> device_page \<Rightarrow> device_page \<times> page_effect list" where
  "rotate_success i data p =
     (let p' = p\<lparr>dp_rotateConfirmOpen := False, dp_conf := Some data\<rparr> in
      (if \<not> dp_configOpen p then p'\<lparr>dp_rotated := Some data\<rparr> else p',
       device_refetch i @ [Toast_success (''Keys rotated '' @ em_dash @ '' save the new config'')]))"

text \<open>The success handlers; only rotation uses the response.\<close>

fun device_success :: "string \<Rightarrow> CreatedDevice \<Rightarrow> device_mutation \<Rightarrow> device_page \<Rightarrow> device_page \<times> page_effect list" where
  "device_success i data D_pause p = (p\<lparr>dp_pauseOpen := False\<rparr>, device_refetch i @ [Toast_info ''Device paused''])"
| "device_success i data D_unpause p = (p\<lparr>dp_unpauseOpen := False\<rparr>, device_refetch i @ [Toast_success ''Device active''])"
| "device_success i data D_rotate p = rotate_success i data p"
| "device_success i data D_delete p =
     (p, [Invalidated [''devices''], Toast_warning ''Device revoked'', Navigated ''/app/devices''])"

definition device_error :: "ApiError option \<Rightarrow> page_effect list" where
  "device_error e = (case e of Some a \<Rightarrow> [Toast_error (ae_message a)] | None \<Rightarrow> [])"

section \<open>Controls\<close>

datatype device_control =
    K_edit | K_open_pause | K_open_unpause | K_open_config | K_open_revoke | K_open_activity | K_reissue | K_reissue_slot
  | K_confirm_pause | K_confirm_unpause | K_confirm_rotate | K_confirm_revoke string
  | K_close_edit | K_close_pause | K_close_unpause | K_close_config | K_close_revoke | K_close_rotate | K_close_rotated
  | K_close_activity

definition offer :: "bool \<Rightarrow> 'a \<Rightarrow> 'a option" where
  "offer g x = (if g then Some x else None)"

text \<open>\<open>device_pressed d n fl p k\<close>: the effect of control \<open>k\<close> for device \<open>d\<close> with \<open>n\<close> activity entries while the mutations
  \<open>fl\<close> are in flight; \<open>None\<close> when it is not shown or disabled.\<close>

fun device_pressed ::
  "PublicDevice \<Rightarrow> nat \<Rightarrow> device_mutation set \<Rightarrow> device_page \<Rightarrow> device_control \<Rightarrow> (device_page \<times> device_mutation option) option" where
  "device_pressed d n fl p K_edit = offer (pd_status d \<noteq> Dev_revoked) (p\<lparr>dp_renameOpen := True\<rparr>, None)"
| "device_pressed d n fl p K_open_pause =
     offer (pd_status d = Dev_active \<and> D_pause \<notin> fl) (p\<lparr>dp_pauseOpen := True\<rparr>, None)"
| "device_pressed d n fl p K_open_unpause =
     offer (pd_status d = Dev_paused \<and> D_unpause \<notin> fl) (p\<lparr>dp_unpauseOpen := True\<rparr>, None)"
| "device_pressed d n fl p K_open_config = offer (pd_status d \<noteq> Dev_revoked) (p\<lparr>dp_configOpen := True\<rparr>, None)"
| "device_pressed d n fl p K_open_revoke = offer (pd_status d \<noteq> Dev_revoked) (p\<lparr>dp_revokeOpen := True\<rparr>, None)"
| "device_pressed d n fl p K_open_activity = offer (n > 0) (p\<lparr>dp_activityOpen := True\<rparr>, None)"
| "device_pressed d n fl p K_reissue =
     offer (dp_configOpen p \<and> D_rotate \<notin> fl) (p\<lparr>dp_rotateConfirmOpen := True\<rparr>, None)"
| "device_pressed d n fl p K_reissue_slot =
     offer (dp_configOpen p \<and> (case dp_conf p of Some c \<Rightarrow> cd_config c \<noteq> [] \<and> cd_qr_svg c = [] | None \<Rightarrow> False))
       (p\<lparr>dp_rotateConfirmOpen := True\<rparr>, None)"
| "device_pressed d n fl p K_confirm_pause = offer (dp_pauseOpen p \<and> D_pause \<notin> fl) (p, Some D_pause)"
| "device_pressed d n fl p K_confirm_unpause = offer (dp_unpauseOpen p \<and> D_unpause \<notin> fl) (p, Some D_unpause)"
| "device_pressed d n fl p K_confirm_rotate = offer (dp_rotateConfirmOpen p \<and> D_rotate \<notin> fl) (p, Some D_rotate)"
| "device_pressed d n fl p (K_confirm_revoke typed) =
     offer (dp_revokeOpen p \<and> (pd_name d = [] \<or> trim typed = trim (pd_name d)) \<and> D_delete \<notin> fl) (p, Some D_delete)"
| "device_pressed d n fl p K_close_edit = Some (p\<lparr>dp_renameOpen := False\<rparr>, None)"
| "device_pressed d n fl p K_close_pause = Some (p\<lparr>dp_pauseOpen := False\<rparr>, None)"
| "device_pressed d n fl p K_close_unpause = Some (p\<lparr>dp_unpauseOpen := False\<rparr>, None)"
| "device_pressed d n fl p K_close_config = Some (p\<lparr>dp_configOpen := False\<rparr>, None)"
| "device_pressed d n fl p K_close_revoke = Some (p\<lparr>dp_revokeOpen := False\<rparr>, None)"
| "device_pressed d n fl p K_close_rotate = Some (p\<lparr>dp_rotateConfirmOpen := False\<rparr>, None)"
| "device_pressed d n fl p K_close_rotated = Some (p\<lparr>dp_rotated := None\<rparr>, None)"
| "device_pressed d n fl p K_close_activity = Some (p\<lparr>dp_activityOpen := False\<rparr>, None)"

section \<open>Configuration\<close>

definition KEEPALIVE_SECS :: nat where
  "KEEPALIVE_SECS = 30"

definition allowedIpsForDisplay :: string where
  "allowedIpsForDisplay = ''0.0.0.0/0, ::/0''"

definition page_endpoint :: "MyServerInfo option \<Rightarrow> string" where
  "page_endpoint server =
     (case server of None \<Rightarrow> [] | Some s \<Rightarrow> msi_endpoint_host s @ '':'' @ num_string (msi_endpoint_port s))"

definition renderWgConf :: "string \<Rightarrow> string \<Rightarrow> string \<Rightarrow> string" where
  "renderWgConf allocated_ip allowed endpoint =
     join_with [CHR 0x0A]
       [''[Interface]'',
        ''PrivateKey = (held on device '' @ em_dash @ '' not stored)'',
        ''Address    = '' @ allocated_ip @ ''/32'',
        '''',
        ''[Peer]'',
        ''PublicKey            = (server public key)'',
        ''AllowedIPs           = '' @ allowed,
        ''Endpoint             = '' @ (if endpoint = [] then ''(server endpoint)'' else endpoint),
        ''PersistentKeepalive  = '' @ nat_dec KEEPALIVE_SECS]"

definition wireguardConfigName :: "string option \<Rightarrow> string" where
  "wireguardConfigName name =
     (let safe = take 15 (filter is_alnum_lower (toLowerCase (case name of Some n \<Rightarrow> n | None \<Rightarrow> ''crimetracker-vpn'')))
      in if safe = [] then ''wireguard'' else safe)"

definition page_downloadConfig :: "string option \<Rightarrow> string \<Rightarrow> string \<times> string" where
  "page_downloadConfig name config = (wireguardConfigName name @ ''.conf'', config)"

text \<open>The configuration dialog: what it shows and what its download button saves.\<close>

definition effectiveConfig :: "device_page \<Rightarrow> string \<Rightarrow> string" where
  "effectiveConfig p placeholder = (case dp_conf p of Some c \<Rightarrow> cd_config c | None \<Rightarrow> placeholder)"

definition hasWorkingConfig :: "device_page \<Rightarrow> bool" where
  "hasWorkingConfig p \<longleftrightarrow> (case dp_conf p of Some c \<Rightarrow> cd_config c \<noteq> [] | None \<Rightarrow> False)"

definition downloadNow :: "string option \<Rightarrow> device_page \<Rightarrow> string \<Rightarrow> string \<times> string" where
  "downloadNow server_name p placeholder =
     page_downloadConfig (Some (wireguardConfigName server_name)) (effectiveConfig p placeholder)"

fun osToTab :: "DeviceOs \<Rightarrow> string" where
  "osToTab Os_ios = ''ios''"
| "osToTab Os_android = ''android''"
| "osToTab Os_macos = ''macos''"
| "osToTab Os_windows = ''windows''"
| "osToTab Os_linux = ''linux''"
| "osToTab _ = ''linux''"

definition page_formatBytes :: "number \<Rightarrow> string" where
  "page_formatBytes n =
     (if n < 1024 then num_string n @ '' B''
      else if n < 1024 ^ 2 then toFixed 1 (n / 1024) @ '' KB''
      else if n < 1024 ^ 3 then toFixed 1 (n / 1024 ^ 2) @ '' MB''
      else if n < 1024 ^ 4 then toFixed 2 (n / 1024 ^ 3) @ '' GB''
      else toFixed 2 (n / 1024 ^ 4) @ '' TB'')"

section \<open>Quota bars\<close>

datatype bar_tone = Bar_red | Bar_amber | Bar_green

definition quota_pct :: "number \<Rightarrow> number \<Rightarrow> int" where
  "quota_pct used cap = (if cap > 0 then min 100 (Math_round ((used / cap) * 100)) else 0)"

definition quota_tone :: "int \<Rightarrow> bar_tone" where
  "quota_tone pct = (if pct \<ge> 90 then Bar_red else if pct \<ge> 70 then Bar_amber else Bar_green)"

definition QuotaHalf :: "number \<Rightarrow> number \<Rightarrow> bool \<Rightarrow> string \<times> string \<times> string" where
  "QuotaHalf used cap autoPaused =
     (page_formatBytes used,
      if cap > 0 then ''/ '' @ page_formatBytes cap else ''no cap'',
      if autoPaused then ''paused'' else if cap > 0 then int_dec (quota_pct used cap) @ ''%'' else [])"

section \<open>A visit\<close>

record device_visit =
  dv_page :: device_page
  dv_flight :: "device_mutation set"
  dv_started :: "device_mutation list"

definition device_visit_init :: device_visit where
  "device_visit_init = \<lparr>dv_page = device_page_init, dv_flight = {}, dv_started = []\<rparr>"

inductive device_step :: "string \<Rightarrow> PublicDevice \<Rightarrow> device_visit \<Rightarrow> device_visit \<Rightarrow> bool" for i d where
  press: "device_pressed d n (dv_flight v) (dv_page v) k = Some (p, m) \<Longrightarrow>
    device_step i d v \<lparr>dv_page = p, dv_flight = dv_flight v \<union> set_option m, dv_started = dv_started v @ (case m of None \<Rightarrow> [] | Some x \<Rightarrow> [x])\<rparr>"
| resolved: "m \<in> dv_flight v \<Longrightarrow>
    device_step i d v (v\<lparr>dv_page := fst (device_success i data m (dv_page v)), dv_flight := dv_flight v - {m}\<rparr>)"
| rejected: "m \<in> dv_flight v \<Longrightarrow> device_step i d v (v\<lparr>dv_flight := dv_flight v - {m}\<rparr>)"
| conf_fetched: "dp_configOpen (dv_page v) \<Longrightarrow> device_step i d v (v\<lparr>dv_page := (dv_page v)\<lparr>dp_conf := Some data\<rparr>\<rparr>)"

inductive device_visited :: "string \<Rightarrow> PublicDevice set \<Rightarrow> device_visit \<Rightarrow> bool" for i D where
  start: "device_visited i D device_visit_init"
| step: "device_visited i D v \<Longrightarrow> d \<in> D \<Longrightarrow> device_step i d v w \<Longrightarrow> device_visited i D w"

text \<open>With a revoked device no dialog that changes it opens and nothing is in flight.\<close>

definition quiet :: "device_visit \<Rightarrow> bool" where
  "quiet v \<longleftrightarrow> \<not> dp_pauseOpen (dv_page v) \<and> \<not> dp_unpauseOpen (dv_page v) \<and> \<not> dp_configOpen (dv_page v) \<and>
     \<not> dp_rotateConfirmOpen (dv_page v) \<and> \<not> dp_revokeOpen (dv_page v) \<and> \<not> dp_renameOpen (dv_page v) \<and>
     dv_flight v = {} \<and> dv_started v = []"

lemma quiet_press:
  assumes "device_pressed d n (dv_flight v) (dv_page v) k = Some (p, m)" and "pd_status d = Dev_revoked" and "quiet v"
  shows "m = None \<and> quiet (v\<lparr>dv_page := p\<rparr>)"
  using assms by (cases k) (auto simp: offer_def quiet_def split: if_splits)

lemma quiet_step: "device_step i d v w \<Longrightarrow> pd_status d = Dev_revoked \<Longrightarrow> quiet v \<Longrightarrow> quiet w"
proof (induction rule: device_step.cases)
  case (press n v k p m)
  with quiet_press [OF press(3)] show ?case by (auto simp: quiet_def)
qed (auto simp: quiet_def)

text \<open>
  a revoked device is left alone: during a visit in which the device is revoked, whatever is pressed, no request that
  pauses, resumes, re-keys or revokes it is started, and the edit dialog does not open.
\<close>

theorem revoked_device_untouched:
  assumes "device_visited i D v" and "\<forall>d\<in>D. pd_status d = Dev_revoked"
  shows "dv_started v = [] \<and> \<not> dp_renameOpen (dv_page v)"
proof -
  have "quiet v"
    using assms(1)
  proof induction
    case start
    then show ?case by (simp add: quiet_def device_visit_init_def device_page_init_def)
  next
    case (step v d w)
    then show ?case using assms(2) quiet_step [OF step.hyps(3)] by blast
  qed
  then show ?thesis by (simp add: quiet_def)
qed

theorem revoked_device_untouched_witness:
  "dv_started device_visit_init = [] \<and> \<not> dp_renameOpen (dv_page device_visit_init)"
  using revoked_device_untouched [OF device_visited.start [of "[]" "{}"]] by simp

text \<open>
  fresh keys always reach the user: when a rotation succeeds, the confirmation closes and the new configuration is
  either the one the open configuration dialog shows and its button downloads, under a valid name, or it is
  shown in a dialog of its own.
\<close>

theorem rotated_config_shown:
  "let p' = fst (device_success i data D_rotate p) in
   \<not> dp_rotateConfirmOpen p' \<and>
   (if dp_configOpen p
    then dp_configOpen p' \<and> effectiveConfig p' placeholder = cd_config data \<and>
      downloadNow server_name p' placeholder = (wireguardConfigName (Some (wireguardConfigName server_name)) @ ''.conf'', cd_config data)
    else dp_rotated p' = Some data)"
  by (simp add: rotate_success_def Let_def effectiveConfig_def downloadNow_def page_downloadConfig_def)

section \<open>Configuration names\<close>

lemma toLowerCase_alnum: "list_all is_alnum_lower s \<Longrightarrow> toLowerCase s = s"
  by (induction s) (auto simp: toLowerCase_def char_lower_def is_alnum_lower_def is_digit_def)

lemma config_name_alnum: "list_all is_alnum_lower (wireguardConfigName name)" "wireguardConfigName name \<noteq> []"
  "length (wireguardConfigName name) \<le> 15"
  by (auto simp: wireguardConfigName_def Let_def list_all_iff is_alnum_lower_def dest: in_set_takeD split: option.splits)

text \<open>
  every downloaded configuration has a name WireGuard accepts: for any server name, or none, the name is 1 to 15
  lower-case letters and digits; deriving it again changes nothing, so the file name does not depend on
  whether the caller has already derived it; and both the page and the add dialog save under the same name.
\<close>

theorem config_name_valid:
  "1 \<le> length (wireguardConfigName name) \<and> length (wireguardConfigName name) \<le> 15 \<and>
   list_all is_alnum_lower (wireguardConfigName name) \<and>
   wireguardConfigName (Some (wireguardConfigName name)) = wireguardConfigName name \<and>
   fst (page_downloadConfig name conf) = download_name name"
proof -
  have n: "list_all is_alnum_lower (wireguardConfigName name)" "wireguardConfigName name \<noteq> []" "length (wireguardConfigName name) \<le> 15"
    by (rule config_name_alnum)+
  then have "wireguardConfigName (Some (wireguardConfigName name)) = wireguardConfigName name"
    by (simp add: wireguardConfigName_def [of "Some _"] toLowerCase_alnum list_all_iff Let_def filter_True)
  moreover have "fst (page_downloadConfig name conf) = download_name name"
    by (simp add: page_downloadConfig_def download_name_def wireguardConfigName_def Let_def)
  ultimately show ?thesis using n by (simp add: Suc_le_eq)
qed

section \<open>Quota bars\<close>

text \<open>
  the quota bar never leaves its frame: for a cap and non-negative usage the percentage lies between 0 and 100, is
  within half a point of the true one below the cap and 100 from there on, and the bar turns amber at 69.5 and red
  at 89.5 percent.
\<close>

theorem quota_bar_bounds:
  assumes "0 \<le> used" and "0 < cap"
  shows "0 \<le> quota_pct used cap \<and> quota_pct used cap \<le> 100 \<and>
    (used \<le> cap \<longrightarrow> \<bar>of_int (quota_pct used cap) - used / cap * 100\<bar> \<le> 1 / 2) \<and> (cap \<le> used \<longrightarrow> quota_pct used cap = 100) \<and>
    (quota_tone (quota_pct used cap) = Bar_red \<longleftrightarrow> 895 / 1000 * cap \<le> used) \<and>
    (quota_tone (quota_pct used cap) = Bar_green \<longleftrightarrow> used < 695 / 1000 * cap)"
proof -
  define x where "x = used / cap * 100"
  have x: "0 \<le> x" using assms by (simp add: x_def)
  have pct: "quota_pct used cap = min 100 (Math_round x)" using assms by (simp add: quota_pct_def x_def)
  have at: "of_int k \<le> x + 1 / 2 \<longleftrightarrow> k \<le> Math_round x" for k by (simp add: Math_round_def le_floor_iff)
  have le: "used \<le> cap \<longleftrightarrow> x \<le> 100" "cap \<le> used \<longleftrightarrow> 100 \<le> x" "895 / 1000 * cap \<le> used \<longleftrightarrow> 90 \<le> x + 1 / 2"
    "used < 695 / 1000 * cap \<longleftrightarrow> \<not> 70 \<le> x + 1 / 2"
    using assms by (auto simp: x_def field_simps)
  have err: "\<bar>of_int (Math_round x) - x\<bar> \<le> 1 / 2" by (rule Math_round_err)
  have "0 \<le> Math_round x" using x by (rule Math_round_nonneg)
  moreover have "Math_round x \<le> 100" if "x \<le> 100" using Math_round_mono [OF that] Math_round_of_int [of 100] by simp
  moreover have "100 \<le> Math_round x" if "100 \<le> x" using Math_round_mono [OF that] Math_round_of_int [of 100] by simp
  moreover have "90 \<le> x + 1 / 2 \<longleftrightarrow> 90 \<le> Math_round x" "70 \<le> x + 1 / 2 \<longleftrightarrow> 70 \<le> Math_round x"
    using at [of 90] at [of 70] by simp_all
  ultimately show ?thesis
    using err unfolding le pct quota_tone_def x_def [symmetric] by (auto simp: min_def)
qed

theorem quota_bar_bounds_witness:
  "quota_tone (quota_pct 895 1000) = Bar_red \<and> 0 \<le> quota_pct 895 1000 \<and> quota_pct 895 1000 \<le> 100"
  using quota_bar_bounds [of 895 1000] by simp

end
