(* ===== verification/Devices_Page.thy ===== *)
theory Devices_Page
  imports Device_State Page_Effect Status_Pill "HOL-Library.Multiset"
begin

text \<open>
  The device list, src/web/src/pages/app/Devices.tsx: filters and search, the counts of the header, reordering by drag in the list
  and in the grid, the optimistic update of the cached list with its rollback, and the row actions.
\<close>

section \<open>State\<close>

datatype ViewMode = View_list | View_grid

definition VIEW_MODE_KEY :: string where
  "VIEW_MODE_KEY = ''zv-devices-view-mode''"

text \<open>\<open>stored\<close> is what reading the key from local storage gives: nothing when it is absent or reading throws.\<close>

definition readViewMode :: "string option \<Rightarrow> ViewMode" where
  "readViewMode stored = (if stored = Some ''grid'' then View_grid else View_list)"

record devices_page =
  connFilter :: "ConnState list"
  peerFilter :: "PeerState list"
  search :: string
  localOrder :: "PublicDevice list option"
  dragId :: "string option"
  gridHover :: "string option"
  revokeId :: "string option"
  pauseId :: "string option"
  unpauseId :: "string option"

definition devices_page_init :: devices_page where
  "devices_page_init = \<lparr>connFilter = [], peerFilter = [], search = [], localOrder = None, dragId = None, gridHover = None,
     revokeId = None, pauseId = None, unpauseId = None\<rparr>"

section \<open>Rows\<close>

definition rowPill :: "ConnState \<Rightarrow> PeerState \<Rightarrow> Status" where
  "rowPill c p = (if p = Peer_revoked then Pill_revoked else if p = Peer_paused then Pill_paused
     else (case c of Online \<Rightarrow> Pill_online | Offline \<Rightarrow> Pill_offline))"

record row =
  row_d :: PublicDevice
  row_c :: ConnState
  row_p :: PeerState

definition effectiveDevices :: "PublicDevice list \<Rightarrow> devices_page \<Rightarrow> PublicDevice list" where
  "effectiveDevices devs p = (case localOrder p of Some o' \<Rightarrow> o' | None \<Rightarrow> devs)"

text \<open>\<open>online d\<close> is \<open>isLiveOnline\<close> of the device at the current tick.\<close>

definition decorated :: "(PublicDevice \<Rightarrow> bool) \<Rightarrow> PublicDevice list \<Rightarrow> row list" where
  "decorated online devs = map (\<lambda>d. \<lparr>row_d = d, row_c = (if online d then Online else Offline), row_p = peerState d\<rparr>) devs"

record row_counts =
  n_online :: nat
  n_offline :: nat
  n_live :: nat
  n_paused :: nat
  n_revoked :: nat

fun count_conn :: "ConnState \<Rightarrow> row_counts \<Rightarrow> row_counts" where
  "count_conn Online c = c\<lparr>n_online := n_online c + 1\<rparr>"
| "count_conn Offline c = c\<lparr>n_offline := n_offline c + 1\<rparr>"

fun count_peer :: "PeerState \<Rightarrow> row_counts \<Rightarrow> row_counts" where
  "count_peer Peer_live c = c\<lparr>n_live := n_live c + 1\<rparr>"
| "count_peer Peer_paused c = c\<lparr>n_paused := n_paused c + 1\<rparr>"
| "count_peer Peer_revoked c = c\<lparr>n_revoked := n_revoked c + 1\<rparr>"

definition counts :: "row list \<Rightarrow> row_counts" where
  "counts rows = foldl (\<lambda>c r. count_peer (row_p r) (count_conn (row_c r) c))
     \<lparr>n_online = 0, n_offline = 0, n_live = 0, n_paused = 0, n_revoked = 0\<rparr> rows"

definition row_matches :: "devices_page \<Rightarrow> row \<Rightarrow> bool" where
  "row_matches p r \<longleftrightarrow>
     (let ql = toLowerCase (trim (search p)) in
      (connFilter p = [] \<or> row_c r \<in> set (connFilter p)) \<and>
      (peerFilter p = [] \<or> row_p r \<in> set (peerFilter p)) \<and>
      (ql = [] \<or> str_includes (toLowerCase (pd_name (row_d r))) ql \<or> str_includes (pd_allocated_ip (row_d r)) ql))"

definition filtered :: "(PublicDevice \<Rightarrow> bool) \<Rightarrow> PublicDevice list \<Rightarrow> devices_page \<Rightarrow> row list" where
  "filtered online devs p = filter (row_matches p) (decorated online (effectiveDevices devs p))"

text \<open>A \<open>Set\<close> keeps its members in insertion order.\<close>

definition toggle_in :: "'a \<Rightarrow> 'a list \<Rightarrow> 'a list" where
  "toggle_in v xs = (if v \<in> set xs then removeAll v xs else xs @ [v])"

definition toggleConn :: "ConnState \<Rightarrow> devices_page \<Rightarrow> devices_page" where
  "toggleConn v p = p\<lparr>connFilter := toggle_in v (connFilter p)\<rparr>"

definition togglePeer :: "PeerState \<Rightarrow> devices_page \<Rightarrow> devices_page" where
  "togglePeer v p = p\<lparr>peerFilter := toggle_in v (peerFilter p)\<rparr>"

definition clearFilters :: "devices_page \<Rightarrow> devices_page" where
  "clearFilters p = p\<lparr>connFilter := [], peerFilter := []\<rparr>"

definition LIST_CHART_WINDOW :: nat where
  "LIST_CHART_WINDOW = 30"

text \<open>The sparkline of a row: its two traces, or the text shown instead.\<close>

definition row_chart :: "row \<Rightarrow> (number list \<times> number list) option \<Rightarrow> (number list \<times> number list) + string" where
  "row_chart r live =
     (let h = pd_last_handshake_at (row_d r) \<noteq> None; on = h \<and> row_c r = Online;
          rx = (if on then slice_last LIST_CHART_WINDOW (case live of None \<Rightarrow> [] | Some l \<Rightarrow> fst l) else []);
          tx = (if on then slice_last LIST_CHART_WINDOW (case live of None \<Rightarrow> [] | Some l \<Rightarrow> snd l) else [])
      in if on \<and> (rx \<noteq> [] \<or> tx \<noteq> []) then Inl (rx, tx)
         else Inr (if on then ''connecting'' @ ellipsis else if h then ''offline'' else ''not connected''))"

section \<open>Reordering\<close>

text \<open>The loop of \<open>onReorderFiltered\<close>: the visible slots of the base are refilled in the new order.  \<open>None\<close>: the code
  would push \<open>undefined\<close>, having more visible slots than new items.\<close>

fun merge_visible :: "string list \<Rightarrow> PublicDevice list \<Rightarrow> PublicDevice list \<Rightarrow> PublicDevice list option" where
  "merge_visible visibleIds nextFiltered [] = Some []"
| "merge_visible visibleIds nextFiltered (item # base) =
     (if pd_id item \<in> set visibleIds then
        (case nextFiltered of
           [] \<Rightarrow> None
         | x # rest \<Rightarrow> map_option ((#) x) (merge_visible visibleIds rest base))
      else map_option ((#) item) (merge_visible visibleIds nextFiltered base))"

definition onReorderFiltered :: "PublicDevice list \<Rightarrow> PublicDevice list \<Rightarrow> devices_page \<Rightarrow> devices_page option" where
  "onReorderFiltered devs nextFiltered p =
     map_option (\<lambda>merged. p\<lparr>localOrder := Some merged\<rparr>)
       (merge_visible (map pd_id nextFiltered) nextFiltered (effectiveDevices devs p))"

text \<open>Releasing the pointer: the identifiers to save, when the order changed.\<close>

definition handleDragRelease :: "PublicDevice list \<Rightarrow> devices_page \<Rightarrow> devices_page \<times> string list option" where
  "handleDragRelease devs p =
     (p\<lparr>localOrder := None, dragId := None\<rparr>,
      case localOrder p of
        None \<Rightarrow> None
      | Some next \<Rightarrow> if map pd_id next = map pd_id devs then None else Some (map pd_id next))"

text \<open>\<open>onMutate\<close> of the reorder mutation: the optimistic list.\<close>

definition reordered :: "string list \<Rightarrow> PublicDevice list \<Rightarrow> PublicDevice list" where
  "reordered ids prev =
     List.map_filter (\<lambda>i. map_of (rev (map (\<lambda>d. (pd_id d, d)) prev)) i) ids @ filter (\<lambda>d. pd_id d \<notin> set ids) prev"

definition reorder_onMutate :: "string list \<Rightarrow> PublicDevice list option \<Rightarrow> PublicDevice list option \<times> PublicDevice list option" where
  "reorder_onMutate ids cache = (map_option (reordered ids) cache, cache)"

text \<open>How the mutation settles: the cached list and the effects, from the snapshot \<open>prev\<close>.\<close>

definition reorder_settled ::
  "outcome \<Rightarrow> PublicDevice list option \<Rightarrow> PublicDevice list option \<Rightarrow> PublicDevice list option \<times> page_effect list" where
  "reorder_settled r prev cache =
     (case r of
        None \<Rightarrow> (cache, [Toast_success ''Order saved'', Invalidated [''devices'']])
      | Some _ \<Rightarrow>
          ((case prev of Some l \<Rightarrow> Some l | None \<Rightarrow> cache),
           [Toast_error (JStr ''Failed to save device order''), Invalidated [''devices'']]))"

section \<open>Dragging in the grid\<close>

record rect =
  left :: number
  right :: number
  top :: number
  bottom :: number

definition inside :: "number \<times> number \<Rightarrow> rect \<Rightarrow> bool" where
  "inside pt r \<longleftrightarrow> left r \<le> fst pt \<and> fst pt \<le> right r \<and> top r \<le> snd pt \<and> snd pt \<le> bottom r"

definition hovered_tile :: "string \<Rightarrow> number \<times> number \<Rightarrow> (string \<times> rect) list \<Rightarrow> string option" where
  "hovered_tile sourceId pt cards =
     map_option fst (find (\<lambda>(i, r). i \<noteq> sourceId \<and> inside pt r) cards)"

definition findIndex :: "('a \<Rightarrow> bool) \<Rightarrow> 'a list \<Rightarrow> nat option" where
  "findIndex P xs = (if list_ex P xs then Some (length (takeWhile (\<lambda>x. \<not> P x) xs)) else None)"

definition insert_at :: "nat \<Rightarrow> 'a \<Rightarrow> 'a list \<Rightarrow> 'a list" where
  "insert_at i x xs = take i xs @ x # drop i xs"

definition splice_tile :: "nat \<Rightarrow> nat \<Rightarrow> 'a list \<Rightarrow> 'a list" where
  "splice_tile sourceIdx targetIdx visible =
     insert_at (if sourceIdx < targetIdx then targetIdx - 1 else targetIdx) (visible ! sourceIdx)
       (take sourceIdx visible @ drop (sourceIdx + 1) visible)"

definition gridInflightReorder ::
  "(PublicDevice \<Rightarrow> bool) \<Rightarrow> PublicDevice list \<Rightarrow> (string \<times> rect) list \<Rightarrow> string \<Rightarrow> number \<times> number \<Rightarrow> devices_page \<Rightarrow> devices_page option" where
  "gridInflightReorder online devs cards sourceId pt p =
     (let hovered = hovered_tile sourceId pt cards in
      if hovered = gridHover p then Some p
      else
        let p' = p\<lparr>gridHover := hovered\<rparr> in
        case hovered of
          None \<Rightarrow> Some p'
        | Some h \<Rightarrow>
            let visible = map row_d (filtered online devs p) in
            (case (findIndex (\<lambda>d. pd_id d = sourceId) visible, findIndex (\<lambda>d. pd_id d = h) visible) of
               (Some s, Some t) \<Rightarrow>
                 if s = t then Some p' else onReorderFiltered devs (splice_tile s t visible) p'
             | _ \<Rightarrow> Some p'))"

section \<open>Row actions and dialogs\<close>

definition canPause :: "PublicDevice \<Rightarrow> bool" where
  "canPause d \<longleftrightarrow> pd_status d = Dev_active"

definition canResume :: "PublicDevice \<Rightarrow> bool" where
  "canResume d \<longleftrightarrow> pd_status d = Dev_paused"

definition canRevoke :: "PublicDevice \<Rightarrow> bool" where
  "canRevoke d \<longleftrightarrow> pd_status d \<noteq> Dev_revoked"

definition list_pauseM_success :: "devices_page \<Rightarrow> devices_page \<times> page_effect list" where
  "list_pauseM_success p = (p\<lparr>pauseId := None\<rparr>, [Invalidated [''devices''], Toast_info ''Device paused''])"

definition list_unpauseM_success :: "devices_page \<Rightarrow> devices_page \<times> page_effect list" where
  "list_unpauseM_success p = (p\<lparr>unpauseId := None\<rparr>, [Invalidated [''devices''], Toast_success ''Device active''])"

definition list_deleteM_success :: "devices_page \<Rightarrow> devices_page \<times> page_effect list" where
  "list_deleteM_success p = (p\<lparr>revokeId := None\<rparr>, [Invalidated [''devices''], Toast_warning ''Device revoked''])"

section \<open>Reordering loses nothing\<close>

lemma merge_visible_spec:
  assumes "length next = length (filter (\<lambda>d. pd_id d \<in> set ids) base)"
  shows "\<exists>m. merge_visible ids next base = Some m \<and> length m = length base \<and>
    (\<forall>i<length base. pd_id (base ! i) \<notin> set ids \<longrightarrow> m ! i = base ! i) \<and>
    mset m = mset next + mset (filter (\<lambda>d. pd_id d \<notin> set ids) base) \<and>
    (list_all (\<lambda>x. pd_id x \<in> set ids) next \<longrightarrow> filter (\<lambda>d. pd_id d \<in> set ids) m = next)"
  using assms
proof (induction base arbitrary: "next")
  case (Cons d base)
  show ?case
  proof (cases "pd_id d \<in> set ids")
    case True
    then obtain x rest where n: "next = x # rest" "length rest = length (filter (\<lambda>d. pd_id d \<in> set ids) base)"
      using Cons.prems by (cases "next") auto
    from Cons.IH [OF n(2)] show ?thesis using True n(1) by (auto simp: nth_Cons split: nat.split)
  next
    case False
    then have "length next = length (filter (\<lambda>d. pd_id d \<in> set ids) base)" using Cons.prems by simp
    from Cons.IH [OF this] show ?thesis using False by (auto simp: nth_Cons split: nat.split)
  qed
qed simp

text \<open>With distinct identifiers, the identifiers of a permutation of some rows single out just those rows.\<close>

lemma visible_ids:
  assumes "distinct (map pd_id base)" and "mset next = mset (filter P base)" and "d \<in> set base"
  shows "pd_id d \<in> set (map pd_id next) \<longleftrightarrow> P d"
proof -
  have s: "set next = set (filter P base)" using assms(2) by (metis set_mset_mset)
  show ?thesis
  proof
    assume "pd_id d \<in> set (map pd_id next)"
    then obtain e where e: "e \<in> set base" "P e" "pd_id e = pd_id d" using s by auto
    then have "e = d" using assms(1,3) by (auto simp: distinct_map dest: inj_onD)
    then show "P d" using e by simp
  qed (use s assms(3) in auto)
qed

lemma reorder_spec:
  assumes "distinct (map pd_id base)" and "mset next = mset (filter P base)"
  shows "\<exists>m. merge_visible (map pd_id next) next base = Some m \<and> mset m = mset base \<and> filter P m = next \<and>
    (\<forall>i<length base. \<not> P (base ! i) \<longrightarrow> m ! i = base ! i)"
proof -
  have f: "filter (\<lambda>d. pd_id d \<in> set (map pd_id next)) base = filter P base"
    "filter (\<lambda>d. pd_id d \<notin> set (map pd_id next)) base = filter (\<lambda>d. \<not> P d) base"
    using visible_ids [OF assms] by (auto intro!: filter_cong)
  have "length next = length (filter (\<lambda>d. pd_id d \<in> set (map pd_id next)) base)"
    unfolding f using assms(2) by (metis size_mset)
  from merge_visible_spec [OF this] obtain m where m: "merge_visible (map pd_id next) next base = Some m"
    "\<forall>i<length base. pd_id (base ! i) \<notin> set (map pd_id next) \<longrightarrow> m ! i = base ! i"
    "mset m = mset next + mset (filter (\<lambda>d. \<not> P d) base)" "filter (\<lambda>d. pd_id d \<in> set (map pd_id next)) m = next"
    unfolding f by (auto simp: list_all_iff)
  have mm: "mset m = mset base" using m(3) assms(2) by simp
  then have "set m = set base" by (metis set_mset_mset)
  then have "filter P m = next"
    using m(4) visible_ids [OF assms] by (metis (mono_tags, lifting) filter_cong)
  moreover have "\<forall>i<length base. \<not> P (base ! i) \<longrightarrow> m ! i = base ! i"
    using m(2) visible_ids [OF assms nth_mem] by blast
  ultimately show ?thesis using m(1) mm by blast
qed

lemma visible_devices:
  "map row_d (filtered online devs p) =
     filter (\<lambda>d. row_matches p \<lparr>row_d = d, row_c = (if online d then Online else Offline), row_p = peerState d\<rparr>) (effectiveDevices devs p)"
  by (simp add: filtered_def decorated_def filter_map o_def)

lemma reorder_visible:
  assumes "distinct (map pd_id (effectiveDevices devs p))"
    and "mset next = mset (map row_d (filtered online devs p))"
  shows "\<exists>p' order. onReorderFiltered devs next p = Some p' \<and> localOrder p' = Some order \<and>
    mset order = mset (effectiveDevices devs p) \<and> map row_d (filtered online devs p') = next \<and>
    (\<forall>i<length order. effectiveDevices devs p ! i \<notin> set next \<longrightarrow> order ! i = effectiveDevices devs p ! i)"
proof -
  let ?P = "\<lambda>d. row_matches p \<lparr>row_d = d, row_c = (if online d then Online else Offline), row_p = peerState d\<rparr>"
  obtain m where m: "merge_visible (map pd_id next) next (effectiveDevices devs p) = Some m"
    "mset m = mset (effectiveDevices devs p)" "filter ?P m = next"
    "\<forall>i<length (effectiveDevices devs p). \<not> ?P (effectiveDevices devs p ! i) \<longrightarrow> m ! i = effectiveDevices devs p ! i"
    using reorder_spec [OF assms(1), of "next" ?P] assms(2) unfolding visible_devices by blast
  let ?p' = "p\<lparr>localOrder := Some m\<rparr>"
  have "row_matches ?p' = row_matches p" by (simp add: fun_eq_iff row_matches_def)
  then have "map row_d (filtered online devs ?p') = next"
    unfolding visible_devices using m(3) by (simp add: effectiveDevices_def [of _ ?p'])
  moreover have "set next = set (filter ?P (effectiveDevices devs p))"
    using assms(2) unfolding visible_devices by (metis set_mset_mset)
  then have "effectiveDevices devs p ! i \<notin> set next \<longrightarrow> m ! i = effectiveDevices devs p ! i" if "i < length m" for i
    using m(4) that mset_eq_length [OF m(2)] nth_mem [of i "effectiveDevices devs p"] by auto
  ultimately show ?thesis using m by (auto simp: onReorderFiltered_def)
qed

text \<open>
  reordering what is visible leaves the rest in place: when the visible rows, under any filter and search, are put
  in a new order, the new list holds the same devices, the visible ones appear in the new order, and every
  hidden device keeps its position.
\<close>

theorem reorder_keeps_hidden_in_place:
  assumes "distinct (map pd_id (effectiveDevices devs p))"
    and "mset next = mset (map row_d (filtered online devs p))"
  shows "\<exists>p' order. onReorderFiltered devs next p = Some p' \<and> localOrder p' = Some order \<and>
    mset order = mset (effectiveDevices devs p) \<and> map row_d (filtered online devs p') = next \<and>
    (\<forall>i<length order. effectiveDevices devs p ! i \<notin> set next \<longrightarrow> order ! i = effectiveDevices devs p ! i)"
  by (rule reorder_visible [OF assms])

definition two_devices :: "PublicDevice list" where
  "two_devices = map (\<lambda>i. \<lparr>pd_id = i, pd_user_id = [], pd_name = i, pd_os = Os_linux, pd_device_type = Type_laptop,
     pd_public_key = [], pd_allocated_ip = [], pd_status = Dev_active, pd_server_id = [], pd_last_handshake_at = None,
     pd_last_peer_endpoint = None, pd_last_peer_endpoint_at = None, pd_created_at = [], pd_total_rx_bytes = 0,
     pd_total_tx_bytes = 0, pd_monthly_byte_cap = None, pd_current_month_bytes = 0, pd_auto_paused = False\<rparr>) [''a'', ''b'']"

lemma no_filter_all: "connFilter p = [] \<Longrightarrow> peerFilter p = [] \<Longrightarrow> search p = [] \<Longrightarrow> map row_d (filtered online devs p) = effectiveDevices devs p"
  unfolding visible_devices by (simp add: row_matches_def trim_def toLowerCase_def)

theorem reorder_keeps_hidden_in_place_witness:
  "\<exists>p' order. onReorderFiltered two_devices (rev two_devices) devices_page_init = Some p' \<and> localOrder p' = Some order \<and>
     mset order = mset two_devices"
proof -
  have e: "effectiveDevices two_devices devices_page_init = two_devices"
    by (simp add: effectiveDevices_def devices_page_init_def)
  have "map row_d (filtered (\<lambda>_. True) two_devices devices_page_init) = two_devices"
    using no_filter_all [of devices_page_init "\<lambda>_. True" two_devices] e by (simp add: devices_page_init_def)
  then show ?thesis
    using reorder_keeps_hidden_in_place [of two_devices devices_page_init "rev two_devices" "\<lambda>_. True"] unfolding e
    by (fastforce simp: two_devices_def)
qed

section \<open>A drag from start to save\<close>

lemma insert_at_mset: "mset (insert_at i x xs) = add_mset x (mset xs)"
  by (metis append_take_drop_id insert_at_def mset.simps(2) mset_append union_mset_add_mset_right)

lemma splice_tile_mset: "s < length xs \<Longrightarrow> mset (splice_tile s t xs) = mset xs"
proof -
  assume s: "s < length xs"
  have "mset xs = mset (take s xs @ xs ! s # drop (Suc s) xs)" using id_take_nth_drop [OF s] by simp
  then show ?thesis by (simp add: splice_tile_def insert_at_mset)
qed

lemma findIndex_bound: "findIndex P xs = Some i \<Longrightarrow> i < length xs"
proof -
  assume "findIndex P xs = Some i"
  then have "i = length (takeWhile (\<lambda>x. \<not> P x) xs)" "\<exists>x\<in>set xs. P x"
    by (auto simp: findIndex_def list_ex_iff split: if_splits)
  then show ?thesis by (metis length_takeWhile_le nat_less_le takeWhile_eq_all_conv takeWhile_eq_take take_all_iff)
qed

text \<open>What can happen while the list of devices stays the same: filtering, searching, dragging in the list (which offers the
  visible rows in any order) or in the grid.\<close>

inductive drag_step :: "PublicDevice list \<Rightarrow> devices_page \<Rightarrow> devices_page \<Rightarrow> bool" for devs where
  list_drag: "mset next = mset (map row_d (filtered online devs p)) \<Longrightarrow> onReorderFiltered devs next p = Some p' \<Longrightarrow> drag_step devs p p'"
| grid_drag: "gridInflightReorder online devs cards i pt p = Some p' \<Longrightarrow> drag_step devs p p'"
| conn: "drag_step devs p (toggleConn c p)"
| peer: "drag_step devs p (togglePeer s p)"
| clear: "drag_step devs p (clearFilters p)"
| type: "drag_step devs p (p\<lparr>search := q\<rparr>)"
| begin_drag: "drag_step devs p (p\<lparr>dragId := Some i, gridHover := None\<rparr>)"

inductive dragging :: "PublicDevice list \<Rightarrow> devices_page \<Rightarrow> bool" for devs where
  start: "localOrder p = None \<Longrightarrow> dragging devs p"
| step: "dragging devs p \<Longrightarrow> drag_step devs p p' \<Longrightarrow> dragging devs p'"

lemma reorder_perm:
  assumes "distinct (map pd_id devs)" and "mset (effectiveDevices devs p) = mset devs"
    and "mset next = mset (map row_d (filtered online devs p))" and "onReorderFiltered devs next p = Some p'"
  shows "mset (effectiveDevices devs p') = mset devs"
proof -
  have "mset (map pd_id (effectiveDevices devs p)) = mset (map pd_id devs)" using assms(2) by simp
  then have "distinct (map pd_id (effectiveDevices devs p))" using assms(1) by (metis mset_eq_imp_distinct_iff)
  then show ?thesis
    using reorder_visible [OF _ assms(3)] assms(2,4) by (auto simp: effectiveDevices_def [of _ p'])
qed

lemma grid_perm:
  assumes "distinct (map pd_id devs)" and "mset (effectiveDevices devs p) = mset devs"
    and "gridInflightReorder online devs cards i pt p = Some p'"
  shows "mset (effectiveDevices devs p') = mset devs"
proof -
  let ?q = "p\<lparr>gridHover := hovered_tile i pt cards\<rparr>"
  have "row_matches ?q = row_matches p" by (simp add: fun_eq_iff row_matches_def)
  then have same: "effectiveDevices devs ?q = effectiveDevices devs p" "filtered online devs ?q = filtered online devs p"
    by (simp_all add: effectiveDevices_def filtered_def)
  consider "p' = p" | "p' = ?q"
    | (moved) s t where "findIndex (\<lambda>d. pd_id d = i) (map row_d (filtered online devs p)) = Some s"
        "onReorderFiltered devs (splice_tile s t (map row_d (filtered online devs p))) ?q = Some p'"
    using assms(3) by (auto simp: gridInflightReorder_def Let_def split: if_splits option.splits)
  then show ?thesis
  proof cases
    case moved
    have "mset (splice_tile s t (map row_d (filtered online devs p))) = mset (map row_d (filtered online devs ?q))"
      unfolding same by (rule splice_tile_mset) (rule findIndex_bound [OF moved(1)])
    from reorder_perm [OF assms(1) _ this moved(2)] assms(2) same show ?thesis by simp
  qed (use assms(2) same in simp_all)
qed

lemma dragging_perm:
  assumes "dragging devs p" and "distinct (map pd_id devs)"
  shows "mset (effectiveDevices devs p) = mset devs"
  using assms(1)
proof induction
  case (step p p')
  from step.hyps(2) show ?case
  proof cases
    case (list_drag "next" online)
    then show ?thesis using reorder_perm [OF assms(2) step.IH] by blast
  next
    case (grid_drag online cards i pt)
    then show ?thesis using grid_perm [OF assms(2) step.IH] by blast
  qed (use step.IH in \<open>simp_all add: effectiveDevices_def toggleConn_def togglePeer_def clearFilters_def\<close>)
qed (simp add: effectiveDevices_def)

lemma reordered_perm:
  assumes "distinct (map pd_id devs)" and "mset next = mset devs"
  shows "reordered (map pd_id next) devs = next"
proof -
  have s: "set next = set devs" using assms(2) by (metis set_mset_mset)
  have "map_of (rev (map (\<lambda>d. (pd_id d, d)) devs)) (pd_id x) = Some x" if "x \<in> set devs" for x
    using assms(1) that by (intro map_of_is_SomeI) (auto simp: o_def distinct_rev rev_map [symmetric])
  then have "List.map_filter (map_of (rev (map (\<lambda>d. (pd_id d, d)) devs))) (map pd_id xs) = xs" if "set xs \<subseteq> set devs" for xs
    using that by (induction xs) (auto simp: List.map_filter_simps)
  moreover have "filter (\<lambda>d. pd_id d \<notin> set (map pd_id next)) devs = []" using s by (auto simp: filter_empty_conv)
  ultimately show ?thesis using s by (simp add: reordered_def)
qed



text \<open>
  in the grid a card cannot be dragged to the end: dropping it on its right neighbour changes nothing, and dropping
  any card but the last on any other tile leaves the last card last, since a forward drag inserts before
  the target instead of taking its place.
\<close>

theorem grid_drag_never_reaches_end:
  assumes "Suc s < length visible" and "t < length visible" and "s \<noteq> t"
  shows "last (splice_tile s t visible) = last visible \<and> splice_tile s (Suc s) visible = visible"
proof -
  have s: "s < length visible" and ne: "drop (Suc s) visible \<noteq> []" using assms(1) by simp_all
  define rest where "rest = take s visible @ drop (Suc s) visible"
  have len: "length rest = length visible - 1" and lr: "last rest = last visible"
    using assms(1) ne by (simp_all add: rest_def last_append last_drop)
  define k where "k = (if s < t then t - 1 else t)"
  have "k < length rest" using assms len by (auto simp: k_def)
  then have "drop k rest \<noteq> []" "last (drop k rest) = last rest" by (simp_all add: last_drop)
  then have "last (splice_tile s t visible) = last visible"
    using lr by (simp add: splice_tile_def insert_at_def rest_def [symmetric] k_def [symmetric])
  moreover have "splice_tile s (Suc s) visible = visible"
    using s id_take_nth_drop [OF s] by (simp add: splice_tile_def insert_at_def min_def)
  ultimately show ?thesis ..
qed

theorem grid_drag_never_reaches_end_witness:
  "last (splice_tile 0 2 [1 :: nat, 2, 3]) = 3 \<and> splice_tile 0 1 [1 :: nat, 2, 3] = [1, 2, 3]"
  using grid_drag_never_reaches_end [of 0 "[1 :: nat, 2, 3]" 2] by simp

text \<open>The counts of the header add up on both axes.\<close>

lemma counts_total: "n_online (counts rows) + n_offline (counts rows) = length rows \<and>
  n_live (counts rows) + n_paused (counts rows) + n_revoked (counts rows) = length rows"
proof (induction rows rule: rev_induct)
  case (snoc r rows)
  then show ?case
    unfolding counts_def by (cases "row_c r"; cases "row_p r") simp_all
qed (simp add: counts_def)

end
