(* ===== verification/Grouping.thy ===== *)
theory Grouping
  imports Prelude "HOL-Library.Multiset"
begin

text \<open>
  Grouping a list by a key in a \<open>Map\<close> of JavaScript, which keeps the order in which the keys were first set.
  The pages that show devices by owner share it.
\<close>

text \<open>Every element once, where it first occurs.\<close>

definition first_of_each :: "'a list \<Rightarrow> 'a list" where
  "first_of_each xs = rev (remdups (rev xs))"

lemma first_of_each_Nil [simp]: "first_of_each [] = []"
  by (simp add: first_of_each_def)

lemma first_of_each_snoc:
  "first_of_each (xs @ [x]) = (if x \<in> set xs then first_of_each xs else first_of_each xs @ [x])"
  by (simp add: first_of_each_def)

lemma set_first_of_each [simp]: "set (first_of_each xs) = set xs"
  by (simp add: first_of_each_def)

lemma distinct_first_of_each [simp]: "distinct (first_of_each xs)"
  by (simp add: first_of_each_def)

lemma first_of_each_append:
  "distinct ys \<Longrightarrow> first_of_each (xs @ ys) = first_of_each xs @ filter (\<lambda>y. y \<notin> set xs) ys"
proof (induction ys rule: rev_induct)
  case (snoc y ys)
  then show ?case using first_of_each_snoc[of "xs @ ys" y] by simp
qed simp

lemma fold_first_of_each:
  "foldl (\<lambda>o' i. if i \<in> set o' then o' else o' @ [i]) (first_of_each ys) xs = first_of_each (ys @ xs)"
proof (induction xs rule: rev_induct)
  case (snoc x xs)
  then show ?case using first_of_each_snoc[of "ys @ xs" x] by simp
qed simp

text \<open>Association lists whose entries are computed from their keys.\<close>

lemma update_absent: "k \<notin> fst ` set r \<Longrightarrow> AList.update k v r = r @ [(k, v)]"
  by (induction r) auto

lemma update_mapped:
  "distinct ks \<Longrightarrow> k \<in> set ks \<Longrightarrow> AList.update k v (map (\<lambda>u. (u, f u)) ks) = map (\<lambda>u. (u, if u = k then v else f u)) ks"
  by (induction ks) auto

lemma map_of_mapped: "map_of (map (\<lambda>u. (u, f u)) ks) u = (if u \<in> set ks then Some (f u) else None)"
  by (simp add: map_of_map_restrict restrict_map_def)

text \<open>\<open>const list = groups.get(key) ?? []; list.push(x); groups.set(key, list)\<close>\<close>

definition group_push :: "('a \<Rightarrow> 'k) \<Rightarrow> ('k \<times> 'a list) list \<Rightarrow> 'a \<Rightarrow> ('k \<times> 'a list) list" where
  "group_push key groups x =
     AList.update (key x) ((case map_of groups (key x) of Some xs \<Rightarrow> xs | None \<Rightarrow> []) @ [x]) groups"

definition grouped :: "('a \<Rightarrow> 'k) \<Rightarrow> 'a list \<Rightarrow> ('k \<times> 'a list) list" where
  "grouped key xs = map (\<lambda>k. (k, filter (\<lambda>x. key x = k) xs)) (first_of_each (map key xs))"

lemma filter_key_ne: "filter (\<lambda>x. key x = k) xs = [] \<longleftrightarrow> k \<notin> set (map key xs)"
  by (auto simp: filter_empty_conv)

lemma group_push_grouped: "group_push key (grouped key xs) x = grouped key (xs @ [x])"
proof (cases "key x \<in> set (map key xs)")
  case True
  then show ?thesis
    unfolding group_push_def grouped_def map_of_mapped by (simp add: first_of_each_snoc update_mapped)
next
  case False
  then have "filter (\<lambda>y. key y = k) (xs @ [x]) = filter (\<lambda>y. key y = k) xs" if "k \<in> set (map key xs)" for k
    using that by auto
  then show ?thesis
    using False filter_key_ne[of key "key x" xs]
    unfolding group_push_def grouped_def map_of_mapped by (simp add: first_of_each_snoc update_absent image_image)
qed

lemma group_push_run: "foldl (group_push key) [] xs = grouped key xs"
proof (induction xs rule: rev_induct)
  case Nil
  then show ?case by (simp add: grouped_def)
next
  case (snoc x xs)
  then show ?case by (simp add: group_push_grouped)
qed

lemma mset_concat_filter:
  "distinct ks \<Longrightarrow> key ` set xs \<subseteq> set ks \<Longrightarrow> mset (concat (map (\<lambda>k. filter (\<lambda>x. key x = k) xs) ks)) = mset xs"
proof (induction ks arbitrary: xs)
  case (Cons k ks)
  let ?rest = "filter (\<lambda>x. key x \<noteq> k) xs"
  have "filter (\<lambda>x. key x = j) ?rest = filter (\<lambda>x. key x = j) xs" if "j \<in> set ks" for j
    using that Cons.prems(1) by (auto intro: filter_cong)
  then have "concat (map (\<lambda>j. filter (\<lambda>x. key x = j) ?rest) ks) = concat (map (\<lambda>j. filter (\<lambda>x. key x = j) xs) ks)"
    by (metis (mono_tags, lifting) map_eq_conv)
  moreover have "mset (concat (map (\<lambda>j. filter (\<lambda>x. key x = j) ?rest) ks)) = mset ?rest"
    using Cons.prems by (intro Cons.IH) auto
  ultimately show ?case by simp
qed simp

lemma grouped_complete: "mset (concat (map snd (grouped key xs))) = mset xs"
  by (simp add: grouped_def comp_def mset_concat_filter)

lemma grouped_keys [simp]: "map fst (grouped key xs) = first_of_each (map key xs)"
  by (simp add: grouped_def comp_def)

lemma grouped_nonempty: "(k, ys) \<in> set (grouped key xs) \<Longrightarrow> ys \<noteq> []"
  using filter_key_ne[of key k xs] by (auto simp: grouped_def)

lemma sorted_wrt_concat:
  "sorted_wrt P (concat xss) \<longleftrightarrow>
     (\<forall>xs \<in> set xss. sorted_wrt P xs) \<and> sorted_wrt (\<lambda>xs ys. \<forall>x \<in> set xs. \<forall>y \<in> set ys. P x y) xss"
  by (induction xss) (auto simp: sorted_wrt_append)

end
