(* ===== verification/Finder_Query.thy ===== *)
theory Finder_Query
  imports Page_Effect Grouping
begin

text \<open>
  The query side of the finder: \<open>parseTokens\<close> of src/web/src/lib/finder.ts and the input handling of
  src/web/src/pages/app/Finder.tsx (typing, pasting, submitting, clearing and the switch to regular
  expressions).
\<close>

section \<open>Splitting at runs of separators\<close>

text \<open>The class \<open>[\s,]\<close> of the expressions \<open>/[\s,]+/\<close>.\<close>

definition is_sep :: "char \<Rightarrow> bool" where
  "is_sep c \<longleftrightarrow> is_space c \<or> c = CHR '',''"

lemma after_run_shorter:
  assumes "dropWhile (\<lambda>c. \<not> P c) s \<noteq> []"
  shows "length (dropWhile P (dropWhile (\<lambda>c. \<not> P c) s)) < length s"
proof -
  let ?r = "dropWhile (\<lambda>c. \<not> P c) s"
  have "P (hd ?r)" using hd_dropWhile[OF assms] by simp
  then have "dropWhile P ?r = dropWhile P (tl ?r)" using assms by (cases ?r) simp_all
  moreover have "length (dropWhile P (tl ?r)) \<le> length (tl ?r)" by (rule length_dropWhile_le)
  moreover have "length (tl ?r) < length ?r" using assms by (cases ?r) simp_all
  moreover have "length ?r \<le> length s" by (rule length_dropWhile_le)
  ultimately show ?thesis by simp
qed

text \<open>\<open>s.split(/[\s,]+/)\<close>: a leading or trailing run leaves an empty piece.\<close>

function split_runs :: "string \<Rightarrow> string list" where
  "split_runs s =
     (let rest = dropWhile (\<lambda>c. \<not> is_sep c) s in
      if rest = [] then [s] else takeWhile (\<lambda>c. \<not> is_sep c) s # split_runs (dropWhile is_sep rest))"
  by pat_completeness auto
termination by (relation "measure length") (auto simp: after_run_shorter simp del: dropWhile_eq_Nil_conv)

text \<open>\<open>s.replace(/[\s,]+/g, " ")\<close>\<close>

function collapse_runs :: "string \<Rightarrow> string" where
  "collapse_runs s =
     (let rest = dropWhile (\<lambda>c. \<not> is_sep c) s in
      if rest = [] then s
      else takeWhile (\<lambda>c. \<not> is_sep c) s @ '' '' @ collapse_runs (dropWhile is_sep rest))"
  by pat_completeness auto
termination by (relation "measure length") (auto simp: after_run_shorter simp del: dropWhile_eq_Nil_conv)

declare split_runs.simps [simp del] collapse_runs.simps [simp del]

section \<open>Tokens\<close>

text \<open>The loop of \<open>parseTokens\<close>: the piece up to the first slash, when it is new.\<close>

definition token_step :: "string list \<Rightarrow> string \<Rightarrow> string list" where
  "token_step out raw =
     (let tok = trim (hd (split_on (CHR ''/'') (trim raw))) in
      if tok \<noteq> [] \<and> tok \<notin> set out then out @ [tok] else out)"

definition parseTokens :: "string \<Rightarrow> string list" where
  "parseTokens s = foldl token_step [] (split_runs s)"

section \<open>The input of the page\<close>

record finder_page =
  fp_input :: string
  fp_committed :: string
  fp_regex :: bool

definition finder_page_init :: finder_page where
  "finder_page_init = \<lparr>fp_input = [], fp_committed = [], fp_regex = False\<rparr>"

definition slash_wrapped :: "string \<Rightarrow> bool" where
  "slash_wrapped v \<longleftrightarrow> 3 \<le> length v \<and> startsWith v ''/'' \<and> endsWith v ''/''"

definition finder_tokens :: "finder_page \<Rightarrow> string list" where
  "finder_tokens p =
     (if fp_committed p = [] then []
      else if slash_wrapped (fp_committed p) then [fp_committed p] else parseTokens (fp_committed p))"

text \<open>The bodies of the queries, one request per token.\<close>

definition finder_requests :: "finder_page \<Rightarrow> api_request list" where
  "finder_requests p = map finder (finder_tokens p)"

definition finder_wrap :: "string \<Rightarrow> bool \<Rightarrow> string" where
  "finder_wrap v useRegex = (if \<not> useRegex then v else if slash_wrapped v then v else ''/'' @ v @ ''/'')"

definition finder_submit :: "finder_page \<Rightarrow> finder_page" where
  "finder_submit p =
     (let v = trim (fp_input p) in
      if v = [] then p\<lparr>fp_committed := []\<rparr> else p\<lparr>fp_committed := finder_wrap v (fp_regex p)\<rparr>)"

definition finder_clear :: "finder_page \<Rightarrow> finder_page" where
  "finder_clear p = p\<lparr>fp_input := [], fp_committed := []\<rparr>"

definition toggleRegex :: "finder_page \<Rightarrow> finder_page" where
  "toggleRegex p =
     (let n = \<not> fp_regex p; v = trim (fp_input p); p1 = p\<lparr>fp_regex := n\<rparr> in
      if v \<noteq> [] then p1\<lparr>fp_committed := finder_wrap v n\<rparr> else p1)"

text \<open>\<open>onPaste\<close>: \<open>None\<close> when the browser's own paste goes ahead.\<close>

definition onPaste :: "string \<Rightarrow> finder_page \<Rightarrow> finder_page option" where
  "onPaste pasted p =
     (if fp_regex p then None
      else if list_ex (\<lambda>c. of_char c = (13 :: nat) \<or> of_char c = (10 :: nat)) pasted
      then (let cleaned = trim (collapse_runs pasted); cur = trim (fp_input p) in
            Some (p\<lparr>fp_input := (if cur \<noteq> [] then cur @ '' '' @ cleaned else cleaned)\<rparr>))
      else None)"

section \<open>Pieces between separators\<close>

text \<open>Reference: the non-empty maximal runs without separators.\<close>

definition pieces :: "string \<Rightarrow> string list" where
  "pieces s = filter (\<lambda>w. w \<noteq> []) (split_runs s)"

abbreviation sep_free :: "string \<Rightarrow> bool" where
  "sep_free w \<equiv> list_all (\<lambda>c. \<not> is_sep c) w"

lemma split_runs_free: "sep_free w \<Longrightarrow> split_runs w = [w]"
  by (simp add: split_runs.simps list_all_iff)

lemma split_runs_sep:
  "sep_free w \<Longrightarrow> is_sep c \<Longrightarrow> split_runs (w @ c # s) = w # split_runs (dropWhile is_sep s)"
  by (subst split_runs.simps) (simp add: list_all_iff dropWhile_append3 takeWhile_append2)

lemma string_cases_sep:
  obtains "sep_free s" | w c t where "s = w @ c # t" "sep_free w" "is_sep c"
  using split_list_first_prop[of s is_sep] by (auto simp: list_all_iff)

lemma split_runs_pieces_free: "v \<in> set (split_runs s) \<Longrightarrow> sep_free v"
proof (induction s rule: length_induct)
  case (1 s)
  show ?case
  proof (cases s rule: string_cases_sep)
    case 1
    then show ?thesis using \<open>v \<in> set (split_runs s)\<close> by (simp add: split_runs_free)
  next
    case (2 w d u)
    have "length (dropWhile is_sep u) < length s" using 2(1) length_dropWhile_le[of is_sep u] by simp
    then show ?thesis using 1 2 by (auto simp: split_runs_sep)
  qed
qed

lemma pieces_sep_Cons: "is_sep c \<Longrightarrow> pieces (c # s) = pieces (dropWhile is_sep s)"
  using split_runs_sep[of "[]" c s] by (simp add: pieces_def)

lemma pieces_drop_leading: "pieces (dropWhile is_sep s) = pieces s"
  by (cases s) (auto simp: pieces_sep_Cons)

lemma pieces_word:
  "sep_free w \<Longrightarrow> w \<noteq> [] \<Longrightarrow> is_sep c \<Longrightarrow> pieces (w @ c # s) = w # pieces s"
  using pieces_drop_leading[of s] by (simp add: pieces_def split_runs_sep)

lemma pieces_single: "sep_free w \<Longrightarrow> pieces w = (if w = [] then [] else [w])"
  by (simp add: pieces_def split_runs_free)

lemma pieces_break: "sep_free w \<Longrightarrow> is_sep c \<Longrightarrow> pieces (w @ c # s) = pieces w @ pieces s"
  by (cases "w = []") (simp_all add: pieces_word pieces_single pieces_sep_Cons pieces_drop_leading)

lemma pieces_append_sep: "is_sep c \<Longrightarrow> pieces (s @ c # t) = pieces s @ pieces t"
proof (induction s rule: length_induct)
  case (1 s)
  show ?case
  proof (cases s rule: string_cases_sep)
    case 1
    then show ?thesis using \<open>is_sep c\<close> by (rule pieces_break)
  next
    case (2 w d u)
    then have "pieces (u @ c # t) = pieces u @ pieces t" using 1 by simp
    then show ?thesis using 2 pieces_break[of w d "u @ c # t"] pieces_break[of w d u] by simp
  qed
qed

lemma pieces_Nil [simp]: "pieces [] = []"
  by (simp add: pieces_single)

lemma pieces_leading: "is_sep c \<Longrightarrow> pieces (c # s) = pieces s"
  using pieces_append_sep[of c "[]" s] by simp

lemma pieces_trailing: "list_all is_sep u \<Longrightarrow> pieces (s @ u) = pieces s"
proof (induction u arbitrary: s)
  case (Cons c u)
  then show ?case using pieces_append_sep[of c s u] pieces_append_sep[of c "[]" "[]"] Cons.IH[of "[]"] by simp
qed simp

lemma pieces_spaces: "list_all is_space u \<Longrightarrow> pieces (u @ s) = pieces s"
  by (induction u) (simp_all add: pieces_leading is_sep_def)

lemma trim_decompose:
  obtains u v where "s = u @ trim s @ v" "list_all is_space u" "list_all is_space v"
proof
  let ?t = "dropWhile is_space s"
  show "list_all is_space (takeWhile is_space s)" "list_all is_space (rev (takeWhile is_space (rev ?t)))"
    by (auto simp: list_all_iff dest: set_takeWhileD)
  have "?t = trim s @ rev (takeWhile is_space (rev ?t))"
    unfolding trim_def by (metis rev_append rev_rev_ident takeWhile_dropWhile_id)
  then show "s = takeWhile is_space s @ trim s @ rev (takeWhile is_space (rev ?t))"
    by (metis takeWhile_dropWhile_id)
qed

lemma pieces_trim [simp]: "pieces (trim s) = pieces s"
proof (cases s rule: trim_decompose)
  case (1 u v)
  have "list_all is_sep v" using 1(3) by (auto simp: list_all_iff is_sep_def)
  then have "pieces (trim s @ v) = pieces (trim s)" by (rule pieces_trailing)
  then show ?thesis using pieces_spaces[OF 1(2), of "trim s @ v"] 1(1) by simp
qed

lemma collapse_free: "sep_free w \<Longrightarrow> collapse_runs w = w"
  by (simp add: collapse_runs.simps list_all_iff)

lemma collapse_sep:
  "sep_free w \<Longrightarrow> is_sep c \<Longrightarrow> collapse_runs (w @ c # s) = w @ '' '' @ collapse_runs (dropWhile is_sep s)"
  by (subst collapse_runs.simps) (simp add: list_all_iff dropWhile_append3 takeWhile_append2)

lemma space_sep [simp]: "is_sep (CHR '' '')"
  by (simp add: is_sep_def is_space_def)

lemma pieces_collapse [simp]: "pieces (collapse_runs s) = pieces s"
proof (induction s rule: length_induct)
  case (1 s)
  show ?case
  proof (cases s rule: string_cases_sep)
    case 1
    then show ?thesis by (simp add: collapse_free)
  next
    case (2 w d u)
    have "length (dropWhile is_sep u) < length s" using 2(1) length_dropWhile_le[of is_sep u] by simp
    then have "pieces (collapse_runs (dropWhile is_sep u)) = pieces u"
      using 1 by (simp add: pieces_drop_leading)
    then show ?thesis
      using 2 pieces_break[of w "CHR '' ''" "collapse_runs (dropWhile is_sep u)"] pieces_break[of w d u]
      by (simp add: collapse_sep)
  qed
qed

lemma pieces_leading_all: "list_all is_sep u \<Longrightarrow> pieces (u @ s) = pieces s"
  by (induction u) (simp_all add: pieces_leading)

lemma pieces_item:
  "sep_free w \<Longrightarrow> w \<noteq> [] \<Longrightarrow> list_all is_sep gap \<Longrightarrow> gap \<noteq> [] \<Longrightarrow> pieces (w @ gap @ s) = w # pieces s"
  by (cases gap) (simp_all add: pieces_word pieces_leading_all)

lemma pieces_hd: "\<not> is_sep c \<Longrightarrow> \<exists>x ws. pieces (c # s) = (c # x) # ws"
proof (cases s rule: string_cases_sep)
  case 1
  then show "\<not> is_sep c \<Longrightarrow> ?thesis" by (simp add: pieces_single)
next
  case (2 w d u)
  then show "\<not> is_sep c \<Longrightarrow> ?thesis" using pieces_word[of "c # w" d u] by simp
qed

section \<open>Tokens of the pieces\<close>

definition token_of :: "string \<Rightarrow> string" where
  "token_of w = takeWhile (\<lambda>c. c \<noteq> CHR ''/'') w"

lemma hd_split_on: "hd (split_on c s) = takeWhile (\<lambda>x. x \<noteq> c) s"
  by (induction s) (auto split: list.splits)

lemma sep_free_trim: "sep_free w \<Longrightarrow> trim w = w"
  by (rule trim_no_space) (auto simp: list_all_iff is_sep_def)

lemma token_of_free: "sep_free w \<Longrightarrow> sep_free (token_of w)"
  by (auto simp: list_all_iff token_of_def dest: set_takeWhileD)

lemma token_step_free:
  "sep_free w \<Longrightarrow> token_step out w =
     (if token_of w \<noteq> [] \<and> token_of w \<notin> set out then out @ [token_of w] else out)"
  using sep_free_trim[OF token_of_free[of w]]
  by (simp add: token_step_def hd_split_on sep_free_trim token_of_def[symmetric])

lemma foldl_token_step:
  "list_all sep_free ws \<Longrightarrow>
     foldl token_step [] ws = first_of_each (filter (\<lambda>t. t \<noteq> []) (map token_of ws))"
proof (induction ws rule: rev_induct)
  case (snoc w ws)
  then show ?case by (simp add: token_step_free first_of_each_snoc)
qed (simp add: first_of_each_def)

lemma tokens_ignore_empty:
  "filter (\<lambda>t. t \<noteq> []) (map token_of (filter (\<lambda>w. w \<noteq> []) ws)) = filter (\<lambda>t. t \<noteq> []) (map token_of ws)"
  by (induction ws) (auto simp: token_of_def)

lemma parseTokens_pieces:
  "parseTokens s = first_of_each (filter (\<lambda>t. t \<noteq> []) (map token_of (pieces s)))"
proof -
  have "list_all sep_free (split_runs s)" by (simp add: list_all_iff[of sep_free] split_runs_pieces_free)
  then have "parseTokens s = first_of_each (filter (\<lambda>t. t \<noteq> []) (map token_of (split_runs s)))"
    unfolding parseTokens_def by (rule foldl_token_step)
  also have "filter (\<lambda>t. t \<noteq> []) (map token_of (split_runs s)) = filter (\<lambda>t. t \<noteq> []) (map token_of (pieces s))"
    by (simp add: pieces_def tokens_ignore_empty)
  finally show ?thesis .
qed

lemma parseTokens_trim [simp]: "parseTokens (trim s) = parseTokens s"
  by (simp add: parseTokens_pieces)

section \<open>A pasted list\<close>

text \<open>A lookup value, a mask suffix and the separators after it.\<close>

record paste_item =
  pi_value :: string
  pi_suffix :: string
  pi_gap :: string

definition item_text :: "paste_item \<Rightarrow> string" where
  "item_text i = pi_value i @ pi_suffix i @ pi_gap i"

definition item_ok :: "paste_item \<Rightarrow> bool" where
  "item_ok i \<longleftrightarrow> pi_value i \<noteq> [] \<and> sep_free (pi_value i) \<and> CHR ''/'' \<notin> set (pi_value i)
     \<and> sep_free (pi_suffix i) \<and> (pi_suffix i = [] \<or> hd (pi_suffix i) = CHR ''/'')
     \<and> pi_gap i \<noteq> [] \<and> list_all is_sep (pi_gap i)"

lemma token_of_item: "item_ok i \<Longrightarrow> token_of (pi_value i @ pi_suffix i) = pi_value i"
  unfolding item_ok_def token_of_def
  by (cases "pi_suffix i") (auto simp: takeWhile_append1 takeWhile_append2 takeWhile_tail)

lemma pieces_items:
  "list_all item_ok is \<Longrightarrow> pieces (concat (map item_text is)) = map (\<lambda>i. pi_value i @ pi_suffix i) is"
proof (induction "is")
  case (Cons i "is")
  then have ok: "item_ok i" by simp
  have "pieces ((pi_value i @ pi_suffix i) @ pi_gap i @ concat (map item_text is))
      = (pi_value i @ pi_suffix i) # pieces (concat (map item_text is))"
    using ok by (intro pieces_item) (simp_all add: item_ok_def)
  then show ?case using Cons by (simp add: item_text_def[of i])
qed simp

lemma tokens_items:
  assumes "list_all item_ok is"
  shows "filter (\<lambda>t. t \<noteq> []) (map token_of (pieces (concat (map item_text is)))) = map pi_value is"
  using assms by (simp add: pieces_items) (induction "is", simp_all add: token_of_item item_ok_def)

lemma wrapped_head: "slash_wrapped v \<Longrightarrow> \<exists>x ws. pieces v = (CHR ''/'' # x) # ws"
  using pieces_hd[of "CHR ''/''"] by (cases v) (auto simp: slash_wrapped_def startsWith_def is_sep_def is_space_def)

text \<open>Submitting plain text that does not start with a slash looks up the tokens of the input.\<close>

lemma submit_tokens:
  assumes "\<not> fp_regex p" "\<And>x ws. pieces (fp_input p) \<noteq> (CHR ''/'' # x) # ws"
  shows "finder_tokens (finder_submit p) = parseTokens (fp_input p)"
proof (cases "trim (fp_input p) = []")
  case True
  then have "parseTokens (fp_input p) = []"
    using parseTokens_trim[of "fp_input p"] by (simp add: parseTokens_pieces first_of_each_def)
  then show ?thesis using True by (simp add: finder_submit_def finder_tokens_def)
next
  case False
  have "\<not> slash_wrapped (trim (fp_input p))" using wrapped_head assms(2) by fastforce
  then show ?thesis using False assms(1) by (simp add: finder_submit_def finder_tokens_def finder_wrap_def)
qed

lemma pieces_pasted:
  assumes "\<not> fp_regex p" "onPaste pasted p = Some q"
  shows "\<not> fp_regex q" "pieces (fp_input q) = pieces (fp_input p) @ pieces pasted"
proof -
  have "trim (fp_input p) = [] \<Longrightarrow> pieces (fp_input p) = []" using pieces_trim[of "fp_input p"] by simp
  then show "pieces (fp_input q) = pieces (fp_input p) @ pieces pasted"
    using assms pieces_append_sep[of "CHR '' ''" "trim (fp_input p)" "trim (collapse_runs pasted)"]
    by (auto simp: onPaste_def Let_def split: if_splits)
qed (use assms in \<open>auto simp: onPaste_def Let_def split: if_splits\<close>)



text \<open>A slash cuts the value that is looked up, so that a client name with a version loses its version.\<close>

theorem slash_cuts_lookup:
  "finder_tokens (finder_submit (finder_page_init\<lparr>fp_input := ''curl/8''\<rparr>)) = [''curl'']"
  by code_simp

text \<open>Switching the mode twice leaves the page as submitting it would.\<close>

lemma toggle_twice: "finder_tokens (toggleRegex (toggleRegex (finder_submit p))) = finder_tokens (finder_submit p)"
  by (cases "trim (fp_input p) = []")
     (simp_all add: toggleRegex_def finder_submit_def finder_tokens_def Let_def)

end
