(* ===== verification/Finder_Page.thy ===== *)
theory Finder_Page
  imports Finder_Query Live_Stats Units Datetime
begin

text \<open>
  The result side of the finder, src/web/src/pages/app/Finder.tsx and
  src/web/src/components/finder/FinderResults.tsx: which of its views the page shows, the single and the
  merged result, grouping by owner, the links an administrator gets, and the live device card.
\<close>

section \<open>Which view\<close>

text \<open>One query of \<open>useQueries\<close>.  The error of a failed one has a message when it is an \<open>Error\<close>.\<close>

record finder_query =
  fq_loading :: bool
  fq_error :: "string option option"
  fq_data :: "FinderResponse option"

datatype finder_view =
    Finder_help
  | Finder_skeleton
  | Finder_failed string
  | Finder_single FinderResponse
  | Finder_multi "string list" "FinderResponse option list"
  | Finder_blank

definition anyLoading :: "finder_query list \<Rightarrow> bool" where
  "anyLoading qs \<longleftrightarrow> list_ex (\<lambda>q. fq_loading q \<and> fq_data q = None) qs"

definition firstError :: "finder_query list \<Rightarrow> string option option" where
  "firstError qs = (case find (\<lambda>q. fq_error q \<noteq> None) qs of Some q \<Rightarrow> fq_error q | None \<Rightarrow> None)"

definition finder_shown :: "finder_page \<Rightarrow> finder_query list \<Rightarrow> finder_view" where
  "finder_shown p qs =
     (let tokens = finder_tokens p in
      if fp_committed p = [] then Finder_help
      else if anyLoading qs then Finder_skeleton
      else (case firstError qs of
              Some e \<Rightarrow> Finder_failed (case e of Some m \<Rightarrow> m | None \<Rightarrow> ''unknown error'')
            | None \<Rightarrow>
                if length tokens = 1 then (case map fq_data qs of Some r # _ \<Rightarrow> Finder_single r | _ \<Rightarrow> Finder_blank)
                else if 1 < length tokens then Finder_multi tokens (map fq_data qs)
                else Finder_blank))"

section \<open>Grouping by owner\<close>

record owner_group =
  og_email :: string
  og_devices :: "FinderDeviceMatch list"

text \<open>The loop of \<open>DeviceOwnerGroups\<close> over a \<open>Map\<close>, which keeps the order of insertion.\<close>

definition group_device :: "owner_group Record \<Rightarrow> FinderDeviceMatch \<Rightarrow> owner_group Record" where
  "group_device groups d =
     (case map_of groups (fdm_user_id d) of
        Some g \<Rightarrow> AList.update (fdm_user_id d) (g\<lparr>og_devices := og_devices g @ [d]\<rparr>) groups
      | None \<Rightarrow> AList.update (fdm_user_id d) \<lparr>og_email = fdm_user_email d, og_devices = [d]\<rparr> groups)"

definition DeviceOwnerGroups :: "FinderDeviceMatch list \<Rightarrow> owner_group Record" where
  "DeviceOwnerGroups ds = foldl group_device [] ds"

section \<open>The merged result\<close>

definition add_unseen :: "('a \<Rightarrow> string) \<Rightarrow> 'a list \<Rightarrow> 'a \<Rightarrow> 'a list" where
  "add_unseen ident out x = (if ident x \<in> ident ` set out then out else out @ [x])"

definition merged_devices :: "FinderResponse option list \<Rightarrow> FinderDeviceMatch list" where
  "merged_devices rs =
     foldl (\<lambda>out r. case r of None \<Rightarrow> out | Some x \<Rightarrow> foldl (add_unseen fdm_id) out (fr_devices x)) [] rs"

definition merged_users :: "FinderResponse option list \<Rightarrow> FinderUserMatch list" where
  "merged_users rs =
     foldl (\<lambda>out r. case r of None \<Rightarrow> out | Some x \<Rightarrow> foldl (add_unseen fum_id) out (fr_users x)) [] rs"

datatype ownership =
    Held_by (holder_email: string) (holder_name: string) (holder_link: "string option")
  | Source_only
  | No_match

definition TokenOwnershipRow :: "string \<Rightarrow> FinderResponse option \<Rightarrow> bool \<Rightarrow> ownership" where
  "TokenOwnershipRow token result isAdmin =
     (case result of
        None \<Rightarrow> No_match
      | Some r \<Rightarrow>
          (case find (\<lambda>d. fdm_allocated_ip d = token) (fr_devices r) of
             Some h \<Rightarrow> Held_by (fdm_user_email h) (fdm_name h)
                         (if isAdmin then Some (''/admin/users/'' @ fdm_user_id h) else None)
           | None \<Rightarrow> if list_ex (\<lambda>d. fdm_matched_on d = DM_last_peer_endpoint) (fr_devices r) then Source_only
                     else No_match))"

section \<open>The single result\<close>

definition anyCount :: "FinderCounts \<Rightarrow> bool" where
  "anyCount c \<longleftrightarrow> 0 < fc_audit_logs c + fc_failed_logins c + fc_session_events c + fc_access_logs c
     + fc_peer_endpoint_history c + fc_connection_sessions c"

definition linkForAudit :: "FinderKind \<Rightarrow> string \<Rightarrow> string option" where
  "linkForAudit kind q = (if kind = FK_ip then Some (''/admin/audit?ip='' @ encodeURIComponent q) else None)"

definition linkForSessionEvents :: "FinderKind \<Rightarrow> string \<Rightarrow> string option" where
  "linkForSessionEvents kind q = (if kind = FK_ip then Some (''/admin/sessions?ip='' @ encodeURIComponent q) else None)"

definition linkForAccessLogs :: "FinderKind \<Rightarrow> string \<Rightarrow> string option" where
  "linkForAccessLogs kind q = (if kind = FK_ip then Some (''/admin/access-logs?ip='' @ encodeURIComponent q) else None)"

record count_card =
  cc_label :: string
  cc_count :: number
  cc_chevron :: bool
  cc_link :: "string option"

text \<open>\<open>CountCard\<close>: the chevron shows with a link, the card is a link only with a positive count.\<close>

definition CountCard :: "string \<Rightarrow> number \<Rightarrow> string option \<Rightarrow> count_card" where
  "CountCard label n link =
     \<lparr>cc_label = label, cc_count = n, cc_chevron = (link \<noteq> None),
      cc_link = (if 0 < n then link else None)\<rparr>"

definition count_cards :: "FinderResponse \<Rightarrow> bool \<Rightarrow> count_card list" where
  "count_cards r isAdmin =
     (let kind = fr_kind r; query = fr_query r; counts = fr_counts r in
      if anyCount counts then
        [CountCard ''Audit'' (fc_audit_logs counts) (if isAdmin then linkForAudit kind query else None),
         CountCard ''Sessions'' (fc_session_events counts) (if isAdmin then linkForSessionEvents kind query else None),
         CountCard ''Access logs'' (fc_access_logs counts) (if isAdmin then linkForAccessLogs kind query else None),
         CountCard ''Failed logins'' (fc_failed_logins counts) (if isAdmin then Some ''/admin/failed-logins'' else None),
         CountCard ''Peer endpoints'' (fc_peer_endpoint_history counts) None,
         CountCard ''Connections'' (fc_connection_sessions counts) None]
      else [])"

definition nothing_matched :: "FinderResponse \<Rightarrow> bool" where
  "nothing_matched r \<longleftrightarrow> \<not> anyCount (fr_counts r) \<and> \<not> 0 < length (fr_users r) + length (fr_devices r)"

definition UserMatchRow :: "FinderUserMatch \<Rightarrow> bool \<Rightarrow> string option" where
  "UserMatchRow u isAdmin = (if isAdmin then Some (''/admin/users/'' @ fum_id u) else None)"

definition owner_link :: "string \<Rightarrow> bool \<Rightarrow> string option" where
  "owner_link userId isAdmin = (if isAdmin then Some (''/admin/users/'' @ userId) else None)"

definition device_link :: "FinderDeviceMatch \<Rightarrow> bool \<Rightarrow> string option" where
  "device_link d isAdmin = (if isAdmin then Some (''/admin/devices/'' @ fdm_id d) else None)"

section \<open>The device card\<close>

definition FINDER_CHART_WINDOW :: nat where
  "FINDER_CHART_WINDOW = 30"

definition LIVE_STALE_MS :: number where
  "LIVE_STALE_MS = 90000"

text \<open>The \<open>online\<close> prop: absent, \<open>null\<close> or a boolean.\<close>

datatype online_prop = Online_omitted | Online_null | Online_given bool

record device_card =
  dc_online :: bool
  dc_status :: string
  dc_rx :: string
  dc_tx :: string
  dc_chart :: "(number list \<times> number list) + string"

definition card_online :: "DeviceLive option \<Rightarrow> number \<Rightarrow> online_prop \<Rightarrow> bool" where
  "card_online live now online =
     (case online of
        Online_null \<Rightarrow> False
      | Online_given b \<Rightarrow> b
      | Online_omitted \<Rightarrow> (case live of None \<Rightarrow> False
          | Some l \<Rightarrow> now - dl_lastSeenTs l < LIVE_STALE_MS \<and> 0 < dl_lastSeenTs l))"

definition FinderDeviceCard :: "UnitsPref \<Rightarrow> DeviceLive option \<Rightarrow> number \<Rightarrow> online_prop \<Rightarrow> device_card" where
  "FinderDeviceCard pref live now online =
     (let isOnline = card_online live now online;
          rxBps = (if isOnline then (case live of Some l \<Rightarrow> dl_rxBps l | None \<Rightarrow> 0) else 0);
          txBps = (if isOnline then (case live of Some l \<Rightarrow> dl_txBps l | None \<Rightarrow> 0) else 0);
          rxHistory = (if isOnline then slice_last FINDER_CHART_WINDOW (case live of Some l \<Rightarrow> dl_rxHistory l | None \<Rightarrow> []) else []);
          txHistory = (if isOnline then slice_last FINDER_CHART_WINDOW (case live of Some l \<Rightarrow> dl_txHistory l | None \<Rightarrow> []) else []);
          showChart = (isOnline \<and> (rxHistory \<noteq> [] \<or> txHistory \<noteq> [])) in
      \<lparr>dc_online = isOnline,
       dc_status = (if online = Online_null then ''status unavailable'' else if isOnline then ''online'' else ''offline''),
       dc_rx = (if isOnline then formatBps pref (Fin rxBps) else em_dash),
       dc_tx = (if isOnline then formatBps pref (Fin txBps) else em_dash),
       dc_chart = (if showChart then Inl (rxHistory, txHistory)
                   else Inr (if online = Online_null then ''live traffic unavailable''
                             else if isOnline then ''connecting'' @ ellipsis else ''no live traffic''))\<rparr>)"

definition finder_card_online :: "bool \<Rightarrow> online_prop" where
  "finder_card_online isAdmin = (if isAdmin then Online_omitted else Online_null)"

definition card_note :: "FinderDeviceMatch \<Rightarrow> string option" where
  "card_note d = (if fdm_matched_on d = DM_last_peer_endpoint then Some ''matched source endpoint'' else None)"

text \<open>\<open>OwnerAccordion\<close>: open at first, its count label and the toggle.\<close>

definition accordion_label :: "nat \<Rightarrow> string" where
  "accordion_label n = nat_dec n @ '' device'' @ (if n = 1 then [] else ''s'')"

definition accordion_init :: bool where
  "accordion_init = True"

definition accordion_toggle :: "bool \<Rightarrow> bool" where
  "accordion_toggle opened = (\<not> opened)"

section \<open>Links of a view\<close>

definition group_links :: "FinderDeviceMatch list \<Rightarrow> bool \<Rightarrow> string option list" where
  "group_links ds isAdmin =
     concat (map (\<lambda>(uid, g). owner_link uid isAdmin # map (\<lambda>d. device_link d isAdmin) (og_devices g)) (DeviceOwnerGroups ds))"

fun ownership_link :: "ownership \<Rightarrow> string option" where
  "ownership_link (Held_by _ _ l) = l"
| "ownership_link _ = None"

text \<open>Every link the page renders, \<open>None\<close> where it renders plain text.\<close>

fun view_links :: "bool \<Rightarrow> finder_view \<Rightarrow> string option list" where
  "view_links isAdmin (Finder_single r) =
     map cc_link (count_cards r isAdmin) @ map (\<lambda>u. UserMatchRow u isAdmin) (fr_users r) @ group_links (fr_devices r) isAdmin"
| "view_links isAdmin (Finder_multi tokens results) =
     map (\<lambda>(t, r). ownership_link (TokenOwnershipRow t r isAdmin)) (zip tokens results)
     @ group_links (merged_devices results) isAdmin @ map (\<lambda>u. UserMatchRow u isAdmin) (merged_users results)"
| "view_links isAdmin _ = []"

section \<open>Every match once\<close>

lemma map_add_unseen: "map ident (foldl (add_unseen ident) out xs) = foldl (\<lambda>o' i. if i \<in> set o' then o' else o' @ [i]) (map ident out) (map ident xs)"
  by (induction xs arbitrary: out) (simp_all add: add_unseen_def)

lemma add_unseen_run:
  "map ident out = first_of_each ys \<Longrightarrow> map ident (foldl (add_unseen ident) out xs) = first_of_each (ys @ map ident xs)"
  by (simp add: map_add_unseen fold_first_of_each)

lemma set_add_unseen: "set (foldl (add_unseen ident) out xs) \<subseteq> set out \<union> set xs"
  by (induction xs arbitrary: out) (fastforce simp: add_unseen_def split: if_splits)+

lemma merged_run:
  "map ident (foldl (\<lambda>out r. case r of None \<Rightarrow> out | Some x \<Rightarrow> foldl (add_unseen ident) out (sel x)) [] rs)
     = first_of_each (concat (map (\<lambda>r. case r of None \<Rightarrow> [] | Some x \<Rightarrow> map ident (sel x)) rs))"
proof (induction rs rule: rev_induct)
  case (snoc r rs)
  then show ?case by (cases r) (simp_all add: add_unseen_run)
qed simp

lemma merged_device_ids:
  "map fdm_id (merged_devices rs)
     = first_of_each (concat (map (\<lambda>r. case r of None \<Rightarrow> [] | Some x \<Rightarrow> map fdm_id (fr_devices x)) rs))"
  unfolding merged_devices_def by (rule merged_run)

lemma merged_user_ids:
  "map fum_id (merged_users rs)
     = first_of_each (concat (map (\<lambda>r. case r of None \<Rightarrow> [] | Some x \<Rightarrow> map fum_id (fr_users x)) rs))"
  unfolding merged_users_def by (rule merged_run)

text \<open>Reference: the owners in the order of their first match, each with its matches in order.\<close>

definition owned_by :: "FinderDeviceMatch list \<Rightarrow> string \<Rightarrow> FinderDeviceMatch list" where
  "owned_by ds u = filter (\<lambda>d. fdm_user_id d = u) ds"

definition groups_reference :: "FinderDeviceMatch list \<Rightarrow> owner_group Record" where
  "groups_reference ds =
     map (\<lambda>u. (u, \<lparr>og_email = fdm_user_email (hd (owned_by ds u)), og_devices = owned_by ds u\<rparr>))
       (first_of_each (map fdm_user_id ds))"

lemma owned_by_snoc: "owned_by (ds @ [d]) u = owned_by ds u @ (if fdm_user_id d = u then [d] else [])"
  by (simp add: owned_by_def)

lemma owned_by_ne: "u \<in> set (map fdm_user_id ds) \<longleftrightarrow> owned_by ds u \<noteq> []"
  by (auto simp: owned_by_def filter_empty_conv)

lemma groups_reference_lookup:
  "map_of (groups_reference ds) u =
     (if owned_by ds u \<noteq> [] then Some \<lparr>og_email = fdm_user_email (hd (owned_by ds u)), og_devices = owned_by ds u\<rparr> else None)"
  unfolding groups_reference_def
  using owned_by_ne[of u ds] by (simp add: map_of_mapped)

lemma DeviceOwnerGroups_reference: "DeviceOwnerGroups ds = groups_reference ds"
proof (induction ds rule: rev_induct)
  case Nil
  then show ?case by (simp add: DeviceOwnerGroups_def groups_reference_def)
next
  case (snoc d ds)
  let ?u = "fdm_user_id d" and ?ks = "first_of_each (map fdm_user_id ds)"
  have step: "DeviceOwnerGroups (ds @ [d]) = group_device (groups_reference ds) d"
    using snoc by (simp add: DeviceOwnerGroups_def)
  show ?case
  proof (cases "owned_by ds ?u = []")
    case True
    then have new: "?u \<notin> set (map fdm_user_id ds)" using owned_by_ne[of ?u ds] by simp
    have "owned_by (ds @ [d]) k = owned_by ds k" if "k \<in> set ?ks" for k
      using that new by (auto simp: owned_by_snoc)
    then show ?thesis
      using new True unfolding step
      by (simp add: group_device_def groups_reference_lookup)
         (simp add: groups_reference_def first_of_each_snoc owned_by_snoc update_absent image_image)
  next
    case False
    then have old: "?u \<in> set (map fdm_user_id ds)" using owned_by_ne[of ?u ds] by simp
    show ?thesis
      using old False unfolding step
      by (simp add: group_device_def groups_reference_lookup)
         (simp add: groups_reference_def first_of_each_snoc owned_by_snoc update_mapped)
  qed
qed

definition shown_devices :: "owner_group Record \<Rightarrow> FinderDeviceMatch list" where
  "shown_devices gs = concat (map (og_devices \<circ> snd) gs)"

lemma mset_shown_devices: "mset (shown_devices (DeviceOwnerGroups ds)) = mset ds"
proof -
  have "shown_devices (DeviceOwnerGroups ds)
      = concat (map (\<lambda>k. filter (\<lambda>x. fdm_user_id x = k) ds) (first_of_each (map fdm_user_id ds)))"
    by (simp add: shown_devices_def DeviceOwnerGroups_reference groups_reference_def owned_by_def comp_def)
  then show ?thesis by (simp add: mset_concat_filter)
qed

text \<open>
  a search for several values lists every match once, under its owner: the devices shown are those of all the answers,
  none twice, grouped by their owners in the order in which the owners were first matched, each group with
  the owner's matches in order.
\<close>

theorem every_match_listed_once:
  "distinct (map fdm_id (shown_devices (DeviceOwnerGroups (merged_devices rs)))) \<and>
   set (map fdm_id (shown_devices (DeviceOwnerGroups (merged_devices rs))))
     = {fdm_id d | d r. Some r \<in> set rs \<and> d \<in> set (fr_devices r)} \<and>
   DeviceOwnerGroups (merged_devices rs) = groups_reference (merged_devices rs)"
proof -
  let ?ds = "merged_devices rs"
  have ids: "mset (map fdm_id (shown_devices (DeviceOwnerGroups ?ds))) = mset (map fdm_id ?ds)"
    by (simp only: mset_map mset_shown_devices)
  have "distinct (map fdm_id ?ds)" by (simp add: merged_device_ids)
  then have "distinct (map fdm_id (shown_devices (DeviceOwnerGroups ?ds)))"
    using mset_eq_imp_distinct_iff[OF ids] by blast
  moreover have "set (map fdm_id ?ds) = {fdm_id d | d r. Some r \<in> set rs \<and> d \<in> set (fr_devices r)}"
    unfolding merged_device_ids by (force split: option.splits)
  ultimately show ?thesis using mset_eq_setD[OF ids] DeviceOwnerGroups_reference by metis
qed

text \<open>Only an administrator gets links, and all of them lead to the administration.\<close>

lemma finder_links_admin_only: "Some l \<in> set (view_links isAdmin v) \<Longrightarrow> isAdmin \<and> startsWith l ''/admin/''"
  by (cases v)
     (auto simp: count_cards_def CountCard_def UserMatchRow_def group_links_def owner_link_def device_link_def
        linkForAudit_def linkForSessionEvents_def linkForAccessLogs_def TokenOwnershipRow_def startsWith_def Let_def
        split: if_splits option.splits)

text \<open>Without the owner's live data an ordinary user sees neither rates nor a chart.\<close>

lemma card_without_status:
  "\<not> isAdmin \<Longrightarrow> dc_status (FinderDeviceCard pref live now (finder_card_online isAdmin)) = ''status unavailable'' \<and>
     dc_rx (FinderDeviceCard pref live now (finder_card_online isAdmin)) = em_dash \<and>
     dc_chart (FinderDeviceCard pref live now (finder_card_online isAdmin)) = Inr ''live traffic unavailable''"
  by (simp add: FinderDeviceCard_def finder_card_online_def card_online_def)

text \<open>A settled search leaves the panel empty exactly when every value was cut away.\<close>

lemma settled_search_shown:
  assumes "length qs = length (finder_tokens p)" "list_all (\<lambda>q. fq_error q = None \<and> fq_data q \<noteq> None) qs" "fp_committed p \<noteq> []"
  shows "finder_shown p qs = Finder_blank \<longleftrightarrow> finder_tokens p = []"
proof -
  have "firstError qs = None" using assms(2) by (auto simp: firstError_def find_None_iff list_all_iff split: option.splits dest: find_Some_iff[THEN iffD1])
  moreover have "\<not> anyLoading qs" using assms(2) by (auto simp: anyLoading_def list_all_iff list_ex_iff)
  ultimately show ?thesis
    using assms by (cases qs) (auto simp: finder_shown_def Let_def)
qed

end
