(* ===== verification/Pager.thy ===== *)
theory Pager
  imports Interfaces Api_Client
begin

text \<open>
  Paging of the administration tables: the page index that resets with its filters
  (src/web/src/hooks/useResettingPage.ts) and the footer that turns the pages
  (src/web/src/components/Pagination.tsx).  The locale \<open>log_page\<close> is what a table page relies on; the log
  pages interpret it.
\<close>

section \<open>The page index\<close>

record resetting_page =
  rp_key :: string
  rp_page :: nat

definition resetting_init :: "string \<Rightarrow> resetting_page" where
  "resetting_init key = \<lparr>rp_key = key, rp_page = 0\<rparr>"

definition resetting_read :: "string \<Rightarrow> resetting_page \<Rightarrow> nat" where
  "resetting_read key st = (if rp_key st = key then rp_page st else 0)"

definition resetting_setPage :: "string \<Rightarrow> nat \<Rightarrow> resetting_page" where
  "resetting_setPage key page = \<lparr>rp_key = key, rp_page = page\<rparr>"

interpretation index_cell: keyed_cell rp_key resetting_read resetting_setPage "0 :: nat"
  by unfold_locales (auto simp: resetting_read_def resetting_setPage_def)

section \<open>The footer\<close>

definition pageSizeOptions :: "nat list" where
  "pageSizeOptions = [25, 50, 100, 200]"

record pagination =
  pn_page :: nat
  pn_pageSize :: nat
  pn_total :: nat
  pn_itemCount :: nat
  pn_fetching :: bool

definition pageCount :: "pagination \<Rightarrow> nat" where
  "pageCount p = max 1 (nat \<lceil>of_nat (pn_total p) / (of_nat (pn_pageSize p) :: number)\<rceil>)"

definition fromIdx :: "pagination \<Rightarrow> nat" where
  "fromIdx p = (if pn_total p = 0 then 0 else pn_page p * pn_pageSize p + 1)"

definition toIdx :: "pagination \<Rightarrow> nat" where
  "toIdx p = min (pn_total p) (pn_page p * pn_pageSize p + pn_itemCount p)"

definition prev_disabled :: "pagination \<Rightarrow> bool" where
  "prev_disabled p \<longleftrightarrow> pn_page p = 0 \<or> pn_fetching p"

definition next_disabled :: "pagination \<Rightarrow> bool" where
  "next_disabled p \<longleftrightarrow> pageCount p - 1 \<le> pn_page p \<or> pn_fetching p"

text \<open>The page a press asks for; a disabled button asks for none.\<close>

definition press_prev :: "pagination \<Rightarrow> nat option" where
  "press_prev p = (if prev_disabled p then None else Some (pn_page p - 1))"

definition press_next :: "pagination \<Rightarrow> nat option" where
  "press_next p = (if next_disabled p then None else Some (min (pageCount p - 1) (pn_page p + 1)))"

section \<open>Walking through a table\<close>

text \<open>The rows of a page of a table, as a server gives them for a limit and an offset.\<close>

definition page_rows :: "'r list \<Rightarrow> nat \<Rightarrow> nat \<Rightarrow> 'r list" where
  "page_rows rows pageSize page = take pageSize (drop (page * pageSize) rows)"

definition footer_of :: "'r list \<Rightarrow> nat \<Rightarrow> nat \<Rightarrow> pagination" where
  "footer_of rows pageSize page =
     \<lparr>pn_page = page, pn_pageSize = pageSize, pn_total = length rows,
      pn_itemCount = length (page_rows rows pageSize page), pn_fetching = False\<rparr>"

text \<open>The pages seen when the button is pressed until it is disabled, at most \<open>n\<close> times.\<close>

fun walk_next :: "nat \<Rightarrow> 'r list \<Rightarrow> nat \<Rightarrow> nat \<Rightarrow> nat list" where
  "walk_next 0 rows pageSize page = [page]"
| "walk_next (Suc n) rows pageSize page =
     page # (case press_next (footer_of rows pageSize page) of
               None \<Rightarrow> []
             | Some q \<Rightarrow> walk_next n rows pageSize q)"

lemma nat_ceiling_div:
  assumes "0 < s"
  shows "nat \<lceil>of_nat t / (of_nat s :: number)\<rceil> = (t + s - 1) div s"
proof -
  have "\<lceil>of_nat t / (of_nat s :: number)\<rceil> = int ((t + s - 1) div s)"
  proof (rule ceiling_unique)
    have split: "(t + s - 1) div s * s + (t + s - 1) mod s = t + s - 1" by simp
    have small: "(t + s - 1) mod s < s" using assms by simp
    have upper: "t \<le> (t + s - 1) div s * s" using split small assms by linarith
    have lower: "(t + s - 1) div s * s < t + s" using split assms by linarith
    have "(of_nat t :: number) \<le> of_nat ((t + s - 1) div s * s)" using upper by (simp only: of_nat_le_iff)
    then show "of_nat t / (of_nat s :: number) \<le> of_int (int ((t + s - 1) div s))"
      using assms by (simp add: divide_le_eq)
    have "(of_nat ((t + s - 1) div s * s) :: number) < of_nat (t + s)" using lower by (simp only: of_nat_less_iff)
    then show "of_int (int ((t + s - 1) div s)) - 1 < of_nat t / (of_nat s :: number)"
      using assms by (simp add: less_divide_eq algebra_simps)
  qed
  then show ?thesis by simp
qed

lemma pageCount_bound:
  "0 < pn_pageSize p \<Longrightarrow> pn_total p \<le> pageCount p * pn_pageSize p"
proof -
  assume s: "0 < pn_pageSize p"
  let ?q = "(pn_total p + pn_pageSize p - 1) div pn_pageSize p"
  have "pn_total p + pn_pageSize p - 1 < (?q + 1) * pn_pageSize p"
    using s by (metis add.commute dividend_less_div_times mult.commute mult_Suc Suc_eq_plus1)
  then have "pn_total p \<le> ?q * pn_pageSize p" using s by (simp add: algebra_simps)
  also have "\<dots> \<le> pageCount p * pn_pageSize p" using s by (simp add: pageCount_def nat_ceiling_div)
  finally show ?thesis .
qed

lemma pageCount_least:
  assumes "0 < pn_pageSize p" "page < pageCount p" "page \<noteq> 0"
  shows "page * pn_pageSize p < pn_total p"
proof -
  let ?s = "pn_pageSize p" and ?t = "pn_total p"
  have "page < (?t + ?s - 1) div ?s" using assms by (auto simp: pageCount_def nat_ceiling_div)
  then have "Suc page * ?s \<le> ?t + ?s - 1"
    by (metis Suc_leI assms(1) less_eq_div_iff_mult_less_eq)
  then show ?thesis using assms(1) by simp
qed

lemma pageCount_pos [simp]: "0 < pageCount p"
  by (simp add: pageCount_def)

lemma pageCount_footer: "pageCount (footer_of rows s page) = pageCount (footer_of rows s 0)"
  by (simp add: pageCount_def footer_of_def)

lemma concat_pages:
  "0 < s \<Longrightarrow> concat (map (page_rows rows s) [0..<n]) = take (n * s) rows"
proof (induction n)
  case (Suc n)
  then show ?case by (simp add: page_rows_def take_add[symmetric] add.commute)
qed simp

lemma walk_next_pages:
  "page < pageCount (footer_of rows s 0) \<Longrightarrow> pageCount (footer_of rows s 0) - page \<le> Suc n \<Longrightarrow>
   walk_next n rows s page = [page..<pageCount (footer_of rows s 0)]"
proof (induction n arbitrary: page)
  case 0
  then have "pageCount (footer_of rows s 0) = Suc page" by simp
  then show ?case by simp
next
  case (Suc n)
  let ?N = "pageCount (footer_of rows s 0)"
  show ?case
  proof (cases "Suc page < ?N")
    case True
    have "press_next (footer_of rows s page) = Some (Suc page)"
      using True pageCount_footer[of rows s page] by (auto simp: press_next_def next_disabled_def footer_of_def)
    moreover have "walk_next n rows s (Suc page) = [Suc page..<?N]" using True Suc.prems by (intro Suc.IH) auto
    ultimately show ?thesis using True by (simp add: upt_conv_Cons)
  next
    case False
    then have "?N = Suc page" using Suc.prems by simp
    moreover have "press_next (footer_of rows s page) = None"
      using False pageCount_footer[of rows s page] by (auto simp: press_next_def next_disabled_def footer_of_def)
    ultimately show ?thesis by simp
  qed
qed

lemma page_label:
  assumes "0 < s" "page < pageCount (footer_of rows s 0)"
  shows "page_rows rows s page = (if rows = [] then [] else
    map (\<lambda>i. rows ! (i - 1)) [fromIdx (footer_of rows s page)..<Suc (toIdx (footer_of rows s page))])"
proof (cases "rows = []")
  case False
  let ?f = "footer_of rows s page"
  have start: "page * s \<le> length rows"
  proof (cases "page = 0")
    case False
    then show ?thesis
      using pageCount_least[of ?f page] assms pageCount_footer[of rows s page] by (simp add: footer_of_def)
  qed simp
  have "length (page_rows rows s page) = min s (length rows - page * s)" by (simp add: page_rows_def)
  with start have to: "toIdx ?f = page * s + length (page_rows rows s page)"
    by (simp add: toIdx_def footer_of_def)
  have "page_rows rows s page = map ((!) rows) [page * s..<page * s + length (page_rows rows s page)]"
    using start by (intro nth_equalityI) (simp_all add: page_rows_def)
  also have "\<dots> = map (\<lambda>i. rows ! (i - 1)) (map Suc [page * s..<toIdx ?f])"
    by (simp add: to)
  also have "\<dots> = map (\<lambda>i. rows ! (i - 1)) [fromIdx ?f..<Suc (toIdx ?f)]"
    using False by (simp only: map_Suc_upt) (simp add: fromIdx_def footer_of_def del: upt_Suc)
  finally show ?thesis using False by simp
qed (simp add: page_rows_def)

text \<open>
  paging shows every row: for a table of any length, pressing the forward button until it is disabled shows
  every row exactly once and in order, ends on the last page, and on each page the label names exactly
  the positions of the rows on it.
\<close>

theorem paging_shows_every_row:
  assumes "0 < pageSize" "length rows \<le> n"
  shows "concat (map (page_rows rows pageSize) (walk_next n rows pageSize 0)) = rows \<and>
    next_disabled (footer_of rows pageSize (last (walk_next n rows pageSize 0))) \<and>
    (\<forall>page \<in> set (walk_next n rows pageSize 0).
       page_rows rows pageSize page = (if rows = [] then [] else
         map (\<lambda>i. rows ! (i - 1))
           [fromIdx (footer_of rows pageSize page)..<Suc (toIdx (footer_of rows pageSize page))]))"
proof -
  let ?f = "footer_of rows pageSize 0"
  have "pageCount ?f \<le> Suc (length rows)"
  proof (rule ccontr)
    assume "\<not> pageCount ?f \<le> Suc (length rows)"
    then have "Suc (length rows) * pageSize < length rows"
      using pageCount_least[of ?f "Suc (length rows)"] assms(1) by (simp add: footer_of_def)
    moreover have "Suc (length rows) * 1 \<le> Suc (length rows) * pageSize" using assms(1) by (intro mult_le_mono) simp_all
    ultimately show False by simp
  qed
  then have walk: "walk_next n rows pageSize 0 = [0..<pageCount ?f]"
    using assms(2) by (intro walk_next_pages) simp_all
  have "length rows \<le> pageCount ?f * pageSize"
    using pageCount_bound[of ?f] assms(1) by (simp add: footer_of_def)
  then have "concat (map (page_rows rows pageSize) [0..<pageCount ?f]) = rows"
    using assms(1) by (simp add: concat_pages)
  moreover have "next_disabled (footer_of rows pageSize (pageCount ?f - 1))"
    using pageCount_footer[of rows pageSize "pageCount ?f - 1"] by (simp add: next_disabled_def footer_of_def)
  ultimately show ?thesis
    unfolding walk using page_label[OF assms(1), of _ rows] by (simp del: upt_Suc One_nat_def)
qed

theorem paging_shows_every_row_witness:
  "concat (map (page_rows [10, 20, 30, 40, 50 :: nat] 2) (walk_next 5 [10, 20, 30, 40, 50 :: nat] 2 0)) = [10, 20, 30, 40, 50]"
  using paging_shows_every_row[of 2 "[10, 20, 30, 40, 50 :: nat]" 5] by simp

text \<open>When rows disappear the index is not clamped: the footer of a page past the end counts backwards.\<close>

lemma stale_index_label:
  "0 < s \<Longrightarrow> length rows < page * s \<Longrightarrow> rows \<noteq> [] \<Longrightarrow>
   page_rows rows s page = [] \<and> toIdx (footer_of rows s page) < fromIdx (footer_of rows s page)"
  by (simp add: page_rows_def toIdx_def fromIdx_def footer_of_def)

section \<open>The contract of a table page\<close>

text \<open>
  A page has a selection (its filters as chosen), a page size and a cell with the page index, stored under a
  text made from both.  Changing the selection or the size leaves the cell alone.
\<close>

locale log_page =
  fixes page_key :: "'p \<Rightarrow> string"
    and cell_of :: "'p \<Rightarrow> resetting_page"
    and put_cell :: "resetting_page \<Rightarrow> 'p \<Rightarrow> 'p"
    and selected :: "'p \<Rightarrow> 'sel"
    and change :: "'act \<Rightarrow> 'p \<Rightarrow> 'p"
    and valid :: "'p \<Rightarrow> bool"
  assumes key_inj: "valid p \<Longrightarrow> valid q \<Longrightarrow> page_key p = page_key q \<longleftrightarrow> selected p = selected q"
    and cell_put: "cell_of (put_cell c p) = c"
    and selected_put: "selected (put_cell c p) = selected p"
    and key_put: "page_key (put_cell c p) = page_key p"
    and cell_change: "cell_of (change a p) = cell_of p"
    and valid_put: "valid p \<Longrightarrow> valid (put_cell c p)"
    and valid_change: "valid p \<Longrightarrow> valid (change a p)"
begin

text \<open>An event is a change (\<open>Inl\<close>) or turning to a page (\<open>Inr\<close>).\<close>

definition turn :: "'act + nat \<Rightarrow> 'p \<Rightarrow> 'p" where
  "turn e p = (case e of Inl a \<Rightarrow> change a p | Inr n \<Rightarrow> put_cell (resetting_setPage (page_key p) n) p)"

definition current :: "'p \<Rightarrow> nat" where
  "current p = resetting_read (page_key p) (cell_of p)"

definition run_page :: "'p \<Rightarrow> ('act + nat) list \<Rightarrow> 'p" where
  "run_page p es = foldl (\<lambda>p e. turn e p) p es"

lemma valid_turn: "valid p \<Longrightarrow> valid (turn e p)"
  by (simp add: turn_def valid_put valid_change split: sum.splits)

lemma valid_run: "valid p \<Longrightarrow> valid (run_page p es)"
  unfolding run_page_def by (induction es arbitrary: p) (simp_all add: valid_turn)

lemma run_append: "run_page p (es @ fs) = run_page (run_page p es) fs"
  by (simp add: run_page_def)

lemma cell_changes: "cell_of (run_page p (map Inl as)) = cell_of p"
  unfolding run_page_def by (induction as arbitrary: p) (simp_all add: turn_def cell_change)

text \<open>After turning to a page and any changes, that page is current exactly while the selection is the one
  it was turned in.\<close>

lemma current_after_turn:
  assumes "valid p"
  shows "current (run_page p (es @ Inr n # map Inl as)) =
    (if selected (run_page p (es @ Inr n # map Inl as)) = selected (run_page p es) then n else 0)"
proof -
  let ?q = "run_page p es"
  let ?r = "run_page (turn (Inr n) ?q) (map Inl as)"
  have run: "run_page p (es @ Inr n # map Inl as) = ?r" by (simp add: run_append) (simp add: run_page_def)
  have "valid ?q" "valid ?r" using assms by (simp_all add: valid_run valid_turn)
  moreover have "cell_of ?r = resetting_setPage (page_key ?q) n"
    unfolding cell_changes by (simp add: turn_def cell_put)
  ultimately show ?thesis
    unfolding run by (auto simp: current_def resetting_read_def resetting_setPage_def key_inj)
qed

lemma current_unturned: "rp_page (cell_of p) = 0 \<Longrightarrow> current (run_page p (map Inl as)) = 0"
  by (simp add: current_def resetting_read_def cell_changes)

end

end
