(* ===== verification/Log_Pages.thy ===== *)
theory Log_Pages
  imports Pager Page_Effect Status_Pill Json_Read Js_Date
begin

text \<open>
  The log tables of the administration: src/web/src/pages/admin/AuditLog.tsx, Sessions.tsx, AccessLogs.tsx and
  FailedLogins.tsx.  Each keeps its filters, a page size and a page index, and asks the server for one page
  of rows.  The filters object is memoised: the start of a relative time range is computed when a filter
  changes, from the clock at that moment, which the state keeps as the time of the last computation.
\<close>

section \<open>Shared choices\<close>

datatype RangeChoice = Range_all | Range_1h | Range_24h | Range_7d | Range_30d

fun RangeChoice_str :: "RangeChoice \<Rightarrow> string" where
  "RangeChoice_str Range_all = ''all''"
| "RangeChoice_str Range_1h = ''1h''"
| "RangeChoice_str Range_24h = ''24h''"
| "RangeChoice_str Range_7d = ''7d''"
| "RangeChoice_str Range_30d = ''30d''"

fun RANGE_LABEL :: "RangeChoice \<Rightarrow> string" where
  "RANGE_LABEL Range_all = ''All time''"
| "RANGE_LABEL Range_1h = ''Last hour''"
| "RANGE_LABEL Range_24h = ''Last 24h''"
| "RANGE_LABEL Range_7d = ''Last 7 days''"
| "RANGE_LABEL Range_30d = ''Last 30 days''"

definition range_ms :: "RangeChoice \<Rightarrow> int" where
  "range_ms r =
     (if r = Range_1h then 60 * 60 * 1000
      else if r = Range_24h then 24 * 60 * 60 * 1000
      else if r = Range_7d then 7 * 24 * 60 * 60 * 1000
      else 30 * 24 * 60 * 60 * 1000)"

text \<open>The clock gives whole milliseconds well inside the range of dates.\<close>

definition rangeToSince :: "int \<Rightarrow> RangeChoice \<Rightarrow> string option" where
  "rangeToSince now r = (if r = Range_all then None else Some (iso_of_time (now - range_ms r)))"

text \<open>\<open>s.trim() || undefined\<close>\<close>

definition trimmed_or_undefined :: "string \<Rightarrow> string option" where
  "trimmed_or_undefined s = (if trim s = [] then None else Some (trim s))"

text \<open>\<open>ip.replace(/\/(32|128)$/, "")\<close>\<close>

definition bare_ip :: "string \<Rightarrow> string" where
  "bare_ip ip =
     (if endsWith ip ''/32'' then take (length ip - 3) ip
      else if endsWith ip ''/128'' then take (length ip - 4) ip
      else ip)"

section \<open>The audit log\<close>

record audit_page =
  ap_pageSize :: nat
  ap_action :: string
  ap_actorId :: string
  ap_targetId :: string
  ap_targetType :: string
  ap_range :: RangeChoice
  ap_cell :: resetting_page
  ap_memo :: int

definition TARGET_TYPES :: "(string \<times> string) list" where
  "TARGET_TYPES = [(''all'', ''All targets''), (''user'', ''User''), (''device'', ''Device''), (''server'', ''Server'')]"

definition audit_key :: "audit_page \<Rightarrow> string" where
  "audit_key p = stringify (JArr [JStr (ap_action p), JStr (ap_actorId p), JStr (ap_targetId p),
     JStr (ap_targetType p), JStr (RangeChoice_str (ap_range p)), JNum (of_nat (ap_pageSize p))])"

definition audit_page_init :: "int \<Rightarrow> audit_page" where
  "audit_page_init now =
     (let p = \<lparr>ap_pageSize = 50, ap_action = [], ap_actorId = [], ap_targetId = [], ap_targetType = ''all'',
               ap_range = Range_all, ap_cell = resetting_init [], ap_memo = now\<rparr>
      in p\<lparr>ap_cell := resetting_init (audit_key p)\<rparr>)"

definition audit_filters :: "audit_page \<Rightarrow> AdminAuditFilters" where
  "audit_filters p =
     \<lparr>aaf_action = trimmed_or_undefined (ap_action p),
      aaf_actor_user_id = trimmed_or_undefined (ap_actorId p),
      aaf_target_id = trimmed_or_undefined (ap_targetId p),
      aaf_target_type = (if ap_targetType p = ''all'' then None else Some (ap_targetType p)),
      aaf_since = rangeToSince (ap_memo p) (ap_range p),
      aaf_until = None\<rparr>"

text \<open>\<open>!!x\<close> for an optional string\<close>

definition nonempty_given :: "string option \<Rightarrow> bool" where
  "nonempty_given x \<longleftrightarrow> (case x of None \<Rightarrow> False | Some s \<Rightarrow> s \<noteq> [])"

definition audit_filtersActive :: "audit_page \<Rightarrow> bool" where
  "audit_filtersActive p \<longleftrightarrow>
     (let f = audit_filters p in
      nonempty_given (aaf_action f) \<or> nonempty_given (aaf_actor_user_id f) \<or> nonempty_given (aaf_target_id f)
      \<or> nonempty_given (aaf_target_type f) \<or> nonempty_given (aaf_since f))"

definition audit_page_index :: "audit_page \<Rightarrow> nat" where
  "audit_page_index p = resetting_read (audit_key p) (ap_cell p)"

definition audit_request :: "audit_page \<Rightarrow> api_request" where
  "audit_request p =
     adminListAudit (audit_filters p) (of_nat (ap_pageSize p)) (of_nat (audit_page_index p * ap_pageSize p))"

definition audit_export :: "audit_page \<Rightarrow> string" where
  "audit_export p = adminAuditCsvUrl (audit_filters p) 5000"

text \<open>The inputs, the cells of a row that filter by their value, the clear button and the rows selector.\<close>

datatype audit_act =
    Audit_action string
  | Audit_actor string
  | Audit_target string
  | Audit_type string
  | Audit_range RangeChoice
  | Audit_size nat
  | Audit_clear

fun audit_assign :: "audit_act \<Rightarrow> audit_page \<Rightarrow> audit_page" where
  "audit_assign (Audit_action s) p = p\<lparr>ap_action := s\<rparr>"
| "audit_assign (Audit_actor s) p = p\<lparr>ap_actorId := s\<rparr>"
| "audit_assign (Audit_target s) p = p\<lparr>ap_targetId := s\<rparr>"
| "audit_assign (Audit_type s) p = p\<lparr>ap_targetType := s\<rparr>"
| "audit_assign (Audit_range r) p = p\<lparr>ap_range := r\<rparr>"
| "audit_assign (Audit_size n) p = (if n \<in> set pageSizeOptions then p\<lparr>ap_pageSize := n\<rparr> else p)"
| "audit_assign Audit_clear p =
     p\<lparr>ap_action := [], ap_actorId := [], ap_targetId := [], ap_targetType := ''all'', ap_range := Range_all\<rparr>"

definition audit_deps :: "audit_page \<Rightarrow> string \<times> string \<times> string \<times> string \<times> RangeChoice" where
  "audit_deps p = (ap_action p, ap_actorId p, ap_targetId p, ap_targetType p, ap_range p)"

definition audit_change :: "audit_act \<times> int \<Rightarrow> audit_page \<Rightarrow> audit_page" where
  "audit_change e p =
     (let q = audit_assign (fst e) p in if audit_deps q = audit_deps p then q else q\<lparr>ap_memo := snd e\<rparr>)"

definition audit_selected :: "audit_page \<Rightarrow> (string \<times> string \<times> string \<times> string \<times> RangeChoice) \<times> nat" where
  "audit_selected p = (audit_deps p, ap_pageSize p)"

text \<open>A visit: changes with the clock at that moment, and turning to pages.\<close>

definition audit_turn :: "(audit_act \<times> int) + nat \<Rightarrow> audit_page \<Rightarrow> audit_page" where
  "audit_turn e p = (case e of Inl a \<Rightarrow> audit_change a p
     | Inr page \<Rightarrow> p\<lparr>ap_cell := resetting_setPage (audit_key p) page\<rparr>)"

definition audit_run :: "int \<Rightarrow> ((audit_act \<times> int) + nat) list \<Rightarrow> audit_page" where
  "audit_run now es = foldl (\<lambda>p e. audit_turn e p) (audit_page_init now) es"

section \<open>Session events\<close>

record sessions_page =
  sp_pageSize :: nat
  sp_event :: "SessionEventKind option"
  sp_userId :: string
  sp_ip :: string
  sp_range :: RangeChoice
  sp_cell :: resetting_page
  sp_memo :: int

text \<open>The option of the selector: \<open>"all"\<close> or a kind of event.\<close>

definition event_choice :: "SessionEventKind option \<Rightarrow> string" where
  "event_choice e = (case e of None \<Rightarrow> ''all'' | Some k \<Rightarrow> SessionEventKind_str k)"

definition sessions_key :: "sessions_page \<Rightarrow> string" where
  "sessions_key p = stringify (JArr [JStr (event_choice (sp_event p)), JStr (sp_userId p), JStr (sp_ip p),
     JStr (RangeChoice_str (sp_range p)), JNum (of_nat (sp_pageSize p))])"

definition sessions_page_init :: "int \<Rightarrow> sessions_page" where
  "sessions_page_init now =
     (let p = \<lparr>sp_pageSize = 50, sp_event = None, sp_userId = [], sp_ip = [], sp_range = Range_all,
               sp_cell = resetting_init [], sp_memo = now\<rparr>
      in p\<lparr>sp_cell := resetting_init (sessions_key p)\<rparr>)"

definition sessions_filters :: "sessions_page \<Rightarrow> AdminSessionEventFilters" where
  "sessions_filters p =
     \<lparr>asf_user_id = trimmed_or_undefined (sp_userId p), asf_event = sp_event p,
      asf_ip = trimmed_or_undefined (sp_ip p), asf_since = rangeToSince (sp_memo p) (sp_range p), asf_until = None\<rparr>"

definition sessions_filtersActive :: "sessions_page \<Rightarrow> bool" where
  "sessions_filtersActive p \<longleftrightarrow>
     (let f = sessions_filters p in
      asf_event f \<noteq> None \<or> nonempty_given (asf_user_id f) \<or> nonempty_given (asf_ip f) \<or> nonempty_given (asf_since f))"

definition sessions_page_index :: "sessions_page \<Rightarrow> nat" where
  "sessions_page_index p = resetting_read (sessions_key p) (sp_cell p)"

definition sessions_request :: "sessions_page \<Rightarrow> api_request" where
  "sessions_request p =
     adminListSessionEvents (sessions_filters p) (of_nat (sp_pageSize p)) (of_nat (sessions_page_index p * sp_pageSize p))"

datatype sessions_act =
    Sessions_event "SessionEventKind option"
  | Sessions_user string
  | Sessions_ip string
  | Sessions_ip_cell string
  | Sessions_range RangeChoice
  | Sessions_size nat
  | Sessions_clear

fun sessions_assign :: "sessions_act \<Rightarrow> sessions_page \<Rightarrow> sessions_page" where
  "sessions_assign (Sessions_event e) p = p\<lparr>sp_event := e\<rparr>"
| "sessions_assign (Sessions_user s) p = p\<lparr>sp_userId := s\<rparr>"
| "sessions_assign (Sessions_ip s) p = p\<lparr>sp_ip := s\<rparr>"
| "sessions_assign (Sessions_ip_cell s) p = p\<lparr>sp_ip := bare_ip s\<rparr>"
| "sessions_assign (Sessions_range r) p = p\<lparr>sp_range := r\<rparr>"
| "sessions_assign (Sessions_size n) p = (if n \<in> set pageSizeOptions then p\<lparr>sp_pageSize := n\<rparr> else p)"
| "sessions_assign Sessions_clear p = p\<lparr>sp_event := None, sp_userId := [], sp_ip := [], sp_range := Range_all\<rparr>"

definition sessions_deps :: "sessions_page \<Rightarrow> SessionEventKind option \<times> string \<times> string \<times> RangeChoice" where
  "sessions_deps p = (sp_event p, sp_userId p, sp_ip p, sp_range p)"

definition sessions_change :: "sessions_act \<times> int \<Rightarrow> sessions_page \<Rightarrow> sessions_page" where
  "sessions_change e p =
     (let q = sessions_assign (fst e) p in if sessions_deps q = sessions_deps p then q else q\<lparr>sp_memo := snd e\<rparr>)"

definition sessions_selected :: "sessions_page \<Rightarrow> (SessionEventKind option \<times> string \<times> string \<times> RangeChoice) \<times> nat" where
  "sessions_selected p = (sessions_deps p, sp_pageSize p)"

text \<open>A visit: changes with the clock at that moment, and turning to pages.\<close>

definition sessions_turn :: "(sessions_act \<times> int) + nat \<Rightarrow> sessions_page \<Rightarrow> sessions_page" where
  "sessions_turn e p = (case e of Inl a \<Rightarrow> sessions_change a p
     | Inr page \<Rightarrow> p\<lparr>sp_cell := resetting_setPage (sessions_key p) page\<rparr>)"

definition sessions_run :: "int \<Rightarrow> ((sessions_act \<times> int) + nat) list \<Rightarrow> sessions_page" where
  "sessions_run now es = foldl (\<lambda>p e. sessions_turn e p) (sessions_page_init now) es"

section \<open>Access logs\<close>

datatype StatusChoice = Status_all | Status_2xx | Status_3xx | Status_4xx | Status_5xx | Status_non2xx

fun StatusChoice_str :: "StatusChoice \<Rightarrow> string" where
  "StatusChoice_str Status_all = ''all''"
| "StatusChoice_str Status_2xx = ''2xx''"
| "StatusChoice_str Status_3xx = ''3xx''"
| "StatusChoice_str Status_4xx = ''4xx''"
| "StatusChoice_str Status_5xx = ''5xx''"
| "StatusChoice_str Status_non2xx = ''non2xx''"

fun statusBand :: "StatusChoice \<Rightarrow> number option \<times> number option" where
  "statusBand Status_2xx = (Some 200, Some 299)"
| "statusBand Status_3xx = (Some 300, Some 399)"
| "statusBand Status_4xx = (Some 400, Some 499)"
| "statusBand Status_5xx = (Some 500, Some 599)"
| "statusBand Status_non2xx = (Some 300, None)"
| "statusBand Status_all = (None, None)"

definition toneForStatus :: "number \<Rightarrow> PillTone" where
  "toneForStatus status =
     (if 500 \<le> status then Tone_err else if 400 \<le> status then Tone_warn
      else if 300 \<le> status then Tone_info else Tone_ok)"

text \<open>The method filter takes the method of a clicked row as it is, so it is any text.\<close>

record access_page =
  xp_pageSize :: nat
  xp_method :: string
  xp_status :: StatusChoice
  xp_path :: string
  xp_userId :: string
  xp_ip :: string
  xp_range :: RangeChoice
  xp_cell :: resetting_page
  xp_memo :: int

definition access_key :: "access_page \<Rightarrow> string" where
  "access_key p = stringify (JArr [JStr (xp_method p), JStr (StatusChoice_str (xp_status p)), JStr (xp_path p),
     JStr (xp_userId p), JStr (xp_ip p), JStr (RangeChoice_str (xp_range p)), JNum (of_nat (xp_pageSize p))])"

definition access_page_init :: "int \<Rightarrow> access_page" where
  "access_page_init now =
     (let p = \<lparr>xp_pageSize = 50, xp_method = ''all'', xp_status = Status_all, xp_path = [], xp_userId = [],
               xp_ip = [], xp_range = Range_1h, xp_cell = resetting_init [], xp_memo = now\<rparr>
      in p\<lparr>xp_cell := resetting_init (access_key p)\<rparr>)"

definition access_filters :: "access_page \<Rightarrow> AdminAccessLogFilters" where
  "access_filters p =
     (let sb = statusBand (xp_status p) in
      \<lparr>alf_user_id = trimmed_or_undefined (xp_userId p),
       alf_method = (if xp_method p = ''all'' then None else Some (xp_method p)),
       alf_path = trimmed_or_undefined (xp_path p),
       alf_status_min = fst sb, alf_status_max = snd sb,
       alf_ip = trimmed_or_undefined (xp_ip p),
       alf_since = rangeToSince (xp_memo p) (xp_range p), alf_until = None\<rparr>)"

definition access_filtersActive :: "access_page \<Rightarrow> bool" where
  "access_filtersActive p \<longleftrightarrow>
     (let f = access_filters p in
      xp_method p \<noteq> ''all'' \<or> xp_status p \<noteq> Status_all \<or> nonempty_given (alf_path f) \<or> nonempty_given (alf_user_id f)
      \<or> nonempty_given (alf_ip f) \<or> xp_range p \<noteq> Range_all)"

definition access_page_index :: "access_page \<Rightarrow> nat" where
  "access_page_index p = resetting_read (access_key p) (xp_cell p)"

definition access_request :: "access_page \<Rightarrow> api_request" where
  "access_request p =
     adminListAccessLogs (access_filters p) (of_nat (xp_pageSize p)) (of_nat (access_page_index p * xp_pageSize p))"

datatype access_act =
    Access_method string
  | Access_status StatusChoice
  | Access_path string
  | Access_user string
  | Access_ip string
  | Access_ip_cell string
  | Access_range RangeChoice
  | Access_size nat
  | Access_clear

fun access_assign :: "access_act \<Rightarrow> access_page \<Rightarrow> access_page" where
  "access_assign (Access_method s) p = p\<lparr>xp_method := s\<rparr>"
| "access_assign (Access_status s) p = p\<lparr>xp_status := s\<rparr>"
| "access_assign (Access_path s) p = p\<lparr>xp_path := s\<rparr>"
| "access_assign (Access_user s) p = p\<lparr>xp_userId := s\<rparr>"
| "access_assign (Access_ip s) p = p\<lparr>xp_ip := s\<rparr>"
| "access_assign (Access_ip_cell s) p = p\<lparr>xp_ip := bare_ip s\<rparr>"
| "access_assign (Access_range r) p = p\<lparr>xp_range := r\<rparr>"
| "access_assign (Access_size n) p = (if n \<in> set pageSizeOptions then p\<lparr>xp_pageSize := n\<rparr> else p)"
| "access_assign Access_clear p =
     p\<lparr>xp_method := ''all'', xp_status := Status_all, xp_path := [], xp_userId := [], xp_ip := [], xp_range := Range_1h\<rparr>"

definition access_deps :: "access_page \<Rightarrow> string \<times> StatusChoice \<times> string \<times> string \<times> string \<times> RangeChoice" where
  "access_deps p = (xp_method p, xp_status p, xp_path p, xp_userId p, xp_ip p, xp_range p)"

definition access_change :: "access_act \<times> int \<Rightarrow> access_page \<Rightarrow> access_page" where
  "access_change e p =
     (let q = access_assign (fst e) p in if access_deps q = access_deps p then q else q\<lparr>xp_memo := snd e\<rparr>)"

definition access_selected :: "access_page \<Rightarrow> (string \<times> StatusChoice \<times> string \<times> string \<times> string \<times> RangeChoice) \<times> nat" where
  "access_selected p = (access_deps p, xp_pageSize p)"

text \<open>A visit: changes with the clock at that moment, and turning to pages.\<close>

definition access_turn :: "(access_act \<times> int) + nat \<Rightarrow> access_page \<Rightarrow> access_page" where
  "access_turn e p = (case e of Inl a \<Rightarrow> access_change a p
     | Inr page \<Rightarrow> p\<lparr>xp_cell := resetting_setPage (access_key p) page\<rparr>)"

definition access_run :: "int \<Rightarrow> ((access_act \<times> int) + nat) list \<Rightarrow> access_page" where
  "access_run now es = foldl (\<lambda>p e. access_turn e p) (access_page_init now) es"

section \<open>Failed logins\<close>

record failed_page =
  fl_pageSize :: nat
  fl_cell :: resetting_page

definition failed_key :: "failed_page \<Rightarrow> string" where
  "failed_key p = nat_dec (fl_pageSize p)"

definition failed_page_init :: failed_page where
  "failed_page_init = \<lparr>fl_pageSize = 50, fl_cell = resetting_init (nat_dec 50)\<rparr>"

definition failed_page_index :: "failed_page \<Rightarrow> nat" where
  "failed_page_index p = resetting_read (failed_key p) (fl_cell p)"

definition failed_request :: "failed_page \<Rightarrow> api_request" where
  "failed_request p = adminListFailedLogins (of_nat (fl_pageSize p)) (of_nat (failed_page_index p * fl_pageSize p))"

definition failed_setPageSize :: "nat \<Rightarrow> failed_page \<Rightarrow> failed_page" where
  "failed_setPageSize n p = (if n \<in> set pageSizeOptions then p\<lparr>fl_pageSize := n\<rparr> else p)"

text \<open>The counters of the page head: rows of the page on screen with a given reason.\<close>

definition failed_kpis :: "FailedLoginRow list \<Rightarrow> nat \<times> nat \<times> nat" where
  "failed_kpis items =
     (length (filter (\<lambda>i. flr_reason i = ''rate_limited'') items),
      length (filter (\<lambda>i. flr_reason i = ''totp_incorrect'') items),
      length (filter (\<lambda>i. flr_reason i = ''no_such_user'') items))"

definition reasonPill :: "string \<Rightarrow> PillTone \<times> string" where
  "reasonPill reason =
     (if reason = ''rate_limited'' then (Tone_err, ''rate-limited'')
      else if reason = ''totp_incorrect'' then (Tone_warn, ''totp'')
      else if reason = ''no_such_user'' then (Tone_info, ''no-user'')
      else (Tone_warn, map (\<lambda>c. if c = CHR ''_'' then CHR ''-'' else c) reason))"

section \<open>The pages meet the contract\<close>

lemma stringify_inj: "json_ok a \<Longrightarrow> json_ok b \<Longrightarrow> stringify a = stringify b \<longleftrightarrow> a = b"
  by (metis option.inject stringify_reads_back)

lemma RangeChoice_str_inj [simp]: "RangeChoice_str a = RangeChoice_str b \<longleftrightarrow> a = b"
  by (cases a; cases b) simp_all

lemma StatusChoice_str_inj [simp]: "StatusChoice_str a = StatusChoice_str b \<longleftrightarrow> a = b"
  by (cases a; cases b) simp_all

lemma event_choice_inj [simp]: "event_choice a = event_choice b \<longleftrightarrow> a = b"
proof -
  have "SessionEventKind_str k \<noteq> ''all''" for k by (cases k) simp_all
  then show ?thesis by (auto simp: event_choice_def split: option.splits) metis
qed

lemma page_size_small [simp]: "n \<in> set pageSizeOptions \<Longrightarrow> n < 1000000000000000000000"
  by (auto simp: pageSizeOptions_def)

lemmas page_cell_defs = resetting_init_def resetting_setPage_def resetting_read_def

interpretation audit: log_page audit_key ap_cell "\<lambda>c p. p\<lparr>ap_cell := c\<rparr>" audit_selected audit_change
  "\<lambda>p. ap_pageSize p \<in> set pageSizeOptions"
proof unfold_locales
  fix p q :: audit_page
  assume "ap_pageSize p \<in> set pageSizeOptions" "ap_pageSize q \<in> set pageSizeOptions"
  then show "audit_key p = audit_key q \<longleftrightarrow> audit_selected p = audit_selected q"
    unfolding audit_key_def by (subst stringify_inj) (auto simp: audit_selected_def audit_deps_def)
next
  fix a p
  show "ap_cell (audit_change a p) = ap_cell p" by (cases "fst a") (simp_all add: audit_change_def Let_def)
  show "ap_pageSize (audit_change a p) \<in> set pageSizeOptions" if "ap_pageSize p \<in> set pageSizeOptions"
    using that by (cases "fst a") (simp_all add: audit_change_def Let_def)
qed (simp_all add: audit_selected_def audit_deps_def audit_key_def)

interpretation sessions: log_page sessions_key sp_cell "\<lambda>c p. p\<lparr>sp_cell := c\<rparr>" sessions_selected sessions_change
  "\<lambda>p. sp_pageSize p \<in> set pageSizeOptions"
proof unfold_locales
  fix p q :: sessions_page
  assume "sp_pageSize p \<in> set pageSizeOptions" "sp_pageSize q \<in> set pageSizeOptions"
  then show "sessions_key p = sessions_key q \<longleftrightarrow> sessions_selected p = sessions_selected q"
    unfolding sessions_key_def by (subst stringify_inj) (auto simp: sessions_selected_def sessions_deps_def)
next
  fix a p
  show "sp_cell (sessions_change a p) = sp_cell p" by (cases "fst a") (simp_all add: sessions_change_def Let_def)
  show "sp_pageSize (sessions_change a p) \<in> set pageSizeOptions" if "sp_pageSize p \<in> set pageSizeOptions"
    using that by (cases "fst a") (simp_all add: sessions_change_def Let_def)
qed (simp_all add: sessions_selected_def sessions_deps_def sessions_key_def)

interpretation access: log_page access_key xp_cell "\<lambda>c p. p\<lparr>xp_cell := c\<rparr>" access_selected access_change
  "\<lambda>p. xp_pageSize p \<in> set pageSizeOptions"
proof unfold_locales
  fix p q :: access_page
  assume "xp_pageSize p \<in> set pageSizeOptions" "xp_pageSize q \<in> set pageSizeOptions"
  then show "access_key p = access_key q \<longleftrightarrow> access_selected p = access_selected q"
    unfolding access_key_def by (subst stringify_inj) (auto simp: access_selected_def access_deps_def)
next
  fix a p
  show "xp_cell (access_change a p) = xp_cell p" by (cases "fst a") (simp_all add: access_change_def Let_def)
  show "xp_pageSize (access_change a p) \<in> set pageSizeOptions" if "xp_pageSize p \<in> set pageSizeOptions"
    using that by (cases "fst a") (simp_all add: access_change_def Let_def)
qed (simp_all add: access_selected_def access_deps_def access_key_def)

interpretation failed: log_page failed_key fl_cell "\<lambda>c p. p\<lparr>fl_cell := c\<rparr>" fl_pageSize failed_setPageSize "\<lambda>p. True"
  by unfold_locales (simp_all add: failed_key_def failed_setPageSize_def)

section \<open>Visits\<close>

lemma audit_turn_eq: "audit.turn e p = audit_turn e p"
  by (simp add: audit.turn_def audit_turn_def split: sum.splits)

lemma audit_run_eq: "audit_run now es = audit.run_page (audit_page_init now) es"
  by (simp add: audit_run_def audit.run_page_def audit_turn_eq)

lemma audit_index_eq: "audit_page_index p = audit.current p"
  by (simp add: audit_page_index_def audit.current_def)

lemma audit_init_valid [simp]: "ap_pageSize (audit_page_init now) \<in> set pageSizeOptions"
  by (simp add: audit_page_init_def Let_def pageSizeOptions_def)

lemma sessions_turn_eq: "sessions.turn e p = sessions_turn e p"
  by (simp add: sessions.turn_def sessions_turn_def split: sum.splits)

lemma sessions_run_eq: "sessions_run now es = sessions.run_page (sessions_page_init now) es"
  by (simp add: sessions_run_def sessions.run_page_def sessions_turn_eq)

lemma sessions_index_eq: "sessions_page_index p = sessions.current p"
  by (simp add: sessions_page_index_def sessions.current_def)

lemma sessions_init_valid [simp]: "sp_pageSize (sessions_page_init now) \<in> set pageSizeOptions"
  by (simp add: sessions_page_init_def Let_def pageSizeOptions_def)

lemma access_turn_eq: "access.turn e p = access_turn e p"
  by (simp add: access.turn_def access_turn_def split: sum.splits)

lemma access_run_eq: "access_run now es = access.run_page (access_page_init now) es"
  by (simp add: access_run_def access.run_page_def access_turn_eq)

lemma access_index_eq: "access_page_index p = access.current p"
  by (simp add: access_page_index_def access.current_def)

lemma access_init_valid [simp]: "xp_pageSize (access_page_init now) \<in> set pageSizeOptions"
  by (simp add: access_page_init_def Let_def pageSizeOptions_def)


text \<open>Coming back to a selection brings back the page, although the hook's comment promises the first page
  whenever the selection changes.\<close>

theorem page_restored_on_return:
  "audit_page_index (audit_run now [Inr 3, Inl (Audit_action ''x'', t)]) = 0 \<and>
   audit_page_index (audit_run now [Inr 3, Inl (Audit_action ''x'', t), Inl (Audit_action [], u)]) = 3"
proof -
  have "audit_page_index (audit_run now ([] @ Inr 3 # map Inl [(Audit_action ''x'', t)])) = 0"
    unfolding audit_run_eq audit_index_eq
    by (subst audit.current_after_turn)
       (simp_all add: audit.run_page_def audit_turn_eq audit_turn_def audit_change_def audit_page_init_def Let_def
          audit_selected_def audit_deps_def pageSizeOptions_def)
  moreover have "audit_page_index (audit_run now ([] @ Inr 3 # map Inl [(Audit_action ''x'', t), (Audit_action [], u)])) = 3"
    unfolding audit_run_eq audit_index_eq
    by (subst audit.current_after_turn)
       (simp_all add: audit.run_page_def audit_turn_eq audit_turn_def audit_change_def audit_page_init_def Let_def
          audit_selected_def audit_deps_def pageSizeOptions_def)
  ultimately show ?thesis by simp
qed

text \<open>
  clearing the filters shows everything again on the audit and session logs, where the page then asks for the
  unfiltered rows and no longer calls them filtered, but not on the access logs, where it asks for the last
  hour and calls the rows filtered although every filter has its first value.
\<close>

theorem clear_filters:
  "\<not> audit_filtersActive (audit_change (Audit_clear, t) p) \<and>
   audit_filters (audit_change (Audit_clear, t) p) =
     \<lparr>aaf_action = None, aaf_actor_user_id = None, aaf_target_id = None, aaf_target_type = None, aaf_since = None, aaf_until = None\<rparr> \<and>
   \<not> sessions_filtersActive (sessions_change (Sessions_clear, t) q) \<and>
   sessions_filters (sessions_change (Sessions_clear, t) q) =
     \<lparr>asf_user_id = None, asf_event = None, asf_ip = None, asf_since = None, asf_until = None\<rparr> \<and>
   access_filtersActive (access_change (Access_clear, t) r) \<and>
   access_deps (access_change (Access_clear, t) r) = access_deps (access_page_init t)"
  by (simp add: audit_filtersActive_def audit_filters_def audit_change_def sessions_filtersActive_def
      sessions_filters_def sessions_change_def access_filtersActive_def access_change_def access_deps_def
      access_page_init_def trimmed_or_undefined_def rangeToSince_def nonempty_given_def trim_def Let_def)

text \<open>A page of the audit log is called filtered exactly when its request filters.\<close>

lemma iso_ne [simp]: "iso_of_time t \<noteq> []"
  by (simp add: iso_of_time_def Let_def)

lemma audit_filtersActive_iff:
  assumes "ap_targetType p \<noteq> []"
  shows "audit_filtersActive p \<longleftrightarrow> audit_filters p \<noteq>
    \<lparr>aaf_action = None, aaf_actor_user_id = None, aaf_target_id = None, aaf_target_type = None, aaf_since = None, aaf_until = None\<rparr>"
  using assms
  by (auto simp: audit_filtersActive_def audit_filters_def trimmed_or_undefined_def rangeToSince_def nonempty_given_def Let_def)

text \<open>The band of a status choice holds the statuses of its class; the last one starts at 300.\<close>

definition in_band :: "number option \<times> number option \<Rightarrow> number \<Rightarrow> bool" where
  "in_band b x \<longleftrightarrow> (case fst b of None \<Rightarrow> True | Some m \<Rightarrow> m \<le> x) \<and> (case snd b of None \<Rightarrow> True | Some m \<Rightarrow> x \<le> m)"

lemma in_band_class:
  "in_band (statusBand Status_2xx) (of_nat n) \<longleftrightarrow> n div 100 = 2"
  "in_band (statusBand Status_3xx) (of_nat n) \<longleftrightarrow> n div 100 = 3"
  "in_band (statusBand Status_4xx) (of_nat n) \<longleftrightarrow> n div 100 = 4"
  "in_band (statusBand Status_5xx) (of_nat n) \<longleftrightarrow> n div 100 = 5"
  "in_band (statusBand Status_non2xx) (of_nat n) \<longleftrightarrow> 3 \<le> n div 100"
proof -
  have "m \<le> (of_nat n :: number) \<longleftrightarrow> nat \<lceil>m\<rceil> \<le> n" for m :: number
    by (simp add: nat_le_iff ceiling_le_iff)
  moreover have "(of_nat n :: number) \<le> of_nat k \<longleftrightarrow> n \<le> k" for k by simp
  ultimately show "in_band (statusBand Status_2xx) (of_nat n) \<longleftrightarrow> n div 100 = 2"
    "in_band (statusBand Status_3xx) (of_nat n) \<longleftrightarrow> n div 100 = 3"
    "in_band (statusBand Status_4xx) (of_nat n) \<longleftrightarrow> n div 100 = 4"
    "in_band (statusBand Status_5xx) (of_nat n) \<longleftrightarrow> n div 100 = 5"
    "in_band (statusBand Status_non2xx) (of_nat n) \<longleftrightarrow> 3 \<le> n div 100"
    by (auto simp: in_band_def)
qed

text \<open>The start of a relative range stays where it was when a filter last changed.\<close>

lemma range_start_pinned:
  "alf_since (access_filters (access_run t [])) = Some (iso_of_time (t - 3600000))"
  by (simp add: access_run_def access_page_init_def access_filters_def rangeToSince_def range_ms_def Let_def)

end
