(* ===== verification/Topology_Layout.thy ===== *)
theory Topology_Layout
  imports Complex_Main Grouping Page_Effect
begin

text \<open>
  The layout of the live topology, src/web/src/components/topology/LiveTopology.tsx: which devices are drawn, their
  grouping by owner, the radii of the rings, the size of the canvas and the place of every node.
  Coordinates and angles are real numbers.
\<close>

section \<open>Constants\<close>

definition DEFAULT_H :: real where "DEFAULT_H = 560"
definition DEFAULT_VB_W :: real where "DEFAULT_VB_W = 1000"
definition MAX_PEERS :: nat where "MAX_PEERS = 24"
definition MAX_USERS :: nat where "MAX_USERS = 12"
definition HUB_HALO_R :: real where "HUB_HALO_R = 38"
definition PEER_HALO_R :: real where "PEER_HALO_R = 22"
definition RING_GAP :: real where "RING_GAP = 18"
definition MIN_USER_RING :: real where "MIN_USER_RING = 130"
definition MIN_PEER_RING :: real where "MIN_PEER_RING = 60"
definition MAX_USER_RING :: real where "MAX_USER_RING = 820"
definition MAX_PEER_RING :: real where "MAX_PEER_RING = 200"
definition RADIAL_DEVICE_GAP :: real where "RADIAL_DEVICE_GAP = 40"

lemmas topo_consts =
  DEFAULT_H_def DEFAULT_VB_W_def HUB_HALO_R_def PEER_HALO_R_def RING_GAP_def MIN_USER_RING_def MIN_PEER_RING_def
  MAX_USER_RING_def MAX_PEER_RING_def RADIAL_DEVICE_GAP_def

section \<open>Radii\<close>

definition peerRingFor :: "nat \<Rightarrow> real" where
  "peerRingFor deviceCount =
     (if deviceCount \<le> 1 then MIN_PEER_RING
      else (let halo = PEER_HALO_R + RING_GAP / 2;
                r = halo / max (sin (pi / real deviceCount)) 0.05
            in min (max MIN_PEER_RING r) MAX_PEER_RING))"

definition radialUserRingFor :: "nat \<Rightarrow> real" where
  "radialUserRingFor userCount =
     (if userCount \<le> 1 then MIN_USER_RING
      else (let halo = PEER_HALO_R + RING_GAP / 2;
                r = halo / sin (pi / real userCount)
            in min (max MIN_USER_RING r) MAX_USER_RING))"

definition radialDeviceRingFor :: "nat \<Rightarrow> real \<Rightarrow> real" where
  "radialDeviceRingFor deviceCount userRing =
     (let halo = PEER_HALO_R + RING_GAP / 2;
          clear = userRing + PEER_HALO_R + RADIAL_DEVICE_GAP + PEER_HALO_R
      in if deviceCount \<le> 1 then max clear (userRing + 90)
         else max (halo / sin (pi / real deviceCount)) clear)"

definition userRingFor :: "nat \<Rightarrow> real \<Rightarrow> real" where
  "userRingFor userCount maxPeerRing =
     (let halfWidth = maxPeerRing + PEER_HALO_R + RING_GAP / 2;
          minHubClear = maxPeerRing + HUB_HALO_R + RING_GAP
      in if userCount \<le> 1 then max MIN_USER_RING minHubClear
         else (let ang = sin (pi / real userCount);
                   fromAngular = halfWidth / max ang 0.05;
                   r = max (max MIN_USER_RING fromAngular) minHubClear
               in min r MAX_USER_RING))"

section \<open>Tones and angles\<close>

datatype topo_tone = Topo_live | Topo_online | Topo_idle | Topo_paused | Topo_revoked

definition toneFor :: "DeviceStatus \<Rightarrow> bool \<Rightarrow> bool \<Rightarrow> topo_tone" where
  "toneFor status online hasTraffic =
     (if status = Dev_revoked then Topo_revoked
      else if status = Dev_paused then Topo_paused
      else if \<not> online then Topo_idle
      else if hasTraffic then Topo_live else Topo_online)"

definition angleFor :: "nat \<Rightarrow> nat \<Rightarrow> real" where
  "angleFor n index =
     (if n = 0 then - pi / 2 else (real index + 0.5) / real n * pi * 2 - pi / 2)"

definition deviceAngleFor :: "nat \<Rightarrow> nat \<Rightarrow> real \<Rightarrow> real" where
  "deviceAngleFor k index userAngle =
     (if k \<le> 1 then userAngle else userAngle + real index / real k * pi * 2)"

section \<open>What is drawn\<close>

definition topo_visible :: "(PublicDevice \<Rightarrow> bool) \<Rightarrow> bool \<Rightarrow> PublicDevice list \<Rightarrow> PublicDevice list" where
  "topo_visible online liveOnly devices =
     (let live = filter (\<lambda>d. pd_status d \<noteq> Dev_revoked) devices;
          live' = (if liveOnly then filter online live else live)
      in take MAX_PEERS live')"

definition topo_hidden :: "PublicDevice list \<Rightarrow> PublicDevice list \<Rightarrow> nat" where
  "topo_hidden devices visible = length (filter (\<lambda>d. pd_status d \<noteq> Dev_revoked) devices) - length visible"

definition userGroups :: "PublicDevice list \<Rightarrow> (string \<times> PublicDevice list) list" where
  "userGroups visible = take MAX_USERS (foldl (group_push pd_user_id) [] visible)"

record layout_radii =
  lr_perUser :: "(string \<times> real) list"
  lr_maxPeer :: real
  lr_treeUserRing :: real
  lr_radialUserRing :: real
  lr_radialDevRing :: real
  lr_totalDevices :: nat

definition layoutRadii :: "(string \<times> PublicDevice list) list \<Rightarrow> layout_radii" where
  "layoutRadii groups =
     (let perUser = map (\<lambda>(u, ds). (u, peerRingFor (length ds))) groups;
          maxPeer = foldl (\<lambda>m (u, ds). if peerRingFor (length ds) > m then peerRingFor (length ds) else m) MIN_PEER_RING groups;
          totalDevices = sum_list (map (\<lambda>(u, ds). length ds) groups);
          treeUserRing = userRingFor (length groups) maxPeer;
          radialUserRing = radialUserRingFor (length groups)
      in \<lparr>lr_perUser = perUser, lr_maxPeer = maxPeer, lr_treeUserRing = treeUserRing,
          lr_radialUserRing = radialUserRing,
          lr_radialDevRing = radialDeviceRingFor totalDevices radialUserRing,
          lr_totalDevices = totalDevices\<rparr>)"

datatype LayoutMode = Tree | Radial

text \<open>\<open>Math.round\<close>\<close>

definition round_real :: "real \<Rightarrow> real" where
  "round_real x = of_int \<lfloor>x + 1 / 2\<rfloor>"

definition canvas :: "LayoutMode \<Rightarrow> real \<Rightarrow> layout_radii \<Rightarrow> real \<times> real" where
  "canvas mode containerAspect radii =
     (let pad = PEER_HALO_R + 60;
          radial = (if mode = Tree then lr_treeUserRing radii + lr_maxPeer radii else lr_radialDevRing radii);
          need = 2 * (radial + pad)
      in if containerAspect \<ge> 1
         then (let h = max DEFAULT_H need; w = max (h * containerAspect) need
               in (round_real w, round_real (max h (w / containerAspect))))
         else (let w = max DEFAULT_VB_W need; h = max (w / containerAspect) need
               in (round_real (max w (h * containerAspect)), round_real h)))"

definition userRingRadius :: "LayoutMode \<Rightarrow> layout_radii \<Rightarrow> real" where
  "userRingRadius mode radii = (if mode = Tree then lr_treeUserRing radii else lr_radialUserRing radii)"

text \<open>The aspect ratio after a series of measurements of the container, empty ones ignored.\<close>

definition container_aspect :: "(real \<times> real) list \<Rightarrow> real" where
  "container_aspect rs = foldl (\<lambda>a (width, height). if height \<le> 0 \<or> width \<le> 0 then a else width / height) (DEFAULT_VB_W / DEFAULT_H) rs"

section \<open>Places\<close>

type_synonym point = "real \<times> real"

text \<open>The point at an angle and a distance from another.\<close>

definition polar :: "point \<Rightarrow> real \<Rightarrow> real \<Rightarrow> point" where
  "polar c a r = (fst c + cos a * r, snd c + sin a * r)"

record LaidOutUser =
  lu_userId :: string
  lu_label :: string
  lu_at :: point
  lu_liveCount :: nat
  lu_onlineCount :: nat
  lu_peerCount :: nat

record LaidOutPeer =
  lp_device :: PublicDevice
  lp_at :: point
  lp_tone :: topo_tone
  lp_rateBps :: real
  lp_userAt :: point

text \<open>The props and state the places depend on.\<close>

record topo_scene =
  ts_online :: "PublicDevice \<Rightarrow> bool"
  ts_rates :: "string \<Rightarrow> (real \<times> real) option"
  ts_labels :: "string \<Rightarrow> string option"
  ts_mode :: LayoutMode
  ts_aspect :: real
  ts_overrides :: "string \<Rightarrow> point option"
  ts_groups :: "(string \<times> PublicDevice list) list"

definition scene_center :: "topo_scene \<Rightarrow> point" where
  "scene_center s = (let (w, h) = canvas (ts_mode s) (ts_aspect s) (layoutRadii (ts_groups s)) in (w / 2, h / 2))"

definition topo_rate_of :: "topo_scene \<Rightarrow> string \<Rightarrow> real" where
  "topo_rate_of s did = (case ts_rates s did of None \<Rightarrow> 0 | Some (rx, tx) \<Rightarrow> rx + tx)"

definition user_angle :: "nat \<Rightarrow> nat \<Rightarrow> real" where
  "user_angle n i = (if n = 1 then - pi / 2 else angleFor n i)"

definition override_or :: "topo_scene \<Rightarrow> string \<Rightarrow> point \<Rightarrow> point" where
  "override_or s key computed = (case ts_overrides s key of Some p \<Rightarrow> p | None \<Rightarrow> computed)"

definition place_user :: "topo_scene \<Rightarrow> nat \<times> string \<times> PublicDevice list \<Rightarrow> LaidOutUser" where
  "place_user s = (\<lambda>(i, userId, userDevices).
     (let computed = polar (scene_center s) (user_angle (length (ts_groups s)) i)
            (userRingRadius (ts_mode s) (layoutRadii (ts_groups s)))
      in \<lparr>lu_userId = userId,
          lu_label = (case ts_labels s userId of Some l \<Rightarrow> l | None \<Rightarrow> ''user '' @ middle_dot @ '' '' @ take 6 userId),
          lu_at = override_or s (''user-'' @ userId) computed,
          lu_liveCount = length (filter (\<lambda>d. ts_online s d \<and> 1024 < topo_rate_of s (pd_id d)) userDevices),
          lu_onlineCount = length (filter (ts_online s) userDevices),
          lu_peerCount = length userDevices\<rparr>))"

definition placedUsers :: "topo_scene \<Rightarrow> LaidOutUser list" where
  "placedUsers s = map (place_user s) (enumerate 0 (ts_groups s))"

text \<open>The computed place of device \<open>idx\<close> of user \<open>i\<close>, before any override.\<close>

definition device_spot :: "topo_scene \<Rightarrow> nat \<Rightarrow> string \<Rightarrow> nat \<Rightarrow> nat \<Rightarrow> nat \<Rightarrow> point" where
  "device_spot s i userId k startCursor idx =
     (let radii = layoutRadii (ts_groups s);
          userAngle = user_angle (length (ts_groups s)) i
      in if ts_mode s = Tree
         then (let peerRing = (case map_of (lr_perUser radii) userId of Some r \<Rightarrow> r | None \<Rightarrow> MIN_PEER_RING);
                   userTree = polar (scene_center s) userAngle (userRingRadius (ts_mode s) radii)
               in polar userTree (deviceAngleFor k idx userAngle) peerRing)
         else (let slotStep = (pi * 2) / real (max 1 (lr_totalDevices radii));
                   clusterCenter = real startCursor + (real k - 1) / 2;
                   slot = real startCursor + real idx;
                   baseAngle = - pi / 2 + clusterCenter * slotStep;
                   angleShift = userAngle - baseAngle
               in polar (scene_center s) (- pi / 2 + slot * slotStep + angleShift) (lr_radialDevRing radii)))"

definition place_peer :: "topo_scene \<Rightarrow> nat \<Rightarrow> LaidOutUser \<Rightarrow> nat \<Rightarrow> nat \<Rightarrow> nat \<times> PublicDevice \<Rightarrow> LaidOutPeer" where
  "place_peer s i u k startCursor = (\<lambda>(idx, d).
     (let online = ts_online s d;
          rateBps = (if online then topo_rate_of s (pd_id d) else 0)
      in \<lparr>lp_device = d,
          lp_at = override_or s (pd_id d) (device_spot s i (lu_userId u) k startCursor idx),
          lp_tone = toneFor (pd_status d) online (1024 < rateBps),
          lp_rateBps = rateBps,
          lp_userAt = lu_at u\<rparr>))"

definition devices_of :: "topo_scene \<Rightarrow> string \<Rightarrow> PublicDevice list" where
  "devices_of s userId = (case map_of (ts_groups s) userId of Some ds \<Rightarrow> ds | None \<Rightarrow> [])"

definition user_peers :: "topo_scene \<Rightarrow> nat \<times> LaidOutUser \<Rightarrow> LaidOutPeer list" where
  "user_peers s = (\<lambda>(i, u).
     (let userDevices = devices_of s (lu_userId u);
          startCursor = sum_list (map (\<lambda>v. length (devices_of s (lu_userId v))) (take i (placedUsers s)))
      in map (place_peer s i u (length userDevices) startCursor) (enumerate 0 userDevices)))"

definition placed :: "topo_scene \<Rightarrow> LaidOutPeer list" where
  "placed s = concat (map (user_peers s) (enumerate 0 (placedUsers s)))"

definition hub_at :: "topo_scene \<Rightarrow> point" where
  "hub_at s = override_or s ''__hub__'' (scene_center s)"

text \<open>The scene the component draws for its props.\<close>

definition topo_groups :: "(PublicDevice \<Rightarrow> bool) \<Rightarrow> bool \<Rightarrow> PublicDevice list \<Rightarrow> (string \<times> PublicDevice list) list" where
  "topo_groups online liveOnly devices = userGroups (topo_visible online liveOnly devices)"

section \<open>Distances\<close>

definition distance :: "point \<Rightarrow> point \<Rightarrow> real" where
  "distance p q = sqrt ((fst p - fst q)\<^sup>2 + (snd p - snd q)\<^sup>2)"

lemma distance_cmod: "distance p q = cmod (Complex (fst p) (snd p) - Complex (fst q) (snd q))"
  by (simp add: distance_def cmod_def)

lemma distance_polar: "distance (polar c a r) c = \<bar>r\<bar>"
proof -
  have "(cos a * r)\<^sup>2 + (sin a * r)\<^sup>2 = r\<^sup>2 * ((cos a)\<^sup>2 + (sin a)\<^sup>2)" by algebra
  then show ?thesis by (simp add: distance_def polar_def)
qed

lemma distance_triangle: "distance p r \<le> distance p q + distance q r"
proof -
  have "Complex (fst p) (snd p) - Complex (fst r) (snd r)
      = (Complex (fst p) (snd p) - Complex (fst q) (snd q)) + (Complex (fst q) (snd q) - Complex (fst r) (snd r))"
    by simp
  then show ?thesis unfolding distance_cmod by (metis norm_triangle_ineq)
qed

lemma distance_commute: "distance p q = distance q p"
  by (simp add: distance_def power2_commute)

lemma distance_polar_polar: "distance c d - \<bar>r\<bar> - \<bar>t\<bar> \<le> distance (polar c a r) (polar d b t)"
proof -
  have "distance c d \<le> distance c (polar c a r) + (distance (polar c a r) (polar d b t) + distance (polar d b t) d)"
    using distance_triangle[of c d "polar c a r"] distance_triangle[of "polar c a r" d "polar d b t"] by linarith
  then show ?thesis by (simp add: distance_polar distance_commute[of c])
qed

lemma distance_chord: "distance (polar c a r) (polar c b r) = 2 * \<bar>r\<bar> * \<bar>sin ((a - b) / 2)\<bar>"
proof -
  have "cos (a - b) = 1 - 2 * (sin ((a - b) / 2))\<^sup>2"
  proof -
    have "2 * ((a - b) / 2) = a - b" by simp
    then show ?thesis using cos_double_sin[of "(a - b) / 2"] by metis
  qed
  then have half: "2 - 2 * (cos a * cos b + sin a * sin b) = 4 * (sin ((a - b) / 2))\<^sup>2"
    by (simp add: cos_diff)
  have "(cos a * r - cos b * r)\<^sup>2 + (sin a * r - sin b * r)\<^sup>2
      = r\<^sup>2 * (((cos a)\<^sup>2 + (sin a)\<^sup>2) + ((cos b)\<^sup>2 + (sin b)\<^sup>2) - 2 * (cos a * cos b + sin a * sin b))"
    by algebra
  also have "\<dots> = r\<^sup>2 * (2 - 2 * (cos a * cos b + sin a * sin b))" by simp
  also have "\<dots> = (2 * r * sin ((a - b) / 2))\<^sup>2" unfolding half by (simp add: power_mult_distrib)
  finally show ?thesis by (simp add: distance_def polar_def abs_mult)
qed

section \<open>Sines of parts of the half turn\<close>

lemma sin_ge_cubic:
  fixes x :: real
  assumes "0 \<le> x"
  shows "x - x ^ 3 / 6 \<le> sin x"
proof -
  have "\<bar>sin x - (\<Sum>m<3. sin_coeff m * x ^ m)\<bar> \<le> inverse (fact 3) * \<bar>x\<bar> ^ 3" by (rule Maclaurin_sin_bound)
  moreover have "(\<Sum>m<3. sin_coeff m * x ^ m) = x" by (simp add: numeral_3_eq_3 sin_coeff_def)
  moreover have "inverse (fact 3) * \<bar>x\<bar> ^ 3 = x ^ 3 / 6" using assms by (simp add: fact_numeral)
  ultimately have "\<bar>sin x - x\<bar> \<le> x ^ 3 / 6" by simp
  then show ?thesis by linarith
qed

lemma pi_ge_3: "3 \<le> pi"
  using sin_x_le_x[of "pi / 6"] by (simp add: sin_30)

lemma sin_part_mono:
  assumes "2 \<le> n" "n \<le> m"
  shows "sin (pi / real m) \<le> sin (pi / real n)"
proof (rule sin_monotone_2pi_le)
  have "0 \<le> pi / real m" by simp
  then show "- (pi / 2) \<le> pi / real m" using pi_gt_zero by linarith
  show "pi / real m \<le> pi / real n" using assms by (intro divide_left_mono) simp_all
  show "pi / real n \<le> pi / 2" using assms by (intro divide_left_mono) simp_all
qed

lemma sin_part_ge:
  assumes "2 \<le> n"
  shows "3 / real n - (3 / real n) ^ 3 / 6 \<le> sin (pi / real n)"
proof -
  have "sin (3 / real n) \<le> sin (pi / real n)"
  proof (rule sin_monotone_2pi_le)
    have "0 \<le> 3 / real n" by simp
    then show "- (pi / 2) \<le> 3 / real n" using pi_gt_zero by linarith
    show "3 / real n \<le> pi / real n" using pi_ge_3 assms by (intro divide_right_mono) simp_all
    show "pi / real n \<le> pi / 2" using assms by (intro divide_left_mono) simp_all
  qed
  then show ?thesis using sin_ge_cubic[of "3 / real n"] by simp
qed

lemma sin_multiple_ge:
  assumes "1 \<le> d" "d < n"
  shows "sin (pi / real n) \<le> sin (pi * real d / real n)"
proof -
  have n: "0 < real n" using assms by simp
  have low: "sin (pi / real n) \<le> sin (pi * real e / real n)" if "1 \<le> e" "2 * e \<le> n" for e
  proof (rule sin_monotone_2pi_le)
    have "0 \<le> pi / real n" by simp
    then show "- (pi / 2) \<le> pi / real n" using pi_gt_zero by linarith
    show "pi / real n \<le> pi * real e / real n" using that n by (intro divide_right_mono) simp_all
    have "pi * (2 * real e) \<le> pi * real n" using that by (intro mult_left_mono) simp_all
    then show "pi * real e / real n \<le> pi / 2" using n by (simp add: field_simps)
  qed
  show ?thesis
  proof (cases "2 * d \<le> n")
    case True
    show ?thesis using assms(1) True by (rule low)
  next
    case False
    have "pi * real d / real n = pi - pi * real (n - d) / real n"
      using n assms by (simp add: of_nat_diff field_simps)
    then have "sin (pi * real d / real n) = sin (pi * real (n - d) / real n)" by (simp only: sin_pi_minus)
    then show ?thesis using low[of "n - d"] False assms by simp
  qed
qed

lemma sin_part_pos: "2 \<le> n \<Longrightarrow> 0 < sin (pi / real n)"
  by (rule sin_gt_zero) (simp_all add: divide_less_eq)

text \<open>Two of \<open>n\<close> places on a ring are at least the chord of one step apart.\<close>

lemma ring_places_apart:
  assumes "i < n" "j < n" "i \<noteq> j" "0 \<le> r"
  shows "2 * r * sin (pi / real n) \<le> distance (polar c (a + real i / real n * pi * 2) r) (polar c (a + real j / real n * pi * 2) r)"
proof -
  define d where "d = max i j - min i j"
  have d: "1 \<le> d" "d < n" using assms by (auto simp: d_def)
  have "((a + real i / real n * pi * 2) - (a + real j / real n * pi * 2)) / 2 = pi * (real i - real j) / real n"
    using assms(1) by (simp add: field_simps)
  moreover have "\<bar>sin (pi * (real i - real j) / real n)\<bar> = \<bar>sin (pi * real d / real n)\<bar>"
  proof (cases "j \<le> i")
    case True
    then show ?thesis by (simp add: d_def of_nat_diff)
  next
    case False
    then have "pi * (real i - real j) / real n = - (pi * real d / real n)"
      by (simp add: d_def of_nat_diff diff_divide_distrib right_diff_distrib)
    then show ?thesis by (simp only: sin_minus abs_minus)
  qed
  ultimately have "distance (polar c (a + real i / real n * pi * 2) r) (polar c (a + real j / real n * pi * 2) r)
      = 2 * r * \<bar>sin (pi * real d / real n)\<bar>"
    using assms(4) by (simp add: distance_chord)
  moreover have "sin (pi / real n) \<le> \<bar>sin (pi * real d / real n)\<bar>" using sin_multiple_ge[OF d] by linarith
  ultimately show ?thesis using assms(4) by (simp add: mult_left_mono)
qed

section \<open>The radii keep nodes apart\<close>

lemma peerRing_bounds: "60 \<le> peerRingFor k \<and> peerRingFor k \<le> 200"
  by (simp add: peerRingFor_def topo_consts Let_def)

lemma peerRing_apart:
  assumes "2 \<le> k" "k \<le> 24"
  shows "44 \<le> 2 * peerRingFor k * sin (pi / real k)"
proof -
  have s: "0.124 \<le> sin (pi / real k)"
    using sin_part_ge[of 24] sin_part_mono[OF assms] by (simp add: power3_eq_cube)
  then have "max (sin (pi / real k)) 0.05 = sin (pi / real k)" by simp
  then have ring: "peerRingFor k = min (max 60 (31 / sin (pi / real k))) 200"
    using assms by (simp add: peerRingFor_def topo_consts Let_def)
  show ?thesis
  proof (cases "peerRingFor k = 200")
    case True
    then show ?thesis using s by simp
  next
    case False
    then have "31 / sin (pi / real k) \<le> peerRingFor k" unfolding ring by (auto simp: min_def max_def split: if_splits)
    then have "31 \<le> peerRingFor k * sin (pi / real k)" using s by (simp add: divide_le_eq)
    then show ?thesis by simp
  qed
qed

lemma peerRing_few: "k \<le> 14 \<Longrightarrow> peerRingFor k \<le> 146"
proof (cases "k \<le> 1")
  case False
  assume k: "k \<le> 14"
  have s: "0.2126 \<le> sin (pi / real k)"
    using sin_part_ge[of 14] sin_part_mono[of k 14] False k by (simp add: power3_eq_cube)
  then have "31 / max (sin (pi / real k)) 0.05 \<le> 31 / 0.2126" by (intro divide_left_mono) simp_all
  then show ?thesis using False by (simp add: peerRingFor_def topo_consts Let_def)
qed (simp add: peerRingFor_def topo_consts)

lemma userRing_apart:
  assumes "2 \<le> n" "n \<le> 12" "60 \<le> m" "m \<le> 200" "n \<le> 10 \<or> m \<le> 146"
  shows "m + 31 \<le> userRingFor n m * sin (pi / real n)"
proof -
  have s12: "0.247 \<le> sin (pi / real n)"
    using sin_part_ge[of 12] sin_part_mono[of n 12] assms by (simp add: power3_eq_cube)
  have bound: "(m + 31) / sin (pi / real n) \<le> 820"
  proof (cases "n \<le> 10")
    case True
    have "0.295 \<le> sin (pi / real n)"
      using sin_part_ge[of 10] sin_part_mono[of n 10] assms True by (simp add: power3_eq_cube)
    then have "(m + 31) / sin (pi / real n) \<le> 231 / 0.295" using assms by (intro frac_le) simp_all
    also have "\<dots> \<le> 820" by simp
    finally show ?thesis .
  next
    case False
    then have "(m + 31) / sin (pi / real n) \<le> 177 / 0.247" using assms s12 by (intro frac_le) simp_all
    also have "\<dots> \<le> 820" by simp
    finally show ?thesis .
  qed
  have "max (sin (pi / real n)) 0.05 = sin (pi / real n)" using s12 by simp
  then have "(m + 31) / sin (pi / real n) \<le> userRingFor n m"
    using assms bound by (simp add: userRingFor_def topo_consts Let_def le_max_iff_disj add.commute)
  then show ?thesis using s12 by (simp add: divide_le_eq)
qed

lemma userRing_hub: "60 \<le> m \<Longrightarrow> m \<le> 200 \<Longrightarrow> m + 56 \<le> userRingFor n m \<and> 130 \<le> userRingFor n m"
  by (simp add: userRingFor_def topo_consts Let_def le_max_iff_disj)

section \<open>The groups on the canvas\<close>

definition groups_ok :: "(string \<times> PublicDevice list) list \<Rightarrow> bool" where
  "groups_ok g \<longleftrightarrow> length g \<le> MAX_USERS \<and> distinct (map fst g) \<and> list_all (\<lambda>(u, ds). ds \<noteq> []) g
     \<and> sum_list (map (\<lambda>(u, ds). length ds) g) \<le> MAX_PEERS"

lemma sum_list_take_le: "sum_list (map f (take n xs)) \<le> (sum_list (map f xs) :: nat)"
  by (metis append_take_drop_id le_add1 map_append sum_list_append)

lemma groups_ok_topo: "groups_ok (topo_groups online liveOnly devices)"
proof -
  let ?v = "topo_visible online liveOnly devices" and ?len = "\<lambda>(u :: string, ds :: PublicDevice list). length ds"
  have g: "topo_groups online liveOnly devices = take MAX_USERS (grouped pd_user_id ?v)"
    by (simp add: topo_groups_def userGroups_def group_push_run)
  have "sum_list (map ?len (grouped pd_user_id ?v)) = length (concat (map snd (grouped pd_user_id ?v)))"
    by (simp add: length_concat comp_def case_prod_unfold)
  also have "\<dots> = length ?v" using grouped_complete[of pd_user_id ?v] by (metis size_mset)
  also have "\<dots> \<le> MAX_PEERS" by (simp add: topo_visible_def Let_def)
  finally have "sum_list (map ?len (take MAX_USERS (grouped pd_user_id ?v))) \<le> MAX_PEERS"
    using sum_list_take_le[of ?len MAX_USERS "grouped pd_user_id ?v"] by linarith
  moreover have "distinct (map fst (take MAX_USERS (grouped pd_user_id ?v)))"
    by (simp add: take_map[symmetric] distinct_take)
  moreover have "list_all (\<lambda>(u, ds). ds \<noteq> []) (take MAX_USERS (grouped pd_user_id ?v))"
    by (auto simp: list_all_iff dest!: in_set_takeD grouped_nonempty)
  ultimately show ?thesis unfolding g groups_ok_def by simp
qed

lemma sum_lengths_ge: "list_all (\<lambda>(u, ds). ds \<noteq> []) g \<Longrightarrow> length g \<le> sum_list (map (\<lambda>(u, ds). length ds) g)"
proof (induction g)
  case (Cons x g)
  then show ?case by (cases "snd x") (auto split: prod.splits)
qed simp

lemma group_length:
  assumes "groups_ok g" "(u, ds) \<in> set g"
  shows "length ds + length g \<le> 25"
proof -
  obtain as bs where g: "g = as @ (u, ds) # bs" using assms(2) by (meson split_list)
  have "length as \<le> sum_list (map (\<lambda>(u, ds). length ds) as)" "length bs \<le> sum_list (map (\<lambda>(u, ds). length ds) bs)"
    using assms(1) g by (auto simp: groups_ok_def intro!: sum_lengths_ge)
  then show ?thesis using assms(1) g by (simp add: groups_ok_def MAX_PEERS_def)
qed

definition max_ring :: "(string \<times> PublicDevice list) list \<Rightarrow> real \<Rightarrow> real" where
  "max_ring g m = foldl (\<lambda>m (u, ds). if peerRingFor (length ds) > m then peerRingFor (length ds) else m) m g"

lemma max_ring_ge: "m \<le> max_ring g m"
proof (induction g arbitrary: m)
  case (Cons x g)
  let ?m = "if peerRingFor (length (snd x)) > m then peerRingFor (length (snd x)) else m"
  have "max_ring (x # g) m = max_ring g ?m" by (simp add: max_ring_def case_prod_unfold)
  moreover have "m \<le> ?m" by simp
  ultimately show ?case using Cons[of ?m] by linarith
qed (simp add: max_ring_def)

lemma max_ring_upper: "(u, ds) \<in> set g \<Longrightarrow> peerRingFor (length ds) \<le> max_ring g m"
proof (induction g arbitrary: m)
  case (Cons x g)
  obtain v es where x: "x = (v, es)" by fastforce
  let ?m = "if peerRingFor (length es) > m then peerRingFor (length es) else m"
  have step: "max_ring (x # g) m = max_ring g ?m" by (simp add: max_ring_def x)
  show ?case
  proof (cases "x = (u, ds)")
    case True
    then have "peerRingFor (length ds) \<le> ?m" using x by simp
    then show ?thesis using max_ring_ge[of ?m g] step by linarith
  next
    case False
    then show ?thesis using Cons step by simp
  qed
qed (simp add: max_ring_def)

lemma max_ring_le: "m \<le> b \<Longrightarrow> (\<And>u ds. (u, ds) \<in> set g \<Longrightarrow> peerRingFor (length ds) \<le> b) \<Longrightarrow> max_ring g m \<le> b"
proof (induction g arbitrary: m)
  case (Cons x g)
  obtain v es where x: "x = (v, es)" by fastforce
  let ?m = "if peerRingFor (length es) > m then peerRingFor (length es) else m"
  have "max_ring (x # g) m = max_ring g ?m" by (simp add: max_ring_def x)
  moreover have "max_ring g ?m \<le> b" using Cons.prems x by (intro Cons.IH) auto
  ultimately show ?case by simp
qed (simp add: max_ring_def)

lemma radii_maxPeer: "lr_maxPeer (layoutRadii g) = max_ring g 60"
  by (simp add: layoutRadii_def max_ring_def MIN_PEER_RING_def Let_def)

lemma radii_treeUserRing: "lr_treeUserRing (layoutRadii g) = userRingFor (length g) (max_ring g 60)"
  by (simp add: layoutRadii_def max_ring_def MIN_PEER_RING_def Let_def)

lemma max_ring_bounds: "60 \<le> max_ring g 60 \<and> max_ring g 60 \<le> 200"
  using max_ring_ge[of 60 g] peerRing_bounds by (auto intro: max_ring_le)

lemma tree_rings_apart:
  assumes "groups_ok g" "2 \<le> length g"
  shows "max_ring g 60 + 31 \<le> lr_treeUserRing (layoutRadii g) * sin (pi / real (length g))"
proof -
  have "length g \<le> 10 \<or> max_ring g 60 \<le> 146"
  proof (cases "length g \<le> 10")
    case False
    then have "peerRingFor (length ds) \<le> 146" if "(u, ds) \<in> set g" for u ds
      using group_length[OF assms(1) that] by (intro peerRing_few) simp
    then show ?thesis by (auto intro: max_ring_le)
  qed simp
  then show ?thesis
    using assms max_ring_bounds[of g] unfolding radii_treeUserRing
    by (intro userRing_apart) (simp_all add: groups_ok_def MAX_USERS_def)
qed

section \<open>Nodes of the tree layout\<close>

definition tree_spot :: "point \<Rightarrow> (string \<times> PublicDevice list) list \<Rightarrow> nat \<Rightarrow> nat \<Rightarrow> point" where
  "tree_spot c g i idx =
     (let k = length (snd (g ! i)); a = user_angle (length g) i in
      polar (polar c a (lr_treeUserRing (layoutRadii g))) (deviceAngleFor k idx a) (peerRingFor k))"

lemma same_user_apart:
  assumes "groups_ok g" "i < length g" "idx < jdx" "jdx < length (snd (g ! i))"
  shows "2 * PEER_HALO_R \<le> distance (tree_spot c g i idx) (tree_spot c g i jdx)"
proof -
  let ?k = "length (snd (g ! i))"
  have k: "2 \<le> ?k" using assms by simp
  have "(fst (g ! i), snd (g ! i)) \<in> set g" using assms(2) by simp
  from group_length[OF assms(1) this] have "?k \<le> 24" using assms(2) by linarith
  then have "44 \<le> 2 * peerRingFor ?k * sin (pi / real ?k)" using k by (intro peerRing_apart)
  moreover have "0 \<le> peerRingFor ?k" using peerRing_bounds[of ?k] by linarith
  ultimately show ?thesis
    using ring_places_apart[of idx ?k jdx "peerRingFor ?k"
      "polar c (user_angle (length g) i) (lr_treeUserRing (layoutRadii g))" "user_angle (length g) i"] assms k
    by (simp add: tree_spot_def deviceAngleFor_def Let_def PEER_HALO_R_def)
qed

lemma user_angle_even: "2 \<le> n \<Longrightarrow> user_angle n i = (pi / real n - pi / 2) + real i / real n * pi * 2"
  by (simp add: user_angle_def angleFor_def field_simps)

lemma other_user_apart:
  assumes "groups_ok g" "i < j" "j < length g"
  shows "2 * PEER_HALO_R \<le> distance (tree_spot c g i idx) (tree_spot c g j jdx)"
proof -
  let ?R = "lr_treeUserRing (layoutRadii g)" and ?n = "length g" and ?m = "max_ring g 60"
  have n: "2 \<le> ?n" using assms by simp
  have ring: "peerRingFor (length (snd (g ! a))) \<le> ?m" "0 \<le> peerRingFor (length (snd (g ! a)))" if "a < ?n" for a
    using that max_ring_upper[of "fst (g ! a)" "snd (g ! a)" g 60] peerRing_bounds[of "length (snd (g ! a))"] by auto
  have "0 \<le> ?R" unfolding radii_treeUserRing using userRing_hub[of ?m ?n] max_ring_bounds[of g] by simp
  then have "2 * ?R * sin (pi / real ?n)
      \<le> distance (polar c (user_angle ?n i) ?R) (polar c (user_angle ?n j) ?R)"
    unfolding user_angle_even[OF n] using assms by (intro ring_places_apart) auto
  moreover have "2 * (?m + 31) \<le> 2 * ?R * sin (pi / real ?n)"
    using tree_rings_apart[OF assms(1) n] by simp
  ultimately have "2 * (?m + 31) \<le> distance (polar c (user_angle ?n i) ?R) (polar c (user_angle ?n j) ?R)" by linarith
  moreover have "distance (polar c (user_angle ?n i) ?R) (polar c (user_angle ?n j) ?R)
      - \<bar>peerRingFor (length (snd (g ! i)))\<bar> - \<bar>peerRingFor (length (snd (g ! j)))\<bar>
      \<le> distance (tree_spot c g i idx) (tree_spot c g j jdx)"
    unfolding tree_spot_def Let_def by (rule distance_polar_polar)
  ultimately show ?thesis using ring[of i] ring[of j] assms by (simp add: PEER_HALO_R_def)
qed

lemma sorted_wrt_enumerate:
  "sorted_wrt P (map f (enumerate 0 xs)) \<longleftrightarrow> (\<forall>i j. i < j \<longrightarrow> j < length xs \<longrightarrow> P (f (i, xs ! i)) (f (j, xs ! j)))"
  by (auto simp: sorted_wrt_iff_nth_less nth_enumerate_eq)

lemma placedUsers_enumerate:
  "enumerate 0 (placedUsers s) = map (\<lambda>(i, g). (i, place_user s (i, g))) (enumerate 0 (ts_groups s))"
  by (rule nth_equalityI) (simp_all add: placedUsers_def nth_enumerate_eq)

lemma place_user_id [simp]: "lu_userId (place_user s (i, g)) = fst g"
  by (simp add: place_user_def Let_def split: prod.splits)

lemma devices_of_nth:
  "distinct (map fst (ts_groups s)) \<Longrightarrow> i < length (ts_groups s) \<Longrightarrow> devices_of s (fst (ts_groups s ! i)) = snd (ts_groups s ! i)"
  by (simp add: devices_of_def map_of_eq_Some_iff[THEN iffD2, of _ _ "snd (ts_groups s ! i)"])

lemma perUser_nth:
  assumes "distinct (map fst g)" "i < length g"
  shows "map_of (lr_perUser (layoutRadii g)) (fst (g ! i)) = Some (peerRingFor (length (snd (g ! i))))"
proof -
  have "map_of (lr_perUser (layoutRadii g)) = map_option (\<lambda>ds. peerRingFor (length ds)) \<circ> map_of g"
    by (simp add: layoutRadii_def Let_def map_of_map)
  moreover have "map_of g (fst (g ! i)) = Some (snd (g ! i))" using assms by (simp add: map_of_eq_Some_iff)
  ultimately show ?thesis by simp
qed

lemma tree_place:
  assumes "groups_ok (ts_groups s)" "ts_mode s = Tree" "ts_overrides s = (\<lambda>_. None)" "i < length (ts_groups s)"
  shows "lp_at (place_peer s i (place_user s (i, ts_groups s ! i)) (length (snd (ts_groups s ! i))) cur (idx, d))
    = tree_spot (scene_center s) (ts_groups s) i idx"
  using assms perUser_nth[of "ts_groups s" i]
  by (simp add: place_peer_def override_or_def device_spot_def tree_spot_def userRingRadius_def groups_ok_def Let_def)

lemma user_peers_spots:
  assumes "groups_ok (ts_groups s)" "ts_mode s = Tree" "ts_overrides s = (\<lambda>_. None)" "i < length (ts_groups s)"
  shows "map lp_at (user_peers s (i, place_user s (i, ts_groups s ! i)))
    = map (\<lambda>(idx, d). tree_spot (scene_center s) (ts_groups s) i idx) (enumerate 0 (snd (ts_groups s ! i)))"
  using assms devices_of_nth[of s i] tree_place[OF assms]
  by (simp add: user_peers_def groups_ok_def Let_def case_prod_unfold) (metis (no_types, lifting) prod.collapse)

text \<open>
  C26: in the tree layout no two devices overlap: however many devices and users there are, however the devices
  are spread over the users and whatever the shape of the container, the drawn devices, unless moved by
  hand, are so far apart that their halos do not touch.
\<close>

theorem tree_devices_never_overlap:
  "sorted_wrt (\<lambda>p q. 2 * PEER_HALO_R \<le> distance p q)
     (map lp_at (placed \<lparr>ts_online = online, ts_rates = rates, ts_labels = labels, ts_mode = Tree, ts_aspect = aspect,
        ts_overrides = (\<lambda>_. None), ts_groups = topo_groups online liveOnly devices\<rparr>))"
proof -
  define s where "s = \<lparr>ts_online = online, ts_rates = rates, ts_labels = labels, ts_mode = Tree, ts_aspect = aspect,
        ts_overrides = (\<lambda>_. None), ts_groups = topo_groups online liveOnly devices\<rparr>"
  let ?g = "ts_groups s" and ?far = "\<lambda>p q. 2 * PEER_HALO_R \<le> distance p q"
  have ok: "groups_ok ?g" "ts_mode s = Tree" "ts_overrides s = (\<lambda>_. None)"
    by (simp_all add: s_def groups_ok_topo)
  have spots: "map lp_at (placed s) = concat (map (\<lambda>(i, g). map (\<lambda>(idx, d). tree_spot (scene_center s) ?g i idx)
      (enumerate 0 (snd g))) (enumerate 0 ?g))"
  proof -
    have "map lp_at (placed s) = concat (map (\<lambda>(i, g). map lp_at (user_peers s (i, place_user s (i, g)))) (enumerate 0 ?g))"
      by (simp add: placed_def placedUsers_enumerate map_concat comp_def case_prod_unfold)
    also have "\<dots> = concat (map (\<lambda>(i, g). map (\<lambda>(idx, d). tree_spot (scene_center s) ?g i idx) (enumerate 0 (snd g))) (enumerate 0 ?g))"
    proof (rule arg_cong[where f = concat], rule map_cong[OF refl])
      fix x assume "x \<in> set (enumerate 0 ?g)"
      then have "x = (fst x, ?g ! fst x)" "fst x < length ?g" by (simp_all add: in_set_enumerate_eq)
      then obtain i where "x = (i, ?g ! i)" "i < length ?g" by blast
      then show "(case x of (i, g) \<Rightarrow> map lp_at (user_peers s (i, place_user s (i, g))))
          = (case x of (i, g) \<Rightarrow> map (\<lambda>(idx, d). tree_spot (scene_center s) ?g i idx) (enumerate 0 (snd g)))"
        using user_peers_spots[OF ok, of i] by simp
    qed
    finally show ?thesis .
  qed
  have "sorted_wrt ?far (map lp_at (placed s))"
    unfolding spots sorted_wrt_concat
  proof (intro conjI ballI)
    fix xs assume "xs \<in> set (map (\<lambda>(i, g). map (\<lambda>(idx, d). tree_spot (scene_center s) ?g i idx) (enumerate 0 (snd g))) (enumerate 0 ?g))"
    then obtain i where i: "i < length ?g"
      "xs = map (\<lambda>(idx, d). tree_spot (scene_center s) ?g i idx) (enumerate 0 (snd (?g ! i)))"
      by (auto simp: in_set_enumerate_eq)
    then show "sorted_wrt ?far xs" using same_user_apart[OF ok(1)] by (auto simp: sorted_wrt_enumerate)
  next
    show "sorted_wrt (\<lambda>xs ys. \<forall>x\<in>set xs. \<forall>y\<in>set ys. ?far x y)
      (map (\<lambda>(i, g). map (\<lambda>(idx, d). tree_spot (scene_center s) ?g i idx) (enumerate 0 (snd g))) (enumerate 0 ?g))"
      by (auto simp: sorted_wrt_enumerate intro!: other_user_apart[OF ok(1)])
  qed
  then show ?thesis unfolding s_def .
qed

section \<open>Everything is on the canvas\<close>

lemma container_aspect_pos: "0 < container_aspect rs"
proof -
  have "0 < foldl (\<lambda>a (width, height). if height \<le> 0 \<or> width \<le> 0 then a else width / height) a rs" if "0 < a" for a
    using that by (induction rs arbitrary: a) (auto split: prod.splits)
  then show ?thesis by (simp add: container_aspect_def topo_consts)
qed

lemma round_real_ge: "x - 1 / 2 \<le> round_real x"
  unfolding round_real_def by linarith

definition extent :: "LayoutMode \<Rightarrow> layout_radii \<Rightarrow> real" where
  "extent mode radii = (if mode = Tree then lr_treeUserRing radii + lr_maxPeer radii else lr_radialDevRing radii)"

lemma canvas_need:
  assumes "canvas mode aspect radii = (w, h)"
  shows "2 * extent mode radii + 163.5 \<le> w \<and> 2 * extent mode radii + 163.5 \<le> h"
proof -
  define need where "need = 2 * (extent mode radii + (PEER_HALO_R + 60))"
  have eq: "canvas mode aspect radii =
      (if aspect \<ge> 1
       then (round_real (max (max DEFAULT_H need * aspect) need),
             round_real (max (max DEFAULT_H need) (max (max DEFAULT_H need * aspect) need / aspect)))
       else (round_real (max (max DEFAULT_VB_W need) (max (max DEFAULT_VB_W need / aspect) need * aspect)),
             round_real (max (max DEFAULT_VB_W need / aspect) need)))"
    by (simp add: canvas_def need_def extent_def Let_def)
  have round: "need \<le> y \<Longrightarrow> need - 1 / 2 \<le> round_real y" for y using round_real_ge[of y] by linarith
  have "need - 1 / 2 \<le> w \<and> need - 1 / 2 \<le> h"
    using assms unfolding eq
    by (cases "aspect \<ge> 1") (auto intro!: round simp: le_max_iff_disj)
  then show ?thesis by (simp add: need_def PEER_HALO_R_def)
qed

lemma polar_within: "\<bar>fst (polar c a r) - fst c\<bar> \<le> \<bar>r\<bar> \<and> \<bar>snd (polar c a r) - snd c\<bar> \<le> \<bar>r\<bar>"
proof -
  have "\<bar>cos a\<bar> * \<bar>r\<bar> \<le> 1 * \<bar>r\<bar>" "\<bar>sin a\<bar> * \<bar>r\<bar> \<le> 1 * \<bar>r\<bar>"
    by (intro mult_right_mono abs_cos_le_one abs_sin_le_one abs_ge_zero)+
  then show ?thesis by (simp add: polar_def abs_mult)
qed

lemma radial_ring_nonneg: "0 \<le> lr_radialDevRing (layoutRadii g)"
proof -
  have "130 \<le> radialUserRingFor n" for n by (simp add: radialUserRingFor_def topo_consts Let_def)
  from this[of "length g"] show ?thesis
    by (simp add: layoutRadii_def radialDeviceRingFor_def topo_consts Let_def le_max_iff_disj)
qed

lemma device_spot_within:
  assumes "groups_ok (ts_groups s)" "i < length (ts_groups s)" "c = scene_center s"
    "e = extent (ts_mode s) (layoutRadii (ts_groups s))"
    "q = device_spot s i (fst (ts_groups s ! i)) (length (snd (ts_groups s ! i))) cur idx"
  shows "\<bar>fst q - fst c\<bar> \<le> e \<and> \<bar>snd q - snd c\<bar> \<le> e"
proof (cases "ts_mode s = Tree")
  case True
  let ?g = "ts_groups s" and ?k = "length (snd (ts_groups s ! i))"
  have q: "q = tree_spot c ?g i idx"
    using assms True perUser_nth[of ?g i]
    by (simp add: device_spot_def tree_spot_def userRingRadius_def groups_ok_def Let_def)
  have "peerRingFor ?k \<le> max_ring ?g 60" "0 \<le> peerRingFor ?k"
    using max_ring_upper[of "fst (?g ! i)" "snd (?g ! i)" ?g 60] peerRing_bounds[of ?k] assms(2) by auto
  moreover have "0 \<le> lr_treeUserRing (layoutRadii ?g)"
    unfolding radii_treeUserRing using userRing_hub[of "max_ring ?g 60" "length ?g"] max_ring_bounds[of ?g] by simp
  ultimately show ?thesis
    using polar_within[of c "user_angle (length ?g) i" "lr_treeUserRing (layoutRadii ?g)"]
      polar_within[of "polar c (user_angle (length ?g) i) (lr_treeUserRing (layoutRadii ?g))"
        "deviceAngleFor ?k idx (user_angle (length ?g) i)" "peerRingFor ?k"]
    unfolding q tree_spot_def Let_def assms(4) extent_def radii_maxPeer using True by (simp add: abs_le_iff)
next
  case False
  then show ?thesis
    using radial_ring_nonneg[of "ts_groups s"] polar_within[of c _ "lr_radialDevRing (layoutRadii (ts_groups s))"]
    unfolding assms(4,5) device_spot_def extent_def assms(3) Let_def by simp
qed

lemma placed_elements:
  assumes "groups_ok (ts_groups s)" "ts_overrides s = (\<lambda>_. None)" "p \<in> set (placed s)"
  obtains i cur idx where "i < length (ts_groups s)"
    "lp_at p = device_spot s i (fst (ts_groups s ! i)) (length (snd (ts_groups s ! i))) cur idx"
proof -
  from assms(3) obtain x where x: "x \<in> set (enumerate 0 (ts_groups s))"
    "p \<in> set (user_peers s (fst x, place_user s (fst x, snd x)))"
    unfolding placed_def placedUsers_enumerate by (force simp: case_prod_unfold)
  then have i: "fst x < length (ts_groups s)" "snd x = ts_groups s ! fst x"
    by (simp_all add: in_set_enumerate_eq)
  have "devices_of s (fst (ts_groups s ! fst x)) = snd (ts_groups s ! fst x)"
    using assms(1) i by (simp add: devices_of_nth groups_ok_def)
  then obtain y cur where
    "p = place_peer s (fst x) (place_user s (fst x, snd x)) (length (snd (ts_groups s ! fst x))) cur y"
    using x(2) i by (auto simp: user_peers_def Let_def)
  then have "lp_at p = device_spot s (fst x) (fst (ts_groups s ! fst x)) (length (snd (ts_groups s ! fst x))) cur (fst y)"
    using i assms(2) by (simp add: place_peer_def override_or_def Let_def case_prod_unfold)
  then show thesis using i(1) that by blast
qed

text \<open>
  the graph fits its canvas: in both layouts and for every history of container sizes, every device that was not moved
  by hand lies inside the drawing area, at least 81 units from its border, so that its halo and its label
  line are not cut off.
\<close>

theorem devices_on_canvas:
  "list_all (\<lambda>q. 81 \<le> fst q \<and> 81 \<le> snd q \<and>
       fst q \<le> fst (canvas mode (container_aspect rs) (layoutRadii (topo_groups online liveOnly devices))) - 81 \<and>
       snd q \<le> snd (canvas mode (container_aspect rs) (layoutRadii (topo_groups online liveOnly devices))) - 81)
     (map lp_at (placed \<lparr>ts_online = online, ts_rates = rates, ts_labels = labels, ts_mode = mode,
        ts_aspect = container_aspect rs, ts_overrides = (\<lambda>_. None), ts_groups = topo_groups online liveOnly devices\<rparr>))"
proof -
  define s where "s = \<lparr>ts_online = online, ts_rates = rates, ts_labels = labels, ts_mode = mode,
        ts_aspect = container_aspect rs, ts_overrides = (\<lambda>_. None), ts_groups = topo_groups online liveOnly devices\<rparr>"
  obtain w h where wh: "canvas mode (container_aspect rs) (layoutRadii (topo_groups online liveOnly devices)) = (w, h)"
    by fastforce
  have ok: "groups_ok (ts_groups s)" "ts_overrides s = (\<lambda>_. None)" by (simp_all add: s_def groups_ok_topo)
  have center: "scene_center s = (w / 2, h / 2)" using wh by (simp add: scene_center_def s_def)
  let ?e = "extent mode (layoutRadii (topo_groups online liveOnly devices))"
  have "81 \<le> fst (lp_at p) \<and> 81 \<le> snd (lp_at p) \<and> fst (lp_at p) \<le> w - 81 \<and> snd (lp_at p) \<le> h - 81"
    if p: "p \<in> set (placed s)" for p
  proof -
    obtain i cur idx where "i < length (ts_groups s)"
      "lp_at p = device_spot s i (fst (ts_groups s ! i)) (length (snd (ts_groups s ! i))) cur idx"
      by (rule placed_elements[OF ok p])
    then have "\<bar>fst (lp_at p) - w / 2\<bar> \<le> ?e \<and> \<bar>snd (lp_at p) - h / 2\<bar> \<le> ?e"
      using device_spot_within[OF ok(1) _ refl refl] center by (simp add: s_def)
    then show ?thesis using canvas_need[OF wh] by (simp add: abs_le_iff field_simps)
  qed
  then show ?thesis unfolding wh by (simp add: list_all_iff s_def)
qed

section \<open>The radial layout can stack devices\<close>

lemma radial_spot:
  "ts_mode s = Radial \<Longrightarrow> device_spot s i u k cur idx =
     polar (scene_center s)
       (user_angle (length (ts_groups s)) i
         + (real idx - (real k - 1) / 2) * (pi * 2 / real (max 1 (lr_totalDevices (layoutRadii (ts_groups s))))))
       (lr_radialDevRing (layoutRadii (ts_groups s)))"
proof -
  assume "ts_mode s = Radial"
  moreover have "- pi / 2 + (c + x) * t + (a - (- pi / 2 + (c + y) * t)) = a + (x - y) * t" for c x y t a :: real
    by (simp add: algebra_simps)
  ultimately show ?thesis by (simp only: device_spot_def Let_def LayoutMode.distinct if_False)
qed

text \<open>Each user's devices are centred on the user's own angle, but spaced as if all devices were spread evenly:
  with 21, 1 and 2 devices, the nineteenth device of the first user and the only device of the second are
  drawn at the same point.\<close>

theorem radial_devices_coincide:
  assumes "ts_groups s = [(a, A), (b, [d]), (c, [e, f])]" "length A = 21" "distinct [a, b, c]"
    and "ts_mode s = Radial" "ts_overrides s = (\<lambda>_. None)"
  shows "lp_at (placed s ! 18) = lp_at (placed s ! 21)"
proof -
  let ?peers = "\<lambda>i g. user_peers s (i, place_user s (i, g))"
  have total: "lr_totalDevices (layoutRadii (ts_groups s)) = 24" using assms(1,2) by (simp add: layoutRadii_def Let_def)
  have dev: "devices_of s a = A" "devices_of s b = [d]" using assms(1,3) by (auto simp: devices_of_def)
  have split: "placed s = ?peers 0 (a, A) @ ?peers 1 (b, [d]) @ ?peers 2 (c, [e, f])"
    using assms(1) by (simp add: placed_def placedUsers_enumerate numeral_2_eq_2)
  have len: "length (?peers 0 (a, A)) = 21" "length (?peers 1 (b, [d])) = 1"
    using assms(2) dev by (simp_all add: user_peers_def Let_def)
  have "placed s ! 18 = ?peers 0 (a, A) ! 18" unfolding split using len by (simp add: nth_append)
  then have first: "lp_at (placed s ! 18) = polar (scene_center s) (user_angle 3 0 + 8 * (pi * 2 / 24)) (lr_radialDevRing (layoutRadii (ts_groups s)))"
    using assms dev radial_spot[OF assms(4), of 0 a 21] total
    by (simp add: user_peers_def place_peer_def override_or_def nth_enumerate_eq Let_def numeral_3_eq_3)
  have "placed s ! 21 = ?peers 1 (b, [d]) ! 0" unfolding split using len by (simp add: nth_append)
  then have second: "lp_at (placed s ! 21) = polar (scene_center s) (user_angle 3 1) (lr_radialDevRing (layoutRadii (ts_groups s)))"
    using assms dev radial_spot[OF assms(4), of 1 b 1] total
    by (simp add: user_peers_def place_peer_def override_or_def Let_def numeral_3_eq_3)
  have "user_angle 3 0 + 8 * (pi * 2 / 24) = user_angle 3 1" by (simp add: user_angle_def angleFor_def)
  then show ?thesis unfolding first second by simp
qed

text \<open>The hub is clear of every user's devices by the ring gap, but not by the halo of a device.\<close>

lemma hub_clearance: "HUB_HALO_R + RING_GAP \<le> lr_treeUserRing (layoutRadii g) - lr_maxPeer (layoutRadii g)"
  unfolding radii_treeUserRing radii_maxPeer
  using userRing_hub[of "max_ring g 60" "length g"] max_ring_bounds[of g] by (simp add: topo_consts)

end
