(* ===== verification/Topology_View.thy ===== *)
theory Topology_View
  imports Topology_Layout
begin

text \<open>
  Moving about the live topology, src/web/src/components/topology/LiveTopology.tsx: the pan and zoom of the view and the handlers
  of pointer, wheel and buttons, with the drag of the canvas and of single nodes.
\<close>

section \<open>State\<close>

definition MIN_SCALE :: real where "MIN_SCALE = 0.4"
definition MAX_SCALE :: real where "MAX_SCALE = 3.5"

record View =
  vw_tx :: real
  vw_ty :: real
  vw_scale :: real

definition INITIAL_VIEW :: View where
  "INITIAL_VIEW = \<lparr>vw_tx = 0, vw_ty = 0, vw_scale = 1\<rparr>"

record canvas_drag =
  cd_startX :: real
  cd_startY :: real
  cd_tx :: real
  cd_ty :: real

record node_drag =
  nd_id :: string
  nd_startVx :: real
  nd_startVy :: real
  nd_baseX :: real
  nd_baseY :: real

record topo_hover =
  th_id :: string
  th_x :: real
  th_y :: real
  th_flipX :: bool
  th_flipY :: bool

record topo_view =
  tv_view :: View
  tv_drag :: "canvas_drag option"
  tv_nodeDrag :: "node_drag option"
  tv_isDragging :: bool
  tv_isFullscreen :: bool
  tv_hover :: "topo_hover option"
  tv_positions :: "string \<Rightarrow> point option"

text \<open>The painted rectangle of the drawing and the extent of its own coordinates.\<close>

record topo_frame =
  tf_left :: real
  tf_top :: real
  tf_width :: real
  tf_height :: real
  tf_vbW :: real
  tf_vbH :: real

definition topo_view_init :: "(string \<Rightarrow> point option) \<Rightarrow> topo_view" where
  "topo_view_init saved =
     \<lparr>tv_view = INITIAL_VIEW, tv_drag = None, tv_nodeDrag = None, tv_isDragging = False, tv_isFullscreen = False,
      tv_hover = None, tv_positions = saved\<rparr>"

section \<open>Handlers\<close>

definition topo_clamp :: "real \<Rightarrow> real \<Rightarrow> real \<Rightarrow> real" where
  "topo_clamp n lo hi = (if n < lo then lo else if n > hi then hi else n)"

definition clientToView :: "topo_frame \<Rightarrow> point \<Rightarrow> point" where
  "clientToView f p =
     ((fst p - tf_left f) / tf_width f * tf_vbW f, (snd p - tf_top f) / tf_height f * tf_vbH f)"

definition onPointerDown :: "topo_frame \<Rightarrow> nat \<Rightarrow> point \<Rightarrow> topo_view \<Rightarrow> topo_view" where
  "onPointerDown f button c s =
     (if button \<noteq> 0 then s
      else if tv_nodeDrag s \<noteq> None then s
      else (let p = clientToView f c in
            s\<lparr>tv_drag := Some \<lparr>cd_startX = fst p, cd_startY = snd p, cd_tx = vw_tx (tv_view s), cd_ty = vw_ty (tv_view s)\<rparr>,
              tv_isDragging := True\<rparr>))"

definition onPointerMove :: "topo_frame \<Rightarrow> point \<Rightarrow> topo_view \<Rightarrow> topo_view" where
  "onPointerMove f c s =
     (let p = clientToView f c; v = tv_view s in
      case tv_nodeDrag s of
        Some nd \<Rightarrow>
          (let sx = (fst p - vw_tx v) / vw_scale v;
               sy = (snd p - vw_ty v) / vw_scale v;
               nx = nd_baseX nd + (sx - nd_startVx nd);
               ny = nd_baseY nd + (sy - nd_startVy nd)
           in s\<lparr>tv_positions := (tv_positions s)(nd_id nd \<mapsto> (nx, ny))\<rparr>)
      | None \<Rightarrow>
          (case tv_drag s of
             None \<Rightarrow> s
           | Some d \<Rightarrow> s\<lparr>tv_view := v\<lparr>vw_tx := cd_tx d + (fst p - cd_startX d), vw_ty := cd_ty d + (snd p - cd_startY d)\<rparr>\<rparr>))"

definition endDrag :: "topo_view \<Rightarrow> topo_view" where
  "endDrag s = s\<lparr>tv_drag := None, tv_nodeDrag := None, tv_isDragging := False\<rparr>"

definition beginNodeDrag :: "topo_frame \<Rightarrow> nat \<Rightarrow> point \<Rightarrow> string \<Rightarrow> point \<Rightarrow> topo_view \<Rightarrow> topo_view" where
  "beginNodeDrag f button c nid base s =
     (if button \<noteq> 0 then s
      else (let p = clientToView f c; v = tv_view s in
            s\<lparr>tv_hover := None, tv_isDragging := True,
              tv_nodeDrag := Some \<lparr>nd_id = nid, nd_startVx = (fst p - vw_tx v) / vw_scale v,
                nd_startVy = (snd p - vw_ty v) / vw_scale v, nd_baseX = fst base, nd_baseY = snd base\<rparr>\<rparr>))"

text \<open>Rescaling so that a point of the drawing stays where it is.\<close>

definition rescale :: "point \<Rightarrow> real \<Rightarrow> View \<Rightarrow> View" where
  "rescale c factor v =
     (let nextScale = topo_clamp (vw_scale v * factor) MIN_SCALE MAX_SCALE;
          k = nextScale / vw_scale v
      in \<lparr>vw_tx = fst c - (fst c - vw_tx v) * k, vw_ty = snd c - (snd c - vw_ty v) * k, vw_scale = nextScale\<rparr>)"

definition topo_onWheel :: "topo_frame \<Rightarrow> point \<Rightarrow> real \<Rightarrow> topo_view \<Rightarrow> topo_view" where
  "topo_onWheel f c deltaY s = s\<lparr>tv_view := rescale (clientToView f c) (exp (- deltaY * 0.0015)) (tv_view s)\<rparr>"

definition zoom :: "topo_frame \<Rightarrow> real \<Rightarrow> topo_view \<Rightarrow> topo_view" where
  "zoom f factor s = s\<lparr>tv_view := rescale (tf_vbW f / 2, tf_vbH f / 2) factor (tv_view s)\<rparr>"

text \<open>The two buttons, disabled at the ends of the range.\<close>

definition zoom_in :: "topo_frame \<Rightarrow> topo_view \<Rightarrow> topo_view" where
  "zoom_in f s = (if vw_scale (tv_view s) \<ge> MAX_SCALE then s else zoom f 1.25 s)"

definition zoom_out :: "topo_frame \<Rightarrow> topo_view \<Rightarrow> topo_view" where
  "zoom_out f s = (if vw_scale (tv_view s) \<le> MIN_SCALE then s else zoom f 0.8 s)"

definition resetView :: "topo_view \<Rightarrow> topo_view" where
  "resetView s = s\<lparr>tv_view := INITIAL_VIEW, tv_positions := (\<lambda>_. None)\<rparr>"

definition toggleFullscreen :: "topo_view \<Rightarrow> topo_view" where
  "toggleFullscreen s = s\<lparr>tv_isFullscreen := \<not> tv_isFullscreen s\<rparr>"

definition onEscape :: "topo_view \<Rightarrow> topo_view" where
  "onEscape s = (if tv_isFullscreen s then s\<lparr>tv_isFullscreen := False\<rparr> else s)"

definition updateHover :: "real \<times> real \<Rightarrow> point \<Rightarrow> string \<Rightarrow> topo_view \<Rightarrow> topo_view" where
  "updateHover dims p did s =
     s\<lparr>tv_hover := Some \<lparr>th_id = did, th_x = fst p, th_y = snd p, th_flipX = (fst p > fst dims - 280),
        th_flipY = (snd p > snd dims - 240)\<rparr>\<rparr>"

definition strokeScale :: "View \<Rightarrow> real" where
  "strokeScale v = topo_clamp (1 / vw_scale v) 0.5 2"

section \<open>Runs\<close>

inductive view_step :: "topo_frame \<Rightarrow> topo_view \<Rightarrow> topo_view \<Rightarrow> bool" for f where
  down: "view_step f s (onPointerDown f b c s)"
| move: "view_step f s (onPointerMove f c s)"
| release: "view_step f s (endDrag s)"
| grab: "view_step f s (beginNodeDrag f b c nid base s)"
| wheel: "view_step f s (topo_onWheel f c dy s)"
| zoom_in: "view_step f s (zoom_in f s)"
| zoom_out: "view_step f s (zoom_out f s)"
| reset: "view_step f s (resetView s)"
| fullscreen: "view_step f s (toggleFullscreen s)"
| escape: "view_step f s (onEscape s)"
| hover: "view_step f s (updateHover dims c did s)"
| unhover: "view_step f s (s\<lparr>tv_hover := None\<rparr>)"

definition view_scale_ok :: "topo_view \<Rightarrow> bool" where
  "view_scale_ok s \<longleftrightarrow> MIN_SCALE \<le> vw_scale (tv_view s) \<and> vw_scale (tv_view s) \<le> MAX_SCALE"

lemma topo_clamp_bounds: "lo \<le> hi \<Longrightarrow> lo \<le> topo_clamp n lo hi \<and> topo_clamp n lo hi \<le> hi"
  by (simp add: topo_clamp_def)

lemma rescale_scale: "MIN_SCALE \<le> vw_scale (rescale c k v) \<and> vw_scale (rescale c k v) \<le> MAX_SCALE"
  using topo_clamp_bounds[of MIN_SCALE MAX_SCALE] by (simp add: rescale_def Let_def MIN_SCALE_def MAX_SCALE_def)

lemma initial_scale [simp]: "MIN_SCALE \<le> 1" "1 \<le> MAX_SCALE"
  by (simp_all add: MIN_SCALE_def MAX_SCALE_def)

lemma view_scale_ok_step: "view_step f s t \<Longrightarrow> view_scale_ok s \<Longrightarrow> view_scale_ok t"
  by (induction rule: view_step.induct)
     (simp_all add: view_scale_ok_def onPointerDown_def onPointerMove_def endDrag_def beginNodeDrag_def topo_onWheel_def zoom_in_def
       zoom_out_def zoom_def resetView_def toggleFullscreen_def onEscape_def updateHover_def rescale_scale Let_def
       INITIAL_VIEW_def split: option.splits)

lemma view_scale_ok_run: "(view_step f)\<^sup>*\<^sup>* (topo_view_init saved) s \<Longrightarrow> view_scale_ok s"
proof (induction rule: rtranclp_induct)
  case base
  then show ?case by (simp add: view_scale_ok_def topo_view_init_def INITIAL_VIEW_def)
next
  case (step s t)
  then show ?case by (blast intro: view_scale_ok_step)
qed

section \<open>What stays under the pointer\<close>

text \<open>The place of the scene that is painted at a place of the drawing, and back.\<close>

definition scene_at :: "View \<Rightarrow> point \<Rightarrow> point" where
  "scene_at v p = ((fst p - vw_tx v) / vw_scale v, (snd p - vw_ty v) / vw_scale v)"

definition painted_at :: "View \<Rightarrow> point \<Rightarrow> point" where
  "painted_at v q = (vw_tx v + fst q * vw_scale v, vw_ty v + snd q * vw_scale v)"

lemma rescale_anchor:
  assumes "0 < vw_scale v"
  shows "scene_at (rescale c k v) c = scene_at v c"
proof -
  have "0 < vw_scale (rescale c k v)" using rescale_scale[of c k v] by (simp add: MIN_SCALE_def)
  then show ?thesis using assms by (simp add: scene_at_def rescale_def Let_def)
qed

text \<open>
  zooming keeps its place: in every state of a visit, whatever was panned, dragged and zoomed before, turning the
  wheel leaves the point of the graph under the pointer where it is, and the scale stays between 0.4 and 3.5.
\<close>

theorem zoom_keeps_place:
  assumes "(view_step f)\<^sup>*\<^sup>* (topo_view_init saved) s"
  shows "scene_at (tv_view (topo_onWheel f c deltaY s)) (clientToView f c) = scene_at (tv_view s) (clientToView f c) \<and>
    MIN_SCALE \<le> vw_scale (tv_view s) \<and> vw_scale (tv_view s) \<le> MAX_SCALE"
proof -
  have "view_scale_ok s" using assms by (rule view_scale_ok_run)
  then have "0 < vw_scale (tv_view s)" by (simp add: view_scale_ok_def MIN_SCALE_def)
  then show ?thesis using \<open>view_scale_ok s\<close> by (simp add: topo_onWheel_def rescale_anchor view_scale_ok_def)
qed

theorem zoom_keeps_place_witness:
  "scene_at (tv_view (topo_onWheel \<lparr>tf_left = 0, tf_top = 0, tf_width = 100, tf_height = 100, tf_vbW = 200, tf_vbH = 200\<rparr>
       (10, 20) 0 (topo_view_init (\<lambda>_. None)))) (20, 40) = (20, 40)"
proof -
  let ?f = "\<lparr>tf_left = 0, tf_top = 0, tf_width = 100, tf_height = 100, tf_vbW = 200, tf_vbH = 200\<rparr>"
  have "clientToView ?f (10, 20) = (20, 40)" by (simp add: clientToView_def)
  moreover have "scene_at (tv_view (topo_view_init (\<lambda>_. None))) (20, 40) = (20, 40)"
    by (simp add: scene_at_def topo_view_init_def INITIAL_VIEW_def)
  ultimately show ?thesis
    using zoom_keeps_place[of ?f "\<lambda>_. None" "topo_view_init (\<lambda>_. None)" "(10, 20)" 0] by simp
qed

lemma node_drag_moves:
  assumes "tv_nodeDrag s = Some nd"
  shows "tv_nodeDrag (fold (onPointerMove f) cs s) = Some nd \<and> tv_view (fold (onPointerMove f) cs s) = tv_view s"
  using assms
proof (induction cs arbitrary: s)
  case (Cons c cs)
  then have "tv_nodeDrag (onPointerMove f c s) = Some nd" "tv_view (onPointerMove f c s) = tv_view s"
    by (simp_all add: onPointerMove_def Let_def)
  then show ?case using Cons.IH[of "onPointerMove f c s"] by simp
qed simp

lemma node_drag_last:
  assumes "tv_nodeDrag s = Some nd" "vw_scale (tv_view s) \<noteq> 0"
    and nd: "nd = \<lparr>nd_id = nid, nd_startVx = fst (scene_at (tv_view s) p), nd_startVy = snd (scene_at (tv_view s) p),
      nd_baseX = fst base, nd_baseY = snd base\<rparr>"
  shows "\<exists>q. tv_positions (onPointerMove f c s) nid = Some q \<and>
    fst (painted_at (tv_view s) q) - fst (clientToView f c) = fst (painted_at (tv_view s) base) - fst p \<and>
    snd (painted_at (tv_view s) q) - snd (clientToView f c) = snd (painted_at (tv_view s) base) - snd p"
  using assms by (simp add: onPointerMove_def Let_def scene_at_def painted_at_def field_simps)

lemma canvas_drag_moves:
  assumes "tv_nodeDrag s = None" "tv_drag s = Some d"
  shows "tv_nodeDrag (fold (onPointerMove f) cs s) = None \<and> tv_drag (fold (onPointerMove f) cs s) = Some d \<and>
    vw_scale (tv_view (fold (onPointerMove f) cs s)) = vw_scale (tv_view s)"
  using assms
proof (induction cs arbitrary: s)
  case (Cons c cs)
  let ?t = "onPointerMove f c s"
  have "tv_nodeDrag ?t = None" "tv_drag ?t = Some d" "vw_scale (tv_view ?t) = vw_scale (tv_view s)"
    using Cons.prems by (simp_all add: onPointerMove_def Let_def)
  then show ?case using Cons.IH[of ?t] by simp
qed simp

lemma canvas_drag_last:
  assumes "tv_nodeDrag s = None" "tv_drag s = Some \<lparr>cd_startX = fst p, cd_startY = snd p, cd_tx = tx, cd_ty = ty\<rparr>"
  shows "scene_at (tv_view (onPointerMove f c s)) (clientToView f c)
    = ((fst p - tx) / vw_scale (tv_view s), (snd p - ty) / vw_scale (tv_view s))"
  using assms by (simp add: onPointerMove_def scene_at_def Let_def)

text \<open>
  what is grabbed follows the pointer: when a node is grabbed in any state of a visit, after any moves of the pointer
  it is painted at the same offset from the pointer as when it was grabbed and the view has not moved; when
  the canvas is grabbed instead, the point of the graph under the pointer stays under it.
\<close>

theorem grabbed_follows_pointer:
  assumes "(view_step f)\<^sup>*\<^sup>* (topo_view_init saved) s"
  shows "tv_view (fold (onPointerMove f) (cs @ [c']) (beginNodeDrag f 0 c nid base s)) = tv_view s \<and>
    (\<exists>q. tv_positions (fold (onPointerMove f) (cs @ [c']) (beginNodeDrag f 0 c nid base s)) nid = Some q \<and>
      fst (painted_at (tv_view s) q) - fst (clientToView f c') = fst (painted_at (tv_view s) base) - fst (clientToView f c) \<and>
      snd (painted_at (tv_view s) q) - snd (clientToView f c') = snd (painted_at (tv_view s) base) - snd (clientToView f c)) \<and>
    (tv_nodeDrag s = None \<longrightarrow>
      scene_at (tv_view (fold (onPointerMove f) (cs @ [c']) (onPointerDown f 0 c s))) (clientToView f c')
        = scene_at (tv_view s) (clientToView f c))"
proof (intro conjI impI)
  have scale: "vw_scale (tv_view s) \<noteq> 0"
    using view_scale_ok_run[OF assms] by (auto simp: view_scale_ok_def MIN_SCALE_def)
  let ?b = "beginNodeDrag f 0 c nid base s"
  let ?nd = "\<lparr>nd_id = nid, nd_startVx = fst (scene_at (tv_view s) (clientToView f c)),
     nd_startVy = snd (scene_at (tv_view s) (clientToView f c)), nd_baseX = fst base, nd_baseY = snd base\<rparr>"
  have b: "tv_nodeDrag ?b = Some ?nd" "tv_view ?b = tv_view s"
    by (simp_all add: beginNodeDrag_def scene_at_def Let_def)
  have m: "tv_nodeDrag (fold (onPointerMove f) cs ?b) = Some ?nd" "tv_view (fold (onPointerMove f) cs ?b) = tv_view s"
    using node_drag_moves[OF b(1), of f cs] b(2) by simp_all
  show "tv_view (fold (onPointerMove f) (cs @ [c']) ?b) = tv_view s"
    using node_drag_moves[OF b(1), of f "cs @ [c']", unfolded b(2)] by blast
  show "\<exists>q. tv_positions (fold (onPointerMove f) (cs @ [c']) ?b) nid = Some q \<and>
      fst (painted_at (tv_view s) q) - fst (clientToView f c') = fst (painted_at (tv_view s) base) - fst (clientToView f c) \<and>
      snd (painted_at (tv_view s) q) - snd (clientToView f c') = snd (painted_at (tv_view s) base) - snd (clientToView f c)"
    using node_drag_last[OF m(1), unfolded m(2), OF scale refl, of f c']
    by (simp only: fold_append comp_apply fold_simps)
next
  assume "tv_nodeDrag s = None"
  let ?d = "onPointerDown f 0 c s"
  let ?cd = "\<lparr>cd_startX = fst (clientToView f c), cd_startY = snd (clientToView f c),
    cd_tx = vw_tx (tv_view s), cd_ty = vw_ty (tv_view s)\<rparr>"
  have d: "tv_nodeDrag ?d = None" "tv_drag ?d = Some ?cd" "tv_view ?d = tv_view s"
    using \<open>tv_nodeDrag s = None\<close> by (simp_all add: onPointerDown_def Let_def)
  then show "scene_at (tv_view (fold (onPointerMove f) (cs @ [c']) ?d)) (clientToView f c') = scene_at (tv_view s) (clientToView f c)"
    using canvas_drag_moves[OF d(1,2), of f cs] canvas_drag_last[of "fold (onPointerMove f) cs ?d" "clientToView f c"]
    by (simp add: scene_at_def)
qed

theorem grabbed_follows_pointer_witness:
  "tv_view (fold (onPointerMove \<lparr>tf_left = 0, tf_top = 0, tf_width = 100, tf_height = 100, tf_vbW = 200, tf_vbH = 200\<rparr>)
       [(30, 40)] (beginNodeDrag \<lparr>tf_left = 0, tf_top = 0, tf_width = 100, tf_height = 100, tf_vbW = 200, tf_vbH = 200\<rparr>
          0 (10, 20) ''d1'' (22, 41) (topo_view_init (\<lambda>_. None)))) = INITIAL_VIEW"
proof -
  let ?f = "\<lparr>tf_left = 0, tf_top = 0, tf_width = 100, tf_height = 100, tf_vbW = 200, tf_vbH = 200\<rparr>"
  have "tv_view (fold (onPointerMove ?f) ([] @ [(30, 40)]) (beginNodeDrag ?f 0 (10, 20) ''d1'' (22, 41) (topo_view_init (\<lambda>_. None))))
      = tv_view (topo_view_init (\<lambda>_. None))"
    using grabbed_follows_pointer[of ?f "\<lambda>_. None" "topo_view_init (\<lambda>_. None)"] by blast
  then show ?thesis by (simp add: topo_view_init_def)
qed

end
