(* ===== verification/Topology_Store.thy ===== *)
theory Topology_Store
  imports Topology_Layout
begin

text \<open>
  Where the live topology keeps the places of moved nodes, src/web/src/components/topology/LiveTopology.tsx: the copy in
  \<open>localStorage\<close>, the copy on the server with its debounced save, and the cached answer of the first request
  for it.  An entry of \<open>localStorage\<close> is its parsed JSON; the text form is that of \<open>JSON.stringify\<close>.
\<close>

type_synonym place = "number \<times> number"
type_synonym places = "(string \<times> place) list"

section \<open>The local copy\<close>

datatype storage_item = Item_absent | Item_broken | Item_json json

definition read_place :: "json \<Rightarrow> place option" where
  "read_place pos =
     (case pos of JNull \<Rightarrow> None
      | _ \<Rightarrow> (case (opt_member (Some pos) ''x'', opt_member (Some pos) ''y'') of
               (Some (JNum x), Some (JNum y)) \<Rightarrow> Some (x, y)
             | _ \<Rightarrow> None))"

text \<open>\<open>Object.entries\<close> of a parsed value; of \<open>null\<close> it throws.\<close>

fun object_entries :: "json \<Rightarrow> (string \<times> json) list option" where
  "object_entries JNull = None"
| "object_entries (JObj kvs) = Some kvs"
| "object_entries (JArr js) = Some (map (\<lambda>(i, j). (nat_dec i, j)) (enumerate 0 js))"
| "object_entries (JStr cs) = Some (map (\<lambda>(i, c). (nat_dec i, JStr [c])) (enumerate 0 cs))"
| "object_entries _ = Some []"

definition loadNodePositions :: "storage_item \<Rightarrow> places" where
  "loadNodePositions item =
     (case item of
        Item_json j \<Rightarrow>
          (case object_entries j of
             None \<Rightarrow> []
           | Some es \<Rightarrow> foldl (\<lambda>m (k, v). case read_place v of Some p \<Rightarrow> AList.update k p m | None \<Rightarrow> m) [] es)
      | _ \<Rightarrow> [])"

definition place_json :: "place \<Rightarrow> json" where
  "place_json p = JObj [(''x'', JNum (fst p)), (''y'', JNum (snd p))]"

text \<open>The write goes through unless the storage throws, which leaves the old item.\<close>

definition saveNodePositions :: "bool \<Rightarrow> places \<Rightarrow> storage_item \<Rightarrow> storage_item" where
  "saveNodePositions throws ps old =
     (if throws then old
      else if ps = [] then Item_absent
      else Item_json (JObj (map (\<lambda>(k, p). (k, place_json p)) ps)))"

definition LAYOUT_MODE_STORAGE_KEY :: string where
  "LAYOUT_MODE_STORAGE_KEY = ''zerovpn.topology.layoutMode.v1''"

definition POS_STORAGE_KEY :: string where
  "POS_STORAGE_KEY = ''zerovpn.topology.positions.v1''"

definition DEFAULT_LAYOUT_MODE :: LayoutMode where
  "DEFAULT_LAYOUT_MODE = Tree"

text \<open>\<open>None\<close> is an absent item, a window-less run or a storage that throws.\<close>

definition loadLayoutMode :: "string option \<Rightarrow> LayoutMode" where
  "loadLayoutMode v =
     (if v = Some ''radial'' then Radial else if v = Some ''tree'' then Tree else DEFAULT_LAYOUT_MODE)"

fun saveLayoutMode :: "LayoutMode \<Rightarrow> string option" where
  "saveLayoutMode Tree = Some ''tree''"
| "saveLayoutMode Radial = Some ''radial''"

lemma layout_mode_read_back: "loadLayoutMode (saveLayoutMode m) = m"
  by (cases m) (simp_all add: loadLayoutMode_def)

lemma read_place_json [simp]: "read_place (place_json p) = Some p"
  by (simp add: read_place_def place_json_def opt_member_def)

lemma load_entries:
  "distinct (map fst (m @ ps)) \<Longrightarrow>
   foldl (\<lambda>m (k, v). case read_place v of Some p \<Rightarrow> AList.update k p m | None \<Rightarrow> m) m (map (\<lambda>(k, p). (k, place_json p)) ps)
     = m @ ps"
proof (induction ps arbitrary: m)
  case (Cons x ps)
  obtain k p where x: "x = (k, p)" by (cases x)
  have "k \<notin> fst ` set m" using Cons.prems by (auto simp: x)
  then have "AList.update k p m = m @ [(k, p)]" by (induction m) auto
  then show ?case using Cons.IH[of "m @ [(k, p)]"] Cons.prems by (simp add: x)
qed simp

lemma places_read_back:
  "distinct (map fst ps) \<Longrightarrow> loadNodePositions (saveNodePositions False ps old) = ps"
  using load_entries[of "[]" ps] by (cases ps) (simp_all add: loadNodePositions_def saveNodePositions_def)

section \<open>The copy on the server\<close>

text \<open>
  The state outside the component (server, local item, cached answer of the query) and that of a mounted
  component (places on screen, whether the answer was taken over, the pending save).
\<close>

record mounted_topo =
  mt_places :: places
  mt_hydrated :: bool
  mt_timer :: "places option"

record topo_store =
  st_server :: places
  st_local :: storage_item
  st_cache :: "places option"
  st_mounted :: "mounted_topo option"

text \<open>The effect on a change of the places: mirror them locally, and once hydrated restart the timer.\<close>

definition places_changed :: "places \<Rightarrow> topo_store \<Rightarrow> mounted_topo \<Rightarrow> topo_store" where
  "places_changed ps s c =
     s\<lparr>st_local := saveNodePositions False ps (st_local s),
       st_mounted := Some (c\<lparr>mt_places := ps, mt_timer := (if mt_hydrated c then Some ps else mt_timer c)\<rparr>)\<rparr>"

text \<open>The effect on an answer: the first one is taken over.\<close>

definition hydrate :: "places \<Rightarrow> topo_store \<Rightarrow> topo_store" where
  "hydrate answer s =
     (case st_mounted s of
        None \<Rightarrow> s
      | Some c \<Rightarrow>
          if mt_hydrated c then s
          else places_changed (foldl (\<lambda>m (k, p). AList.update k p m) [] answer) s (c\<lparr>mt_hydrated := True\<rparr>))"

datatype topo_event =
    Topo_mount
  | Topo_answer
  | Topo_drag string place
  | Topo_reset
  | Topo_timer
  | Topo_unmount

definition fresh_topo :: "places \<Rightarrow> mounted_topo" where
  "fresh_topo ps = \<lparr>mt_places = ps, mt_hydrated = False, mt_timer = None\<rparr>"

fun topo_event_step :: "topo_event \<Rightarrow> topo_store \<Rightarrow> topo_store" where
  "topo_event_step Topo_mount s =
     (case st_mounted s of
        Some c \<Rightarrow> s
      | None \<Rightarrow>
          (let ps = loadNodePositions (st_local s);
               s1 = places_changed ps s (fresh_topo ps)
           in case st_cache s of None \<Rightarrow> s1 | Some answer \<Rightarrow> hydrate answer s1))"
| "topo_event_step Topo_answer s = hydrate (st_server s) (s\<lparr>st_cache := Some (st_server s)\<rparr>)"
| "topo_event_step (Topo_drag k p) s =
     (case st_mounted s of
        None \<Rightarrow> s
      | Some c \<Rightarrow> places_changed (AList.update k p (mt_places c)) s c)"
| "topo_event_step Topo_reset s =
     (case st_mounted s of None \<Rightarrow> s | Some c \<Rightarrow> places_changed [] s c)"
| "topo_event_step Topo_timer s =
     (case st_mounted s of
        None \<Rightarrow> s
      | Some c \<Rightarrow>
          (case mt_timer c of
             None \<Rightarrow> s
           | Some ps \<Rightarrow> s\<lparr>st_server := ps, st_mounted := Some (c\<lparr>mt_timer := None\<rparr>)\<rparr>))"
| "topo_event_step Topo_unmount s = s\<lparr>st_mounted := None\<rparr>"

definition topo_run :: "topo_event list \<Rightarrow> topo_store \<Rightarrow> topo_store" where
  "topo_run es s = fold topo_event_step es s"

text \<open>At the start of a session nothing is mounted or cached.\<close>

definition session_start :: "places \<Rightarrow> storage_item \<Rightarrow> topo_store" where
  "session_start server item = \<lparr>st_server = server, st_local = item, st_cache = None, st_mounted = None\<rparr>"

section \<open>Saving\<close>

text \<open>What a mounted component knows: after hydration a pending save holds what is on screen, and without one the
  server has it; before hydration nothing is pending.  The local copy always reads back as the screen.\<close>

definition store_ok :: "topo_store \<Rightarrow> bool" where
  "store_ok s \<longleftrightarrow>
     distinct (map fst (st_server s)) \<and>
     (\<forall>a. st_cache s = Some a \<longrightarrow> distinct (map fst a)) \<and>
     (\<forall>c. st_mounted s = Some c \<longrightarrow>
        distinct (map fst (mt_places c)) \<and>
        loadNodePositions (st_local s) = mt_places c \<and>
        (mt_hydrated c \<longrightarrow> (case mt_timer c of Some ps \<Rightarrow> ps = mt_places c | None \<Rightarrow> st_server s = mt_places c)) \<and>
        (\<not> mt_hydrated c \<longrightarrow> mt_timer c = None))"

lemma distinct_loaded: "distinct (map fst (loadNodePositions item))"
proof -
  have "distinct (map fst (foldl (\<lambda>m (k, v). case read_place v of Some p \<Rightarrow> AList.update k p m | None \<Rightarrow> m) m es))"
    if "distinct (map fst m)" for m :: places and es
    using that by (induction es arbitrary: m) (auto simp: distinct_update split: option.splits prod.splits)
  from this[of "[]"] show ?thesis by (simp add: loadNodePositions_def split: storage_item.splits option.splits)
qed

lemma store_ok_changed:
  assumes "store_ok s" "distinct (map fst ps)" "\<not> mt_hydrated c \<Longrightarrow> mt_timer c = None"
  shows "store_ok (places_changed ps s c)"
  using assms places_read_back[OF assms(2)] by (auto simp: store_ok_def places_changed_def)

lemma distinct_copied: "distinct (map fst (foldl (\<lambda>m (k, p). AList.update k p m) [] answer))"
proof -
  have "distinct (map fst (foldl (\<lambda>m (k, p). AList.update k p m) m answer))" if "distinct (map fst m)" for m
    using that by (induction answer arbitrary: m) (auto simp: distinct_update split: prod.splits)
  then show ?thesis by simp
qed

lemma store_ok_hydrate: "store_ok s \<Longrightarrow> store_ok (hydrate answer s)"
  by (auto simp: hydrate_def distinct_copied intro!: store_ok_changed split: option.splits)

lemma store_ok_step: "store_ok s \<Longrightarrow> store_ok (topo_event_step e s)"
proof (induction e)
  case Topo_mount
  let ?ps = "loadNodePositions (st_local s)"
  have "store_ok (places_changed ?ps s (fresh_topo ?ps))"
    using Topo_mount distinct_loaded by (intro store_ok_changed) (simp_all add: fresh_topo_def)
  then show ?case using Topo_mount store_ok_hydrate by (auto simp: Let_def split: option.splits)
next
  case Topo_answer
  then have "store_ok (s\<lparr>st_cache := Some (st_server s)\<rparr>)" by (auto simp: store_ok_def split: option.splits)
  then show ?case using store_ok_hydrate by simp
next
  case (Topo_drag k p)
  then have "distinct (map fst (AList.update k p (mt_places c)))" "\<not> mt_hydrated c \<Longrightarrow> mt_timer c = None"
    if "st_mounted s = Some c" for c
    using that by (simp_all add: distinct_update store_ok_def)
  then show ?case using Topo_drag store_ok_changed by (simp split: option.splits)
next
  case Topo_reset
  then have "\<not> mt_hydrated c \<Longrightarrow> mt_timer c = None" if "st_mounted s = Some c" for c
    using that by (simp add: store_ok_def)
  then show ?case using Topo_reset store_ok_changed by (simp split: option.splits)
next
  case Topo_timer
  then show ?case by (auto simp: store_ok_def split: option.splits)
next
  case Topo_unmount
  then show ?case by (simp add: store_ok_def)
qed

lemma store_ok_run: "store_ok s \<Longrightarrow> store_ok (topo_run es s)"
  unfolding topo_run_def by (induction es arbitrary: s) (simp_all add: store_ok_step)

lemma store_ok_start: "distinct (map fst server) \<Longrightarrow> store_ok (session_start server item)"
  by (simp add: store_ok_def session_start_def)



text \<open>
  Leaving the page and coming back undoes a saved move: the cached answer of the first request, which no save
  refreshes, is taken over again and then written to the server.
\<close>

theorem saved_move_undone:
  "st_server (topo_run [Topo_mount, Topo_answer, Topo_drag ''d1'' (3, 4), Topo_timer] (session_start [] Item_absent))
     = [(''d1'', (3, 4))] \<and>
   st_server (topo_run [Topo_mount, Topo_answer, Topo_drag ''d1'' (3, 4), Topo_timer, Topo_unmount, Topo_mount, Topo_timer]
     (session_start [] Item_absent)) = []"
  by (simp add: topo_run_def session_start_def fresh_topo_def places_changed_def hydrate_def loadNodePositions_def
      saveNodePositions_def place_json_def read_place_def opt_member_def Let_def)

end
