(* ===== verification/Topology_Card.thy ===== *)
theory Topology_Card
  imports Topology_Layout Units Datetime
begin

text \<open>
  The text of the live topology, src/web/src/components/topology/LiveTopology.tsx: the summary card of a device, the rate
  labels and the classes of nodes and edges.
\<close>

definition formatRateShort :: "number \<Rightarrow> string" where
  "formatRateShort bps =
     (if bps < 1000 then int_dec (Math_round bps) @ '' bps''
      else if bps < 1000000 then toFixed 0 (bps / 1000) @ '' kbps''
      else if bps < 1000000000 then toFixed 1 (bps / 1000000) @ '' Mbps''
      else toFixed 1 (bps / 1000000000) @ '' Gbps'')"

definition topo_connected :: "topo_tone \<Rightarrow> bool" where
  "topo_connected t \<longleftrightarrow> t = Topo_live \<or> t = Topo_online"

definition peer_strokeClass :: "topo_tone \<Rightarrow> string" where
  "peer_strokeClass t =
     (if topo_connected t then ''zv-topo-peer-live'' else if t = Topo_paused then ''zv-topo-peer-paused''
      else ''zv-topo-peer-idle'')"

definition user_strokeClass :: "LaidOutUser \<Rightarrow> string" where
  "user_strokeClass u = (if 0 < lu_onlineCount u then ''zv-topo-peer-live'' else ''zv-topo-peer-idle'')"

definition edge_class :: "topo_tone \<Rightarrow> string" where
  "edge_class t = (if topo_connected t then ''zv-topo-edge-live'' else ''zv-topo-edge'')"

text \<open>A label is written away from its user: to the right of a node that is not left of it.\<close>

definition label_anchor :: "LaidOutPeer \<Rightarrow> string \<times> int" where
  "label_anchor p = (if fst (lp_at p) \<ge> fst (lp_userAt p) then (''start'', 18) else (''end'', -18))"

definition statusWord :: "DeviceStatus \<Rightarrow> topo_tone \<Rightarrow> string" where
  "statusWord status t = (if status = Dev_paused then ''paused'' else if topo_connected t then ''online'' else ''offline'')"

definition positive_cap :: "number option \<Rightarrow> number option" where
  "positive_cap c = (case c of Some x \<Rightarrow> if 0 < x then Some x else None | None \<Rightarrow> None)"

text \<open>The rows of the card; the handshake row shows the age of the handshake.\<close>

definition card_rows :: "topo_tone \<Rightarrow> PublicDevice \<Rightarrow> (number \<times> number) option \<Rightarrow> string option \<Rightarrow> string \<Rightarrow> (string \<times> string) list" where
  "card_rows t d rates ownerLabel handshake =
     (let online = topo_connected t; rx = (case rates of Some r \<Rightarrow> fst r | None \<Rightarrow> 0); tx = (case rates of Some r \<Rightarrow> snd r | None \<Rightarrow> 0) in
      (case ownerLabel of Some l \<Rightarrow> if l \<noteq> [] then [(''owner'', l)] else [] | None \<Rightarrow> [])
      @ [(''system'', DeviceOs_str (pd_os d) @ '' '' @ middle_dot @ '' '' @ DeviceType_str (pd_device_type d)),
         (''vpn ip'', pd_allocated_ip d)]
      @ (case pd_last_peer_endpoint d of Some e \<Rightarrow> if e \<noteq> [] then [(''endpoint'', e)] else [] | None \<Rightarrow> [])
      @ (if online then [(''rate'', down_arrow @ '' '' @ formatRateShort rx @ '' '' @ middle_dot @ '' '' @ up_arrow @ '' '' @ formatRateShort tx)] else [])
      @ [(''handshake'', handshake),
         (''this month'', formatBytes (Fin (pd_current_month_bytes d)) @
            (case positive_cap (pd_monthly_byte_cap d) of Some x \<Rightarrow> '' / '' @ formatBytes (Fin x) | None \<Rightarrow> [])),
         (''lifetime'', down_arrow @ '' '' @ formatBytes (Fin (pd_total_rx_bytes d)) @ '' '' @ middle_dot @ '' '' @ up_arrow @ '' '' @
            formatBytes (Fin (pd_total_tx_bytes d)))])"

text \<open>The hub's peer count, with the number left out, and the head-up line.\<close>

definition hub_peers :: "nat \<Rightarrow> nat \<Rightarrow> string" where
  "hub_peers peerCount hidden = nat_dec peerCount @ '' peers'' @ (if 0 < hidden then '' (+'' @ nat_dec hidden @ '')'' else [])"

definition hud_peers :: "LaidOutPeer list \<Rightarrow> PublicDevice list \<Rightarrow> nat \<times> nat" where
  "hud_peers ps devices =
     (length (filter (\<lambda>p. topo_connected (lp_tone p)) ps), length (filter (\<lambda>d. pd_status d \<noteq> Dev_revoked) devices))"

text \<open>A drawn device is called online exactly when its tunnel is up and it is neither paused nor revoked.\<close>

lemma topo_connected_iff: "topo_connected (toneFor status online traffic) \<longleftrightarrow> status = Dev_active \<and> online"
  by (cases status) (simp_all add: toneFor_def topo_connected_def)

text \<open>The count of connected peers never exceeds the total beside it.\<close>

lemma placed_devices:
  assumes "groups_ok (ts_groups s)"
  shows "map lp_device (placed s) = concat (map snd (ts_groups s))"
proof -
  have "map lp_device (placed s) = concat (map (\<lambda>(i, g). map lp_device (user_peers s (i, place_user s (i, g)))) (enumerate 0 (ts_groups s)))"
    by (simp add: placed_def placedUsers_enumerate map_concat comp_def case_prod_unfold)
  also have "\<dots> = concat (map (\<lambda>x. snd (snd x)) (enumerate 0 (ts_groups s)))"
  proof (rule arg_cong[where f = concat], rule map_cong[OF refl])
    fix x assume "x \<in> set (enumerate 0 (ts_groups s))"
    then have "fst x < length (ts_groups s)" "snd x = ts_groups s ! fst x" by (simp_all add: in_set_enumerate_eq)
    then have "devices_of s (fst (snd x)) = snd (snd x)" using assms devices_of_nth[of s "fst x"] by (simp add: groups_ok_def)
    moreover have "map lp_device (map (place_peer s i u k cur) (enumerate 0 ds)) = ds" for i u k cur ds
      by (rule nth_equalityI) (simp_all add: place_peer_def nth_enumerate_eq Let_def)
    ultimately show "(case x of (i, g) \<Rightarrow> map lp_device (user_peers s (i, place_user s (i, g)))) = snd (snd x)"
      by (simp add: user_peers_def case_prod_unfold Let_def)
  qed
  also have "\<dots> = concat (map snd (ts_groups s))"
    by (metis (no_types, lifting) map_map comp_apply map_cong map_snd_enumerate)
  finally show ?thesis .
qed

end
