(* ===== verification/Google_Callback.thy ===== *)
theory Google_Callback
  imports Page_Effect Auth_Guard Datetime
begin

text \<open>
  The page Google redirects to, src/web/src/pages/public/GoogleCallback.tsx: it exchanges the code of the URL for a
  session, asks for the second factor when the server demands it, and enters the application.  The OAuth
  state is single-use, so the page shares one exchange between runs of its effect (the module's map of promises) and
  marks a finished one in \<open>sessionStorage\<close>.  The model has the state of the tab: the map, the storage, the
  mounted instance of the page, the runs of its effect with what each awaits, and the log of requests, answers and
  effects; exchanges are numbered, \<open>ot_exchanges\<close> has the OAuth state of each.  The answers of the server are the events of the step relation.  A promise resumes the
  runs that await it in the order they called \<open>await\<close>, as the microtask queue does.
\<close>

section \<open>State\<close>

definition DONE_KEY_PREFIX :: string where
  "DONE_KEY_PREFIX = ''oauth-state-done:''"

definition TOTP_KEY_PREFIX :: string where
  "TOTP_KEY_PREFIX = ''oauth-state-totp:''"

record callback_params =
  gp_code :: "string option"
  gp_state :: "string option"
  gp_error :: "string option"

definition paramError :: "callback_params \<Rightarrow> string option" where
  "paramError ps =
     (case truthy_str (gp_error ps) of
        Some e \<Rightarrow> Some (''Google returned: '' @ e)
      | None \<Rightarrow>
          if truthy_str (gp_code ps) = None \<or> truthy_str (gp_state ps) = None
          then Some ''Missing code or state in callback URL'' else None)"

record callback_page =
  cp_params :: callback_params
  cp_asyncError :: "json option"
  cp_needsTotp :: bool
  cp_totpCode :: string
  cp_verifying :: bool

definition callback_page_init :: "callback_params \<Rightarrow> callback_page" where
  "callback_page_init ps =
     \<lparr>cp_params = ps, cp_asyncError = None, cp_needsTotp = False, cp_totpCode = [], cp_verifying = False\<rparr>"

definition callback_error :: "callback_page \<Rightarrow> json option" where
  "callback_error p = (case cp_asyncError p of Some e \<Rightarrow> Some e | None \<Rightarrow> map_option JStr (paramError (cp_params p)))"

text \<open>What a run of the effect awaits: a shared exchange, by its number, the answer to \<open>me()\<close>, or nothing more.\<close>

datatype callback_await = Aw_exchange nat | Aw_me | Aw_nothing

record callback_run =
  cr_state :: string
  cr_cancelled :: bool
  cr_await :: callback_await

type_synonym 'a answer = "ApiError option + 'a"

datatype oauth_event =
    Sent_exchange string string
  | Sent_me
  | Sent_code string
  | Sent_preferences
  | Exchanged string "LoginResponse answer"
  | Me_answered "PublicUser answer"
  | Code_answered "LoginResponse answer"
  | Preferences_answered "UserPreferences option"
  | Did page_effect
  | Reloaded

fun oauth_request :: "oauth_event \<Rightarrow> api_request option" where
  "oauth_request (Sent_exchange code st) = Some (googleCallback code st)"
| "oauth_request Sent_me = Some me"
| "oauth_request (Sent_code code) = Some (googleVerifyTotp code)"
| "oauth_request Sent_preferences = Some getMyPreferences"
| "oauth_request _ = None"

record oauth_tab =
  ot_inflight :: "(string \<times> nat) list"
  ot_storage :: "(string \<times> string) list"
  ot_exchanges :: "string list"
  ot_page :: "(nat \<times> callback_page) option"
  ot_mounts :: nat
  ot_runs :: "callback_run list"
  ot_codes :: "(nat \<times> callback_params) list"
  ot_finishing :: nat
  ot_log :: "oauth_event list"

definition oauth_init :: oauth_tab where
  "oauth_init = \<lparr>ot_inflight = [], ot_storage = [], ot_exchanges = [], ot_page = None, ot_mounts = 0, ot_runs = [],
     ot_codes = [], ot_finishing = 0, ot_log = []\<rparr>"

section \<open>Operations\<close>

definition logged :: "oauth_event list \<Rightarrow> oauth_tab \<Rightarrow> oauth_tab" where
  "logged es w = w\<lparr>ot_log := ot_log w @ es\<rparr>"

definition marked :: "string \<Rightarrow> string \<Rightarrow> oauth_tab \<Rightarrow> bool" where
  "marked key st w \<longleftrightarrow> truthy_str (map_of (ot_storage w) (key @ st)) \<noteq> None"

definition mark :: "string \<Rightarrow> string \<Rightarrow> oauth_tab \<Rightarrow> oauth_tab" where
  "mark key st w = w\<lparr>ot_storage := AList.update (key @ st) ''1'' (ot_storage w)\<rparr>"

definition unmark :: "string \<Rightarrow> string \<Rightarrow> oauth_tab \<Rightarrow> oauth_tab" where
  "unmark key st w = w\<lparr>ot_storage := AList.delete (key @ st) (ot_storage w)\<rparr>"

definition set_page :: "(callback_page \<Rightarrow> callback_page) \<Rightarrow> oauth_tab \<Rightarrow> oauth_tab" where
  "set_page f w = w\<lparr>ot_page := map_option (\<lambda>(i, p). (i, f p)) (ot_page w)\<rparr>"

text \<open>A state update of instance \<open>i\<close>: React drops it once the instance is unmounted.\<close>

definition set_instance :: "nat \<Rightarrow> (callback_page \<Rightarrow> callback_page) \<Rightarrow> oauth_tab \<Rightarrow> oauth_tab" where
  "set_instance i f w = w\<lparr>ot_page := map_option (\<lambda>(j, p). (j, if j = i then f p else p)) (ot_page w)\<rparr>"

definition add_run :: "string \<Rightarrow> callback_await \<Rightarrow> oauth_tab \<Rightarrow> oauth_tab" where
  "add_run st a w = w\<lparr>ot_runs := ot_runs w @ [\<lparr>cr_state = st, cr_cancelled = False, cr_await = a\<rparr>]\<rparr>"

definition finishSignIn :: "PublicUser \<Rightarrow> oauth_tab \<Rightarrow> oauth_tab" where
  "finishSignIn u w =
     logged [Did (Stored_user u), Did (Toast_success (''Welcome, '' @ pu_email u)), Sent_preferences]
       (w\<lparr>ot_finishing := ot_finishing w + 1\<rparr>)"

definition preferences_answered :: "UserPreferences option \<Rightarrow> oauth_tab \<Rightarrow> oauth_tab" where
  "preferences_answered prefs w =
     logged [Preferences_answered prefs,
         Did (Navigated (case prefs of Some p \<Rightarrow> landingPath (pref_default_landing p) | None \<Rightarrow> ''/app''))]
       (w\<lparr>ot_finishing := ot_finishing w - 1\<rparr>)"

definition callback_fail :: "bool \<Rightarrow> json \<Rightarrow> oauth_tab \<Rightarrow> oauth_tab" where
  "callback_fail cancelled msg w =
     (if cancelled then w
      else logged [Did (Toast_error msg)] (set_page (\<lambda>p. p\<lparr>cp_asyncError := Some msg\<rparr>) w))"

text \<open>A run of the effect for the parameters of the mounted page.\<close>

definition run_effect :: "callback_params \<Rightarrow> oauth_tab \<Rightarrow> oauth_tab" where
  "run_effect ps w =
     (case (truthy_str (gp_code ps), truthy_str (gp_state ps), truthy_str (gp_error ps)) of
        (Some code, Some st, None) \<Rightarrow>
          if marked DONE_KEY_PREFIX st w
          then (if marked TOTP_KEY_PREFIX st w
                then add_run st Aw_nothing (set_page (\<lambda>p. p\<lparr>cp_needsTotp := True\<rparr>) w)
                else logged [Sent_me] (add_run st Aw_me w))
          else (case map_of (ot_inflight w) st of
                  Some k \<Rightarrow> add_run st (Aw_exchange k) w
                | None \<Rightarrow>
                    logged [Sent_exchange code st]
                      (add_run st (Aw_exchange (length (ot_exchanges w)))
                        (w\<lparr>ot_inflight := AList.update st (length (ot_exchanges w)) (ot_inflight w),
                           ot_exchanges := ot_exchanges w @ [st]\<rparr>)))
      | _ \<Rightarrow> w)"

definition oauth_cleanup :: "oauth_tab \<Rightarrow> oauth_tab" where
  "oauth_cleanup w = w\<lparr>ot_runs := map (\<lambda>r. r\<lparr>cr_cancelled := True\<rparr>) (ot_runs w)\<rparr>"

definition error_message :: "string \<Rightarrow> ApiError option \<Rightarrow> json" where
  "error_message fallback e = (case e of Some a \<Rightarrow> ae_message a | None \<Rightarrow> JStr fallback)"

fun exchange_resumed :: "LoginResponse answer \<Rightarrow> callback_run \<Rightarrow> oauth_tab \<Rightarrow> oauth_tab" where
  "exchange_resumed (Inr res) r w =
     (let w1 = mark DONE_KEY_PREFIX (cr_state r) w
      in if cr_cancelled r then w1
         else if lr_totp_required res
         then set_page (\<lambda>p. p\<lparr>cp_needsTotp := True\<rparr>) (mark TOTP_KEY_PREFIX (cr_state r) w1)
         else finishSignIn (lr_user res) w1)"
| "exchange_resumed (Inl e) r w =
     callback_fail (cr_cancelled r) (error_message ''Couldn't complete Google sign-in'' e)
       (w\<lparr>ot_inflight := AList.delete (cr_state r) (ot_inflight w)\<rparr>)"

definition exchange_settled :: "nat \<Rightarrow> LoginResponse answer \<Rightarrow> oauth_tab \<Rightarrow> oauth_tab" where
  "exchange_settled k a w =
     fold (exchange_resumed a) (filter (\<lambda>r. cr_await r = Aw_exchange k) (ot_runs w))
       (logged [Exchanged (ot_exchanges w ! k) a]
         (w\<lparr>ot_runs := map (\<lambda>r. if cr_await r = Aw_exchange k then r\<lparr>cr_await := Aw_nothing\<rparr> else r) (ot_runs w)\<rparr>))"

definition me_settled :: "nat \<Rightarrow> PublicUser answer \<Rightarrow> oauth_tab \<Rightarrow> oauth_tab" where
  "me_settled i a w =
     (let r = ot_runs w ! i;
          w1 = logged [Me_answered a] (w\<lparr>ot_runs := (ot_runs w)[i := r\<lparr>cr_await := Aw_nothing\<rparr>]\<rparr>)
      in case a of
           Inr u \<Rightarrow> if cr_cancelled r then w1 else finishSignIn u w1
         | Inl _ \<Rightarrow> callback_fail (cr_cancelled r)
             (JStr (''Sign-in session expired '' @ em_dash @ '' please try again.'')) w1)"

definition submitTotp :: "oauth_tab \<Rightarrow> oauth_tab" where
  "submitTotp w =
     (case ot_page w of
        None \<Rightarrow> w
      | Some (i, p) \<Rightarrow>
          if length (trim (cp_totpCode p)) < 6 \<or> cp_verifying p then w
          else logged [Sent_code (trim (cp_totpCode p))]
            (w\<lparr>ot_page := Some (i, p\<lparr>cp_verifying := True, cp_asyncError := None\<rparr>),
               ot_codes := ot_codes w @ [(i, cp_params p)]\<rparr>))"

definition code_settled :: "nat \<Rightarrow> LoginResponse answer \<Rightarrow> oauth_tab \<Rightarrow> oauth_tab" where
  "code_settled j a w =
     (let (i, ps) = ot_codes w ! j;
          w1 = logged [Code_answered a] (w\<lparr>ot_codes := take j (ot_codes w) @ drop (Suc j) (ot_codes w)\<rparr>)
      in case a of
           Inr res \<Rightarrow> finishSignIn (lr_user res)
             (case truthy_str (gp_state ps) of Some st \<Rightarrow> unmark TOTP_KEY_PREFIX st w1 | None \<Rightarrow> w1)
         | Inl e \<Rightarrow> set_instance i
             (\<lambda>p. p\<lparr>cp_asyncError := Some (error_message ''Couldn't verify the code'' e), cp_verifying := False\<rparr>) w1)"

definition mount :: "callback_params \<Rightarrow> oauth_tab \<Rightarrow> oauth_tab" where
  "mount ps w =
     run_effect ps (w\<lparr>ot_page := Some (ot_mounts w, callback_page_init ps), ot_mounts := ot_mounts w + 1\<rparr>)"

text \<open>The module state and everything awaited is lost with the document; the storage of the tab stays.\<close>

definition reload :: "oauth_tab \<Rightarrow> oauth_tab" where
  "reload w = logged [Reloaded]
     (w\<lparr>ot_inflight := [], ot_page := None, ot_runs := [], ot_codes := [], ot_finishing := 0\<rparr>)"

definition OTP_MAX_LENGTH :: nat where
  "OTP_MAX_LENGTH = 6"

section \<open>Runs\<close>

text \<open>\<open>remount\<close> is the second run StrictMode makes of every effect.  \<open>typed\<close> is what \<open>InputOTP\<close> lets through: at most
  \<open>maxLength\<close> characters.\<close>

inductive oauth_step :: "oauth_tab \<Rightarrow> oauth_tab \<Rightarrow> bool" where
  mounted: "ot_page w = None \<Longrightarrow> oauth_step w (mount ps w)"
| remount: "ot_page w = Some (i, p) \<Longrightarrow> oauth_step w (run_effect (cp_params p) (oauth_cleanup w))"
| unmounted: "oauth_step w ((oauth_cleanup w)\<lparr>ot_page := None\<rparr>)"
| exchanged: "r \<in> set (ot_runs w) \<Longrightarrow> cr_await r = Aw_exchange k \<Longrightarrow> oauth_step w (exchange_settled k a w)"
| me_answer: "i < length (ot_runs w) \<Longrightarrow> cr_await (ot_runs w ! i) = Aw_me \<Longrightarrow> oauth_step w (me_settled i a w)"
| typed: "length v \<le> OTP_MAX_LENGTH \<Longrightarrow> oauth_step w (set_page (\<lambda>p. p\<lparr>cp_totpCode := v\<rparr>) w)"
| submit: "ot_page w = Some (i, p) \<Longrightarrow> cp_needsTotp p \<Longrightarrow> oauth_step w (submitTotp w)"
| code_answer: "j < length (ot_codes w) \<Longrightarrow> oauth_step w (code_settled j a w)"
| prefs_answer: "0 < ot_finishing w \<Longrightarrow> oauth_step w (preferences_answered prefs w)"
| reloaded: "oauth_step w (reload w)"

inductive oauth_runs :: "oauth_tab \<Rightarrow> oauth_tab \<Rightarrow> bool" where
  refl: "oauth_runs w w"
| step: "oauth_runs u v \<Longrightarrow> oauth_step v w \<Longrightarrow> oauth_runs u w"

section \<open>What the operations change\<close>

lemmas oauth_defs = logged_def set_page_def set_instance_def add_run_def finishSignIn_def preferences_answered_def
  callback_fail_def oauth_cleanup_def reload_def

lemma unmark_frame [simp]:
  "ot_inflight (unmark key st w) = ot_inflight w" "ot_exchanges (unmark key st w) = ot_exchanges w"
  "ot_page (unmark key st w) = ot_page w" "ot_runs (unmark key st w) = ot_runs w" "ot_log (unmark key st w) = ot_log w"
  by (simp_all add: unmark_def)

lemma mark_frame [simp]:
  "ot_inflight (mark key st w) = ot_inflight w" "ot_exchanges (mark key st w) = ot_exchanges w"
  "ot_page (mark key st w) = ot_page w" "ot_runs (mark key st w) = ot_runs w" "ot_log (mark key st w) = ot_log w"
  by (simp_all add: mark_def)

lemma key_clash [simp]: "DONE_KEY_PREFIX @ s \<noteq> TOTP_KEY_PREFIX @ t" "TOTP_KEY_PREFIX @ s \<noteq> DONE_KEY_PREFIX @ t"
  by (simp_all add: DONE_KEY_PREFIX_def TOTP_KEY_PREFIX_def)

lemma marked_mark [simp]: "marked key st (mark key' st' w) \<longleftrightarrow> key @ st = key' @ st' \<or> marked key st w"
  by (simp add: marked_def mark_def truthy_str_def update_conv')

lemma marked_unmark [simp]: "marked key st (unmark key' st' w) \<longleftrightarrow> key @ st \<noteq> key' @ st' \<and> marked key st w"
  by (auto simp: marked_def unmark_def truthy_str_def delete_conv' restrict_map_def)

lemma marked_frame: "ot_storage v = ot_storage w \<Longrightarrow> marked key st v = marked key st w"
  by (simp add: marked_def)

lemma marked_update [simp]:
  "marked key st (w\<lparr>ot_inflight := x1\<rparr>) = marked key st w"
  "marked key st (w\<lparr>ot_exchanges := x2\<rparr>) = marked key st w"
  "marked key st (w\<lparr>ot_page := x3\<rparr>) = marked key st w"
  "marked key st (w\<lparr>ot_mounts := x4\<rparr>) = marked key st w"
  "marked key st (w\<lparr>ot_runs := x5\<rparr>) = marked key st w"
  "marked key st (w\<lparr>ot_codes := x6\<rparr>) = marked key st w"
  "marked key st (w\<lparr>ot_finishing := x7\<rparr>) = marked key st w"
  "marked key st (w\<lparr>ot_log := x8\<rparr>) = marked key st w"
  by (simp_all add: marked_def)

lemma marked_ops [simp]:
  "marked key st (logged es w) = marked key st w"
  "marked key st (set_page f w) = marked key st w"
  "marked key st (set_instance i f w) = marked key st w"
  "marked key st (add_run st' a w) = marked key st w"
  "marked key st (finishSignIn u w) = marked key st w"
  "marked key st (preferences_answered p w) = marked key st w"
  "marked key st (callback_fail c m w) = marked key st w"
  "marked key st (oauth_cleanup w) = marked key st w"
  "marked key st (reload w) = marked key st w"
  "marked key st (submitTotp w) = marked key st w"
  "marked key st (run_effect ps w) = marked key st w"
  by (rule marked_frame; simp add: oauth_defs submitTotp_def run_effect_def split: option.split prod.split)+

text \<open>What resuming a run appends to the log.\<close>

fun resumed_events :: "LoginResponse answer \<Rightarrow> callback_run \<Rightarrow> oauth_event list" where
  "resumed_events (Inr res) r =
     (if cr_cancelled r \<or> lr_totp_required res then []
      else [Did (Stored_user (lr_user res)), Did (Toast_success (''Welcome, '' @ pu_email (lr_user res))), Sent_preferences])"
| "resumed_events (Inl e) r =
     (if cr_cancelled r then [] else [Did (Toast_error (error_message ''Couldn't complete Google sign-in'' e))])"

lemma resumed_frame:
  "ot_log (exchange_resumed a r w) = ot_log w @ resumed_events a r"
  "ot_exchanges (exchange_resumed a r w) = ot_exchanges w"
  "ot_runs (exchange_resumed a r w) = ot_runs w"
  by (cases a; simp add: oauth_defs Let_def)+

lemma fold_resumed_frame:
  "ot_log (fold (exchange_resumed a) rs w) = ot_log w @ concat (map (resumed_events a) rs)"
  "ot_exchanges (fold (exchange_resumed a) rs w) = ot_exchanges w"
  "ot_runs (fold (exchange_resumed a) rs w) = ot_runs w"
  by (induction rs arbitrary: w) (simp_all add: resumed_frame)

lemma resumed_ok:
  "ot_inflight (exchange_resumed (Inr res) r w) = ot_inflight w"
  "marked DONE_KEY_PREFIX st (exchange_resumed (Inr res) r w) \<longleftrightarrow> cr_state r = st \<or> marked DONE_KEY_PREFIX st w"
  "marked TOTP_KEY_PREFIX st (exchange_resumed (Inr res) r w) \<longleftrightarrow>
     lr_totp_required res \<and> \<not> cr_cancelled r \<and> cr_state r = st \<or> marked TOTP_KEY_PREFIX st w"
  by (simp add: Let_def oauth_defs) (auto simp: Let_def)

lemma fold_resumed_ok:
  "ot_inflight (fold (exchange_resumed (Inr res)) rs w) = ot_inflight w"
  "marked DONE_KEY_PREFIX st (fold (exchange_resumed (Inr res)) rs w) \<longleftrightarrow>
     st \<in> cr_state ` set rs \<or> marked DONE_KEY_PREFIX st w"
  "marked TOTP_KEY_PREFIX st (fold (exchange_resumed (Inr res)) rs w) \<longleftrightarrow>
     lr_totp_required res \<and> (\<exists>r\<in>set rs. \<not> cr_cancelled r \<and> cr_state r = st) \<or> marked TOTP_KEY_PREFIX st w"
  by (induction rs arbitrary: w) (auto simp: resumed_ok simp del: exchange_resumed.simps)

lemma resumed_failed:
  "map_of (ot_inflight (exchange_resumed (Inl e) r w)) st = (if cr_state r = st then None else map_of (ot_inflight w) st)"
  "marked key st (exchange_resumed (Inl e) r w) = marked key st w"
  by (simp_all add: oauth_defs delete_conv' restrict_map_def)

lemma fold_resumed_failed:
  "map_of (ot_inflight (fold (exchange_resumed (Inl e)) rs w)) st =
     (if st \<in> cr_state ` set rs then None else map_of (ot_inflight w) st)"
  "marked key st (fold (exchange_resumed (Inl e)) rs w) = marked key st w"
  by (induction rs arbitrary: w) (auto simp: resumed_failed simp del: exchange_resumed.simps)

lemma run_effect_cases:
  obtains (idle) "run_effect ps w = w"
  | (prompt) st where "marked DONE_KEY_PREFIX st w" "marked TOTP_KEY_PREFIX st w"
      "run_effect ps w = add_run st Aw_nothing (set_page (\<lambda>p. p\<lparr>cp_needsTotp := True\<rparr>) w)"
  | (returned) st where "marked DONE_KEY_PREFIX st w" "\<not> marked TOTP_KEY_PREFIX st w"
      "run_effect ps w = logged [Sent_me] (add_run st Aw_me w)"
  | (shared) st k where "\<not> marked DONE_KEY_PREFIX st w" "map_of (ot_inflight w) st = Some k"
      "run_effect ps w = add_run st (Aw_exchange k) w"
  | (first) code st where "\<not> marked DONE_KEY_PREFIX st w" "map_of (ot_inflight w) st = None"
      "run_effect ps w = logged [Sent_exchange code st]
         (add_run st (Aw_exchange (length (ot_exchanges w)))
           (w\<lparr>ot_inflight := AList.update st (length (ot_exchanges w)) (ot_inflight w), ot_exchanges := ot_exchanges w @ [st]\<rparr>))"
proof (cases "truthy_str (gp_code ps)"; cases "truthy_str (gp_state ps)"; cases "truthy_str (gp_error ps)")
  fix code st assume "truthy_str (gp_code ps) = Some code" "truthy_str (gp_state ps) = Some st" "truthy_str (gp_error ps) = None"
  then show thesis
    using prompt [of st] returned [of st] shared [of st] first [of st code]
    by (cases "marked DONE_KEY_PREFIX st w"; cases "marked TOTP_KEY_PREFIX st w"; cases "map_of (ot_inflight w) st")
      (simp_all add: run_effect_def)
qed (use idle in \<open>simp_all add: run_effect_def\<close>)

section \<open>The exchange is made once\<close>

fun sends :: "string \<Rightarrow> oauth_event \<Rightarrow> bool" where
  "sends st (Sent_exchange _ st') \<longleftrightarrow> st' = st"
| "sends st _ \<longleftrightarrow> False"

fun refused :: "string \<Rightarrow> oauth_event \<Rightarrow> bool" where
  "refused st (Exchanged st' (Inl _)) \<longleftrightarrow> st' = st"
| "refused st _ \<longleftrightarrow> False"

definition occurs :: "(oauth_event \<Rightarrow> bool) \<Rightarrow> oauth_tab \<Rightarrow> nat" where
  "occurs P w = length (filter P (ot_log w))"

definition settled :: "string \<Rightarrow> oauth_tab \<Rightarrow> bool" where
  "settled st w \<longleftrightarrow> map_of (ot_inflight w) st \<noteq> None \<or> marked DONE_KEY_PREFIX st w"

text \<open>Exchanges are awaited and shared under their own state, and each further request for a state was
  preceded by a refusal or a reload.\<close>

definition exchanges_ok :: "oauth_tab \<Rightarrow> bool" where
  "exchanges_ok w \<longleftrightarrow>
     (\<forall>r\<in>set (ot_runs w). \<forall>k. cr_await r = Aw_exchange k \<longrightarrow> k < length (ot_exchanges w) \<and> ot_exchanges w ! k = cr_state r) \<and>
     (\<forall>st k. map_of (ot_inflight w) st = Some k \<longrightarrow> k < length (ot_exchanges w) \<and> ot_exchanges w ! k = st)"

definition sends_ok :: "string \<Rightarrow> oauth_tab \<Rightarrow> bool" where
  "sends_ok st w \<longleftrightarrow>
     occurs (sends st) w \<le> occurs (refused st) w + occurs (\<lambda>e. e = Reloaded) w + (if settled st w then 1 else 0)"

lemma no_sends_resumed [simp]: "filter (sends st) (concat (map (resumed_events a) rs)) = []"
  "filter (refused st) (concat (map (resumed_events a) rs)) = []"
  "filter (\<lambda>e. e = Reloaded) (concat (map (resumed_events a) rs)) = []"
  by (induction rs; cases a; simp)+

lemma exchanges_ok_run_effect:
  assumes "exchanges_ok w"
  shows "exchanges_ok (run_effect ps w)"
proof (cases ps w rule: run_effect_cases)
  case (first code st)
  with assms show ?thesis
    by (auto simp: exchanges_ok_def oauth_defs nth_append update_conv' less_SucI split: if_splits)
qed (use assms in \<open>auto simp: exchanges_ok_def oauth_defs\<close>)

lemma sends_ok_run_effect:
  assumes "sends_ok st w"
  shows "sends_ok st (run_effect ps w)"
proof (cases ps w rule: run_effect_cases)
  case (first code st')
  with assms show ?thesis
    by (cases "st = st'") (simp_all add: sends_ok_def settled_def occurs_def oauth_defs update_conv')
qed (use assms in \<open>simp_all add: sends_ok_def settled_def occurs_def oauth_defs\<close>)

lemma exchange_settled_runs:
  assumes "exchanges_ok w" "r \<in> set (ot_runs w)" "cr_await r = Aw_exchange k"
  shows "cr_state ` set (filter (\<lambda>r. cr_await r = Aw_exchange k) (ot_runs w)) = {ot_exchanges w ! k}"
proof -
  have "\<forall>r'\<in>set (filter (\<lambda>r. cr_await r = Aw_exchange k) (ot_runs w)). cr_state r' = ot_exchanges w ! k"
    using assms(1) by (auto simp: exchanges_ok_def)
  then show ?thesis using assms(2,3) by (auto simp: image_iff)
qed

lemma exchanges_ok_settled:
  assumes "exchanges_ok w"
  shows "exchanges_ok (exchange_settled k a w)"
proof (cases a)
  case (Inl e)
  with assms show ?thesis
    by (auto simp: exchange_settled_def exchanges_ok_def fold_resumed_frame fold_resumed_failed logged_def split: if_splits)
next
  case (Inr res)
  with assms show ?thesis
    by (auto simp: exchange_settled_def exchanges_ok_def fold_resumed_frame fold_resumed_ok logged_def split: if_splits)
qed

lemma sends_ok_settled:
  assumes "sends_ok st w" "exchanges_ok w" "r \<in> set (ot_runs w)" "cr_await r = Aw_exchange k"
  shows "sends_ok st (exchange_settled k a w)"
proof (cases a)
  case (Inl e)
  have "settled st (exchange_settled k a w) \<longleftrightarrow> settled st w" if "st \<noteq> ot_exchanges w ! k"
    using Inl that exchange_settled_runs [OF assms(2-4)]
    by (simp add: settled_def exchange_settled_def fold_resumed_failed logged_def)
  then show ?thesis
    using Inl assms(1)
    by (cases "st = ot_exchanges w ! k")
      (auto simp: exchange_settled_def sends_ok_def occurs_def fold_resumed_frame logged_def split: if_splits)
next
  case (Inr res)
  have "settled st w \<Longrightarrow> settled st (exchange_settled k a w)"
    using Inr by (auto simp: settled_def exchange_settled_def fold_resumed_ok logged_def)
  with Inr assms(1) show ?thesis
    by (auto simp: exchange_settled_def sends_ok_def occurs_def fold_resumed_frame logged_def split: if_splits)
qed

lemma exchanges_ok_step:
  assumes "oauth_step w v" and "exchanges_ok w"
  shows "exchanges_ok v"
  using assms
proof induction
  case (me_answer i w a)
  have "cr_await r \<noteq> Aw_exchange k" if "r = (ot_runs w ! i)\<lparr>cr_await := Aw_nothing\<rparr>" for r k using that by simp
  with me_answer show ?case
    by (auto simp: me_settled_def exchanges_ok_def oauth_defs Let_def split: sum.split dest!: set_update_subset_insert [THEN subsetD])
next
  case (code_answer j w a)
  then show ?case
    by (cases "ot_codes w ! j") (simp add: code_settled_def Let_def exchanges_ok_def oauth_defs split: sum.split option.split)
next
  case (submit w i p)
  then show ?case by (simp add: submitTotp_def exchanges_ok_def oauth_defs)
next
  case (mounted w ps)
  then show ?case unfolding mount_def by (intro exchanges_ok_run_effect) (simp add: exchanges_ok_def)
next
  case (remount w i p)
  then show ?case by (intro exchanges_ok_run_effect) (auto simp: oauth_cleanup_def exchanges_ok_def)
next
  case (exchanged r w k a)
  then show ?case by (simp add: exchanges_ok_settled)
qed (simp_all add: exchanges_ok_def oauth_defs)

lemma sends_ok_step:
  assumes "oauth_step w v" and "sends_ok st w" and "exchanges_ok w"
  shows "sends_ok st v"
  using assms
proof induction
  case (code_answer j w a)
  then show ?case
    by (cases "ot_codes w ! j")
      (auto simp: code_settled_def Let_def sends_ok_def settled_def occurs_def oauth_defs split: sum.split option.split if_splits)
next
  case (me_answer i w a)
  then show ?case
    by (auto simp: me_settled_def sends_ok_def settled_def occurs_def oauth_defs Let_def split: sum.split)
next
  case (submit w i p)
  then show ?case by (auto simp: submitTotp_def sends_ok_def settled_def occurs_def oauth_defs split: if_splits)
next
  case (exchanged r w k a)
  then show ?case using sends_ok_settled by blast
next
  case (mounted w ps)
  then show ?case unfolding mount_def by (intro sends_ok_run_effect) (simp add: sends_ok_def settled_def occurs_def)
next
  case (remount w i p)
  then show ?case by (intro sends_ok_run_effect) (auto simp: oauth_cleanup_def sends_ok_def settled_def occurs_def)
qed (auto simp: sends_ok_def settled_def occurs_def oauth_defs split: if_splits)

lemma oauth_runs_ok:
  assumes "oauth_runs oauth_init w"
  shows "exchanges_ok w \<and> sends_ok st w"
  using assms
proof (induction oauth_init w rule: oauth_runs.induct)
  case refl
  then show ?case by (simp add: oauth_init_def exchanges_ok_def sends_ok_def occurs_def)
next
  case (step v w)
  then show ?case using exchanges_ok_step sends_ok_step by blast
qed


text \<open>A tab in which the page, for code \<open>c\<close> and state \<open>s\<close>, was mounted and its effect run twice.\<close>

definition sample_params :: callback_params where
  "sample_params = \<lparr>gp_code = Some ''c'', gp_state = Some ''s'', gp_error = None\<rparr>"

definition strict_mount :: oauth_tab where
  "strict_mount = run_effect sample_params (oauth_cleanup (mount sample_params oauth_init))"

lemmas sample_eval = strict_mount_def sample_params_def mount_def run_effect_def oauth_init_def oauth_defs marked_def
  truthy_str_def DONE_KEY_PREFIX_def TOTP_KEY_PREFIX_def callback_page_init_def

lemma strict_mount_runs: "oauth_runs oauth_init strict_mount"
proof -
  have "oauth_runs oauth_init (mount sample_params oauth_init)"
    by (rule oauth_runs.step [OF oauth_runs.refl oauth_step.mounted]) (simp add: oauth_init_def)
  moreover have "ot_page (mount sample_params oauth_init) = Some (0, callback_page_init sample_params)"
    by (simp add: sample_eval)
  from oauth_step.remount [OF this] have "oauth_step (mount sample_params oauth_init) strict_mount"
    by (simp add: strict_mount_def callback_page_init_def)
  ultimately show ?thesis by (rule oauth_runs.step)
qed


section \<open>The second factor\<close>

text \<open>The answers that hand out a session.\<close>

fun grants :: "PublicUser \<Rightarrow> oauth_event \<Rightarrow> bool" where
  "grants u (Exchanged _ (Inr res)) \<longleftrightarrow> \<not> lr_totp_required res \<and> lr_user res = u"
| "grants u (Me_answered (Inr v)) \<longleftrightarrow> v = u"
| "grants u (Code_answered (Inr res)) \<longleftrightarrow> lr_user res = u"
| "grants u _ \<longleftrightarrow> False"

definition justified :: "oauth_event list \<Rightarrow> bool" where
  "justified l \<longleftrightarrow> (\<forall>i u. i < length l \<longrightarrow> l ! i = Did (Stored_user u) \<longrightarrow> list_ex (grants u) (take i l))"

lemma justified_Nil [simp]: "justified []"
  by (simp add: justified_def)

lemma justified_snoc: "justified (l @ [e]) \<longleftrightarrow> justified l \<and> (\<forall>u. e = Did (Stored_user u) \<longrightarrow> list_ex (grants u) l)"
  by (auto simp: justified_def nth_append less_Suc_eq)

lemma justified_append:
  "justified l \<Longrightarrow> list_all (\<lambda>e. \<forall>u. e = Did (Stored_user u) \<longrightarrow> list_ex (grants u) l) es \<Longrightarrow> justified (l @ es)"
proof (induction es rule: rev_induct)
  case (snoc e es)
  then have "justified (l @ es)" by simp
  with snoc.prems show ?case using justified_snoc [of "l @ es" e] by (auto simp: list_ex_iff)
qed simp

lemma justified_grant:
  assumes "justified l" and "grants u g"
  shows "justified (l @ [g, Did (Stored_user u), Did (Toast_success s), Sent_preferences])"
proof -
  have "justified (l @ [g])" using assms by (cases g) (auto simp: justified_snoc)
  then show ?thesis using justified_append [of "l @ [g]" "[Did (Stored_user u), Did (Toast_success s), Sent_preferences]"] assms(2)
    by simp
qed

lemma justified_exchange:
  assumes "justified l"
  shows "justified (l @ Exchanged st a # concat (map (resumed_events a) rs))"
proof -
  have "justified (l @ [Exchanged st a])" using assms by (simp add: justified_snoc)
  moreover have "list_all (\<lambda>e. \<forall>u. e = Did (Stored_user u) \<longrightarrow> list_ex (grants u) (l @ [Exchanged st a]))
      (concat (map (resumed_events a) rs))"
    by (induction rs; cases a; simp)
  ultimately show ?thesis using justified_append by fastforce
qed

lemma justified_step:
  assumes "oauth_step w v" and "justified (ot_log w)"
  shows "justified (ot_log v)"
  using assms
proof induction
  case (mounted w ps)
  let ?w = "w\<lparr>ot_page := Some (ot_mounts w, callback_page_init ps), ot_mounts := ot_mounts w + 1\<rparr>"
  show ?case unfolding mount_def
    by (cases ps ?w rule: run_effect_cases) (use mounted in \<open>simp_all add: oauth_defs justified_snoc\<close>)
next
  case (remount w i p)
  then show ?case
    by (cases "cp_params p" "oauth_cleanup w" rule: run_effect_cases) (simp_all add: oauth_defs justified_snoc)
next
  case (exchanged r w k a)
  then show ?case by (simp add: exchange_settled_def fold_resumed_frame logged_def justified_exchange)
next
  case (me_answer i w a)
  then show ?case
    by (cases a; cases "cr_cancelled (ot_runs w ! i)")
      (auto simp: me_settled_def Let_def oauth_defs justified_snoc justified_grant justified_append)
next
  case (submit w i p)
  then show ?case by (simp add: submitTotp_def oauth_defs justified_snoc)
next
  case (code_answer j w a)
  then show ?case
    by (cases "ot_codes w ! j"; cases a)
      (auto simp: code_settled_def Let_def oauth_defs justified_snoc justified_grant split: option.split)
next
  case (prefs_answer w prefs)
  then show ?case by (auto simp: oauth_defs intro!: justified_append)
qed (simp_all add: oauth_defs justified_snoc)

lemma justified_runs: "oauth_runs v w \<Longrightarrow> justified (ot_log v) \<Longrightarrow> justified (ot_log w)"
  by (induction rule: oauth_runs.induct) (simp_all add: justified_step)

text \<open>
  C15: the Google identity alone never signs anyone in past their second factor: over any run of the tab, a user is stored
  in the session store only after an answer that grants a session to that very user, namely an exchange
  that demands no second factor, a verified code, or the server's own word on who is signed in.
\<close>

theorem second_factor_never_skipped:
  assumes "oauth_runs oauth_init w" and "i < length (ot_log w)" and "ot_log w ! i = Did (Stored_user u)"
  shows "\<exists>j<i. grants u (ot_log w ! j)"
proof -
  have "justified (ot_log w)" using justified_runs [OF assms(1)] by (simp add: oauth_init_def)
  with assms(2,3) obtain e where "e \<in> set (take i (ot_log w))" "grants u e"
    unfolding justified_def list_ex_iff by blast
  with assms(2) show ?thesis by (auto simp: in_set_conv_nth)
qed

section \<open>The prompt\<close>

definition prompt_ok :: "oauth_tab \<Rightarrow> bool" where
  "prompt_ok w \<longleftrightarrow>
     (\<forall>st. marked TOTP_KEY_PREFIX st w \<longrightarrow> marked DONE_KEY_PREFIX st w) \<and>
     (case ot_page w of None \<Rightarrow> True | Some (i, p) \<Rightarrow> length (cp_totpCode p) \<le> OTP_MAX_LENGTH) \<and>
     (\<forall>c. Sent_code c \<in> set (ot_log w) \<longrightarrow> length c = OTP_MAX_LENGTH)"

lemma length_trim: "length (trim s) \<le> length s"
  unfolding trim_def by (metis length_dropWhile_le length_rev order_trans)

lemma no_codes_resumed: "Sent_code c \<notin> set (concat (map (resumed_events a) rs))"
  by (induction rs; cases a; simp)

fun code_ok :: "oauth_event \<Rightarrow> bool" where
  "code_ok (Code_answered (Inr _)) \<longleftrightarrow> True"
| "code_ok _ \<longleftrightarrow> False"

lemma resumed_page:
  "(case ot_page w of None \<Rightarrow> True | Some (i, p) \<Rightarrow> length (cp_totpCode p) \<le> n) \<Longrightarrow>
   (case ot_page (fold (exchange_resumed a) rs w) of None \<Rightarrow> True | Some (i, p) \<Rightarrow> length (cp_totpCode p) \<le> n)"
proof (induction rs arbitrary: w)
  case (Cons r rs)
  have "case ot_page (exchange_resumed a r w) of None \<Rightarrow> True | Some (i, p) \<Rightarrow> length (cp_totpCode p) \<le> n"
    using Cons.prems by (cases a) (auto simp: Let_def oauth_defs split: option.splits)
  then show ?case using Cons.IH by simp
qed simp

lemma prompt_ok_run_effect: "prompt_ok w \<Longrightarrow> prompt_ok (run_effect ps w)"
  by (cases ps w rule: run_effect_cases) (auto simp: prompt_ok_def oauth_defs split: option.splits)

lemma prompt_ok_settled:
  assumes "prompt_ok w"
  shows "prompt_ok (exchange_settled k a w)"
proof -
  have "case ot_page (exchange_settled k a w) of None \<Rightarrow> True | Some (i, p) \<Rightarrow> length (cp_totpCode p) \<le> OTP_MAX_LENGTH"
    unfolding exchange_settled_def by (rule resumed_page) (use assms in \<open>simp add: prompt_ok_def logged_def\<close>)
  moreover have "marked TOTP_KEY_PREFIX st (exchange_settled k a w) \<Longrightarrow> marked DONE_KEY_PREFIX st (exchange_settled k a w)" for st
    using assms unfolding exchange_settled_def prompt_ok_def
    by (cases a) (auto simp: fold_resumed_ok fold_resumed_failed)
  moreover have "Sent_code c \<in> set (ot_log (exchange_settled k a w)) \<Longrightarrow> Sent_code c \<in> set (ot_log w)" for c
    using no_codes_resumed by (auto simp: exchange_settled_def fold_resumed_frame logged_def)
  ultimately show ?thesis using assms unfolding prompt_ok_def by blast
qed

lemma prompt_ok_step:
  assumes "oauth_step w v" and "prompt_ok w"
  shows "prompt_ok v"
  using assms
proof induction
  case (mounted w ps)
  then show ?case
    unfolding mount_def by (intro prompt_ok_run_effect) (simp add: prompt_ok_def callback_page_init_def)
next
  case (remount w i p)
  then show ?case by (intro prompt_ok_run_effect) (simp add: prompt_ok_def oauth_cleanup_def)
next
  case (submit w i p)
  then have "length (trim (cp_totpCode p)) \<le> OTP_MAX_LENGTH"
    using order_trans [OF length_trim] by (simp add: prompt_ok_def)
  with submit show ?case by (auto simp: submitTotp_def prompt_ok_def oauth_defs OTP_MAX_LENGTH_def)
next
  case (code_answer j w a)
  then show ?case
    by (cases "ot_codes w ! j"; cases a)
      (auto simp: code_settled_def Let_def prompt_ok_def oauth_defs split: option.splits)
next
  case (me_answer i w a)
  then show ?case
    by (cases a) (auto simp: me_settled_def Let_def prompt_ok_def oauth_defs split: option.splits)
qed (simp_all add: prompt_ok_settled, auto simp: prompt_ok_def oauth_defs split: option.splits)

lemma prompt_ok_runs: "oauth_runs v w \<Longrightarrow> prompt_ok v \<Longrightarrow> prompt_ok w"
  by (induction rule: oauth_runs.induct) (simp_all add: prompt_ok_step)

lemma prompt_ok_init: "prompt_ok oauth_init"
  by (simp add: prompt_ok_def oauth_init_def marked_def truthy_str_def)

lemma run_effect_log: "\<exists>es. ot_log (run_effect ps w) = ot_log w @ es \<and> filter code_ok es = []"
  by (cases ps w rule: run_effect_cases) (simp_all add: oauth_defs)

lemma no_code_ok_resumed [simp]: "filter code_ok (concat (map (resumed_events a) rs)) = []"
  by (induction rs; cases a; simp)

lemma log_grows:
  assumes "oauth_step w v"
  shows "\<exists>es. ot_log v = ot_log w @ es"
  using assms
proof induction
  case (mounted w ps)
  then show ?case
    using run_effect_log [of ps "w\<lparr>ot_page := Some (ot_mounts w, callback_page_init ps), ot_mounts := ot_mounts w + 1\<rparr>"]
    by (auto simp: mount_def)
next
  case (remount w i p)
  then show ?case using run_effect_log [of "cp_params p" "oauth_cleanup w"] by (auto simp: oauth_cleanup_def)
next
  case (me_answer i w a)
  then show ?case by (cases a) (simp_all add: me_settled_def Let_def oauth_defs)
next
  case (code_answer j w a)
  then show ?case
    by (cases "ot_codes w ! j"; cases a) (simp_all add: code_settled_def Let_def oauth_defs split: option.split)
qed (simp_all add: exchange_settled_def fold_resumed_frame submitTotp_def oauth_defs)

lemma code_log_grows: "oauth_step w v \<Longrightarrow> occurs P w \<le> occurs P v"
  using log_grows by (fastforce simp: occurs_def)

text \<open>A step keeps the marker of a pending second factor, unless a code is verified in it.\<close>

lemma marker_step:
  assumes "oauth_step w v" and "marked TOTP_KEY_PREFIX st w"
  shows "occurs code_ok w \<le> occurs code_ok v \<and> (marked TOTP_KEY_PREFIX st v \<or> occurs code_ok w < occurs code_ok v)"
  using assms
proof induction
  case (mounted w ps)
  then show ?case
    using run_effect_log [of ps "w\<lparr>ot_page := Some (ot_mounts w, callback_page_init ps), ot_mounts := ot_mounts w + 1\<rparr>"]
    by (auto simp: mount_def occurs_def)
next
  case (remount w i p)
  then show ?case using run_effect_log [of "cp_params p" "oauth_cleanup w"] by (auto simp: occurs_def oauth_cleanup_def)
next
  case (exchanged r w k a)
  then show ?case
    by (cases a)
      (simp_all add: exchange_settled_def occurs_def fold_resumed_frame fold_resumed_ok fold_resumed_failed, simp_all add: logged_def)
next
  case (me_answer i w a)
  then show ?case by (cases a) (simp_all add: me_settled_def Let_def occurs_def oauth_defs)
next
  case (submit w i p)
  then show ?case by (simp add: submitTotp_def occurs_def logged_def)
next
  case (code_answer j w a)
  then show ?case
    by (cases "ot_codes w ! j"; cases a)
      (simp_all add: code_settled_def Let_def occurs_def oauth_defs split: option.split)
qed (simp_all add: occurs_def oauth_defs)

lemma marker_runs:
  "oauth_runs v w \<Longrightarrow> marked TOTP_KEY_PREFIX st v \<Longrightarrow>
   occurs code_ok v \<le> occurs code_ok w \<and> (occurs code_ok w = occurs code_ok v \<longrightarrow> marked TOTP_KEY_PREFIX st w)"
proof (induction rule: oauth_runs.induct)
  case (step u v w)
  show ?case
  proof (cases "marked TOTP_KEY_PREFIX st v")
    case True
    then show ?thesis using step marker_step [OF step.hyps(2) True] by linarith
  next
    case False
    then have "occurs code_ok u < occurs code_ok v" using step by fastforce
    moreover have "occurs code_ok v \<le> occurs code_ok w" using code_log_grows [OF step.hyps(2)] .
    ultimately show ?thesis by simp
  qed
qed simp

lemma paramError_none:
  "paramError ps = None \<longleftrightarrow>
     truthy_str (gp_error ps) = None \<and> truthy_str (gp_code ps) \<noteq> None \<and> truthy_str (gp_state ps) \<noteq> None"
  by (auto simp: paramError_def split: option.splits)

lemma truthy_Some [simp]: "truthy_str (Some s) = Some t \<longleftrightarrow> s = t \<and> s \<noteq> []"
  by (auto simp: truthy_str_def)

lemma mount_with_marker:
  assumes "prompt_ok v" and "marked TOTP_KEY_PREFIX st v" and "gp_state ps = Some st" and "paramError ps = None"
  shows "map_option (cp_needsTotp \<circ> snd) (ot_page (mount ps v)) = Some True \<and> ot_log (mount ps v) = ot_log v"
proof -
  let ?w = "v\<lparr>ot_page := Some (ot_mounts v, callback_page_init ps), ot_mounts := ot_mounts v + 1\<rparr>"
  have "marked DONE_KEY_PREFIX st ?w" "marked TOTP_KEY_PREFIX st ?w" using assms(1,2) by (simp_all add: prompt_ok_def)
  moreover obtain c where "truthy_str (gp_code ps) = Some c" using assms(4) by (auto simp: paramError_none)
  moreover have "truthy_str (gp_state ps) = Some st" "truthy_str (gp_error ps) = None"
    using assms(3,4) by (auto simp: paramError_none)
  ultimately have "run_effect ps ?w = add_run st Aw_nothing (set_page (\<lambda>p. p\<lparr>cp_needsTotp := True\<rparr>) ?w)"
    by (simp add: run_effect_def del: marked_update)
  then show ?thesis by (simp add: mount_def oauth_defs)
qed

text \<open>
  the prompt for the second factor survives a remount and a reload: once an exchange that demands it has reached
  a run of the effect that is still wanted, and until a code is verified, opening the page again with the
  same state shows the prompt at once and sends nothing, whatever happened in between.
\<close>

theorem prompt_survives:
  assumes "oauth_runs oauth_init w" and "r \<in> set (ot_runs w)" and "cr_await r = Aw_exchange k" and "\<not> cr_cancelled r"
    and "lr_totp_required res" and "oauth_runs (exchange_settled k (Inr res) w) v"
    and "occurs code_ok v = occurs code_ok (exchange_settled k (Inr res) w)"
    and "gp_state ps = Some (cr_state r)" and "paramError ps = None"
  shows "map_option (cp_needsTotp \<circ> snd) (ot_page (mount ps v)) = Some True \<and> ot_log (mount ps v) = ot_log v"
proof -
  have "prompt_ok w" using assms(1) prompt_ok_init prompt_ok_runs by blast
  then have "prompt_ok v" using prompt_ok_settled prompt_ok_runs assms(6) by blast
  moreover have "marked TOTP_KEY_PREFIX (cr_state r) (exchange_settled k (Inr res) w)"
    using assms(2-5) by (auto simp: exchange_settled_def fold_resumed_ok)
  then have "marked TOTP_KEY_PREFIX (cr_state r) v" using marker_runs [OF assms(6)] assms(7) by simp
  ultimately show ?thesis using mount_with_marker assms(8,9) by blast
qed

definition demands_code :: LoginResponse where
  "demands_code = \<lparr>lr_user = \<lparr>pu_id = ''u'', pu_email = ''e'', pu_role = Role_user, pu_totp_enabled = True,
      pu_is_impersonated = None, pu_impersonator_email = None, pu_user_policy = \<lparr>ups_hide_device_detail = False\<rparr>\<rparr>,
     lr_must_change_password = False, lr_totp_required = True\<rparr>"

definition prompted :: oauth_tab where
  "prompted = exchange_settled 0 (Inr demands_code) strict_mount"

theorem prompt_survives_witness:
  "map_option (cp_needsTotp \<circ> snd) (ot_page (mount sample_params (reload prompted))) = Some True \<and>
   ot_log (mount sample_params (reload prompted)) = ot_log (reload prompted)"
proof (rule prompt_survives [of strict_mount "\<lparr>cr_state = ''s'', cr_cancelled = False, cr_await = Aw_exchange 0\<rparr>" 0 demands_code])
  show "oauth_runs (exchange_settled 0 (Inr demands_code) strict_mount) (reload prompted)"
    unfolding prompted_def by (rule oauth_runs.step [OF oauth_runs.refl oauth_step.reloaded])
  show "occurs code_ok (reload prompted) = occurs code_ok (exchange_settled 0 (Inr demands_code) strict_mount)"
    by (simp add: prompted_def occurs_def reload_def logged_def)
qed (rule strict_mount_runs, simp_all add: sample_eval demands_code_def paramError_def)

text \<open>
  Leaving the page while the exchange is under way loses the prompt: the cancelled run marks the exchange as done and returns
  before it marks the pending second factor, so the page opened again asks who is signed in instead.
\<close>

lemma prompt_lost_on_leaving:
  "let w = exchange_settled 0 (Inr demands_code) ((oauth_cleanup strict_mount)\<lparr>ot_page := None\<rparr>)
   in oauth_runs oauth_init w \<and> ot_log (mount sample_params w) = ot_log w @ [Sent_me] \<and>
      map_option (cp_needsTotp \<circ> snd) (ot_page (mount sample_params w)) = Some False"
proof -
  let ?v = "(oauth_cleanup strict_mount)\<lparr>ot_page := None\<rparr>"
  have v: "oauth_runs oauth_init ?v" by (rule oauth_runs.step [OF strict_mount_runs oauth_step.unmounted])
  have "oauth_step ?v (exchange_settled 0 (Inr demands_code) ?v)"
    by (rule oauth_step.exchanged [of "\<lparr>cr_state = ''s'', cr_cancelled = True, cr_await = Aw_exchange 0\<rparr>"])
      (simp_all add: sample_eval)
  from oauth_runs.step [OF v this] show ?thesis
    by (simp add: Let_def) (simp add: exchange_settled_def sample_eval mark_def demands_code_def)
qed

text \<open>A reload while the exchange is under way repeats it: the marker is set only when the answer arrives.\<close>

lemma reload_repeats_exchange:
  "occurs (sends ''s'') (mount sample_params (reload strict_mount)) = 2"
  by (simp add: occurs_def sample_eval)

text \<open>
  the prompt sends codes of exactly six characters, because its field takes no more and the button no fewer; an
  eight-character recovery code, which the server accepts here and the hint under the field offers, cannot be sent.
\<close>

theorem prompt_sends_six_characters:
  assumes "oauth_runs oauth_init w" and "Sent_code c \<in> set (ot_log w)"
  shows "length c = 6"
  using prompt_ok_runs [OF assms(1) prompt_ok_init] assms(2) by (simp add: prompt_ok_def OTP_MAX_LENGTH_def)

definition code_sent :: oauth_tab where
  "code_sent = submitTotp (set_page (\<lambda>p. p\<lparr>cp_totpCode := ''123456''\<rparr>) prompted)"

lemma code_sent_runs: "oauth_runs oauth_init code_sent"
proof -
  have "oauth_step strict_mount prompted"
    unfolding prompted_def
    by (rule oauth_step.exchanged [of "\<lparr>cr_state = ''s'', cr_cancelled = False, cr_await = Aw_exchange 0\<rparr>"])
      (simp_all add: sample_eval)
  then have "oauth_runs oauth_init prompted" by (rule oauth_runs.step [OF strict_mount_runs])
  then have typed: "oauth_runs oauth_init (set_page (\<lambda>p. p\<lparr>cp_totpCode := ''123456''\<rparr>) prompted)"
    by (rule oauth_runs.step) (rule oauth_step.typed, simp add: OTP_MAX_LENGTH_def)
  have "\<exists>i p. ot_page (set_page (\<lambda>p. p\<lparr>cp_totpCode := ''123456''\<rparr>) prompted) = Some (i, p) \<and> cp_needsTotp p"
    by (simp add: prompted_def exchange_settled_def sample_eval mark_def demands_code_def)
  then show ?thesis unfolding code_sent_def using oauth_runs.step [OF typed oauth_step.submit] by blast
qed

theorem prompt_sends_six_characters_witness:
  "Sent_code ''123456'' \<in> set (ot_log code_sent) \<and> length ''123456'' = 6"
proof -
  have "Sent_code ''123456'' \<in> set (ot_log code_sent)"
    by (simp add: code_sent_def submitTotp_def prompted_def exchange_settled_def sample_eval mark_def demands_code_def
        trim_def is_space_def)
  then show ?thesis using prompt_sends_six_characters [OF code_sent_runs] by blast
qed

definition entered :: oauth_tab where
  "entered = code_settled 0 (Inr demands_code) code_sent"

theorem second_factor_never_skipped_witness:
  "\<exists>i. ot_log entered ! i = Did (Stored_user (lr_user demands_code)) \<and> (\<exists>j<i. grants (lr_user demands_code) (ot_log entered ! j))"
proof -
  have codes: "ot_codes code_sent = [(0, sample_params)]"
    by (simp add: code_sent_def submitTotp_def prompted_def exchange_settled_def sample_eval mark_def demands_code_def
        trim_def is_space_def)
  then have "oauth_step code_sent entered" unfolding entered_def by (intro oauth_step.code_answer) simp
  then have run: "oauth_runs oauth_init entered" by (rule oauth_runs.step [OF code_sent_runs])
  have log: "ot_log entered = ot_log code_sent @
      [Code_answered (Inr demands_code), Did (Stored_user (lr_user demands_code)),
       Did (Toast_success (''Welcome, '' @ pu_email (lr_user demands_code))), Sent_preferences]"
    by (simp add: entered_def code_settled_def codes Let_def finishSignIn_def logged_def split: option.split)
  have "ot_log entered ! Suc (length (ot_log code_sent)) = Did (Stored_user (lr_user demands_code))"
    "Suc (length (ot_log code_sent)) < length (ot_log entered)"
    by (simp_all add: log nth_append)
  then show ?thesis using second_factor_never_skipped [OF run] by blast
qed

end
