(* ===== verification/Users_Page.thy ===== *)
theory Users_Page
  imports Log_Pages Page_Visit Datetime
begin

text \<open>
  The user list of the administration, src/web/src/pages/admin/Users.tsx: filters and paging, the selection for bulk
  actions, the menu of a row, the confirmation dialogs, invitations and the global user policy, with every mutation
  and what it does when it settles.  A \<open>Set\<close> of ids is a list without repetitions in insertion order.
\<close>

section \<open>Filters and paging\<close>

datatype TotpFilter = Totp_all | Totp_on | Totp_off

fun TotpFilter_str :: "TotpFilter \<Rightarrow> string" where
  "TotpFilter_str Totp_all = ''all''"
| "TotpFilter_str Totp_on = ''on''"
| "TotpFilter_str Totp_off = ''off''"

definition status_choice :: "UserStatus option \<Rightarrow> string" where
  "status_choice s = (case s of None \<Rightarrow> ''all'' | Some x \<Rightarrow> UserStatus_str x)"

definition role_choice :: "UserRole option \<Rightarrow> string" where
  "role_choice r = (case r of None \<Rightarrow> ''all'' | Some x \<Rightarrow> UserRole_str x)"

record users_list =
  ul_search :: string
  ul_status :: "UserStatus option"
  ul_role :: "UserRole option"
  ul_totp :: TotpFilter
  ul_pageSize :: nat
  ul_cell :: resetting_page

definition users_key :: "users_list \<Rightarrow> string" where
  "users_key p = stringify (JArr [JStr (ul_search p), JStr (status_choice (ul_status p)), JStr (role_choice (ul_role p)),
     JStr (TotpFilter_str (ul_totp p)), JNum (of_nat (ul_pageSize p))])"

definition users_list_init :: users_list where
  "users_list_init =
     (let p = \<lparr>ul_search = [], ul_status = None, ul_role = None, ul_totp = Totp_all, ul_pageSize = 50,
        ul_cell = \<lparr>rp_key = [], rp_page = 0\<rparr>\<rparr>
      in p\<lparr>ul_cell := resetting_init (users_key p)\<rparr>)"

definition users_filters :: "users_list \<Rightarrow> AdminUserListFilters" where
  "users_filters p =
     \<lparr>auf_q = (if ul_search p = [] then None else Some (ul_search p)), auf_status = ul_status p, auf_role = ul_role p,
      auf_totp_enabled = (if ul_totp p = Totp_all then None else Some (ul_totp p = Totp_on))\<rparr>"

definition users_index :: "users_list \<Rightarrow> nat" where
  "users_index p = resetting_read (users_key p) (ul_cell p)"

definition users_request :: "users_list \<Rightarrow> api_request" where
  "users_request p = adminListUsers (users_filters p) (of_nat (ul_pageSize p)) (of_nat (users_index p * ul_pageSize p))"

definition users_filtersActive :: "users_list \<Rightarrow> bool" where
  "users_filtersActive p \<longleftrightarrow> ul_status p \<noteq> None \<or> ul_role p \<noteq> None \<or> ul_totp p \<noteq> Totp_all \<or> ul_search p \<noteq> []"

datatype users_act =
    Users_search string | Users_status "UserStatus option" | Users_role "UserRole option" | Users_totp TotpFilter
  | Users_size nat | Users_clear

fun users_change :: "users_act \<Rightarrow> users_list \<Rightarrow> users_list" where
  "users_change (Users_search s) p = p\<lparr>ul_search := s\<rparr>"
| "users_change (Users_status s) p = p\<lparr>ul_status := s\<rparr>"
| "users_change (Users_role r) p = p\<lparr>ul_role := r\<rparr>"
| "users_change (Users_totp t) p = p\<lparr>ul_totp := t\<rparr>"
| "users_change (Users_size n) p = (if n \<in> set pageSizeOptions then p\<lparr>ul_pageSize := n\<rparr> else p)"
| "users_change Users_clear p = p\<lparr>ul_search := [], ul_status := None, ul_role := None, ul_totp := Totp_all\<rparr>"

definition users_turn :: "users_act + nat \<Rightarrow> users_list \<Rightarrow> users_list" where
  "users_turn e p = (case e of Inl a \<Rightarrow> users_change a p | Inr page \<Rightarrow> p\<lparr>ul_cell := resetting_setPage (users_key p) page\<rparr>)"

section \<open>The page\<close>

datatype confirm_kind = Kind_delete | Kind_promote | Kind_demote | Kind_disable2fa

record invite_form =
  if_email :: string
  if_role :: UserRole

definition invite_form_init :: invite_form where
  "invite_form_init = \<lparr>if_email = [], if_role = Role_user\<rparr>"

record users_page =
  us_list :: users_list
  us_selected :: "string list"
  us_suspendTarget :: "AdminUser option"
  us_impersonateTarget :: "AdminUser option"
  us_confirm :: "(AdminUser \<times> confirm_kind) option"
  us_bulkSuspendOpen :: bool
  us_bulkDeleteOpen :: bool
  us_inviteOpen :: bool
  us_invite :: invite_form
  us_inviteKey :: nat

definition users_page_init :: users_page where
  "users_page_init =
     \<lparr>us_list = users_list_init, us_selected = [], us_suspendTarget = None, us_impersonateTarget = None, us_confirm = None,
      us_bulkSuspendOpen = False, us_bulkDeleteOpen = False, us_inviteOpen = False, us_invite = invite_form_init,
      us_inviteKey = 0\<rparr>"

text \<open>What a render sees: the signed-in user, the rows of the loaded page, the invitations and the policy.\<close>

record users_ctx =
  uc_self :: "PublicUser option"
  uc_items :: "AdminUser list"
  uc_total :: nat
  uc_invitations :: "PendingInvitation list"
  uc_policy :: "UserPolicySnapshot option"

definition row_isSelf :: "users_ctx \<Rightarrow> AdminUser \<Rightarrow> bool" where
  "row_isSelf c u \<longleftrightarrow> map_option pu_id (uc_self c) = Some (au_id u)"

definition selectableIds :: "users_ctx \<Rightarrow> string list" where
  "selectableIds c = map au_id (filter (\<lambda>u. \<not> row_isSelf c u) (uc_items c))"

definition allOnPageSelected :: "users_ctx \<Rightarrow> users_page \<Rightarrow> bool" where
  "allOnPageSelected c p \<longleftrightarrow> selectableIds c \<noteq> [] \<and> list_all (\<lambda>i. i \<in> set (us_selected p)) (selectableIds c)"

definition someOnPageSelected :: "users_ctx \<Rightarrow> users_page \<Rightarrow> bool" where
  "someOnPageSelected c p \<longleftrightarrow> list_ex (\<lambda>i. i \<in> set (us_selected p)) (selectableIds c) \<and> \<not> allOnPageSelected c p"

text \<open>\<open>next.add(id)\<close> and \<open>next.delete(id)\<close>\<close>

definition set_add :: "string \<Rightarrow> string list \<Rightarrow> string list" where
  "set_add i xs = (if i \<in> set xs then xs else xs @ [i])"

definition set_delete :: "string \<Rightarrow> string list \<Rightarrow> string list" where
  "set_delete i xs = filter (\<lambda>x. x \<noteq> i) xs"

definition togglePageSelection :: "users_ctx \<Rightarrow> bool \<Rightarrow> users_page \<Rightarrow> users_page" where
  "togglePageSelection c on p =
     p\<lparr>us_selected := fold (if on then set_add else set_delete) (selectableIds c) (us_selected p)\<rparr>"

definition toggleRowSelection :: "string \<Rightarrow> bool \<Rightarrow> users_page \<Rightarrow> users_page" where
  "toggleRowSelection i on p = p\<lparr>us_selected := (if on then set_add else set_delete) i (us_selected p)\<rparr>"

definition clearSelection :: "users_page \<Rightarrow> users_page" where
  "clearSelection p = p\<lparr>us_selected := []\<rparr>"

text \<open>The invitation dialog mounts a fresh form whenever \<open>open\<close> changes.\<close>

definition setInviteOpen :: "bool \<Rightarrow> users_page \<Rightarrow> users_page" where
  "setInviteOpen b p =
     (if us_inviteOpen p = b then p
      else p\<lparr>us_inviteOpen := b, us_invite := invite_form_init, us_inviteKey := us_inviteKey p + 1\<rparr>)"

section \<open>Labels\<close>

fun USER_STATUS_TO_PILL :: "UserStatus \<Rightarrow> Status" where
  "USER_STATUS_TO_PILL User_active = Pill_active"
| "USER_STATUS_TO_PILL User_suspended = Pill_revoked"
| "USER_STATUS_TO_PILL User_pending_verification = Pill_pending"
| "USER_STATUS_TO_PILL User_deleted = Pill_offline"

definition user_status_label :: "UserStatus \<Rightarrow> string" where
  "user_status_label s = map (\<lambda>c. if c = CHR ''_'' then CHR '' '' else c) (UserStatus_str s)"

definition users_subtitle :: "users_ctx \<Rightarrow> string" where
  "users_subtitle c = nat_dec (uc_total c) @ '' total '' @ middle_dot @ '' '' @
     nat_dec (length (filter (\<lambda>u. au_status u = User_active) (uc_items c))) @ '' active''"

text \<open>\<open>new Date(expires_at) < new Date()\<close> is false for an unreadable date.\<close>

definition invite_label :: "int \<Rightarrow> PendingInvitation \<Rightarrow> string" where
  "invite_label now i =
     (if (case iso_read (pi_expires_at i) of Some t \<Rightarrow> t < now | None \<Rightarrow> False) then ''Expired''
      else if truthy_str (pi_verified_at i) \<noteq> None then ''Email verified '' @ em_dash @ '' awaiting Google sign-in''
      else ''Awaiting email verification'')"

section \<open>The menu of a row\<close>

datatype row_item = Row_view | Row_impersonate | Row_suspend | Row_unsuspend | Row_forceLogout | Row_disable2fa | Row_toggleRole | Row_delete

definition RowActions :: "AdminUser \<Rightarrow> bool \<Rightarrow> row_item list" where
  "RowActions u isSelf =
     (let active = au_status u = User_active;
          suspended = au_status u = User_suspended;
          terminal = au_status u = User_deleted
      in [Row_view] @
         (if \<not> isSelf \<and> \<not> terminal
          then (if active then [Row_impersonate] else []) @ (if active then [Row_suspend] else []) @
               (if suspended then [Row_unsuspend] else []) @ [Row_forceLogout] @
               (if au_totp_enabled u then [Row_disable2fa] else []) @ [Row_toggleRole, Row_delete]
          else []))"

section \<open>Mutations\<close>

datatype users_mutation =
    U_resend string | U_copyLink string | U_revokeInvite string
  | U_setStatus string UserStatus
  | U_impersonate string
  | U_revokeSessions string
  | U_disable2fa string
  | U_setRole string UserRole
  | U_delete string
  | U_bulkSuspend "string list"
  | U_bulkDelete "string list"
  | U_create nat AdminCreateUserBody
  | U_policy UserPolicySnapshot

fun users_requests :: "users_mutation \<Rightarrow> api_request list" where
  "users_requests (U_resend i) = [adminResendInvitation i]"
| "users_requests (U_copyLink i) = [adminCreateInvitationLink i]"
| "users_requests (U_revokeInvite i) = [adminRevokeInvitation i]"
| "users_requests (U_setStatus i st) = [adminSetUserStatus i st]"
| "users_requests (U_impersonate i) = [adminImpersonateUser i]"
| "users_requests (U_revokeSessions i) = [adminRevokeUserSessions i]"
| "users_requests (U_disable2fa i) = [adminDisableUser2FA i]"
| "users_requests (U_setRole i r) = [adminSetUserRole i r]"
| "users_requests (U_delete i) = [adminDeleteUser i]"
| "users_requests (U_bulkSuspend ids) = map (\<lambda>i. adminSetUserStatus i User_suspended) ids"
| "users_requests (U_bulkDelete ids) = map adminDeleteUser ids"
| "users_requests (U_create k body) = [adminCreateUser body]"
| "users_requests (U_policy next) = [adminSetUserPolicy next]"

text \<open>What a resolved mutation brings: the outcome of \<open>me()\<close> after an impersonation, whether the link was copied, and which
  requests of a bulk action were fulfilled.\<close>

record users_outcome =
  uo_refetched :: "PublicUser option"
  uo_copied :: bool
  uo_fulfilled :: "bool list"

definition invalidateUsers :: page_effect where
  "invalidateUsers = Invalidated [''admin'', ''users'']"

definition invalidateInvitations :: page_effect where
  "invalidateInvitations = Invalidated [''admin'', ''invitations'']"

definition bulk_report :: "string \<Rightarrow> string \<Rightarrow> nat \<Rightarrow> nat \<Rightarrow> page_effect" where
  "bulk_report verb hint ok n =
     (if ok = n then Toast_success (verb @ '' '' @ nat_dec ok @ '' user'' @ (if ok = 1 then [] else ''s''))
      else Toast_warning (verb @ '' '' @ nat_dec ok @ '' of '' @ nat_dec n @ '' '' @ em_dash @ '' the rest failed (likely '' @ hint @ '')''))"

definition fulfilled :: "users_outcome \<Rightarrow> nat" where
  "fulfilled out = length (filter id (uo_fulfilled out))"

fun users_success ::
  "users_ctx \<Rightarrow> users_outcome \<Rightarrow> users_mutation \<Rightarrow> users_page \<Rightarrow> users_page \<times> page_effect list" where
  "users_success c out (U_resend i) p = (p, [invalidateInvitations, Toast_success ''Invitation resent''])"
| "users_success c out (U_copyLink i) p =
     (p, if uo_copied out then [invalidateInvitations, Toast_success ''Fresh invitation link copied''] else [])"
| "users_success c out (U_revokeInvite i) p = (p, [invalidateInvitations, Toast_success ''Invitation revoked''])"
| "users_success c out (U_setStatus i st) p =
     (p\<lparr>us_suspendTarget := None\<rparr>, [invalidateUsers, Toast_success ''User status updated''])"
| "users_success c out (U_impersonate i) p =
     (case uo_refetched out of
        Some u \<Rightarrow>
          (p\<lparr>us_impersonateTarget := None\<rparr>,
           [Stored_user u,
            Toast_success (''Now acting as '' @ (case us_impersonateTarget p of Some t \<Rightarrow> au_email t | None \<Rightarrow> ''user'')),
            Navigated ''/app''])
      | None \<Rightarrow> (p, [Toast_error (JStr ''Impersonation started but failed to refresh session'')]))"
| "users_success c out (U_revokeSessions i) p = (p, [Toast_success ''All sessions for this user invalidated''])"
| "users_success c out (U_disable2fa i) p =
     (p\<lparr>us_confirm := None\<rparr>,
      [invalidateUsers, Toast_success (''2FA disabled '' @ em_dash @ '' user can re-enroll on next sign-in'')])"
| "users_success c out (U_setRole i r) p =
     (p\<lparr>us_confirm := None\<rparr>, [invalidateUsers, Toast_success (''Role set to '' @ UserRole_str r)])"
| "users_success c out (U_delete i) p = (p\<lparr>us_confirm := None\<rparr>, [invalidateUsers, Toast_success ''User deleted''])"
| "users_success c out (U_bulkSuspend ids) p =
     (clearSelection (p\<lparr>us_bulkSuspendOpen := False\<rparr>),
      [invalidateUsers, bulk_report ''Suspended'' ''already non-active or admin-protected'' (fulfilled out) (length ids)])"
| "users_success c out (U_bulkDelete ids) p =
     (clearSelection (p\<lparr>us_bulkDeleteOpen := False\<rparr>),
      [invalidateUsers, bulk_report ''Deleted'' ''the last admin or self'' (fulfilled out) (length ids)])"
| "users_success c out (U_create k body) p =
     (setInviteOpen False p, [invalidateUsers, invalidateInvitations, Toast_success ''Invitation created''])"
| "users_success c out (U_policy next) p =
     (p, [Invalidated [''admin'', ''user-policy'']] @
         (case uc_self c of Some u \<Rightarrow> [Stored_user (u\<lparr>pu_user_policy := next\<rparr>)] | None \<Rightarrow> []) @
         [Toast_success ''User policy updated''])"

section \<open>Controls\<close>

datatype users_control =
    UC_list "users_act + nat"
  | UC_page bool | UC_row AdminUser bool | UC_clearSelection
  | UC_bulkSuspend | UC_bulkDelete | UC_confirmBulkSuspend | UC_confirmBulkDelete
  | UC_dismissBulkSuspend | UC_dismissBulkDelete
  | UC_item AdminUser row_item
  | UC_confirmSuspend | UC_dismissSuspend | UC_confirmImpersonate | UC_dismissImpersonate
  | UC_confirmAction | UC_dismissAction
  | UC_resend PendingInvitation | UC_copyLink PendingInvitation | UC_revokeInvite PendingInvitation
  | UC_invite bool | UC_inviteEmail string | UC_inviteRole UserRole | UC_sendInvite
  | UC_policy bool

text \<open>The mutation hooks of the page, by number; each form of the invitation dialog has its own.\<close>

fun users_hook :: "users_mutation \<Rightarrow> nat" where
  "users_hook (U_resend _) = 0"
| "users_hook (U_copyLink _) = 1"
| "users_hook (U_revokeInvite _) = 2"
| "users_hook (U_setStatus _ _) = 3"
| "users_hook (U_impersonate _) = 4"
| "users_hook (U_revokeSessions _) = 5"
| "users_hook (U_disable2fa _) = 6"
| "users_hook (U_setRole _ _) = 7"
| "users_hook (U_delete _) = 8"
| "users_hook (U_bulkSuspend _) = 9"
| "users_hook (U_bulkDelete _) = 10"
| "users_hook (U_policy _) = 11"
| "users_hook (U_create k _) = 12 + k"

definition hook_pending :: "users_mutation list \<Rightarrow> nat \<Rightarrow> bool" where
  "hook_pending fl h \<longleftrightarrow> list_ex (\<lambda>m. users_hook m = h) fl"

definition invite_body :: "invite_form \<Rightarrow> AdminCreateUserBody option" where
  "invite_body f =
     (let trimmed = toLowerCase (trim (if_email f))
      in if CHR ''@'' \<in> set trimmed then Some \<lparr>acb_email = trimmed, acb_role = Some (if_role f)\<rparr> else None)"

fun row_pressed :: "AdminUser \<Rightarrow> row_item \<Rightarrow> users_page \<Rightarrow> users_page \<times> users_mutation option" where
  "row_pressed u Row_view p = (p, None)"
| "row_pressed u Row_impersonate p = (p\<lparr>us_impersonateTarget := Some u\<rparr>, None)"
| "row_pressed u Row_suspend p = (p\<lparr>us_suspendTarget := Some u\<rparr>, None)"
| "row_pressed u Row_unsuspend p = (p, Some (U_setStatus (au_id u) User_active))"
| "row_pressed u Row_forceLogout p = (p, Some (U_revokeSessions (au_id u)))"
| "row_pressed u Row_disable2fa p = (p\<lparr>us_confirm := Some (u, Kind_disable2fa)\<rparr>, None)"
| "row_pressed u Row_toggleRole p =
     (p\<lparr>us_confirm := Some (u, if au_role u = Role_admin then Kind_demote else Kind_promote)\<rparr>, None)"
| "row_pressed u Row_delete p = (p\<lparr>us_confirm := Some (u, Kind_delete)\<rparr>, None)"

fun action_mutation :: "AdminUser \<Rightarrow> confirm_kind \<Rightarrow> users_mutation" where
  "action_mutation u Kind_delete = U_delete (au_id u)"
| "action_mutation u Kind_promote = U_setRole (au_id u) Role_admin"
| "action_mutation u Kind_demote = U_setRole (au_id u) Role_user"
| "action_mutation u Kind_disable2fa = U_disable2fa (au_id u)"

fun users_pressed ::
  "users_ctx \<Rightarrow> users_mutation list \<Rightarrow> users_page \<Rightarrow> users_control \<Rightarrow> (users_page \<times> users_mutation option) option" where
  "users_pressed c fl p (UC_list e) = Some (p\<lparr>us_list := users_turn e (us_list p)\<rparr>, None)"
| "users_pressed c fl p (UC_page on) = only_if (selectableIds c \<noteq> []) (togglePageSelection c on p, None)"
| "users_pressed c fl p (UC_row u on) =
     only_if (u \<in> set (uc_items c) \<and> \<not> row_isSelf c u) (toggleRowSelection (au_id u) on p, None)"
| "users_pressed c fl p UC_clearSelection = only_if (us_selected p \<noteq> []) (clearSelection p, None)"
| "users_pressed c fl p UC_bulkSuspend = only_if (us_selected p \<noteq> []) (p\<lparr>us_bulkSuspendOpen := True\<rparr>, None)"
| "users_pressed c fl p UC_bulkDelete = only_if (us_selected p \<noteq> []) (p\<lparr>us_bulkDeleteOpen := True\<rparr>, None)"
| "users_pressed c fl p UC_confirmBulkSuspend =
     only_if (us_bulkSuspendOpen p \<and> confirm_enabled None [] (hook_pending fl 9)) (p, Some (U_bulkSuspend (us_selected p)))"
| "users_pressed c fl p UC_confirmBulkDelete =
     only_if (us_bulkDeleteOpen p \<and> confirm_enabled None [] (hook_pending fl 10)) (p, Some (U_bulkDelete (us_selected p)))"
| "users_pressed c fl p UC_dismissBulkSuspend = Some (p\<lparr>us_bulkSuspendOpen := False\<rparr>, None)"
| "users_pressed c fl p UC_dismissBulkDelete = Some (p\<lparr>us_bulkDeleteOpen := False\<rparr>, None)"
| "users_pressed c fl p (UC_item u item) =
     only_if (u \<in> set (uc_items c) \<and> item \<in> set (RowActions u (row_isSelf c u))) (row_pressed u item p)"
| "users_pressed c fl p UC_confirmSuspend =
     (case us_suspendTarget p of
        None \<Rightarrow> None
      | Some u \<Rightarrow> only_if (confirm_enabled None [] (hook_pending fl 3)) (p, Some (U_setStatus (au_id u) User_suspended)))"
| "users_pressed c fl p UC_dismissSuspend = Some (p\<lparr>us_suspendTarget := None\<rparr>, None)"
| "users_pressed c fl p UC_confirmImpersonate =
     (case us_impersonateTarget p of
        None \<Rightarrow> None
      | Some u \<Rightarrow> only_if (confirm_enabled None [] (hook_pending fl 4)) (p, Some (U_impersonate (au_id u))))"
| "users_pressed c fl p UC_dismissImpersonate = Some (p\<lparr>us_impersonateTarget := None\<rparr>, None)"
| "users_pressed c fl p UC_confirmAction =
     (case us_confirm p of
        None \<Rightarrow> None
      | Some (u, kind) \<Rightarrow>
          only_if (confirm_enabled None [] (hook_pending fl (users_hook (action_mutation u kind)))) (p, Some (action_mutation u kind)))"
| "users_pressed c fl p UC_dismissAction = Some (p\<lparr>us_confirm := None\<rparr>, None)"
| "users_pressed c fl p (UC_resend i) =
     only_if (i \<in> set (uc_invitations c) \<and> \<not> hook_pending fl 0) (p, Some (U_resend (pi_user_id i)))"
| "users_pressed c fl p (UC_copyLink i) =
     only_if (i \<in> set (uc_invitations c) \<and> \<not> hook_pending fl 1) (p, Some (U_copyLink (pi_user_id i)))"
| "users_pressed c fl p (UC_revokeInvite i) =
     only_if (i \<in> set (uc_invitations c) \<and> \<not> hook_pending fl 2) (p, Some (U_revokeInvite (pi_user_id i)))"
| "users_pressed c fl p (UC_invite b) = Some (setInviteOpen b p, None)"
| "users_pressed c fl p (UC_inviteEmail s) = only_if (us_inviteOpen p) (p\<lparr>us_invite := (us_invite p)\<lparr>if_email := s\<rparr>\<rparr>, None)"
| "users_pressed c fl p (UC_inviteRole r) = only_if (us_inviteOpen p) (p\<lparr>us_invite := (us_invite p)\<lparr>if_role := r\<rparr>\<rparr>, None)"
| "users_pressed c fl p UC_sendInvite =
     only_if (us_inviteOpen p \<and> \<not> hook_pending fl (12 + us_inviteKey p))
       (p, map_option (U_create (us_inviteKey p)) (invite_body (us_invite p)))"
| "users_pressed c fl p (UC_policy checked) =
     (case uc_policy c of
        None \<Rightarrow> None
      | Some pol \<Rightarrow> only_if (\<not> hook_pending fl 11) (p, Some (U_policy (pol\<lparr>ups_hide_device_detail := checked\<rparr>))))"

text \<open>The toast of a refused invitation: the only effect of a press outside the page's state.\<close>

definition invite_complaint :: "invite_form \<Rightarrow> page_effect list" where
  "invite_complaint f = (if invite_body f = None then [Toast_error (JStr ''Enter a valid email'')] else [])"

definition users_resolves :: "users_ctx \<Rightarrow> users_mutation \<Rightarrow> users_page \<Rightarrow> users_page \<Rightarrow> bool" where
  "users_resolves c m p q \<longleftrightarrow> (\<exists>out. q = fst (users_success c out m p))"

abbreviation users_visited :: "users_ctx set \<Rightarrow> (users_page, users_mutation) page_visit \<Rightarrow> bool" where
  "users_visited C v \<equiv> page_visited users_pressed users_resolves users_page_init C v"

section \<open>Paging\<close>

lemma choices_inj [simp]:
  "status_choice a = status_choice b \<longleftrightarrow> a = b" "role_choice x = role_choice y \<longleftrightarrow> x = y"
  "TotpFilter_str u = TotpFilter_str v \<longleftrightarrow> u = v"
proof -
  have "UserStatus_str k \<noteq> ''all''" for k by (cases k) simp_all
  then show "status_choice a = status_choice b \<longleftrightarrow> a = b" by (auto simp: status_choice_def split: option.splits) metis
  have "UserRole_str k \<noteq> ''all''" for k by (cases k) simp_all
  then show "role_choice x = role_choice y \<longleftrightarrow> x = y" by (auto simp: role_choice_def split: option.splits) metis
  show "TotpFilter_str u = TotpFilter_str v \<longleftrightarrow> u = v" by (cases u; cases v) simp_all
qed

interpretation users: log_page users_key ul_cell "\<lambda>c p. p\<lparr>ul_cell := c\<rparr>"
  "\<lambda>p. (ul_search p, ul_status p, ul_role p, ul_totp p, ul_pageSize p)" users_change "\<lambda>p. ul_pageSize p \<in> set pageSizeOptions"
proof unfold_locales
  fix p q :: users_list
  assume "ul_pageSize p \<in> set pageSizeOptions" "ul_pageSize q \<in> set pageSizeOptions"
  then show "users_key p = users_key q \<longleftrightarrow>
      (ul_search p, ul_status p, ul_role p, ul_totp p, ul_pageSize p) =
      (ul_search q, ul_status q, ul_role q, ul_totp q, ul_pageSize q)"
    unfolding users_key_def by (subst stringify_inj) auto
next
  fix a p
  show "ul_cell (users_change a p) = ul_cell p" by (cases a) simp_all
  show "ul_pageSize (users_change a p) \<in> set pageSizeOptions" if "ul_pageSize p \<in> set pageSizeOptions"
    using that by (cases a) simp_all
qed (simp_all add: users_key_def)

text \<open>The page of users asked for is the one last turned to exactly while the selection is what it was then.\<close>

lemma users_index_belongs_to_filters:
  "users_index (users.run_page users_list_init (es @ Inr n # map Inl as)) =
     (if users_filters (users.run_page users_list_init (es @ Inr n # map Inl as)) = users_filters (users.run_page users_list_init es) \<and>
         ul_pageSize (users.run_page users_list_init (es @ Inr n # map Inl as)) = ul_pageSize (users.run_page users_list_init es)
      then n else 0)"
proof -
  have "ul_pageSize users_list_init \<in> set pageSizeOptions" by (simp add: users_list_init_def Let_def pageSizeOptions_def)
  moreover have "users_filters p = users_filters q \<and> ul_pageSize p = ul_pageSize q \<longleftrightarrow>
      (ul_search p, ul_status p, ul_role p, ul_totp p, ul_pageSize p) =
      (ul_search q, ul_status q, ul_role q, ul_totp q, ul_pageSize q)" for p q
    by (cases "ul_totp p"; cases "ul_totp q") (auto simp: users_filters_def)
  ultimately show ?thesis using users.current_after_turn [of users_list_init es n as]
    by (simp add: users_index_def users.current_def)
qed

section \<open>The signed-in administrator is spared\<close>

text \<open>The accounts a mutation acts on.\<close>

fun targets :: "users_mutation \<Rightarrow> string list" where
  "targets (U_setStatus i _) = [i]"
| "targets (U_impersonate i) = [i]"
| "targets (U_revokeSessions i) = [i]"
| "targets (U_disable2fa i) = [i]"
| "targets (U_setRole i _) = [i]"
| "targets (U_delete i) = [i]"
| "targets (U_bulkSuspend ids) = ids"
| "targets (U_bulkDelete ids) = ids"
| "targets _ = []"

definition spares :: "string \<Rightarrow> users_page \<Rightarrow> bool" where
  "spares me_id p \<longleftrightarrow>
     me_id \<notin> set (us_selected p) \<and> distinct (us_selected p) \<and>
     pred_option (\<lambda>u. au_id u \<noteq> me_id) (us_suspendTarget p) \<and>
     pred_option (\<lambda>u. au_id u \<noteq> me_id) (us_impersonateTarget p) \<and>
     pred_option (\<lambda>(u, _). au_id u \<noteq> me_id) (us_confirm p)"

lemma set_add_delete [simp]:
  "set (set_add i xs) = insert i (set xs)" "set (set_delete i xs) = set xs - {i}"
  "distinct xs \<Longrightarrow> distinct (set_add i xs)" "distinct xs \<Longrightarrow> distinct (set_delete i xs)"
  by (auto simp: set_add_def set_delete_def)

lemma fold_set_add [simp]: "set (fold set_add is xs) = set xs \<union> set is" "distinct xs \<Longrightarrow> distinct (fold set_add is xs)"
  by (induction "is" arbitrary: xs) auto

lemma fold_set_delete [simp]:
  "set (fold set_delete is xs) = set xs - set is" "distinct xs \<Longrightarrow> distinct (fold set_delete is xs)"
  by (induction "is" arbitrary: xs) auto

lemma spares_press:
  assumes "map_option pu_id (uc_self c) = Some me_id" and "spares me_id p" and "users_pressed c fl p k = Some (q, m)"
  shows "spares me_id q \<and> pred_option (\<lambda>x. me_id \<notin> set (targets x) \<and> distinct (targets x)) m"
proof (cases k)
  case (UC_item u item)
  then have "me_id \<noteq> au_id u \<or> item = Row_view"
    using assms(1,3) by (auto simp: only_if_def RowActions_def row_isSelf_def Let_def split: if_splits)
  then show ?thesis using assms(2,3) UC_item by (cases item) (auto simp: only_if_def spares_def split: if_splits)
next
  case UC_confirmAction
  then obtain u kind where "us_confirm p = Some (u, kind)" "q = p" "m = Some (action_mutation u kind)"
    using assms(3) by (auto simp: only_if_def split: option.splits if_splits)
  then show ?thesis using assms(2) by (cases kind) (auto simp: spares_def)
qed (use assms in \<open>auto simp: only_if_def spares_def togglePageSelection_def toggleRowSelection_def clearSelection_def
      setInviteOpen_def selectableIds_def row_isSelf_def option.pred_map option.pred_True comp_def split: if_splits option.splits\<close>)

lemma spares_success: "spares me_id p \<Longrightarrow> spares me_id (fst (users_success c out m p))"
  by (cases m) (auto simp: spares_def clearSelection_def setInviteOpen_def split: option.split)

text \<open>
  C19: an administrator cannot hit their own account from the list: over any visit, with any rows loaded, filtered, paged,
  selected and confirmed in any order, no started mutation suspends, deletes, demotes, impersonates or logs out
  the signed-in account, alone or in a bulk action, and no bulk action names an account twice.
\<close>

theorem own_account_spared:
  assumes "users_visited C v" and "\<forall>c\<in>C. map_option pu_id (uc_self c) = Some me_id"
  shows "\<forall>m\<in>set (vs_started v). me_id \<notin> set (targets m) \<and> distinct (targets m)"
proof -
  have "spares me_id (vs_page v) \<and> list_all (\<lambda>x. me_id \<notin> set (targets x) \<and> distinct (targets x)) (vs_started v) \<and>
      list_all (\<lambda>x. me_id \<notin> set (targets x) \<and> distinct (targets x)) (vs_flight v)"
  proof (rule visit_invariant [OF assms(1)])
    show "spares me_id users_page_init" by (simp add: spares_def users_page_init_def)
    fix c fl q k q' m
    assume "c \<in> C" and s: "spares me_id q" and p: "users_pressed c fl q k = Some (q', m)"
    then have c: "map_option pu_id (uc_self c) = Some me_id" using assms(2) by blast
    show "spares me_id q' \<and> pred_option (\<lambda>x. me_id \<notin> set (targets x) \<and> distinct (targets x)) m" by (rule spares_press [OF c s p])
  qed (auto simp: users_resolves_def spares_success)
  then show ?thesis by (simp add: list_all_iff)
qed

definition sample_row :: "string \<Rightarrow> AdminUser" where
  "sample_row i = \<lparr>au_id = i, au_email = i @ ''@x.y'', au_role = Role_user, au_status = User_active, au_totp_enabled = False,
     au_created_at = [], au_last_login_at = None, au_device_count = 0\<rparr>"

definition sample_self :: PublicUser where
  "sample_self = \<lparr>pu_id = ''me'', pu_email = ''me@x.y'', pu_role = Role_admin, pu_totp_enabled = True,
     pu_is_impersonated = None, pu_impersonator_email = None, pu_user_policy = \<lparr>ups_hide_device_detail = False\<rparr>\<rparr>"

definition sample_list :: users_ctx where
  "sample_list = \<lparr>uc_self = Some sample_self, uc_items = map sample_row [''a'', ''me'', ''b''], uc_total = 3,
     uc_invitations = [], uc_policy = None\<rparr>"

definition press_users :: "users_control \<Rightarrow> (users_page, users_mutation) page_visit \<Rightarrow> (users_page, users_mutation) page_visit" where
  "press_users k v =
     (case users_pressed sample_list (vs_flight v) (vs_page v) k of None \<Rightarrow> v | Some r \<Rightarrow> after_press r v)"

lemma press_users_visited: "users_visited {sample_list} v \<Longrightarrow> users_visited {sample_list} (press_users k v)"
  by (auto simp: press_users_def split: option.split intro: visited_press)

definition bulk_visit :: "(users_page, users_mutation) page_visit" where
  "bulk_visit = fold press_users [UC_page True, UC_bulkDelete, UC_confirmBulkDelete] (page_visit_init users_page_init)"

lemma bulk_visit_visited: "users_visited {sample_list} bulk_visit"
  unfolding bulk_visit_def by (simp add: press_users_visited page_visited.start)

lemma bulk_visit_started: "vs_started bulk_visit = [U_bulkDelete [''a'', ''b'']]"
  by (simp add: bulk_visit_def press_users_def only_if_def after_press_def page_visit_init_def users_page_init_def
      selectableIds_def row_isSelf_def sample_list_def sample_row_def sample_self_def togglePageSelection_def set_add_def
      confirm_enabled_def hook_pending_def)

theorem own_account_spared_witness:
  "vs_started bulk_visit = [U_bulkDelete [''a'', ''b'']] \<and>
   list_all (\<lambda>m. ''me'' \<notin> set (targets m) \<and> distinct (targets m)) (vs_started bulk_visit)"
  using own_account_spared [OF bulk_visit_visited, of "''me''"] bulk_visit_started
  by (simp add: list_all_iff sample_list_def sample_self_def)

section \<open>Selecting everyone\<close>

lemma fold_set_add_new: "distinct (xs @ is) \<Longrightarrow> fold set_add is xs = xs @ is"
  by (induction "is" arbitrary: xs) (simp_all add: set_add_def)

lemma select_pages:
  "us_selected (fold (\<lambda>rows. togglePageSelection (c\<lparr>uc_items := rows\<rparr>) True) pages p) =
     fold set_add (selectableIds (c\<lparr>uc_items := concat pages\<rparr>)) (us_selected p)"
  by (induction pages arbitrary: p) (simp_all add: togglePageSelection_def selectableIds_def row_isSelf_def)

text \<open>The header box ticked on each of the first \<open>n\<close> pages of a list.\<close>

definition tick_pages :: "users_ctx \<Rightarrow> AdminUser list \<Rightarrow> nat \<Rightarrow> nat \<Rightarrow> users_page \<Rightarrow> users_page" where
  "tick_pages c rows s n p = fold (\<lambda>k. togglePageSelection (c\<lparr>uc_items := page_rows rows s k\<rparr>) True) [0..<n] p"

text \<open>
  ticking the header box on every page selects everyone but oneself: walking the whole list page by page with the
  box ticked on each, from an empty selection, selects exactly the other users, in the order of the list
  and each once, whatever the page size, and a bulk deletion then sends exactly one request for each of them.
\<close>

theorem select_all_pages:
  assumes "0 < s" and "length rows \<le> n * s" and "distinct (map au_id rows)" and "us_selected p = []"
  shows "us_selected (tick_pages c rows s n p) = map au_id (filter (\<lambda>u. \<not> row_isSelf c u) rows) \<and>
    users_requests (U_bulkDelete (us_selected (tick_pages c rows s n p))) =
      map (\<lambda>u. adminDeleteUser (au_id u)) (filter (\<lambda>u. \<not> row_isSelf c u) rows)"
proof -
  let ?q = "tick_pages c rows s n p"
  have "fold (\<lambda>k. togglePageSelection (c\<lparr>uc_items := page_rows rows s k\<rparr>) True) ks p =
      fold (\<lambda>rows. togglePageSelection (c\<lparr>uc_items := rows\<rparr>) True) (map (page_rows rows s) ks) p" for ks
    by (simp add: fold_map comp_def)
  then have "us_selected ?q = fold set_add (selectableIds (c\<lparr>uc_items := rows\<rparr>)) []"
    using assms(1,2,4) by (simp add: tick_pages_def select_pages concat_pages)
  moreover have "distinct (selectableIds (c\<lparr>uc_items := rows\<rparr>))"
    using assms(3) unfolding selectableIds_def by (simp add: distinct_map inj_on_def)
  ultimately have "us_selected ?q = selectableIds (c\<lparr>uc_items := rows\<rparr>)" by (simp add: fold_set_add_new)
  then show ?thesis by (simp add: selectableIds_def row_isSelf_def)
qed

theorem select_all_pages_witness:
  "us_selected (tick_pages sample_list (map sample_row [''a'', ''me'', ''b'']) 2 2 users_page_init) = [''a'', ''b'']"
  using select_all_pages [of 2 "map sample_row [''a'', ''me'', ''b'']" 2 users_page_init sample_list]
  by (simp add: users_page_init_def sample_row_def row_isSelf_def sample_list_def sample_self_def del: upt_Suc)

section \<open>One request per action\<close>

text \<open>Lifting a suspension and logging a user out have no guard; every other mutation is in flight at most once.\<close>

definition users_guarded :: "users_mutation \<Rightarrow> bool" where
  "users_guarded m \<longleftrightarrow> users_hook m \<noteq> 3 \<and> users_hook m \<noteq> 5"

lemma users_press_free:
  assumes "users_pressed c fl p k = Some (q, Some m)" and "users_guarded m" and "x \<in> set fl"
  shows "users_hook x \<noteq> users_hook m"
proof (cases k)
  case (UC_item u item)
  then show ?thesis using assms(1,2) by (cases item) (auto simp: only_if_def users_guarded_def split: if_splits)
qed (use assms in \<open>auto simp: only_if_def hook_pending_def list_ex_iff confirm_enabled_def users_guarded_def
      split: if_splits option.splits\<close>)

lemma users_one_at_a_time:
  assumes "users_visited C v"
  shows "distinct (map users_hook (filter users_guarded (vs_flight v)))"
  by (rule visit_one_each [OF assms]) (use users_press_free in blast)

section \<open>Corners\<close>

text \<open>A user deleted from the menu of a row stays in the selection, so the next bulk action names a deleted account.\<close>

lemma deleted_stays_selected: "us_selected (fst (users_success c out (U_delete i) p)) = us_selected p"
  by simp

text \<open>Any settled change of status closes the suspension dialog, also the one opened for another user meanwhile.\<close>

lemma unsuspend_closes_dialog:
  "us_suspendTarget (fst (users_success c out (U_setStatus i User_active) (p\<lparr>us_suspendTarget := Some u\<rparr>))) = None"
  by simp

text \<open>An invitation that is sent goes to a trimmed address in lower case with an at sign.\<close>

lemma invited_address:
  "invite_body f = Some b \<Longrightarrow> acb_email b = toLowerCase (trim (if_email f)) \<and> CHR ''@'' \<in> set (acb_email b) \<and> acb_role b = Some (if_role f)"
  by (auto simp: invite_body_def Let_def split: if_splits)

end
