(* ===== verification/Security_Page.thy ===== *)
theory Security_Page
  imports Page_Visit Datetime
begin

text \<open>
  The security section of the settings, src/web/src/pages/app/Security.tsx: enrolling in, renewing and leaving two-factor
  authentication, the recovery codes shown once, the list of sessions with their revocation, and signing out everywhere
  else.  Text typed into a code form comes with the press of its button.
\<close>

section \<open>State\<close>

record security_page =
  sc_setupData :: "(string \<times> string) option"
  sc_code :: string
  sc_recoveryCodes :: "string list option"
  sc_signOutOpen :: bool

definition security_page_init :: security_page where
  "security_page_init = \<lparr>sc_setupData = None, sc_code = [], sc_recoveryCodes = None, sc_signOutOpen = False\<rparr>"

record security_ctx =
  sx_user :: "PublicUser option"
  sx_sessions :: "MySession list"

definition sec_totpEnabled :: "security_ctx \<Rightarrow> bool" where
  "sec_totpEnabled c = (case sx_user c of Some u \<Rightarrow> pu_totp_enabled u | None \<Rightarrow> False)"

definition overview_shown :: "security_page \<Rightarrow> bool" where
  "overview_shown p \<longleftrightarrow> sc_setupData p = None \<and> sc_recoveryCodes p = None"

section \<open>Mutations\<close>

datatype security_mutation =
    T_setup
  | T_enable string string
  | T_regenerate string
  | T_disable string
  | T_revoke string
  | T_revokeOthers

fun security_request :: "security_mutation \<Rightarrow> api_request" where
  "security_request T_setup = totpSetup"
| "security_request (T_enable secret code) = totpEnable secret (trim code)"
| "security_request (T_regenerate code) = totpRegenerateRecovery (trim code)"
| "security_request (T_disable code) = totpDisable (trim code)"
| "security_request (T_revoke i) = revokeSession i"
| "security_request T_revokeOthers = revokeOtherSessions"

record security_data =
  sd_setup :: "string \<times> string"
  sd_recovery_codes :: "string list"

definition store_totp :: "security_ctx \<Rightarrow> bool \<Rightarrow> page_effect list" where
  "store_totp c on = (case sx_user c of Some u \<Rightarrow> [Stored_user (u\<lparr>pu_totp_enabled := on\<rparr>)] | None \<Rightarrow> [])"

text \<open>\<open>invalidateQueries()\<close> without a key refetches everything: the empty key.\<close>

fun security_success ::
  "security_ctx \<Rightarrow> security_data \<Rightarrow> security_mutation \<Rightarrow> security_page \<Rightarrow> security_page \<times> page_effect list" where
  "security_success c d T_setup p = (p\<lparr>sc_setupData := Some (sd_setup d)\<rparr>, [])"
| "security_success c d (T_enable secret code) p =
     (p\<lparr>sc_recoveryCodes := Some (sd_recovery_codes d), sc_setupData := None, sc_code := []\<rparr>,
      store_totp c True @ [Invalidated [], Toast_success ''2FA enabled''])"
| "security_success c d (T_regenerate code) p =
     (p\<lparr>sc_recoveryCodes := Some (sd_recovery_codes d)\<rparr>,
      [Toast_success (''Recovery codes regenerated '' @ em_dash @ '' previous codes are dead'')])"
| "security_success c d (T_disable code) p =
     (p, store_totp c False @ [Invalidated [], Toast_success ''2FA disabled''])"
| "security_success c d (T_revoke i) p = (p, [Invalidated [''me'', ''sessions''], Toast_success ''Session revoked''])"
| "security_success c d T_revokeOthers p =
     (p\<lparr>sc_signOutOpen := False\<rparr>, [Toast_success ''All other sessions signed out''])"

section \<open>Controls\<close>

datatype security_control =
    SC_setup | SC_type string | SC_enable | SC_cancel
  | SC_regenerate string | SC_disable string | SC_saved
  | SC_revoke MySession | SC_open | SC_dismiss | SC_confirm

fun is_enable :: "security_mutation \<Rightarrow> bool" where
  "is_enable (T_enable _ _) = True" | "is_enable _ = False"

fun is_regenerate :: "security_mutation \<Rightarrow> bool" where
  "is_regenerate (T_regenerate _) = True" | "is_regenerate _ = False"

fun is_disable :: "security_mutation \<Rightarrow> bool" where
  "is_disable (T_disable _) = True" | "is_disable _ = False"

fun is_session_revoke :: "security_mutation \<Rightarrow> bool" where
  "is_session_revoke (T_revoke _) = True" | "is_session_revoke _ = False"

text \<open>\<open>CodeConfirmForm\<close>: whether its button is enabled.\<close>

definition code_form_enabled :: "string \<Rightarrow> bool \<Rightarrow> bool" where
  "code_form_enabled c pending \<longleftrightarrow> \<not> pending \<and> 6 \<le> length c"

fun security_pressed ::
  "security_ctx \<Rightarrow> security_mutation list \<Rightarrow> security_page \<Rightarrow> security_control \<Rightarrow>
   (security_page \<times> security_mutation option) option" where
  "security_pressed c fl p SC_setup =
     only_if (overview_shown p \<and> \<not> sec_totpEnabled c \<and> T_setup \<notin> set fl) (p, Some T_setup)"
| "security_pressed c fl p (SC_type v) =
     only_if (sc_setupData p \<noteq> None \<and> length v \<le> 6) (p\<lparr>sc_code := v\<rparr>, None)"
| "security_pressed c fl p SC_enable =
     (case sc_setupData p of
        None \<Rightarrow> None
      | Some (secret, qr) \<Rightarrow>
          only_if (\<not> list_ex is_enable fl \<and> 6 \<le> length (sc_code p)) (p, Some (T_enable secret (sc_code p))))"
| "security_pressed c fl p SC_cancel = only_if (sc_setupData p \<noteq> None) (p\<lparr>sc_setupData := None\<rparr>, None)"
| "security_pressed c fl p (SC_regenerate s) =
     only_if (overview_shown p \<and> sec_totpEnabled c \<and> code_form_enabled s (list_ex is_regenerate fl)) (p, Some (T_regenerate s))"
| "security_pressed c fl p (SC_disable s) =
     only_if (overview_shown p \<and> sec_totpEnabled c \<and> code_form_enabled s (list_ex is_disable fl)) (p, Some (T_disable s))"
| "security_pressed c fl p SC_saved = only_if (sc_recoveryCodes p \<noteq> None) (p\<lparr>sc_recoveryCodes := None\<rparr>, None)"
| "security_pressed c fl p (SC_revoke s) =
     only_if (s \<in> set (sx_sessions c) \<and> \<not> ms_current s \<and> \<not> list_ex is_session_revoke fl) (p, Some (T_revoke (ms_id s)))"
| "security_pressed c fl p SC_open = only_if (T_revokeOthers \<notin> set fl) (p\<lparr>sc_signOutOpen := True\<rparr>, None)"
| "security_pressed c fl p SC_dismiss = Some (p\<lparr>sc_signOutOpen := False\<rparr>, None)"
| "security_pressed c fl p SC_confirm =
     only_if (sc_signOutOpen p \<and> confirm_enabled None [] (T_revokeOthers \<in> set fl)) (p, Some T_revokeOthers)"

definition security_resolves :: "security_ctx \<Rightarrow> security_mutation \<Rightarrow> security_page \<Rightarrow> security_page \<Rightarrow> bool" where
  "security_resolves c m p q \<longleftrightarrow> (\<exists>d. q = fst (security_success c d m p))"

section \<open>Sessions\<close>

text \<open>\<open>/pat/i.test(ua)\<close> for a pattern of lower-case letters.\<close>

definition ua_has :: "string \<Rightarrow> string \<Rightarrow> bool" where
  "ua_has ua pat = str_includes (toLowerCase ua) pat"

definition ua_browser :: "string \<Rightarrow> string option" where
  "ua_browser ua =
     (if ua_has ua ''edg/'' then Some ''Edge''
      else if ua_has ua ''firefox/'' then Some ''Firefox''
      else if ua_has ua ''chrome'' \<or> ua_has ua ''crios'' then Some ''Chrome''
      else if ua_has ua ''safari'' then Some ''Safari''
      else if ua_has ua ''curl'' \<or> ua_has ua ''wget'' \<or> ua_has ua ''python'' \<or> ua_has ua ''httpie'' then Some ''CLI / script''
      else None)"

definition ua_os :: "string \<Rightarrow> string option" where
  "ua_os ua =
     (if ua_has ua ''android'' then Some ''Android''
      else if ua_has ua ''iphone'' \<or> ua_has ua ''ipad'' \<or> ua_has ua ''ios'' then Some ''iOS''
      else if ua_has ua ''mac os x'' \<or> ua_has ua ''macintosh'' then Some ''macOS''
      else if ua_has ua ''windows'' then Some ''Windows''
      else if ua_has ua ''linux'' then Some ''Linux''
      else None)"

definition uaSummary :: "string option \<Rightarrow> string" where
  "uaSummary agent =
     (case truthy_str agent of
        None \<Rightarrow> ''Unknown client''
      | Some ua \<Rightarrow>
          (case (ua_browser ua, ua_os ua) of
             (Some b, Some s) \<Rightarrow> b @ '' '' @ middle_dot @ '' '' @ s
           | (Some b, None) \<Rightarrow> b
           | (None, Some s) \<Rightarrow> s
           | (None, None) \<Rightarrow> if 40 < length ua then take 40 ua @ ellipsis else ua))"

text \<open>The client, the address, and the pill or the button of a row.\<close>

definition session_row :: "MySession \<Rightarrow> string \<times> string \<times> bool" where
  "session_row s =
     (uaSummary (ms_user_agent s),
      case truthy_str (ms_ip s) of Some ip \<Rightarrow> strip_host_mask ip | None \<Rightarrow> ''unknown ip'',
      ms_current s)"

section \<open>The recovery file\<close>

definition local_part :: "string option \<Rightarrow> string" where
  "local_part email =
     (let safe = (case email of
            Some e \<Rightarrow> filter (\<lambda>c. is_alnum c \<or> c = CHR ''_'' \<or> c = CHR ''-'') (hd (split_on (CHR ''@'') e))
          | None \<Rightarrow> [])
      in if safe = [] then ''user'' else safe)"

definition newline :: char where
  "newline = CHR 0x0A"

text \<open>\<open>generated\<close> is \<open>new Date().toISOString()\<close>.\<close>

definition recovery_filename :: "string \<Rightarrow> string option \<Rightarrow> string" where
  "recovery_filename generated email =
     ''crimetracker-vpn-recovery-codes-'' @ local_part email @ ''-'' @ take 10 generated @ ''.txt''"

definition recovery_lines :: "string \<Rightarrow> string option \<Rightarrow> string list" where
  "recovery_lines generated email =
     [''Crime Tracker VPN '' @ em_dash @ '' Two-Factor Authentication Recovery Codes'',
      ''Account: '' @ (case email of Some e \<Rightarrow> e | None \<Rightarrow> ''(unknown)''),
      ''Generated: '' @ generated,
      [],
      ''Each code below can be used ONCE to sign in if you lose access to'',
      ''your authenticator app. Treat them like passwords '' @ em_dash @ '' store them'',
      ''somewhere safe (password manager, encrypted note, printed copy in'',
      ''a desk drawer). Anyone with one of these codes can sign in as you.'',
      []]"

definition downloadRecoveryCodes :: "string \<Rightarrow> string list \<Rightarrow> string option \<Rightarrow> string \<times> string" where
  "downloadRecoveryCodes generated codes email =
     (recovery_filename generated email,
      join_with [newline] (recovery_lines generated email @ codes @ [[]]))"

definition copied_codes :: "string list \<Rightarrow> string" where
  "copied_codes codes = join_with [newline] codes"

section \<open>The codes can be kept\<close>

definition name_char :: "char \<Rightarrow> bool" where
  "name_char c \<longleftrightarrow> is_alnum c \<or> c = CHR ''_'' \<or> c = CHR ''-'' \<or> c = CHR ''.''"

lemma local_part_chars: "list_all name_char (local_part email)"
  by (auto simp: local_part_def list_all_iff name_char_def is_alnum_def Let_def split: option.splits)

lemma newline_em_dash: "newline \<notin> set em_dash"
  by code_simp

lemma recovery_lines_plain:
  "newline \<notin> set generated \<Longrightarrow> pred_option (\<lambda>e. newline \<notin> set e) email \<Longrightarrow>
   list_all (\<lambda>l. newline \<notin> set l) (recovery_lines generated email)"
  using newline_em_dash by (auto simp: recovery_lines_def newline_def split: option.splits)

text \<open>
  the recovery file holds exactly the codes: read line by line, the text after the nine lines of the preamble and
  before the last, empty line is the list of codes in order, and the file name has letters, digits, hyphens,
  underscores and dots only, whatever the email.
\<close>

theorem recovery_file_reads_back:
  assumes "list_all (\<lambda>c. newline \<notin> set c) codes" and "pred_option (\<lambda>e. newline \<notin> set e) email"
    and "newline \<notin> set generated"
  shows "butlast (drop 9 (split_on newline (snd (downloadRecoveryCodes generated codes email)))) = codes \<and>
    (list_all name_char (take 10 generated) \<longrightarrow> list_all name_char (fst (downloadRecoveryCodes generated codes email)))"
proof
  have "split_on newline (snd (downloadRecoveryCodes generated codes email)) = recovery_lines generated email @ codes @ [[]]"
    unfolding downloadRecoveryCodes_def snd_conv
    by (rule split_join) (use assms recovery_lines_plain [of generated email] in simp_all)
  then show "butlast (drop 9 (split_on newline (snd (downloadRecoveryCodes generated codes email)))) = codes"
    by (simp add: recovery_lines_def)
  show "list_all name_char (take 10 generated) \<longrightarrow> list_all name_char (fst (downloadRecoveryCodes generated codes email))"
    using local_part_chars [of email] by (simp add: downloadRecoveryCodes_def recovery_filename_def name_char_def is_alnum_def)
qed

theorem recovery_file_reads_back_witness:
  "butlast (drop 9 (split_on newline (snd (downloadRecoveryCodes ''2026-01-01T00:00:00.000Z'' [''ab12cd34'', ''ef56gh78''] (Some ''a/b@c.d''))))) =
     [''ab12cd34'', ''ef56gh78''] \<and>
   list_all name_char (fst (downloadRecoveryCodes ''2026-01-01T00:00:00.000Z'' [''ab12cd34'', ''ef56gh78''] (Some ''a/b@c.d'')))"
  using recovery_file_reads_back [of "[''ab12cd34'', ''ef56gh78'']" "Some ''a/b@c.d''" "''2026-01-01T00:00:00.000Z''"]
  by (simp add: newline_def name_char_def is_alnum_def is_digit_def)

section \<open>What a visit can do\<close>

text \<open>
  recovery codes on screen stay there until they are acknowledged: a step after which other codes or none are shown is
  the press of the button that says they are saved, or the arrival of a newer set.
\<close>

theorem codes_shown_until_saved:
  assumes "page_step (security_pressed c) (security_resolves c) v w"
    and "sc_recoveryCodes (vs_page v) = Some codes" and "sc_recoveryCodes (vs_page w) \<noteq> Some codes"
  shows "w = after_press ((vs_page v)\<lparr>sc_recoveryCodes := None\<rparr>, None) v \<or>
    sc_recoveryCodes (vs_page w) \<noteq> None \<and> list_ex (\<lambda>m. is_enable m \<or> is_regenerate m) (vs_flight v)"
  using assms(1)
proof cases
  case (pressed k r)
  then show ?thesis
    using assms(2,3) by (cases k) (auto simp: only_if_def after_press_def split: if_splits option.splits)
next
  case (resolved m p)
  then have "is_enable m \<or> is_regenerate m \<Longrightarrow> list_ex (\<lambda>m. is_enable m \<or> is_regenerate m) (vs_flight v)"
    by (auto simp: list_ex_iff)
  with resolved show ?thesis
    using assms(2,3) by (cases m) (auto simp: security_resolves_def)
qed (use assms in simp)

theorem codes_shown_until_saved_witness:
  "\<exists>v w. page_step (security_pressed \<lparr>sx_user = None, sx_sessions = []\<rparr>) (security_resolves \<lparr>sx_user = None, sx_sessions = []\<rparr>) v w \<and>
     sc_recoveryCodes (vs_page v) = Some [''c''] \<and> sc_recoveryCodes (vs_page w) \<noteq> Some [''c''] \<and>
     w = after_press ((vs_page v)\<lparr>sc_recoveryCodes := None\<rparr>, None) v"
proof -
  define c where "c = \<lparr>sx_user = None, sx_sessions = []\<rparr>"
  define v :: "(security_page, security_mutation) page_visit"
    where "v = page_visit_init (security_page_init\<lparr>sc_recoveryCodes := Some [''c'']\<rparr>)"
  define w where "w = after_press ((vs_page v)\<lparr>sc_recoveryCodes := None\<rparr>, None) v"
  have step: "page_step (security_pressed c) (security_resolves c) v w"
    unfolding w_def by (rule page_step.pressed [where k = SC_saved]) (simp add: only_if_def v_def page_visit_init_def)
  have "sc_recoveryCodes (vs_page v) = Some [''c'']" "sc_recoveryCodes (vs_page w) \<noteq> Some [''c'']" "vs_flight v = []"
    by (simp_all add: v_def w_def page_visit_init_def after_press_def)
  with codes_shown_until_saved [OF step] step show ?thesis unfolding c_def by fastforce
qed

definition gated :: "string \<Rightarrow> security_mutation \<Rightarrow> bool" where
  "gated i m \<longleftrightarrow>
     (case m of
        T_enable _ code \<Rightarrow> length code = 6
      | T_regenerate code \<Rightarrow> 6 \<le> length code
      | T_disable code \<Rightarrow> 6 \<le> length code
      | T_revoke j \<Rightarrow> j \<noteq> i
      | _ \<Rightarrow> True)"

text \<open>
  over any visit the second factor is never enabled, renewed or dropped without a code of at least six characters
  (exactly six when enabling), and the current session is never revoked from the list, when sessions have
  distinct ids.
\<close>

theorem security_actions_gated:
  assumes "page_visited security_pressed security_resolves security_page_init C v"
    and "\<forall>c\<in>C. \<forall>s\<in>set (sx_sessions c). ms_current s \<longleftrightarrow> ms_id s = i"
  shows "\<forall>m\<in>set (vs_started v). gated i m"
proof -
  have "length (sc_code (vs_page v)) \<le> 6 \<and> list_all (gated i) (vs_started v) \<and> list_all (gated i) (vs_flight v)"
  proof (rule visit_invariant [OF assms(1), where I = "\<lambda>p. length (sc_code p) \<le> 6"])
    fix c fl q k q' m
    assume "c \<in> C" and code: "length (sc_code q) \<le> 6" and "security_pressed c fl q k = Some (q', m)"
    then show "length (sc_code q') \<le> 6 \<and> pred_option (gated i) m"
      using assms(2)
      by (cases k) (auto simp: only_if_def gated_def code_form_enabled_def split: if_splits option.splits)
  next
    fix c m q q'
    assume "length (sc_code q) \<le> 6" "security_resolves c m q q'"
    then show "length (sc_code q') \<le> 6" by (cases m) (auto simp: security_resolves_def)
  qed (simp add: security_page_init_def)
  then show ?thesis by (simp add: list_all_iff)
qed

definition sample_sessions :: security_ctx where
  "sample_sessions = \<lparr>sx_user = None, sx_sessions =
     [\<lparr>ms_id = ''s1'', ms_ip = None, ms_user_agent = None, ms_created_at = [], ms_last_seen_at = [], ms_current = True\<rparr>,
      \<lparr>ms_id = ''s2'', ms_ip = None, ms_user_agent = None, ms_created_at = [], ms_last_seen_at = [], ms_current = False\<rparr>]\<rparr>"

theorem security_actions_gated_witness:
  "list_all (gated ''s1'') (vs_started (after_press (security_page_init, Some (T_revoke ''s2'')) (page_visit_init security_page_init)))"
proof -
  have "page_visited security_pressed security_resolves security_page_init {sample_sessions}
      (after_press (security_page_init, Some (T_revoke ''s2'')) (page_visit_init security_page_init))"
    by (rule visited_press [OF page_visited.start, where c = sample_sessions and
          k = "SC_revoke \<lparr>ms_id = ''s2'', ms_ip = None, ms_user_agent = None, ms_created_at = [], ms_last_seen_at = [], ms_current = False\<rparr>"])
      (simp_all add: only_if_def sample_sessions_def page_visit_init_def)
  from security_actions_gated [OF this, of "''s1''"] show ?thesis
    by (simp add: list_all_iff sample_sessions_def after_press_def page_visit_init_def gated_def)
qed

section \<open>Corners\<close>

text \<open>Cancelling the enrolment keeps the typed code: the next one opens with the button enabled for a stale code.\<close>

lemma cancel_keeps_code:
  "security_pressed c fl (p\<lparr>sc_setupData := Some (s, qr)\<rparr>) SC_cancel = Some (p\<lparr>sc_setupData := None\<rparr>, None)"
  by (simp add: only_if_def)

text \<open>Edge names itself \<open>EdgA\<close> on Android and \<open>EdgiOS\<close> on iOS, Firefox \<open>FxiOS\<close>: they are shown as other browsers.\<close>

lemma mobile_browsers_mislabelled:
  "ua_browser ''Mozilla/5.0 (Linux; Android 10) AppleWebKit/537.36 Chrome/120.0 Mobile Safari/537.36 EdgA/120.0'' = Some ''Chrome''"
  "ua_browser ''Mozilla/5.0 (iPhone) AppleWebKit/605.1 Version/17.0 EdgiOS/120.0 Mobile Safari/605.1'' = Some ''Safari''"
  "ua_browser ''Mozilla/5.0 (iPhone) AppleWebKit/605.1 FxiOS/120.0 Mobile Safari/605.1'' = Some ''Safari''"
  by code_simp+

end
