(* ===== verification/Theme_Prefs.thy ===== *)
theory Theme_Prefs
  imports Notify Units Datetime Api_Types
begin

text \<open>
  The look of the application and the preferences applied to it: src/web/src/components/theme-provider.tsx (colour
  scheme, accent, variant and chart colours with their copies in \<open>localStorage\<close>), the preferences applier inside
  src/web/src/components/ui/sonner.tsx, and the reduced-motion switch of src/web/src/lib/motion.ts.
\<close>

section \<open>The theme provider\<close>

datatype Theme = Th_dark | Th_light | Th_system

datatype ResolvedTheme = Rt_dark | Rt_light

datatype Accent = Acc_lime | Acc_cobalt | Acc_orange | Acc_magenta | Acc_ink

fun Theme_str :: "Theme \<Rightarrow> string" where
  "Theme_str Th_dark = ''dark''"
| "Theme_str Th_light = ''light''"
| "Theme_str Th_system = ''system''"

fun Accent_str :: "Accent \<Rightarrow> string" where
  "Accent_str Acc_lime = ''lime''"
| "Accent_str Acc_cobalt = ''cobalt''"
| "Accent_str Acc_orange = ''orange''"
| "Accent_str Acc_magenta = ''magenta''"
| "Accent_str Acc_ink = ''ink''"

definition THEME_VALUES :: "Theme list" where
  "THEME_VALUES = [Th_dark, Th_light, Th_system]"

definition ACCENT_VALUES :: "Accent list" where
  "ACCENT_VALUES = [Acc_lime, Acc_cobalt, Acc_orange, Acc_magenta, Acc_ink]"

definition VARIANT_VALUES :: "ThemePref list" where
  "VARIANT_VALUES = [Theme_swiss, Theme_brutalist, Theme_terminal, Theme_editorial, Theme_soft]"

text \<open>The guards \<open>isTheme\<close>, \<open>isAccent\<close> and \<open>isVariant\<close>, with the value they accept.\<close>

definition read_choice :: "('a \<Rightarrow> string) \<Rightarrow> 'a list \<Rightarrow> string option \<Rightarrow> 'a option" where
  "read_choice str vals s = (case s of None \<Rightarrow> None | Some t \<Rightarrow> find (\<lambda>v. str v = t) vals)"

definition isTheme :: "string option \<Rightarrow> Theme option" where
  "isTheme = read_choice Theme_str THEME_VALUES"

definition isAccent :: "string option \<Rightarrow> Accent option" where
  "isAccent = read_choice Accent_str ACCENT_VALUES"

definition isVariant :: "string option \<Rightarrow> ThemePref option" where
  "isVariant = read_choice ThemePref_str VARIANT_VALUES"

type_synonym local_storage = "(string \<times> string) list"

record theme_state =
  th_theme :: Theme
  th_accent :: Accent
  th_variant :: ThemePref
  th_rxColor :: string
  th_txColor :: string

definition storageKey :: string where "storageKey = ''zerovpn-theme''"
definition accentStorageKey :: string where "accentStorageKey = ''zerovpn-accent''"
definition variantStorageKey :: string where "variantStorageKey = ''zerovpn-theme-variant''"
definition chartRxStorageKey :: string where "chartRxStorageKey = ''zerovpn-chart-rx''"
definition chartTxStorageKey :: string where "chartTxStorageKey = ''zerovpn-chart-tx''"
definition defaultTheme :: Theme where "defaultTheme = Th_system"

lemmas storage_keys = storageKey_def accentStorageKey_def variantStorageKey_def chartRxStorageKey_def chartTxStorageKey_def

definition or_else :: "'a option \<Rightarrow> 'a \<Rightarrow> 'a" where
  "or_else x d = (case x of Some v \<Rightarrow> v | None \<Rightarrow> d)"

text \<open>\<open>localStorage.getItem(k) || d\<close>\<close>

definition stored_colour :: "local_storage \<Rightarrow> string \<Rightarrow> string \<Rightarrow> string" where
  "stored_colour ls k d = (case map_of ls k of Some s \<Rightarrow> if s = [] then d else s | None \<Rightarrow> d)"

text \<open>The state the provider mounts with.\<close>

definition theme_mount :: "local_storage \<Rightarrow> theme_state" where
  "theme_mount ls =
     \<lparr>th_theme = or_else (isTheme (map_of ls storageKey)) defaultTheme,
      th_accent = or_else (isAccent (map_of ls accentStorageKey)) Acc_lime,
      th_variant = or_else (isVariant (map_of ls variantStorageKey)) Theme_swiss,
      th_rxColor = stored_colour ls chartRxStorageKey ''#3D5BFF'',
      th_txColor = stored_colour ls chartTxStorageKey ''accent''\<rparr>"

record theme_tab =
  tt_state :: theme_state
  tt_storage :: local_storage

definition setItem :: "string \<Rightarrow> string \<Rightarrow> theme_tab \<Rightarrow> theme_tab" where
  "setItem k v t = t\<lparr>tt_storage := AList.update k v (tt_storage t)\<rparr>"

definition setTheme :: "Theme \<Rightarrow> theme_tab \<Rightarrow> theme_tab" where
  "setTheme x t = (setItem storageKey (Theme_str x) t)\<lparr>tt_state := (tt_state t)\<lparr>th_theme := x\<rparr>\<rparr>"

definition setAccent :: "Accent \<Rightarrow> theme_tab \<Rightarrow> theme_tab" where
  "setAccent x t = (setItem accentStorageKey (Accent_str x) t)\<lparr>tt_state := (tt_state t)\<lparr>th_accent := x\<rparr>\<rparr>"

definition setVariant :: "ThemePref \<Rightarrow> theme_tab \<Rightarrow> theme_tab" where
  "setVariant x t = (setItem variantStorageKey (ThemePref_str x) t)\<lparr>tt_state := (tt_state t)\<lparr>th_variant := x\<rparr>\<rparr>"

definition setRxColor :: "string \<Rightarrow> theme_tab \<Rightarrow> theme_tab" where
  "setRxColor x t = (setItem chartRxStorageKey x t)\<lparr>tt_state := (tt_state t)\<lparr>th_rxColor := x\<rparr>\<rparr>"

definition setTxColor :: "string \<Rightarrow> theme_tab \<Rightarrow> theme_tab" where
  "setTxColor x t = (setItem chartTxStorageKey x t)\<lparr>tt_state := (tt_state t)\<lparr>th_txColor := x\<rparr>\<rparr>"

definition resolvedTheme :: "ResolvedTheme \<Rightarrow> Theme \<Rightarrow> ResolvedTheme" where
  "resolvedTheme systemTheme theme =
     (case theme of Th_system \<Rightarrow> systemTheme | Th_dark \<Rightarrow> Rt_dark | Th_light \<Rightarrow> Rt_light)"

record key_event =
  ke_repeat :: bool
  ke_metaKey :: bool
  ke_ctrlKey :: bool
  ke_altKey :: bool
  ke_editable :: bool
  ke_key :: string

definition toggled :: "ResolvedTheme \<Rightarrow> Theme \<Rightarrow> Theme" where
  "toggled systemTheme currentTheme =
     (case currentTheme of
        Th_dark \<Rightarrow> Th_light
      | Th_light \<Rightarrow> Th_dark
      | Th_system \<Rightarrow> if systemTheme = Rt_dark then Th_light else Th_dark)"

definition handleKeyDown :: "ResolvedTheme \<Rightarrow> key_event \<Rightarrow> theme_tab \<Rightarrow> theme_tab" where
  "handleKeyDown systemTheme e t =
     (if ke_repeat e \<or> ke_metaKey e \<or> ke_ctrlKey e \<or> ke_altKey e \<or> ke_editable e \<or> toLowerCase (ke_key e) \<noteq> ''d'' then t
      else setTheme (toggled systemTheme (th_theme (tt_state t))) t)"

text \<open>A \<open>storage\<close> event: another tab wrote (\<open>Some\<close>) or removed (\<open>None\<close>) a key of the shared storage.\<close>

definition handleStorageChange :: "string \<Rightarrow> string option \<Rightarrow> theme_tab \<Rightarrow> theme_tab" where
  "handleStorageChange k newValue t =
     (if k \<noteq> storageKey then t
      else t\<lparr>tt_state := (tt_state t)\<lparr>th_theme := or_else (isTheme newValue) defaultTheme\<rparr>\<rparr>)"

definition other_tab_writes :: "string \<Rightarrow> string option \<Rightarrow> theme_tab \<Rightarrow> theme_tab" where
  "other_tab_writes k newValue t =
     handleStorageChange k newValue
       (t\<lparr>tt_storage := (case newValue of Some v \<Rightarrow> AList.update k v (tt_storage t) | None \<Rightarrow> AList.delete k (tt_storage t))\<rparr>)"

text \<open>What the effects write on \<open><html>\<close>: the colour-scheme class, the two attributes and the two chart variables.\<close>

record html_root =
  hr_class :: "string list"
  hr_colorScheme :: string
  hr_data_accent :: string
  hr_data_theme :: string
  hr_chart_rx :: string
  hr_chart_tx :: string

fun ResolvedTheme_str :: "ResolvedTheme \<Rightarrow> string" where
  "ResolvedTheme_str Rt_dark = ''dark''"
| "ResolvedTheme_str Rt_light = ''light''"

definition chart_colour :: "string \<Rightarrow> string" where
  "chart_colour c = (if c = ''accent'' then ''var(--primary)'' else c)"

definition apply_theme :: "ResolvedTheme \<Rightarrow> theme_state \<Rightarrow> html_root \<Rightarrow> html_root" where
  "apply_theme systemTheme s h =
     (let r = ResolvedTheme_str (resolvedTheme systemTheme (th_theme s))
      in h\<lparr>hr_class := filter (\<lambda>c. c \<noteq> ''light'' \<and> c \<noteq> ''dark'') (hr_class h) @ [r], hr_colorScheme := r,
           hr_data_accent := Accent_str (th_accent s), hr_data_theme := ThemePref_str (th_variant s),
           hr_chart_rx := chart_colour (th_rxColor s), hr_chart_tx := chart_colour (th_txColor s)\<rparr>)"

section \<open>The preferences applier\<close>

text \<open>The module-level preferences, the cached answer of \<open>/me/preferences\<close>, and the theme of the tab.\<close>

record applied =
  pa_cache :: "UserPreferences option"
  pa_notify :: NotifyConfig
  pa_units :: UnitsPref
  pa_datetime :: datetime_prefs
  pa_reducedMotion :: bool
  pa_tab :: theme_tab

definition toast_place :: "applied \<Rightarrow> ToastPositionPref" where
  "toast_place a = (case pa_cache a of Some p \<Rightarrow> pref_toast_position p | None \<Rightarrow> Toast_bottom_right)"

definition setReducedMotionPref :: "bool \<Rightarrow> bool \<Rightarrow> bool" where
  "setReducedMotionPref v prefReducedMotion = (if v = prefReducedMotion then prefReducedMotion else v)"

definition useReducedMotion :: "bool \<Rightarrow> applied \<Rightarrow> bool" where
  "useReducedMotion os a \<longleftrightarrow> os \<or> pa_reducedMotion a"

definition toaster_effect :: "applied \<Rightarrow> applied" where
  "toaster_effect a =
     (case pa_cache a of
        None \<Rightarrow> a
      | Some p \<Rightarrow>
          a\<lparr>pa_notify := setNotifyConfig \<lparr>np_toastSound = Some (pref_toast_sound p),
               np_browserNotifications = Some (pref_browser_notifications p), np_position = Some (pref_toast_position p)\<rparr> (pa_notify a),
            pa_units := setUnitsPref (pref_units p) (pa_units a),
            pa_datetime := setDateTimePrefs (pref_date_format p) (pref_time_format p) (pa_datetime a),
            pa_reducedMotion := setReducedMotionPref (pref_reduced_motion p) (pa_reducedMotion a),
            pa_tab := (if pref_theme p \<noteq> th_variant (tt_state (pa_tab a)) then setVariant (pref_theme p) (pa_tab a) else pa_tab a)\<rparr>)"

section \<open>Choices survive a reload\<close>

lemma read_back [simp]:
  "isTheme (Some (Theme_str x)) = Some x" "isAccent (Some (Accent_str a)) = Some a" "isVariant (Some (ThemePref_str v)) = Some v"
proof -
  show "isTheme (Some (Theme_str x)) = Some x" by (cases x) (simp_all add: isTheme_def read_choice_def THEME_VALUES_def)
  show "isAccent (Some (Accent_str a)) = Some a" by (cases a) (simp_all add: isAccent_def read_choice_def ACCENT_VALUES_def)
  show "isVariant (Some (ThemePref_str v)) = Some v" by (cases v) (simp_all add: isVariant_def read_choice_def VARIANT_VALUES_def)
qed

lemma isTheme_None [simp]: "isTheme None = None"
  by (simp add: isTheme_def read_choice_def)

lemma or_else_simps [simp]: "or_else (Some v) d = v" "or_else None d = d"
  by (simp_all add: or_else_def)

lemma keys_distinct_storage: "distinct [storageKey, accentStorageKey, variantStorageKey, chartRxStorageKey, chartTxStorageKey]"
  by (simp add: storage_keys)

lemma mount_write [simp]:
  "theme_mount (AList.update storageKey v ls) = (theme_mount ls)\<lparr>th_theme := or_else (isTheme (Some v)) defaultTheme\<rparr>"
  "theme_mount (AList.update accentStorageKey v ls) = (theme_mount ls)\<lparr>th_accent := or_else (isAccent (Some v)) Acc_lime\<rparr>"
  "theme_mount (AList.update variantStorageKey v ls) = (theme_mount ls)\<lparr>th_variant := or_else (isVariant (Some v)) Theme_swiss\<rparr>"
  "v \<noteq> [] \<Longrightarrow> theme_mount (AList.update chartRxStorageKey v ls) = (theme_mount ls)\<lparr>th_rxColor := v\<rparr>"
  "v \<noteq> [] \<Longrightarrow> theme_mount (AList.update chartTxStorageKey v ls) = (theme_mount ls)\<lparr>th_txColor := v\<rparr>"
  "theme_mount (AList.delete storageKey ls) = (theme_mount ls)\<lparr>th_theme := defaultTheme\<rparr>"
  using keys_distinct_storage
  by (auto simp: theme_mount_def stored_colour_def update_conv' delete_conv')

datatype theme_act =
    Pick_theme Theme | Pick_accent Accent | Pick_variant ThemePref | Pick_rx string | Pick_tx string
  | Key ResolvedTheme key_event | Other_tab_theme "string option"

fun theme_do :: "theme_act \<Rightarrow> theme_tab \<Rightarrow> theme_tab" where
  "theme_do (Pick_theme x) t = setTheme x t"
| "theme_do (Pick_accent x) t = setAccent x t"
| "theme_do (Pick_variant x) t = setVariant x t"
| "theme_do (Pick_rx c) t = setRxColor c t"
| "theme_do (Pick_tx c) t = setTxColor c t"
| "theme_do (Key systemTheme e) t = handleKeyDown systemTheme e t"
| "theme_do (Other_tab_theme v) t = other_tab_writes storageKey v t"

text \<open>The pickers offer no empty colour.\<close>

fun act_ok :: "theme_act \<Rightarrow> bool" where
  "act_ok (Pick_rx c) \<longleftrightarrow> c \<noteq> []"
| "act_ok (Pick_tx c) \<longleftrightarrow> c \<noteq> []"
| "act_ok _ \<longleftrightarrow> True"

lemma stored_do:
  assumes "theme_mount (tt_storage t) = tt_state t" and "act_ok a"
  shows "theme_mount (tt_storage (theme_do a t)) = tt_state (theme_do a t)"
proof (cases a)
  case (Other_tab_theme v)
  with assms(1) show ?thesis by (cases v) (simp_all add: other_tab_writes_def handleStorageChange_def)
qed (use assms in \<open>simp_all add: handleKeyDown_def setTheme_def setAccent_def setVariant_def setRxColor_def setTxColor_def setItem_def\<close>)

definition look_after :: "local_storage \<Rightarrow> theme_act list \<Rightarrow> theme_tab" where
  "look_after ls as = fold theme_do as \<lparr>tt_state = theme_mount ls, tt_storage = ls\<rparr>"

text \<open>
  the chosen look survives a reload: after any sequence of picks, key presses and changes of the colour scheme in other
  tabs, from a freshly mounted provider, mounting it again from the storage gives exactly the theme, accent, variant
  and chart colours on screen, whatever the storage held before.
\<close>

theorem look_survives_reload:
  assumes "list_all act_ok as"
  shows "theme_mount (tt_storage (look_after ls as)) = tt_state (look_after ls as)"
proof -
  have "theme_mount (tt_storage s) = tt_state s \<Longrightarrow> list_all act_ok bs \<Longrightarrow>
      theme_mount (tt_storage (fold theme_do bs s)) = tt_state (fold theme_do bs s)" for bs s
    by (induction bs arbitrary: s) (simp_all add: stored_do del: theme_do.simps)
  then show ?thesis using assms(1) unfolding look_after_def by simp
qed

definition press_d :: key_event where
  "press_d = \<lparr>ke_repeat = False, ke_metaKey = False, ke_ctrlKey = False, ke_altKey = False, ke_editable = False, ke_key = ''D''\<rparr>"

theorem look_survives_reload_witness:
  "th_theme (theme_mount (tt_storage (look_after [] [Pick_accent Acc_ink, Other_tab_theme (Some ''dark''), Key Rt_light press_d]))) = Th_light"
proof -
  have d: "toLowerCase ''D'' = ''d''" by code_simp
  have "th_theme (tt_state (look_after [] [Pick_accent Acc_ink, Other_tab_theme (Some ''dark''), Key Rt_light press_d])) = Th_light"
    using read_back(1) [of Th_dark] d
    by (simp add: look_after_def press_d_def other_tab_writes_def handleStorageChange_def handleKeyDown_def setTheme_def
        setAccent_def setItem_def toggled_def)
  then show ?thesis
    using look_survives_reload [of "[Pick_accent Acc_ink, Other_tab_theme (Some ''dark''), Key Rt_light press_d]" "[]"] by simp
qed

text \<open>The key always flips what is on screen, and the root has exactly one of the two classes.\<close>

lemma key_flips_screen: "resolvedTheme sys (toggled sys th) \<noteq> resolvedTheme sys th"
  by (cases th; cases sys) (simp_all add: resolvedTheme_def toggled_def)

lemma one_scheme_class:
  "filter (\<lambda>c. c = ''light'' \<or> c = ''dark'') (hr_class (apply_theme sys s h)) = [ResolvedTheme_str (resolvedTheme sys (th_theme s))]"
  by (cases "resolvedTheme sys (th_theme s)") (auto simp: apply_theme_def Let_def filter_empty_conv)

text \<open>Only the colour scheme follows other tabs: another tab's accent is stored, but not shown here until a reload.\<close>

lemma accent_not_shared:
  "th_accent (tt_state (other_tab_writes accentStorageKey (Some ''ink'') t)) = th_accent (tt_state t)"
  using keys_distinct_storage by (simp add: other_tab_writes_def handleStorageChange_def)

section \<open>Preferences are applied\<close>

text \<open>
  loaded preferences are in force: once the applier has run, the notification settings, the units, the date and time
  formats, the motion switch and the theme variant are those of the cached preferences, and running it again
  changes nothing, so it does not loop.
\<close>

theorem preferences_in_force:
  assumes "pa_cache a = Some p"
  shows "pa_notify (toaster_effect a) =
      \<lparr>toastSound = pref_toast_sound p, browserNotifications = pref_browser_notifications p, position = pref_toast_position p\<rparr> \<and>
    pa_units (toaster_effect a) = pref_units p \<and>
    pa_datetime (toaster_effect a) = \<lparr>dateFmt = pref_date_format p, timeFmt = pref_time_format p\<rparr> \<and>
    useReducedMotion os (toaster_effect a) = (os \<or> pref_reduced_motion p) \<and>
    th_variant (tt_state (pa_tab (toaster_effect a))) = pref_theme p \<and>
    toaster_effect (toaster_effect a) = toaster_effect a"
  using assms
  by (cases a) (simp add: toaster_effect_def setNotifyConfig_def setUnitsPref_def setDateTimePrefs_def setReducedMotionPref_def
      useReducedMotion_def setVariant_def setItem_def)

definition plain_prefs :: "ThemePref \<Rightarrow> UserPreferences" where
  "plain_prefs v = \<lparr>pref_units = Units_bps, pref_date_format = Date_iso, pref_time_format = Time_h24, pref_reduced_motion = False,
     pref_default_landing = Land_dashboard, pref_toast_position = Toast_bottom_right, pref_toast_sound = False,
     pref_browser_notifications = False, pref_email_on_new_device = False, pref_email_on_quota_warning = False,
     pref_email_on_security_event = True, pref_theme = v\<rparr>"

definition fresh_applied :: "UserPreferences option \<Rightarrow> applied" where
  "fresh_applied cache = \<lparr>pa_cache = cache, pa_notify = config_init, pa_units = Units_bps, pa_datetime = initial_prefs,
     pa_reducedMotion = False, pa_tab = \<lparr>tt_state = theme_mount [], tt_storage = []\<rparr>\<rparr>"

theorem preferences_in_force_witness:
  "th_variant (tt_state (pa_tab (toaster_effect (fresh_applied (Some (plain_prefs Theme_soft)))))) = Theme_soft"
  using preferences_in_force [of "fresh_applied (Some (plain_prefs Theme_soft))" "plain_prefs Theme_soft" False]
  by (simp add: fresh_applied_def plain_prefs_def)

end
