(* ===== verification/Settings_Page.thy ===== *)
theory Settings_Page
  imports Theme_Prefs Page_Visit Auth_Guard
begin

text \<open>
  The settings page, src/web/src/pages/app/Settings.tsx, and its account section, src/web/src/pages/app/Account.tsx: the
  section shown for a URL, the preference controls with the requests they send, the theme variant that is both
  local and saved, the permission for browser notifications, and deleting the account.
\<close>

section \<open>Sections\<close>

datatype SectionKey = Sec_appearance | Sec_preferences | Sec_notifications | Sec_account | Sec_security

record SectionDef =
  sn_key :: SectionKey
  sn_label :: string
  sn_hash :: string
  sn_hint :: string

definition SECTIONS :: "SectionDef list" where
  "SECTIONS =
     [\<lparr>sn_key = Sec_account, sn_label = ''Account'', sn_hash = ''account'', sn_hint = ''Profile, data, lifecycle''\<rparr>,
      \<lparr>sn_key = Sec_security, sn_label = ''Security'', sn_hash = ''security'', sn_hint = ''2FA, sessions, recovery codes''\<rparr>,
      \<lparr>sn_key = Sec_appearance, sn_label = ''Appearance'', sn_hash = ''appearance'', sn_hint = ''Theme, accent color''\<rparr>,
      \<lparr>sn_key = Sec_preferences, sn_label = ''Preferences'', sn_hash = ''preferences'', sn_hint = ''Units, dates, defaults''\<rparr>,
      \<lparr>sn_key = Sec_notifications, sn_label = ''Notifications'', sn_hash = ''notifications'', sn_hint = ''Toasts, browser alerts''\<rparr>]"

definition HASH_TO_KEY :: "string \<Rightarrow> SectionKey option" where
  "HASH_TO_KEY = map_of (map (\<lambda>s. (sn_hash s, sn_key s)) SECTIONS)"

text \<open>The members every JavaScript object inherits: looking one of them up in \<open>HASH_TO_KEY\<close> finds a function or the
  prototype, which names no section.\<close>

definition inherited_members :: "string list" where
  "inherited_members =
     [''constructor'', ''hasOwnProperty'', ''isPrototypeOf'', ''propertyIsEnumerable'', ''toLocaleString'', ''toString'', ''valueOf'',
      ''__proto__'', ''__defineGetter__'', ''__defineSetter__'', ''__lookupGetter__'', ''__lookupSetter__'']"

definition active_section :: "string \<Rightarrow> SectionKey option" where
  "active_section hash =
     (let h = (case hash of c # s \<Rightarrow> if c = CHR ''#'' then s else hash | [] \<Rightarrow> [])
      in case HASH_TO_KEY h of
           Some k \<Rightarrow> Some k
         | None \<Rightarrow> if h \<in> set inherited_members then None else Some Sec_account)"

definition selectSection :: "SectionKey \<Rightarrow> string option" where
  "selectSection key = map_option (\<lambda>d. ''/app/settings#'' @ sn_hash d) (find (\<lambda>s. sn_key s = key) SECTIONS)"

section \<open>Preferences\<close>

text \<open>What a control of the page sends: one member of the preferences.\<close>

datatype pref_patch =
    P_units UnitsPref | P_date_format DateFormatPref | P_time_format TimeFormatPref | P_default_landing DefaultLandingPref
  | P_reduced_motion bool | P_toast_position ToastPositionPref | P_toast_sound bool | P_browser_notifications bool
  | P_email_on_new_device bool | P_email_on_quota_warning bool | P_email_on_security_event bool | P_theme ThemePref

fun patch_json :: "pref_patch \<Rightarrow> (string \<times> json) list" where
  "patch_json (P_units v) = [(''units'', JStr (UnitsPref_str v))]"
| "patch_json (P_date_format v) = [(''date_format'', JStr (DateFormatPref_str v))]"
| "patch_json (P_time_format v) = [(''time_format'', JStr (TimeFormatPref_str v))]"
| "patch_json (P_default_landing v) = [(''default_landing'', JStr (DefaultLandingPref_str v))]"
| "patch_json (P_reduced_motion b) = [(''reduced_motion'', JBool b)]"
| "patch_json (P_toast_position v) = [(''toast_position'', JStr (ToastPositionPref_str v))]"
| "patch_json (P_toast_sound b) = [(''toast_sound'', JBool b)]"
| "patch_json (P_browser_notifications b) = [(''browser_notifications'', JBool b)]"
| "patch_json (P_email_on_new_device b) = [(''email_on_new_device'', JBool b)]"
| "patch_json (P_email_on_quota_warning b) = [(''email_on_quota_warning'', JBool b)]"
| "patch_json (P_email_on_security_event b) = [(''email_on_security_event'', JBool b)]"
| "patch_json (P_theme v) = [(''theme'', JStr (ThemePref_str v))]"

definition patch_request :: "pref_patch \<Rightarrow> api_request" where
  "patch_request p = setMyPreferences (patch_json p)"

text \<open>The toast of a saved patch: the notification controls have their own, the variant has none.\<close>

fun patch_toast :: "pref_patch \<Rightarrow> page_effect list" where
  "patch_toast (P_theme _) = []"
| "patch_toast (P_toast_position _) = [Toast_success ''Notifications updated'']"
| "patch_toast (P_toast_sound _) = [Toast_success ''Notifications updated'']"
| "patch_toast (P_browser_notifications _) = [Toast_success ''Notifications updated'']"
| "patch_toast (P_email_on_new_device _) = [Toast_success ''Notifications updated'']"
| "patch_toast (P_email_on_quota_warning _) = [Toast_success ''Notifications updated'']"
| "patch_toast (P_email_on_security_event _) = [Toast_success ''Notifications updated'']"
| "patch_toast _ = [Toast_success ''Preferences saved'']"

record settings =
  sg_applied :: applied
  sg_flight :: "pref_patch list"

text \<open>The applier runs after every render in which the cached preferences or the variant changed.\<close>

definition after_render :: "settings \<Rightarrow> settings" where
  "after_render s = s\<lparr>sg_applied := toaster_effect (sg_applied s)\<rparr>"

definition mutate_patch :: "pref_patch \<Rightarrow> settings \<Rightarrow> settings" where
  "mutate_patch p s = s\<lparr>sg_flight := sg_flight s @ [p]\<rparr>"

definition shown_variant :: "settings \<Rightarrow> ThemePref" where
  "shown_variant s = th_variant (tt_state (pa_tab (sg_applied s)))"

definition on_tab :: "(theme_tab \<Rightarrow> theme_tab) \<Rightarrow> settings \<Rightarrow> settings" where
  "on_tab f s = s\<lparr>sg_applied := (sg_applied s)\<lparr>pa_tab := f (pa_tab (sg_applied s))\<rparr>\<rparr>"

definition pickVariant :: "ThemePref \<Rightarrow> settings \<Rightarrow> settings" where
  "pickVariant next s =
     (if next = shown_variant s then s else mutate_patch (P_theme next) (on_tab (setVariant next) s))"

definition patch_saved :: "pref_patch \<Rightarrow> UserPreferences \<Rightarrow> settings \<Rightarrow> settings" where
  "patch_saved p data s =
     s\<lparr>sg_applied := (sg_applied s)\<lparr>pa_cache := Some data\<rparr>, sg_flight := remove1 p (sg_flight s)\<rparr>"

datatype settings_event =
    Ev_pick ThemePref
  | Ev_patch pref_patch
  | Ev_saved pref_patch UserPreferences
  | Ev_refused pref_patch
  | Ev_fetched UserPreferences
  | Ev_look theme_act

fun settings_do :: "settings_event \<Rightarrow> settings \<Rightarrow> settings" where
  "settings_do (Ev_pick v) s = pickVariant v s"
| "settings_do (Ev_patch p) s = mutate_patch p s"
| "settings_do (Ev_saved p data) s = (if p \<in> set (sg_flight s) then patch_saved p data s else s)"
| "settings_do (Ev_refused p) s = s\<lparr>sg_flight := remove1 p (sg_flight s)\<rparr>"
| "settings_do (Ev_fetched data) s = s\<lparr>sg_applied := (sg_applied s)\<lparr>pa_cache := Some data\<rparr>\<rparr>"
| "settings_do (Ev_look a) s = on_tab (theme_do a) s"

definition settings_step :: "settings_event \<Rightarrow> settings \<Rightarrow> settings" where
  "settings_step e s = after_render (settings_do e s)"

section \<open>Browser notifications\<close>

text \<open>\<open>granted\<close> is the answer to \<open>Notification.requestPermission()\<close>.  The result is the patch to send, or the toast.\<close>

definition onBrowserNotifications :: "browser \<Rightarrow> Permission \<Rightarrow> bool \<Rightarrow> page_effect list + pref_patch" where
  "onBrowserNotifications b granted v =
     (if v \<and> br_Notification b \<and> br_permission b = Perm_default \<and> granted \<noteq> Perm_granted
      then Inl [Toast_error (JStr ''Notification permission denied'')]
      else if v \<and> br_Notification b \<and> br_permission b = Perm_denied
      then Inl [Toast_error (JStr ''Notifications are blocked in your browser settings'')]
      else Inr (P_browser_notifications v))"

definition onToastSound :: "browser \<Rightarrow> bool \<Rightarrow> pref_patch \<times> notify_effect list" where
  "onToastSound b v = (P_toast_sound v, if v then previewChime b else [])"

definition send_test :: "browser \<Rightarrow> NotifyConfig \<Rightarrow> notify_effect list" where
  "send_test b c = notify_info b c ''Test notification''
     \<lparr>no_important = True, no_body = None, no_url = None,
      no_description = Some ''Position, chime, and browser alert reflect your settings.'', no_id = Some ''settings-test''\<rparr>"

section \<open>Deleting the account\<close>

record account_panel =
  ac_deleting :: bool
  ac_deleteOpen :: bool

definition account_init :: account_panel where
  "account_init = \<lparr>ac_deleting = False, ac_deleteOpen = False\<rparr>"

definition account_open :: "account_panel \<Rightarrow> account_panel" where
  "account_open p = (if ac_deleting p then p else p\<lparr>ac_deleteOpen := True\<rparr>)"

text \<open>The confirm button: the request is sent (\<open>True\<close>) when the typed text is the email.\<close>

definition account_confirm :: "string option \<Rightarrow> string \<Rightarrow> account_panel \<Rightarrow> account_panel \<times> bool" where
  "account_confirm email typed p =
     (if ac_deleteOpen p \<and> confirm_enabled email typed (ac_deleting p)
      then (p\<lparr>ac_deleteOpen := False, ac_deleting := True\<rparr>, True) else (p, False))"

text \<open>The answer of the server, \<open>None\<close> for a success, on the panel and the session store.\<close>

definition handleDelete ::
  "ApiError option option \<Rightarrow> account_panel \<times> AuthState \<Rightarrow> (account_panel \<times> AuthState) \<times> page_effect list" where
  "handleDelete failure ps =
     (case failure of
        None \<Rightarrow> ((fst ps, auth_reset (snd ps)), [Toast_warning ''Account deleted'', Navigated ''/''])
      | Some e \<Rightarrow> (((fst ps)\<lparr>ac_deleting := False\<rparr>, snd ps), mutation_error e))"

section \<open>Links to sections\<close>

text \<open>Selecting a section navigates to a URL that shows it; any other fragment but an inherited name shows the account.\<close>

lemma section_links:
  "\<exists>h. selectSection k = Some (''/app/settings#'' @ h) \<and> active_section (CHR ''#'' # h) = Some k"
  by (cases k) (simp_all add: selectSection_def active_section_def HASH_TO_KEY_def SECTIONS_def)

lemma other_fragment:
  "h \<notin> sn_hash ` set SECTIONS \<Longrightarrow> h \<notin> set inherited_members \<Longrightarrow> active_section (CHR ''#'' # h) = Some Sec_account"
proof -
  assume "h \<notin> sn_hash ` set SECTIONS" and h: "h \<notin> set inherited_members"
  then have "HASH_TO_KEY h = None" unfolding HASH_TO_KEY_def by (auto simp: map_of_eq_None_iff)
  with h show ?thesis by (simp add: active_section_def)
qed

lemma inherited_fragment_blank: "active_section ''#constructor'' = None"
  by (simp add: active_section_def HASH_TO_KEY_def SECTIONS_def inherited_members_def)

section \<open>The variant on screen\<close>

definition settings_run :: "settings \<Rightarrow> settings_event list \<Rightarrow> settings" where
  "settings_run s es = foldl (\<lambda>s e. settings_step e s) s es"

lemma effect_variant: "pa_cache a = Some p \<Longrightarrow> th_variant (tt_state (pa_tab (toaster_effect a))) = pref_theme p"
  by (simp add: toaster_effect_def setVariant_def)

lemma effect_cache [simp]: "pa_cache (toaster_effect a) = pa_cache a"
  by (simp add: toaster_effect_def split: option.split)

text \<open>
  the saved variant always wins: after any sequence of picks, patches, answers, refetches and other changes of the look,
  once preferences are loaded the variant on screen is the one of the cached preferences.  In particular a picked
  variant is undone at once and shown again only when the answer to its request arrives.
\<close>

theorem saved_variant_wins:
  assumes "es \<noteq> []" and "pa_cache (sg_applied (settings_run s es)) = Some p"
  shows "shown_variant (settings_run s es) = pref_theme p"
proof -
  obtain fs e where es: "es = fs @ [e]" using assms(1) by (cases es rule: rev_cases) auto
  let ?a = "sg_applied (settings_do e (settings_run s fs))"
  have "sg_applied (settings_run s es) = toaster_effect ?a"
    by (simp add: settings_run_def es settings_step_def after_render_def)
  with assms(2) show ?thesis by (simp add: shown_variant_def effect_variant)
qed

definition fresh_settings :: settings where
  "fresh_settings = \<lparr>sg_applied = fresh_applied None, sg_flight = []\<rparr>"

text \<open>Picking a variant with loaded preferences sends the request and shows the old variant until it is answered.\<close>

definition picked_soft :: settings where
  "picked_soft = settings_run fresh_settings [Ev_fetched (plain_prefs Theme_swiss), Ev_pick Theme_soft]"

lemmas settings_eval = picked_soft_def settings_run_def settings_step_def after_render_def fresh_settings_def fresh_applied_def pickVariant_def
  mutate_patch_def on_tab_def shown_variant_def toaster_effect_def plain_prefs_def setVariant_def setItem_def theme_mount_def
  isVariant_def isTheme_def isAccent_def read_choice_def or_else_def

lemma pick_undone_until_saved:
  "sg_flight picked_soft = [P_theme Theme_soft]"
  "shown_variant picked_soft = Theme_swiss"
  "shown_variant (settings_run picked_soft [Ev_saved (P_theme Theme_soft) (plain_prefs Theme_soft)]) = Theme_soft"
  by (simp_all add: settings_eval patch_saved_def)

theorem saved_variant_wins_witness:
  "shown_variant (settings_run fresh_settings [Ev_fetched (plain_prefs Theme_swiss), Ev_pick Theme_soft]) = Theme_swiss"
  using saved_variant_wins [of "[Ev_fetched (plain_prefs Theme_swiss), Ev_pick Theme_soft]" fresh_settings "plain_prefs Theme_swiss"]
  by (simp add: settings_eval)

section \<open>Permission and deletion\<close>

text \<open>
  browser notifications are switched on only with permission: the preference is saved as on exactly when the switch is
  turned on and the browser has granted it, before or on request, or has no notifications at all; switching off
  is always saved.
\<close>

theorem browser_alerts_need_permission:
  "onBrowserNotifications b granted v = Inr (P_browser_notifications v) \<longleftrightarrow>
     (v \<longrightarrow> \<not> br_Notification b \<or> br_permission b = Perm_granted \<or> br_permission b = Perm_default \<and> granted = Perm_granted)"
  by (cases "br_permission b") (auto simp: onBrowserNotifications_def)

lemma account_deletion_confirmed:
  "snd (account_confirm (Some email) typed p) \<longleftrightarrow>
     ac_deleteOpen p \<and> \<not> ac_deleting p \<and> (email = [] \<or> trim typed = trim email)"
  by (auto simp: account_confirm_def confirm_enabled_def)

lemma account_deleted_once: "\<not> snd (account_confirm email typed' (account_open (fst (account_confirm email typed p))))"
  if "snd (account_confirm email typed p)"
  using that by (auto simp: account_confirm_def account_open_def confirm_enabled_def split: if_splits)

end
