(* ===== verification/Identicon.thy ===== *)
theory Identicon
  imports Js_String "HOL-Library.Word"
begin

unbundle bit_operations_syntax

text \<open>
  The pixel avatar of src/web/src/components/Identicon.tsx: a 32-bit FNV-1a hash of the seed, and a hue and a mirrored
  grid of cells derived from it.  JavaScript computes with numbers: the bitwise operators and
  \<open>Math.imul\<close> convert them to signed 32-bit integers, \<open>>>>\<close> to unsigned ones.  The model keeps the numbers as
  integers and writes the conversions out.
\<close>

section \<open>32-bit operators\<close>

definition ToInt32 :: "int \<Rightarrow> int" where
  "ToInt32 x = sint (of_int x :: 32 word)"

definition ToUint32 :: "int \<Rightarrow> int" where
  "ToUint32 x = x mod 2 ^ 32"

definition js_xor :: "int \<Rightarrow> int \<Rightarrow> int" where
  "js_xor a b = ToInt32 (ToInt32 a XOR ToInt32 b)"

definition js_and :: "int \<Rightarrow> int \<Rightarrow> int" where
  "js_and a b = ToInt32 (ToInt32 a AND ToInt32 b)"

definition js_shr :: "int \<Rightarrow> int \<Rightarrow> int" where
  "js_shr a n = drop_bit (nat (ToUint32 n mod 32)) (ToUint32 a)"

definition Math_imul :: "int \<Rightarrow> int \<Rightarrow> int" where
  "Math_imul a b = ToInt32 (ToInt32 a * ToInt32 b)"

section \<open>Hash and pattern\<close>

definition charCodeAt :: "string \<Rightarrow> nat \<Rightarrow> int" where
  "charCodeAt s i = int (of_char (s ! i))"

definition hashFnv32 :: "string \<Rightarrow> int" where
  "hashFnv32 input =
     js_shr (foldl (\<lambda>h i. Math_imul (js_xor h (charCodeAt input i)) 0x01000193) 0x811c9dc5 [0..<length input]) 0"

definition cell_on :: "int \<Rightarrow> nat \<Rightarrow> bool" where
  "cell_on h slot \<longleftrightarrow>
     (let mix = js_xor h (Math_imul 0x9e3779b1 (int slot + 1))
      in js_and (js_shr mix (js_and (int slot * 7) 31)) 1 = 1)"

text \<open>\<open>Math.ceil(cells / 2)\<close>\<close>

definition half_of :: "nat \<Rightarrow> nat" where
  "half_of cells = (cells + 1) div 2"

text \<open>One row: the left half from \<open>slot\<close> on, then its mirror image without the centre column.\<close>

definition pattern_row :: "int \<Rightarrow> nat \<Rightarrow> nat \<Rightarrow> bool list" where
  "pattern_row h cells slot =
     (let left = map (cell_on h) [slot..<slot + half_of cells]
      in left @ map (\<lambda>col. left ! col) (rev [0..<cells - half_of cells]))"

record pattern =
  pt_color :: string
  pt_filled :: "bool list list"

definition buildPattern :: "string \<Rightarrow> nat \<Rightarrow> pattern" where
  "buildPattern seed cells =
     (let h = hashFnv32 (trim (toLowerCase seed))
      in \<lparr>pt_color = ''hsl('' @ int_dec (h mod 360) @ ''deg 62% 50%)'',
          pt_filled = map (\<lambda>row. pattern_row h cells (row * half_of cells)) [0..<cells]\<rparr>)"

text \<open>The squares drawn: column and row of each filled cell.\<close>

definition identicon_rects :: "string \<Rightarrow> nat \<Rightarrow> (nat \<times> nat) list" where
  "identicon_rects seed cells =
     concat (map (\<lambda>(ri, row). map (\<lambda>(ci, on). (ci, ri)) (filter snd (enumerate 0 row)))
       (enumerate 0 (pt_filled (buildPattern seed cells))))"

section \<open>The hash is FNV-1a\<close>

text \<open>The reference: exclusive or with the byte, then multiplication by the prime, on 32-bit words.\<close>

definition fnv1a :: "string \<Rightarrow> 32 word" where
  "fnv1a s = foldl (\<lambda>h c. (h XOR of_nat (of_char c)) * 0x01000193) 0x811c9dc5 s"

lemma of_int_ToInt32 [simp]: "(of_int (ToInt32 x) :: 32 word) = of_int x"
  by (simp add: ToInt32_def)

lemma of_int_js_xor [simp]: "(of_int (js_xor a b) :: 32 word) = of_int a XOR of_int b"
  by (simp add: js_xor_def of_int_xor_eq)

lemma of_int_Math_imul [simp]: "(of_int (Math_imul a b) :: 32 word) = of_int a * of_int b"
  by (simp add: Math_imul_def)

lemma hash_fold:
  "(of_int (foldl (\<lambda>h i. Math_imul (js_xor h (charCodeAt s i)) 0x01000193) x [0..<length s]) :: 32 word) =
     foldl (\<lambda>h c. (h XOR of_nat (of_char c)) * 0x01000193) (of_int x) s"
proof (induction s rule: rev_induct)
  case (snoc c s)
  have "foldl (\<lambda>h i. Math_imul (js_xor h (charCodeAt (s @ [c]) i)) 0x01000193) x [0..<length s] =
      foldl (\<lambda>h i. Math_imul (js_xor h (charCodeAt s i)) 0x01000193) x [0..<length s]"
    by (rule foldl_cong) (simp_all add: charCodeAt_def nth_append)
  with snoc show ?case by (simp add: charCodeAt_def)
qed simp

lemma ToUint32_word: "ToUint32 x = uint (of_int x :: 32 word)"
  by (simp add: ToUint32_def uint_word_of_int)

text \<open>
  the hash of the avatar is the 32-bit FNV-1a hash: although the code computes with signed numbers, an initial value above the
  signed range and a product that overflows, for every seed the result is the unsigned value of the reference
  computed on 32-bit words.
\<close>

theorem hash_is_fnv1a: "hashFnv32 s = uint (fnv1a s)"
proof -
  have "js_shr x 0 = uint (of_int x :: 32 word)" for x
    by (simp add: js_shr_def ToUint32_word)
  then show ?thesis by (simp add: hashFnv32_def hash_fold fnv1a_def)
qed

section \<open>The avatar is a mirrored square\<close>

lemma half_bounds: "half_of cells \<le> cells" "cells - half_of cells \<le> half_of cells"
  by (simp_all add: half_of_def)

lemma pattern_row_length: "length (pattern_row h cells b) = cells"
  using half_bounds(1) [of cells] by (simp add: pattern_row_def Let_def)

lemma pattern_row_mirror: "rev (pattern_row h cells b) = pattern_row h cells b"
proof -
  define left where "left = map (cell_on h) [b..<b + half_of cells]"
  define k where "k = cells - half_of cells"
  have len: "length left = half_of cells" by (simp add: left_def)
  have k: "k \<le> half_of cells" "half_of cells = k \<or> half_of cells = Suc k"
    using half_bounds [of cells] unfolding k_def half_of_def by presburger+
  have row: "pattern_row h cells b = left @ rev (take k left)"
  proof -
    have "map (\<lambda>col. left ! col) [0..<k] = take k left" using k(1) len by (simp add: list_eq_iff_nth_eq)
    then show ?thesis by (simp add: pattern_row_def Let_def left_def k_def flip: rev_map)
  qed
  show ?thesis
  proof (cases "half_of cells = k")
    case True
    then have "take k left = left" using len by simp
    then show ?thesis by (simp add: row)
  next
    case False
    then have "half_of cells = Suc k" using k(2) by simp
    then have "left = take k left @ [last left]" using len
      by (metis append_butlast_last_id butlast_conv_take diff_Suc_1 length_0_conv nat.distinct(1))
    then show ?thesis unfolding row by (metis append.assoc rev_append rev_rev_ident rev_singleton_conv)
  qed
qed

lemma lower_trim_char: "char_lower (char_lower c) = char_lower c"
  by (auto simp: char_lower_def)

text \<open>
  the avatar of a seed is a square of \<open>cells\<close> rows and columns, the same read from the left and from the right, with a hue on
  the colour wheel, and it does not depend on the case of the seed's letters.
\<close>

theorem avatar_mirrored:
  "length (pt_filled (buildPattern seed cells)) = cells \<and>
   list_all (\<lambda>row. length row = cells \<and> rev row = row) (pt_filled (buildPattern seed cells)) \<and>
   (\<exists>hue. 0 \<le> hue \<and> hue < 360 \<and> pt_color (buildPattern seed cells) = ''hsl('' @ int_dec hue @ ''deg 62% 50%)'') \<and>
   buildPattern (toLowerCase seed) cells = buildPattern seed cells"
proof (intro conjI)
  show "list_all (\<lambda>row. length row = cells \<and> rev row = row) (pt_filled (buildPattern seed cells))"
    by (simp add: buildPattern_def Let_def list_all_iff pattern_row_length pattern_row_mirror)
  show "\<exists>hue. 0 \<le> hue \<and> hue < 360 \<and> pt_color (buildPattern seed cells) = ''hsl('' @ int_dec hue @ ''deg 62% 50%)''"
    by (rule exI [of _ "hashFnv32 (trim (toLowerCase seed)) mod 360"]) (simp add: buildPattern_def Let_def)
  show "buildPattern (toLowerCase seed) cells = buildPattern seed cells"
    by (simp add: buildPattern_def toLowerCase_def lower_trim_char comp_def)
qed (simp add: buildPattern_def Let_def)

end
