(* ===== verification/Navigation.thy ===== *)
theory Navigation
  imports Theme_Prefs Page_Effect Auth_Guard
begin

text \<open>
  Getting around: the command palette with its key chords (src/web/src/components/CommandPalette.tsx), the breadcrumbs and the
  impersonation banner of src/web/src/components/layout/TopBar.tsx, and the store of breadcrumb labels
  (src/web/src/stores/breadcrumb.ts, src/web/src/hooks/useBreadcrumbOverride.ts).
\<close>

section \<open>The command palette\<close>

datatype nav_group = Group_workspace | Group_admin

record nav_item =
  ni_to :: string
  ni_label :: string
  ni_group :: nav_group
  ni_chord :: "string option"

definition nav_item_of :: "string \<Rightarrow> string \<Rightarrow> nav_group \<Rightarrow> string option \<Rightarrow> nav_item" where
  "nav_item_of to label grp chord = \<lparr>ni_to = to, ni_label = label, ni_group = grp, ni_chord = chord\<rparr>"

definition ITEMS :: "nav_item list" where
  "ITEMS =
     [nav_item_of ''/app'' ''Dashboard'' Group_workspace (Some ''g d''),
      nav_item_of ''/app/devices'' ''Devices'' Group_workspace None,
      nav_item_of ''/app/topology'' ''Topology'' Group_workspace (Some ''g t''),
      nav_item_of ''/app/settings'' ''Settings'' Group_workspace None,
      nav_item_of ''/app/finder'' ''Finder'' Group_workspace (Some ''g f''),
      nav_item_of ''/admin'' ''Admin overview'' Group_admin (Some ''g a''),
      nav_item_of ''/admin/servers'' ''Servers'' Group_admin None,
      nav_item_of ''/admin/topology'' ''Topology (fleet)'' Group_admin None,
      nav_item_of ''/admin/audit'' ''Audit log'' Group_admin None,
      nav_item_of ''/admin/sessions'' ''Sessions'' Group_admin None,
      nav_item_of ''/admin/access-logs'' ''Access logs'' Group_admin None,
      nav_item_of ''/admin/failed-logins'' ''Failed logins'' Group_admin None]"

definition allowed_item :: "bool \<Rightarrow> nav_item \<Rightarrow> bool" where
  "allowed_item isAdmin i \<longleftrightarrow> \<not> (ni_group i = Group_admin \<and> \<not> isAdmin)"

text \<open>The listed groups with their items, in order of first appearance.\<close>

definition grouped_items :: "bool \<Rightarrow> (nav_group \<times> nav_item list) list" where
  "grouped_items isAdmin =
     fold (\<lambda>i acc. if \<not> allowed_item isAdmin i then acc
        else AList.update (ni_group i) ((case map_of acc (ni_group i) of Some is \<Rightarrow> is | None \<Rightarrow> []) @ [i]) acc) ITEMS []"

record palette =
  pl_open :: bool
  pl_buf :: string
  pl_timer :: bool

definition palette_init :: palette where
  "palette_init = \<lparr>pl_open = False, pl_buf = [], pl_timer = False\<rparr>"

definition palette_reset :: "palette \<Rightarrow> palette" where
  "palette_reset p = p\<lparr>pl_buf := [], pl_timer := False\<rparr>"

text \<open>The first listener: whether the palette is open afterwards.\<close>

definition onKey_open :: "key_event \<Rightarrow> bool \<Rightarrow> bool" where
  "onKey_open e opened =
     (if (ke_key e = ''k'' \<or> ke_key e = ''K'') \<and> (ke_metaKey e \<or> ke_ctrlKey e) then \<not> opened
      else if ke_key e = ''?'' \<and> \<not> (ke_metaKey e \<or> ke_ctrlKey e \<or> ke_altKey e) \<and> \<not> ke_editable e then True
      else opened)"

text \<open>\<open>buf.match(/g([a-z])$/)\<close>: the letter after a final \<open>g\<close>.\<close>

definition chord_letter :: "string \<Rightarrow> char option" where
  "chord_letter buf =
     (case rev buf of
        x # y # _ \<Rightarrow> if y = CHR ''g'' \<and> 97 \<le> (of_char x :: nat) \<and> (of_char x :: nat) \<le> 122 then Some x else None
      | _ \<Rightarrow> None)"

definition chord_item :: "char \<Rightarrow> nav_item option" where
  "chord_item x = find (\<lambda>i. ni_chord i = Some (''g '' @ [x])) ITEMS"

text \<open>The second listener: the palette and where it navigates.\<close>

definition onKey_chord :: "bool \<Rightarrow> key_event \<Rightarrow> palette \<Rightarrow> palette \<times> string option" where
  "onKey_chord isAdmin e p =
     (let k = toLowerCase (ke_key e) in
      if ke_metaKey e \<or> ke_ctrlKey e \<or> ke_altKey e \<or> ke_editable e \<or> pl_open p \<or> length k \<noteq> 1 then (p, None)
      else let p1 = p\<lparr>pl_buf := slice_last 3 (pl_buf p @ k), pl_timer := True\<rparr> in
           case chord_letter (pl_buf p1) of
             None \<Rightarrow> (p1, None)
           | Some x \<Rightarrow>
               (case chord_item x of
                  None \<Rightarrow> (p1, None)
                | Some i \<Rightarrow> if allowed_item isAdmin i then (palette_reset p1, Some (ni_to i)) else (p1, None)))"

text \<open>The second effect depends on \<open>open\<close>: when it changes, its clean-up resets the buffer.\<close>

definition set_open :: "bool \<Rightarrow> palette \<Rightarrow> palette" where
  "set_open b p = (if b = pl_open p then p else palette_reset (p\<lparr>pl_open := b\<rparr>))"

definition palette_key :: "bool \<Rightarrow> key_event \<Rightarrow> palette \<Rightarrow> palette \<times> string option" where
  "palette_key isAdmin e p =
     (let b = onKey_open e (pl_open p); (q, nav) = onKey_chord isAdmin e p in (set_open b q, nav))"

definition palette_go :: "string \<Rightarrow> palette \<Rightarrow> palette \<times> string option" where
  "palette_go to p = (set_open False p, Some to)"

datatype palette_event = Pal_key key_event | Pal_timeout | Pal_select nav_item | Pal_close

fun palette_step :: "bool \<Rightarrow> palette_event \<Rightarrow> palette \<Rightarrow> palette \<times> string option" where
  "palette_step isAdmin (Pal_key e) p = palette_key isAdmin e p"
| "palette_step isAdmin Pal_timeout p = (if pl_timer p then palette_reset p else p, None)"
| "palette_step isAdmin (Pal_select i) p =
     (if pl_open p \<and> i \<in> set (concat (map snd (grouped_items isAdmin))) then palette_go (ni_to i) p else (p, None))"
| "palette_step isAdmin Pal_close p = (set_open False p, None)"

fun palette_run :: "bool \<Rightarrow> palette_event list \<Rightarrow> palette \<Rightarrow> palette \<times> string list" where
  "palette_run isAdmin [] p = (p, [])"
| "palette_run isAdmin (e # es) p =
     (let (q, nav) = palette_step isAdmin e p; (r, navs) = palette_run isAdmin es q
      in (r, (case nav of Some to \<Rightarrow> [to] | None \<Rightarrow> []) @ navs))"

section \<open>Breadcrumbs\<close>

type_synonym overrides = "(string \<times> string) list"

definition breadcrumb_set :: "string \<Rightarrow> string option \<Rightarrow> overrides \<Rightarrow> overrides" where
  "breadcrumb_set routeId label s =
     (case label of
        None \<Rightarrow> if map_of s routeId = None then s else AList.delete routeId s
      | Some l \<Rightarrow> if map_of s routeId = Some l then s else AList.update routeId l s)"

text \<open>A page sets the label of its own route while it is mounted; leaving the page clears it.\<close>

definition override_mounted :: "string \<Rightarrow> string option \<Rightarrow> overrides \<Rightarrow> overrides" where
  "override_mounted leafId label s =
     (if leafId = [] then s
      else breadcrumb_set leafId (case label of Some l \<Rightarrow> if trim l = [] then None else Some l | None \<Rightarrow> None) s)"

definition override_unmounted :: "string \<Rightarrow> overrides \<Rightarrow> overrides" where
  "override_unmounted leafId s = (if leafId = [] then s else breadcrumb_set leafId None s)"

datatype breadcrumb = Bc_text string | Bc_fun "(string \<times> string) list \<Rightarrow> string"

record crumb_handle =
  ch_breadcrumb :: "breadcrumb option"
  ch_parents :: "(string \<times> string) list"

text \<open>A match of the router; its handle is \<open>None\<close> when it has neither a breadcrumb nor parents.\<close>

record route_match =
  rm_id :: string
  rm_pathname :: string
  rm_params :: "(string \<times> string) list"
  rm_handle :: "crumb_handle option"

record Crumb =
  cr_to :: string
  cr_label :: string

definition push_parent :: "string \<times> string \<Rightarrow> Crumb list \<Rightarrow> Crumb list" where
  "push_parent p crumbs =
     (if list_ex (\<lambda>c. cr_to c = snd p) crumbs then crumbs else crumbs @ [\<lparr>cr_to = snd p, cr_label = fst p\<rparr>])"

definition push_match :: "overrides \<Rightarrow> route_match \<Rightarrow> Crumb list \<Rightarrow> Crumb list" where
  "push_match ov m crumbs =
     (case rm_handle m of
        None \<Rightarrow> crumbs
      | Some h \<Rightarrow>
          let crumbs1 = fold push_parent (ch_parents h) crumbs in
          case ch_breadcrumb h of
            None \<Rightarrow> crumbs1
          | Some b \<Rightarrow>
              let fallback = (case b of Bc_text s \<Rightarrow> s | Bc_fun f \<Rightarrow> f (rm_params m));
                  label = (case map_of ov (rm_id m) of Some l \<Rightarrow> l | None \<Rightarrow> fallback)
              in if label = [] then crumbs1 else crumbs1 @ [\<lparr>cr_to = rm_pathname m, cr_label = label\<rparr>])"

definition useBreadcrumbs :: "overrides \<Rightarrow> route_match list \<Rightarrow> Crumb list" where
  "useBreadcrumbs ov matches = fold (push_match ov) matches []"

definition parentOfLeaf :: "Crumb list \<Rightarrow> string option" where
  "parentOfLeaf crumbs = (if length crumbs < 2 then None else Some (cr_to (crumbs ! (length crumbs - 2))))"

section \<open>Leaving an impersonation\<close>

record topbar =
  tb_stopping :: bool
  tb_confirmOpen :: bool

text \<open>The outcome: the refetched user, or \<open>None\<close> when a request failed.\<close>

definition stop_started :: "topbar \<Rightarrow> topbar" where
  "stop_started t = t\<lparr>tb_stopping := True\<rparr>"

definition stop_settled :: "PublicUser option \<Rightarrow> topbar \<Rightarrow> topbar \<times> page_effect list" where
  "stop_settled updated t =
     (case updated of
        Some u \<Rightarrow> (t\<lparr>tb_confirmOpen := False, tb_stopping := False\<rparr>,
          [Stored_user u, Toast_success ''Returned to your admin session'', Navigated ''/admin/users''])
      | None \<Rightarrow> (t\<lparr>tb_stopping := False\<rparr>, [Toast_error (JStr ''Failed to stop impersonation'')]))"

section \<open>The palette navigates only where the role may go\<close>

definition workspace_path :: "string \<Rightarrow> bool" where
  "workspace_path to \<longleftrightarrow> take 4 to = ''/app''"

lemma ITEMS_workspace: "i \<in> set ITEMS \<Longrightarrow> allowed_item False i \<Longrightarrow> workspace_path (ni_to i)"
  by (auto simp: ITEMS_def nav_item_of_def allowed_item_def workspace_path_def)

lemma chord_item_in: "chord_item x = Some i \<Longrightarrow> i \<in> set ITEMS"
  by (auto simp: chord_item_def find_Some_iff)

lemma grouped_items_listed: "concat (map snd (grouped_items isAdmin)) = filter (allowed_item isAdmin) ITEMS"
  by (cases isAdmin) (simp_all add: grouped_items_def ITEMS_def nav_item_of_def allowed_item_def)

lemma palette_step_safe: "palette_step False e p = (q, Some to) \<Longrightarrow> workspace_path to"
proof (cases e)
  case (Pal_key k)
  assume "palette_step False e p = (q, Some to)"
  then show ?thesis using Pal_key
    by (auto simp: palette_key_def onKey_chord_def Let_def intro!: ITEMS_workspace
        dest!: chord_item_in split: if_splits option.splits prod.splits)
qed (auto simp: palette_go_def intro!: ITEMS_workspace simp: grouped_items_listed split: if_splits)

text \<open>
  C32: whatever the keys pressed, entries chosen and pauses made, the palette of a user who is not an administrator never
  navigates outside the workspace: neither the list nor a chord reaches an \<open>/admin\<close> page.
\<close>

theorem palette_role_safe: "list_all workspace_path (snd (palette_run False es p))"
proof (induction es arbitrary: p)
  case (Cons e es)
  obtain q nav where st: "palette_step False e p = (q, nav)" by fastforce
  then have "list_all workspace_path (case nav of Some to \<Rightarrow> [to] | None \<Rightarrow> [])"
    by (auto simp: palette_step_safe split: option.split)
  then show ?case using st Cons.IH [of q] by (simp add: split_beta)
qed simp

section \<open>Chords\<close>

definition plain_key :: "char \<Rightarrow> key_event" where
  "plain_key x = \<lparr>ke_repeat = False, ke_metaKey = False, ke_ctrlKey = False, ke_altKey = False, ke_editable = False, ke_key = [x]\<rparr>"

definition lower_letter :: "char \<Rightarrow> bool" where
  "lower_letter x \<longleftrightarrow> 97 \<le> (of_char x :: nat) \<and> (of_char x :: nat) \<le> 122"

text \<open>Where the letter after a \<open>g\<close> leads.\<close>

definition chord_target :: "bool \<Rightarrow> char \<Rightarrow> string option" where
  "chord_target isAdmin x =
     (case chord_item x of Some i \<Rightarrow> if allowed_item isAdmin i then Some (ni_to i) else None | None \<Rightarrow> None)"

lemma chord_target_cases:
  "chord_target isAdmin x =
     (if x = CHR ''d'' then Some ''/app'' else if x = CHR ''t'' then Some ''/app/topology''
      else if x = CHR ''f'' then Some ''/app/finder'' else if x = CHR ''a'' \<and> isAdmin then Some ''/admin'' else None)"
  by (simp add: chord_target_def chord_item_def ITEMS_def nav_item_of_def allowed_item_def)

lemma toLowerCase_letter: "lower_letter x \<Longrightarrow> toLowerCase [x] = [x]"
  by (simp add: lower_letter_def toLowerCase_def char_lower_def)

lemma rev_slice_last: "rev (slice_last n xs) = take n (rev xs)"
  by (cases "length xs \<le> n") (simp_all add: slice_last_def rev_drop)

text \<open>A letter typed outside the palette: it navigates exactly when the key before it was a \<open>g\<close>.\<close>

lemma letter_navigates:
  assumes "lower_letter x" and "\<not> pl_open p"
  shows "snd (palette_key isAdmin (plain_key x) p) =
     (if pl_buf p \<noteq> [] \<and> last (pl_buf p) = CHR ''g'' then chord_target isAdmin x else None)"
proof -
  have "rev (slice_last 3 (pl_buf p @ [x])) = x # take 2 (rev (pl_buf p))"
    by (simp add: rev_slice_last)
  moreover have "chord_letter (slice_last 3 (pl_buf p @ [x])) =
      (if pl_buf p \<noteq> [] \<and> last (pl_buf p) = CHR ''g'' then Some x else None)"
    unfolding chord_letter_def calculation using assms(1)
    by (cases "pl_buf p" rule: rev_cases) (simp_all add: lower_letter_def)
  ultimately show ?thesis using assms
    by (simp add: palette_key_def onKey_chord_def plain_key_def toLowerCase_letter Let_def chord_target_def
        split: option.split prod.split)
qed

lemma letter_buffered:
  assumes "lower_letter x" and "\<not> pl_open p" and "snd (palette_key isAdmin (plain_key x) p) = None"
  shows "\<not> pl_open (fst (palette_key isAdmin (plain_key x) p)) \<and> pl_buf (fst (palette_key isAdmin (plain_key x) p)) \<noteq> [] \<and>
    last (pl_buf (fst (palette_key isAdmin (plain_key x) p))) = x"
proof -
  have "slice_last 3 (pl_buf p @ [x]) \<noteq> []" "last (slice_last 3 (pl_buf p @ [x])) = x" by (simp_all add: slice_last_def)
  moreover have "x \<noteq> CHR ''?''" using assms(1) by (auto simp: lower_letter_def)
  ultimately show ?thesis using assms
    by (auto simp: palette_key_def onKey_chord_def onKey_open_def set_open_def plain_key_def toLowerCase_letter Let_def
        split: option.splits prod.splits if_splits)
qed

text \<open>Two letters typed one after the other, outside the palette and its input fields, within the time limit.\<close>

definition two_letters :: "bool \<Rightarrow> char \<Rightarrow> char \<Rightarrow> palette \<Rightarrow> string list" where
  "two_letters isAdmin y x p = snd (palette_run isAdmin [Pal_key (plain_key y), Pal_key (plain_key x)] p)"

text \<open>
  the chords.  Of two letters typed in a row with the palette closed and nothing waiting in the buffer, the page is
  left exactly when the first is \<open>g\<close> and the second has an entry the role may open, and then for that entry, once.
\<close>

theorem chord_navigates:
  assumes "lower_letter y" and "lower_letter x" and "\<not> pl_open p" and "pl_buf p = []"
  shows "two_letters isAdmin y x p =
     (if y = CHR ''g'' then case chord_target isAdmin x of Some to \<Rightarrow> [to] | None \<Rightarrow> [] else [])"
proof -
  let ?q = "fst (palette_key isAdmin (plain_key y) p)"
  have n: "snd (palette_key isAdmin (plain_key y) p) = None" using assms by (simp add: letter_navigates)
  then have "\<not> pl_open ?q" "pl_buf ?q \<noteq> []" "last (pl_buf ?q) = y" using letter_buffered assms by blast+
  then have "snd (palette_key isAdmin (plain_key x) ?q) = (if y = CHR ''g'' then chord_target isAdmin x else None)"
    using letter_navigates [OF assms(2)] by simp
  then show ?thesis using n by (simp add: two_letters_def split_beta)
qed

theorem chord_navigates_witness:
  "two_letters False CHR ''g'' CHR ''t'' palette_init = [''/app/topology''] \<and> two_letters False CHR ''g'' CHR ''a'' palette_init = []"
  using chord_navigates [of "CHR ''g''" "CHR ''t''" palette_init False] chord_navigates [of "CHR ''g''" "CHR ''a''" palette_init False]
  by (simp add: lower_letter_def palette_init_def chord_target_cases)

section \<open>The chord to the dashboard and the theme shortcut\<close>

text \<open>Both components listen on the window: a key reaches the palette and the theme provider.\<close>

definition window_key :: "bool \<Rightarrow> ResolvedTheme \<Rightarrow> key_event \<Rightarrow> palette \<times> theme_tab \<Rightarrow> (palette \<times> theme_tab) \<times> string option" where
  "window_key isAdmin systemTheme e s =
     (let (q, nav) = palette_key isAdmin e (fst s) in ((q, handleKeyDown systemTheme e (snd s)), nav))"

text \<open>
  The chord \<open>g d\<close> to the dashboard cannot be used without switching the colour theme: its second key is the theme shortcut.
\<close>

lemma dashboard_chord_flips_theme:
  assumes "\<not> pl_open p" and "pl_buf p \<noteq> []" and "last (pl_buf p) = CHR ''g''"
  shows "snd (window_key isAdmin systemTheme (plain_key CHR ''d'') (p, t)) = Some ''/app'' \<and>
    th_theme (tt_state (snd (fst (window_key isAdmin systemTheme (plain_key CHR ''d'') (p, t))))) = toggled systemTheme (th_theme (tt_state t)) \<and>
    toggled systemTheme (th_theme (tt_state t)) \<noteq> th_theme (tt_state t)"
proof -
  have "snd (palette_key isAdmin (plain_key CHR ''d'') p) = Some ''/app''"
    using letter_navigates [of "CHR ''d''" p isAdmin] assms by (simp add: lower_letter_def chord_target_cases)
  moreover have "toLowerCase ''d'' = ''d''" by (simp add: toLowerCase_letter lower_letter_def)
  ultimately show ?thesis
    by (simp add: window_key_def split_beta handleKeyDown_def plain_key_def setTheme_def toggled_def split: Theme.split)
qed

section \<open>Breadcrumb labels\<close>

text \<open>
  A page's label lasts as long as the page: while it is mounted the crumb of its route shows it, and leaving the page gives
  every route back the label it had.
\<close>

lemma override_lasts_with_page:
  assumes "map_of s leafId = None" and "leafId \<noteq> []"
  shows "map_of (override_unmounted leafId (override_mounted leafId label s)) = map_of s"
  using assms
  by (auto simp: override_unmounted_def override_mounted_def breadcrumb_set_def update_conv' delete_conv' fun_eq_iff
      split: option.splits if_splits)

lemma override_shown:
  assumes "leafId \<noteq> []" and "trim l \<noteq> []" and "rm_id m = leafId"
    and "rm_handle m = Some h" and "ch_breadcrumb h = Some b" and "ch_parents h = []"
  shows "push_match (override_mounted leafId (Some l) s) m crumbs = crumbs @ [\<lparr>cr_to = rm_pathname m, cr_label = l\<rparr>]"
proof -
  have "map_of (override_mounted leafId (Some l) s) leafId = Some l"
    using assms by (auto simp: override_mounted_def breadcrumb_set_def update_conv')
  moreover have "l \<noteq> []" using assms(2) by (auto simp: trim_def)
  ultimately show ?thesis using assms by (simp add: push_match_def Let_def)
qed

text \<open>The back button shows only when a crumb precedes the page's own, and leads there.\<close>

lemma back_button_parent:
  "parentOfLeaf (crumbs @ [a, b]) = Some (cr_to a)" "parentOfLeaf [a] = None" "parentOfLeaf [] = None"
  by (simp_all add: parentOfLeaf_def nth_append)

end
