(* ===== verification/Flow_Topology.thy ===== *)
theory Flow_Topology
  imports Topology_Layout Js_String Api_Types
begin

text \<open>
  The flow topology, src/web/src/components/topology/FlowTopology.tsx: grouping of the observed flows by source peer, the places of
  hub, peers and targets on nested circles, and the canvas with its pan, zoom, node drags and automatic fit.
  Coordinates are real numbers.  React keeps the outer element of the component when the flow list becomes
  empty or non-empty, as both views are a \<open>div\<close>; whether its size is observed is decided when the component mounts.
\<close>

section \<open>Constants and radii\<close>

definition FLOW_HUB_HALO :: real where "FLOW_HUB_HALO = 36"
definition FLOW_PEER_HALO :: real where "FLOW_PEER_HALO = 22"
definition FLOW_RING_GAP :: real where "FLOW_RING_GAP = 18"
definition FLOW_HALO :: real where "FLOW_HALO = FLOW_PEER_HALO + FLOW_RING_GAP / 2"
definition FLOW_MIN_PEER_RING :: real where "FLOW_MIN_PEER_RING = 140"
definition MIN_TARGET_RING :: real where "MIN_TARGET_RING = 70"
definition FLOW_MAX_PEER_RING :: real where "FLOW_MAX_PEER_RING = 820"
definition MAX_TARGET_RING :: real where "MAX_TARGET_RING = 200"
definition MIN_ZOOM :: real where "MIN_ZOOM = 0.3"
definition MAX_ZOOM :: real where "MAX_ZOOM = 3"
definition ZOOM_INTENSITY :: real where "ZOOM_INTENSITY = 0.001"

lemmas flow_consts =
  FLOW_HUB_HALO_def FLOW_PEER_HALO_def FLOW_RING_GAP_def FLOW_HALO_def FLOW_MIN_PEER_RING_def MIN_TARGET_RING_def
  FLOW_MAX_PEER_RING_def MAX_TARGET_RING_def MIN_ZOOM_def MAX_ZOOM_def ZOOM_INTENSITY_def

definition targetRingFor :: "nat \<Rightarrow> real" where
  "targetRingFor k =
     (if k \<le> 1 then MIN_TARGET_RING
      else (let r = FLOW_HALO / max (sin (pi / real k)) 0.05 in min (max MIN_TARGET_RING r) MAX_TARGET_RING))"

definition flow_peerRingFor :: "nat \<Rightarrow> real \<Rightarrow> real" where
  "flow_peerRingFor peerCount maxTargetRing =
     (let halfWidth = maxTargetRing + FLOW_HALO;
          hubClear = maxTargetRing + FLOW_HUB_HALO + FLOW_RING_GAP
      in if peerCount \<le> 1 then max FLOW_MIN_PEER_RING hubClear
         else (let ang = sin (pi / real peerCount)
               in min (max (max FLOW_MIN_PEER_RING (halfWidth / max ang 0.05)) hubClear) FLOW_MAX_PEER_RING))"

section \<open>Grouping by source\<close>

record flow_target =
  ft_target :: FlowEndpoint
  ft_source_port :: "number option"
  ft_target_port :: "number option"
  ft_protocol :: string

record flow_group =
  fg_source :: FlowEndpoint
  fg_targets :: "flow_target list"
  fg_seen :: "string list"

definition port_text :: "number option \<Rightarrow> string" where
  "port_text p = (case p of Some n \<Rightarrow> num_string n | None \<Rightarrow> [])"

definition target_key :: "Flow \<Rightarrow> string" where
  "target_key f = fl_protocol f @ '':'' @ fe_ip (fl_target f) @ '':'' @ port_text (fl_target_port f)"

definition push_target :: "flow_group \<Rightarrow> Flow \<Rightarrow> flow_group" where
  "push_target g f =
     (let tk = target_key f in
      if tk \<in> set (fg_seen g) then g
      else g\<lparr>fg_seen := fg_seen g @ [tk],
             fg_targets := fg_targets g @ [\<lparr>ft_target = fl_target f, ft_source_port = fl_source_port f,
               ft_target_port = fl_target_port f, ft_protocol = fl_protocol f\<rparr>]\<rparr>)"

definition add_flow :: "(string \<times> flow_group) list \<Rightarrow> Flow \<Rightarrow> (string \<times> flow_group) list" where
  "add_flow groups f =
     (let key = fe_ip (fl_source f);
          g = (case map_of groups key of Some g \<Rightarrow> g | None \<Rightarrow> \<lparr>fg_source = fl_source f, fg_targets = [], fg_seen = []\<rparr>)
      in AList.update key (push_target g f) groups)"

definition flow_groupList :: "Flow list \<Rightarrow> flow_group list" where
  "flow_groupList flows = map snd (foldl add_flow [] flows)"

section \<open>Nodes and edges\<close>

datatype flow_kind = Kind_hub | Kind_peer | Kind_target

record flow_meta =
  fm_protocol :: string
  fm_ports :: "string option"
  fm_isExternal :: bool

record FlowNode =
  fn_id :: string
  fn_kind :: flow_kind
  fn_label :: string
  fn_subLabel :: "string option"
  fn_at :: point
  fn_meta :: "flow_meta option"

record FlowEdge =
  fe_sourceId :: string
  fe_targetId :: string

definition HUB_ID :: string where "HUB_ID = ''hub''"

definition peer_id :: "flow_group \<Rightarrow> string" where
  "peer_id g = ''peer:'' @ fe_ip (fg_source g)"

definition target_id :: "flow_group \<Rightarrow> flow_target \<Rightarrow> string" where
  "target_id g t =
     ''t:'' @ ft_protocol t @ '':'' @ fe_ip (fg_source g) @ '':'' @ port_text (ft_source_port t) @ ''->'' @
       fe_ip (ft_target t) @ '':'' @ port_text (ft_target_port t)"

definition maxTargetRing :: "flow_group list \<Rightarrow> real" where
  "maxTargetRing gs = foldl max MIN_TARGET_RING (map (\<lambda>g. targetRingFor (length (fg_targets g))) gs)"

definition PEER_RING :: "flow_group list \<Rightarrow> real" where
  "PEER_RING gs = flow_peerRingFor (length gs) (maxTargetRing gs)"

definition flow_angle :: "nat \<Rightarrow> nat \<Rightarrow> real" where
  "flow_angle n gi = (if n = 1 then - pi / 2 else (real gi + 0.5) / real n * pi * 2 - pi / 2)"

definition peer_at :: "point \<Rightarrow> flow_group list \<Rightarrow> nat \<Rightarrow> point" where
  "peer_at c gs gi = polar c (flow_angle (length gs) gi) (PEER_RING gs)"

definition target_at :: "point \<Rightarrow> flow_group list \<Rightarrow> nat \<Rightarrow> nat \<Rightarrow> nat \<Rightarrow> point" where
  "target_at c gs gi k ti =
     (let angle = flow_angle (length gs) gi;
          tAngle = (if k \<le> 1 then angle else angle + real ti / real k * pi * 2)
      in polar (peer_at c gs gi) tAngle (targetRingFor k))"

definition hub_node :: "point \<Rightarrow> FlowNode" where
  "hub_node c = \<lparr>fn_id = HUB_ID, fn_kind = Kind_hub, fn_label = ''vpn-server'', fn_subLabel = None, fn_at = c, fn_meta = None\<rparr>"

definition peer_node :: "point \<Rightarrow> flow_group list \<Rightarrow> nat \<Rightarrow> flow_group \<Rightarrow> FlowNode" where
  "peer_node c gs gi g =
     \<lparr>fn_id = peer_id g, fn_kind = Kind_peer, fn_label = fe_name (fg_source g), fn_subLabel = Some (fe_ip (fg_source g)),
      fn_at = peer_at c gs gi, fn_meta = None\<rparr>"

definition target_node :: "point \<Rightarrow> flow_group list \<Rightarrow> nat \<Rightarrow> flow_group \<Rightarrow> nat \<times> flow_target \<Rightarrow> FlowNode" where
  "target_node c gs gi g x =
     (case x of (ti, t) \<Rightarrow>
       \<lparr>fn_id = target_id g t, fn_kind = Kind_target, fn_label = fe_name (ft_target t), fn_subLabel = Some (fe_ip (ft_target t)),
        fn_at = target_at c gs gi (length (fg_targets g)) ti,
        fn_meta = Some \<lparr>fm_protocol = ft_protocol t,
          fm_ports = (case (ft_source_port t, ft_target_port t) of
             (Some s, Some d) \<Rightarrow> Some (num_string s @ '' '' @ right_arrow @ '' '' @ num_string d) | _ \<Rightarrow> None),
          fm_isExternal = (fe_name (ft_target t) = ''External'')\<rparr>\<rparr>)"

definition group_nodes :: "point \<Rightarrow> flow_group list \<Rightarrow> nat \<times> flow_group \<Rightarrow> FlowNode list" where
  "group_nodes c gs x = (case x of (gi, g) \<Rightarrow> peer_node c gs gi g # map (target_node c gs gi g) (enumerate 0 (fg_targets g)))"

definition group_edges :: "flow_group \<Rightarrow> FlowEdge list" where
  "group_edges g =
     \<lparr>fe_sourceId = HUB_ID, fe_targetId = peer_id g\<rparr>
       # map (\<lambda>t. \<lparr>fe_sourceId = peer_id g, fe_targetId = target_id g t\<rparr>) (fg_targets g)"

definition buildLayout :: "Flow list \<Rightarrow> point \<Rightarrow> FlowNode list \<times> FlowEdge list" where
  "buildLayout flows c =
     (let gs = flow_groupList flows
      in (hub_node c # concat (map (group_nodes c gs) (enumerate 0 gs)), concat (map group_edges gs)))"

datatype flow_icon = Icon_server | Icon_world | Icon_desktop | Icon_mobile

definition iconForNode :: "flow_kind \<Rightarrow> string \<Rightarrow> flow_icon" where
  "iconForNode kind label =
     (case kind of
        Kind_hub \<Rightarrow> Icon_server
      | Kind_target \<Rightarrow> if label = ''External'' then Icon_world else Icon_desktop
      | Kind_peer \<Rightarrow>
          (let lower = toLowerCase label in
           if str_includes lower ''phone'' \<or> str_includes lower ''mobile'' \<or> str_includes lower ''android'' \<or> str_includes lower ''ios''
           then Icon_mobile else Icon_desktop))"

section \<open>The canvas\<close>

record flow_drag =
  fd_id :: string
  fd_start :: point
  fd_initial :: point

record flow_pan =
  fp_start :: point
  fp_initial :: point

record flow_canvas =
  fc_dims :: "real \<times> real"
  fc_observed :: bool
  fc_liveOnly :: bool
  fc_flows :: "Flow list"
  fc_overrides :: "(string \<times> point) list"
  fc_t :: point
  fc_scale :: real
  fc_touched :: bool
  fc_pan :: "flow_pan option"
  fc_drag :: "flow_drag option"

definition filteredFlows :: "flow_canvas \<Rightarrow> Flow list" where
  "filteredFlows s = (if fc_liveOnly s then filter (\<lambda>f. fe_device_id (fl_source f) \<noteq> None) (fc_flows s) else fc_flows s)"

definition flow_center :: "flow_canvas \<Rightarrow> point" where
  "flow_center s = (fst (fc_dims s) / 2, snd (fc_dims s) / 2)"

definition flow_layout :: "flow_canvas \<Rightarrow> FlowNode list" where
  "flow_layout s = fst (buildLayout (filteredFlows s) (flow_center s))"

definition nodePositions :: "flow_canvas \<Rightarrow> (string \<times> point) list" where
  "nodePositions s =
     foldl (\<lambda>out n. AList.update (fn_id n) (case map_of (fc_overrides s) (fn_id n) of Some p \<Rightarrow> p | None \<Rightarrow> fn_at n) out)
       [] (flow_layout s)"

definition contentRadius :: "flow_canvas \<Rightarrow> real" where
  "contentRadius s =
     (if flow_layout s = [] then 0
      else foldl (\<lambda>m n. let d = distance (fn_at n) (flow_center s) in if d > m then d else m) 0 (flow_layout s) + FLOW_PEER_HALO + 60)"

definition autoFitScale :: "flow_canvas \<Rightarrow> real" where
  "autoFitScale s =
     (let half = min (fst (fc_dims s)) (snd (fc_dims s)) / 2 in
      if contentRadius s \<le> 0 then 1
      else if contentRadius s \<le> half then 1
      else max MIN_ZOOM (half / contentRadius s))"

text \<open>The effect that fits the view until the user touches it.\<close>

definition fit_effect :: "flow_canvas \<Rightarrow> flow_canvas" where
  "fit_effect s =
     (if fc_touched s then s
      else if \<bar>fc_scale s - autoFitScale s\<bar> > 0.001 then s\<lparr>fc_scale := autoFitScale s\<rparr> else s)"

definition flow_mount :: "bool \<Rightarrow> Flow list \<Rightarrow> flow_canvas" where
  "flow_mount liveOnly flows =
     fit_effect \<lparr>fc_dims = (800, 600), fc_observed = (flows \<noteq> []), fc_liveOnly = liveOnly, fc_flows = flows, fc_overrides = [],
       fc_t = (0, 0), fc_scale = 1, fc_touched = False, fc_pan = None, fc_drag = None\<rparr>"

definition flow_resized :: "real \<Rightarrow> real \<Rightarrow> flow_canvas \<Rightarrow> flow_canvas" where
  "flow_resized width height s =
     (if fc_observed s \<and> width > 0 \<and> height > 0 then fit_effect (s\<lparr>fc_dims := (width, height)\<rparr>) else s)"

definition flow_polled :: "Flow list \<Rightarrow> flow_canvas \<Rightarrow> flow_canvas" where
  "flow_polled flows s = fit_effect (s\<lparr>fc_flows := flows\<rparr>)"

definition flow_setLiveOnly :: "bool \<Rightarrow> flow_canvas \<Rightarrow> flow_canvas" where
  "flow_setLiveOnly b s = fit_effect (s\<lparr>fc_liveOnly := b\<rparr>)"

definition onBackgroundPointerDown :: "nat \<Rightarrow> point \<Rightarrow> flow_canvas \<Rightarrow> flow_canvas" where
  "onBackgroundPointerDown button p s =
     (if button \<noteq> 0 then s else s\<lparr>fc_touched := True, fc_pan := Some \<lparr>fp_start = p, fp_initial = fc_t s\<rparr>\<rparr>)"

definition onNodePointerDown :: "string \<Rightarrow> point \<Rightarrow> flow_canvas \<Rightarrow> flow_canvas" where
  "onNodePointerDown nodeId p s =
     (case map_of (nodePositions s) nodeId of
        None \<Rightarrow> s
      | Some cur \<Rightarrow> s\<lparr>fc_drag := Some \<lparr>fd_id = nodeId, fd_start = p, fd_initial = cur\<rparr>\<rparr>)"

definition flow_onPointerMove :: "point \<Rightarrow> flow_canvas \<Rightarrow> flow_canvas" where
  "flow_onPointerMove p s =
     (case fc_drag s of
        Some d \<Rightarrow>
          (let dx = (fst p - fst (fd_start d)) / fc_scale s; dy = (snd p - snd (fd_start d)) / fc_scale s
           in s\<lparr>fc_overrides := AList.update (fd_id d) (fst (fd_initial d) + dx, snd (fd_initial d) + dy) (fc_overrides s)\<rparr>)
      | None \<Rightarrow>
          (case fc_pan s of
             Some q \<Rightarrow> s\<lparr>fc_t := (fst (fp_initial q) + (fst p - fst (fp_start q)), snd (fp_initial q) + (snd p - snd (fp_start q)))\<rparr>
           | None \<Rightarrow> s))"

definition flow_onPointerUp :: "flow_canvas \<Rightarrow> flow_canvas" where
  "flow_onPointerUp s = s\<lparr>fc_drag := None, fc_pan := None\<rparr>"

definition flow_onWheel :: "real \<Rightarrow> flow_canvas \<Rightarrow> flow_canvas" where
  "flow_onWheel deltaY s =
     s\<lparr>fc_touched := True, fc_scale := min MAX_ZOOM (max MIN_ZOOM (fc_scale s - deltaY * ZOOM_INTENSITY))\<rparr>"

text \<open>With no flows the component shows a message, which has no handlers.\<close>

datatype flow_event =
    Fe_resize real real | Fe_poll "Flow list" | Fe_liveOnly bool | Fe_background nat point | Fe_node string point
  | Fe_move point | Fe_up | Fe_wheel real

fun flow_step :: "flow_canvas \<Rightarrow> flow_event \<Rightarrow> flow_canvas" where
  "flow_step s (Fe_resize w h) = flow_resized w h s"
| "flow_step s (Fe_poll flows) = flow_polled flows s"
| "flow_step s (Fe_liveOnly b) = flow_setLiveOnly b s"
| "flow_step s (Fe_background b p) = (if fc_flows s = [] then s else onBackgroundPointerDown b p s)"
| "flow_step s (Fe_node n p) = (if fc_flows s = [] then s else onNodePointerDown n p s)"
| "flow_step s (Fe_move p) = (if fc_flows s = [] then s else flow_onPointerMove p s)"
| "flow_step s Fe_up = (if fc_flows s = [] then s else flow_onPointerUp s)"
| "flow_step s (Fe_wheel dy) = (if fc_flows s = [] then s else flow_onWheel dy s)"

definition flow_run :: "bool \<Rightarrow> Flow list \<Rightarrow> flow_event list \<Rightarrow> flow_canvas" where
  "flow_run liveOnly flows es = foldl flow_step (flow_mount liveOnly flows) es"

section \<open>Distances between nodes\<close>

lemma targetRing_bounds: "70 \<le> targetRingFor k \<and> targetRingFor k \<le> 200"
  by (simp add: targetRingFor_def flow_consts Let_def)

lemma foldl_max_bounds:
  fixes m :: real
  shows "(\<And>r. r \<in> set rs \<Longrightarrow> r \<le> b) \<Longrightarrow> m \<le> b \<Longrightarrow> foldl max m rs \<le> b"
    and "m \<le> foldl max m rs"
    and "r \<in> set rs \<Longrightarrow> r \<le> foldl max m rs"
proof (induction rs arbitrary: m)
  case (Cons x xs)
  { case 1 then show ?case using Cons.IH(1) by simp }
  { case 2 then show ?case using Cons.IH(2)[of "max m x"] by simp }
  { case 3 then show ?case using Cons.IH(2)[of "max m x"] Cons.IH(3)[of "max m x"] by auto }
qed simp_all

lemma maxTargetRing_bounds: "70 \<le> maxTargetRing gs" "maxTargetRing gs \<le> 200"
  "g \<in> set gs \<Longrightarrow> targetRingFor (length (fg_targets g)) \<le> maxTargetRing gs"
proof -
  show "70 \<le> maxTargetRing gs"
    using foldl_max_bounds(2)[of MIN_TARGET_RING] by (simp add: maxTargetRing_def MIN_TARGET_RING_def)
  show "maxTargetRing gs \<le> 200"
    unfolding maxTargetRing_def using targetRing_bounds by (intro foldl_max_bounds(1)) (auto simp: MIN_TARGET_RING_def)
  show "g \<in> set gs \<Longrightarrow> targetRingFor (length (fg_targets g)) \<le> maxTargetRing gs"
    unfolding maxTargetRing_def by (intro foldl_max_bounds(3)) simp
qed

lemma PEER_RING_bounds: "140 \<le> PEER_RING gs" "maxTargetRing gs + 54 \<le> PEER_RING gs" "PEER_RING gs \<le> 820"
  using maxTargetRing_bounds(1,2)[of gs] by (auto simp: PEER_RING_def flow_peerRingFor_def flow_consts Let_def)

lemma peer_at_center: "distance (peer_at c gs gi) c = PEER_RING gs"
  using PEER_RING_bounds(1)[of gs] by (simp add: peer_at_def distance_polar)

lemma target_at_peer: "distance (target_at c gs gi k ti) (peer_at c gs gi) = targetRingFor k"
  using targetRing_bounds[of k] by (simp add: target_at_def distance_polar Let_def)

lemma target_at_center:
  assumes "g \<in> set gs"
  shows "54 \<le> distance (target_at c gs gi (length (fg_targets g)) ti) c"
    and "distance (target_at c gs gi (length (fg_targets g)) ti) c \<le> 1020"
proof -
  let ?t = "target_at c gs gi (length (fg_targets g)) ti" and ?p = "peer_at c gs gi"
  have "distance ?p c \<le> distance ?t ?p + distance ?t c" "distance ?t c \<le> distance ?t ?p + distance ?p c"
    using distance_triangle[of ?p c ?t] distance_triangle[of ?t c ?p] by (simp_all add: distance_commute)
  then show "54 \<le> distance ?t c" "distance ?t c \<le> 1020"
    using PEER_RING_bounds[of gs] maxTargetRing_bounds(3)[OF assms] targetRing_bounds[of "length (fg_targets g)"]
    unfolding target_at_peer peer_at_center by linarith+
qed

lemma target_ring_apart:
  assumes "2 \<le> k" "k \<le> 24"
  shows "44 \<le> 2 * targetRingFor k * sin (pi / real k)"
proof -
  have "min (max 60 a) 200 \<le> min (max 70 a) (200 :: real)" for a by (simp add: min_def max_def)
  then have "peerRingFor k \<le> targetRingFor k"
    using assms by (simp only: peerRingFor_def targetRingFor_def flow_consts topo_consts Let_def) simp
  then have "2 * peerRingFor k * sin (pi / real k) \<le> 2 * targetRingFor k * sin (pi / real k)"
    using sin_part_pos[OF assms(1)] by (intro mult_right_mono) simp_all
  then show ?thesis using peerRing_apart[OF assms] by linarith
qed

lemma targets_apart:
  assumes "i < k" "j < k" "i \<noteq> j" "k \<le> 24"
  shows "44 \<le> distance (target_at c gs gi k i) (target_at c gs gi k j)"
proof -
  have k: "2 \<le> k" using assms by linarith
  have "2 * targetRingFor k * sin (pi / real k) \<le> distance (target_at c gs gi k i) (target_at c gs gi k j)"
    using ring_places_apart[OF assms(1,2,3), of "targetRingFor k"] targetRing_bounds[of k] k
    by (simp add: target_at_def Let_def)
  then show ?thesis using target_ring_apart[OF k assms(4)] by linarith
qed

lemma peers_apart:
  assumes "i < length gs" "j < length gs" "i \<noteq> j" "length gs \<le> 10"
  shows "2 * maxTargetRing gs + 44 \<le> distance (peer_at c gs i) (peer_at c gs j)"
proof -
  let ?n = "length gs"
  have n: "2 \<le> ?n" using assms by linarith
  have s: "29 / 100 \<le> sin (pi / real ?n)"
    using sin_part_ge[of 10] sin_part_mono[OF n assms(4)] by (simp add: power3_eq_cube)
  then have "max (sin (pi / real ?n)) 0.05 = sin (pi / real ?n)" by simp
  then have ring: "PEER_RING gs = min (max (max 140 ((maxTargetRing gs + 31) / sin (pi / real ?n))) (maxTargetRing gs + 54)) 820"
    using n by (simp add: PEER_RING_def flow_peerRingFor_def flow_consts Let_def)
  have "maxTargetRing gs + 22 \<le> PEER_RING gs * sin (pi / real ?n)"
  proof (cases "PEER_RING gs = 820")
    case True
    then have "820 * (29 / 100) \<le> PEER_RING gs * sin (pi / real ?n)" using s by simp
    then show ?thesis using maxTargetRing_bounds(2)[of gs] by linarith
  next
    case False
    then have "(maxTargetRing gs + 31) / sin (pi / real ?n) \<le> PEER_RING gs"
      unfolding ring by linarith
    then show ?thesis using s by (simp add: divide_le_eq)
  qed
  moreover have ang: "flow_angle ?n m = (0.5 / real ?n * pi * 2 - pi / 2) + real m / real ?n * pi * 2" for m
    using n by (simp add: flow_angle_def add_divide_distrib algebra_simps)
  have "2 * PEER_RING gs * sin (pi / real ?n) \<le> distance (peer_at c gs i) (peer_at c gs j)"
    using ring_places_apart[OF assms(1,2,3), of "PEER_RING gs"] PEER_RING_bounds(1)[of gs]
    unfolding peer_at_def ang by simp
  ultimately show ?thesis by linarith
qed

lemma group_node_near:
  assumes "n \<in> set (group_nodes c gs (gi, g))" and "g \<in> set gs"
  shows "distance (fn_at n) (peer_at c gs gi) \<le> maxTargetRing gs" and "54 \<le> distance (fn_at n) c"
    and "distance (fn_at n) c \<le> 1020"
proof -
  from assms(1) consider "n = peer_node c gs gi g"
    | ti where "fn_at n = target_at c gs gi (length (fg_targets g)) ti"
    by (auto simp: group_nodes_def target_node_def)
  then have "distance (fn_at n) (peer_at c gs gi) \<le> maxTargetRing gs \<and> 54 \<le> distance (fn_at n) c \<and> distance (fn_at n) c \<le> 1020"
  proof cases
    case 1
    have "distance p p = 0" for p by (simp add: distance_def)
    then show ?thesis
      using 1 PEER_RING_bounds[of gs] maxTargetRing_bounds(1)[of gs] peer_at_center[of c gs gi] by (simp add: peer_node_def)
  next
    case (2 ti)
    then show ?thesis
      using target_at_center[OF assms(2), of c gi ti] maxTargetRing_bounds(3)[OF assms(2)] by (simp add: target_at_peer)
  qed
  then show "distance (fn_at n) (peer_at c gs gi) \<le> maxTargetRing gs" "54 \<le> distance (fn_at n) c" "distance (fn_at n) c \<le> 1020"
    by simp_all
qed

lemma layout_nodes:
  assumes "n \<in> set (concat (map (group_nodes c gs) (enumerate 0 gs)))"
  obtains gi where "gi < length gs" and "n \<in> set (group_nodes c gs (gi, gs ! gi))"
  using assms by (force simp: in_set_enumerate_eq)

text \<open>
  nothing crowds the hub: for any flows, however many peers and targets, every peer and every target is drawn at
  least the hub's halo and the gap away from the hub, although the radii of the rings are capped.
\<close>

theorem flow_hub_clear:
  "list_all (\<lambda>n. FLOW_HUB_HALO + FLOW_RING_GAP \<le> distance (fn_at n) c) (tl (fst (buildLayout flows c)))"
proof -
  have "54 \<le> distance (fn_at n) c" if "n \<in> set (concat (map (group_nodes c gs) (enumerate 0 gs)))" for n gs
    using that by (rule layout_nodes) (auto intro: group_node_near(2))
  then show ?thesis by (simp add: buildLayout_def Let_def list_all_iff flow_consts)
qed

lemma discs_apart:
  assumes "distance x p \<le> m" "distance y q \<le> m" "2 * m + d \<le> distance p q"
  shows "d \<le> distance x y"
  using assms distance_triangle[of p q x] distance_triangle[of x q y] distance_commute[of p x] by linarith

lemma group_nodes_apart:
  assumes "g \<in> set gs" "length (fg_targets g) \<le> 24"
  shows "sorted_wrt (\<lambda>a b. 44 \<le> distance a b) (map fn_at (group_nodes c gs (gi, g)))"
proof -
  let ?k = "length (fg_targets g)"
  have "44 \<le> distance (peer_at c gs gi) (target_at c gs gi ?k ti)" for ti
    using target_at_peer[of c gs gi ?k ti] targetRing_bounds[of ?k] by (simp add: distance_commute)
  moreover have "sorted_wrt (\<lambda>a b. 44 \<le> distance a b) (map fn_at (map (target_node c gs gi g) (enumerate 0 (fg_targets g))))"
    by (auto simp: sorted_wrt_iff_nth_less target_node_def nth_enumerate_eq case_prod_unfold intro!: targets_apart assms(2))
  ultimately show ?thesis
    by (auto simp: group_nodes_def peer_node_def target_node_def case_prod_unfold)
qed

text \<open>
  no two nodes of the flow topology overlap, as long as there are at most ten peers with at most 24 targets each: any two
  of the hub, the peers and the targets are at least two halos apart.
\<close>

theorem flow_nodes_apart:
  assumes "length (flow_groupList flows) \<le> 10" and "list_all (\<lambda>g. length (fg_targets g) \<le> 24) (flow_groupList flows)"
  shows "sorted_wrt (\<lambda>a b. 2 * FLOW_PEER_HALO \<le> distance a b) (map fn_at (fst (buildLayout flows c)))"
proof -
  let ?gs = "flow_groupList flows" and ?far = "\<lambda>a b. 44 \<le> distance a b"
  have hub: "?far c (fn_at n)" if "n \<in> set (concat (map (group_nodes c ?gs) (enumerate 0 ?gs)))" for n
    using that
  proof (rule layout_nodes)
    fix gi assume "gi < length ?gs" "n \<in> set (group_nodes c ?gs (gi, ?gs ! gi))"
    then show ?thesis using group_node_near(2)[of n c ?gs gi "?gs ! gi"] by (simp add: distance_commute)
  qed
  have "sorted_wrt ?far (concat (map (\<lambda>x. map fn_at (group_nodes c ?gs x)) (enumerate 0 ?gs)))"
    unfolding sorted_wrt_concat
  proof (intro conjI ballI)
    fix xs assume "xs \<in> set (map (\<lambda>x. map fn_at (group_nodes c ?gs x)) (enumerate 0 ?gs))"
    then obtain gi where "gi < length ?gs" "xs = map fn_at (group_nodes c ?gs (gi, ?gs ! gi))"
      by (auto simp: in_set_enumerate_eq)
    then show "sorted_wrt ?far xs" using assms(2) group_nodes_apart by (simp add: list_all_iff)
  next
    have "?far (fn_at m) (fn_at n)"
      if "i < j" "j < length ?gs" "m \<in> set (group_nodes c ?gs (i, ?gs ! i))" "n \<in> set (group_nodes c ?gs (j, ?gs ! j))" for i j m n
      using that peers_apart[of i ?gs j c] assms(1)
      by (intro discs_apart[OF group_node_near(1) group_node_near(1), OF that(3) _ that(4)]) simp_all
    then show "sorted_wrt (\<lambda>xs ys. \<forall>x\<in>set xs. \<forall>y\<in>set ys. ?far x y) (map (\<lambda>x. map fn_at (group_nodes c ?gs x)) (enumerate 0 ?gs))"
      by (auto simp: sorted_wrt_iff_nth_less nth_enumerate_eq)
  qed
  then show ?thesis using hub by (auto simp: buildLayout_def Let_def hub_node_def flow_consts map_concat comp_def)
qed

text \<open>
  Beyond that the capped ring is too small: the targets of a peer with forty or more of them overlap their neighbours.
\<close>

lemma crowded_targets_overlap:
  assumes "40 \<le> k"
  shows "distance (target_at c gs gi k 0) (target_at c gs gi k 1) < 2 * FLOW_PEER_HALO"
proof -
  have "distance (target_at c gs gi k 0) (target_at c gs gi k 1) = 2 * targetRingFor k * \<bar>sin (pi / real k)\<bar>"
    using targetRing_bounds[of k] assms by (simp add: target_at_def distance_chord Let_def)
  moreover have "\<bar>sin (pi / real k)\<bar> \<le> 4 / 40"
  proof -
    have "sin (pi / real k) \<le> pi / real k" by (rule sin_x_le_x) simp
    also have "\<dots> \<le> 4 / 40" using assms pi_less_4 by (intro frac_le) simp_all
    finally show ?thesis using sin_part_pos[of k] assms by simp
  qed
  ultimately have "distance (target_at c gs gi k 0) (target_at c gs gi k 1) \<le> (2 * 200) * (4 / 40)"
    using targetRing_bounds[of k] by (simp only:) (intro mult_mono, auto)
  then show ?thesis by (simp add: flow_consts)
qed

section \<open>Identifiers\<close>

lemma first_sep_inj:
  "c \<notin> set a \<Longrightarrow> c \<notin> set b \<Longrightarrow> a @ c # x = b @ c # y \<longleftrightarrow> a = b \<and> x = y"
proof (induction a arbitrary: b)
  case Nil
  then show ?case by (cases b) auto
next
  case (Cons z a)
  then show ?case by (cases b) auto
qed

lemma last_sep_inj:
  assumes "c \<notin> set a" "c \<notin> set b"
  shows "x @ c # a = y @ c # b \<longleftrightarrow> x = y \<and> a = b"
proof -
  have "x @ c # a = y @ c # b \<longleftrightarrow> rev (x @ c # a) = rev (y @ c # b)" by (simp only: rev_is_rev_conv)
  then show ?thesis using first_sep_inj[of c "rev a" "rev b" "rev x" "rev y"] assms by auto
qed

text \<open>Ports are natural numbers, a protocol has no colon and an address no hyphen.\<close>

definition port_ok :: "number option \<Rightarrow> bool" where
  "port_ok p \<longleftrightarrow> (case p of None \<Rightarrow> True | Some x \<Rightarrow> x = of_int \<lfloor>x\<rfloor> \<and> 0 \<le> x \<and> x < 10 ^ 21)"

definition flow_ok :: "Flow \<Rightarrow> bool" where
  "flow_ok f \<longleftrightarrow> CHR '':'' \<notin> set (fl_protocol f) \<and> CHR ''-'' \<notin> set (fe_ip (fl_source f)) \<and>
     port_ok (fl_source_port f) \<and> port_ok (fl_target_port f)"

lemma port_text_chars:
  assumes "port_ok p"
  shows "CHR '':'' \<notin> set (port_text p)" and "CHR ''-'' \<notin> set (port_text p)"
proof -
  have "is_digit c" if "c \<in> set (port_text p)" for c
  proof (cases p)
    case None
    then show ?thesis using that by (simp add: port_text_def)
  next
    case (Some x)
    then have "port_text p = nat_dec (nat \<lfloor>x\<rfloor>)" using assms by (simp add: port_ok_def port_text_def num_string_def)
    then show ?thesis using that all_digits_nat_dec[of "nat \<lfloor>x\<rfloor>"] by (auto simp: all_digits_def list_all_iff)
  qed
  moreover have "\<not> is_digit CHR '':''" "\<not> is_digit CHR ''-''" by (simp_all add: is_digit_def)
  ultimately show "CHR '':'' \<notin> set (port_text p)" "CHR ''-'' \<notin> set (port_text p)" by blast+
qed

definition key_of :: "flow_target \<Rightarrow> string" where
  "key_of t = ft_protocol t @ '':'' @ fe_ip (ft_target t) @ '':'' @ port_text (ft_target_port t)"

definition target_ok :: "flow_target \<Rightarrow> bool" where
  "target_ok t \<longleftrightarrow> CHR '':'' \<notin> set (ft_protocol t) \<and> port_ok (ft_source_port t) \<and> port_ok (ft_target_port t)"

definition group_ok :: "flow_group \<Rightarrow> bool" where
  "group_ok g \<longleftrightarrow> CHR ''-'' \<notin> set (fe_ip (fg_source g)) \<and> fg_seen g = map key_of (fg_targets g) \<and> distinct (fg_seen g) \<and>
     list_all target_ok (fg_targets g)"

lemma push_target_ok: "group_ok g \<Longrightarrow> flow_ok f \<Longrightarrow> group_ok (push_target g f)"
  by (auto simp: group_ok_def flow_ok_def push_target_def target_ok_def key_of_def target_key_def Let_def)

lemma push_target_source [simp]: "fg_source (push_target g f) = fg_source g"
  by (simp add: push_target_def Let_def)

definition groups_inv :: "(string \<times> flow_group) list \<Rightarrow> bool" where
  "groups_inv groups \<longleftrightarrow> distinct (map fst groups) \<and> (\<forall>(k, g) \<in> set groups. fe_ip (fg_source g) = k \<and> group_ok g)"

lemma alist_update_in: "x \<in> set (AList.update k v al) \<Longrightarrow> x \<in> set al \<or> x = (k, v)"
  by (induction al) (auto split: if_splits)

lemma add_flow_inv:
  assumes "groups_inv groups" "flow_ok f"
  shows "groups_inv (add_flow groups f)"
proof -
  let ?k = "fe_ip (fl_source f)"
  let ?g = "case map_of groups ?k of Some g \<Rightarrow> g | None \<Rightarrow> \<lparr>fg_source = fl_source f, fg_targets = [], fg_seen = []\<rparr>"
  have "fe_ip (fg_source ?g) = ?k \<and> group_ok ?g"
  proof (cases "map_of groups ?k")
    case None
    then show ?thesis using assms(2) by (simp add: group_ok_def flow_ok_def)
  next
    case (Some g)
    then show ?thesis using assms(1) map_of_SomeD[OF Some] by (auto simp: groups_inv_def)
  qed
  then have new: "fe_ip (fg_source (push_target ?g f)) = ?k" "group_ok (push_target ?g f)"
    using push_target_ok assms(2) by simp_all
  have "x \<in> set groups \<or> x = (?k, push_target ?g f)" if "x \<in> set (add_flow groups f)" for x
    using that unfolding add_flow_def Let_def by (rule alist_update_in)
  moreover have "distinct (map fst (add_flow groups f))"
    using assms(1) by (auto simp: add_flow_def Let_def groups_inv_def intro!: distinct_update)
  ultimately show ?thesis using assms(1) new unfolding groups_inv_def by fastforce
qed

lemma groups_inv_run: "list_all flow_ok flows \<Longrightarrow> groups_inv (foldl add_flow [] flows)"
proof (induction flows rule: rev_induct)
  case Nil
  then show ?case by (simp add: groups_inv_def)
next
  case (snoc f fs)
  then show ?case by (simp add: add_flow_inv)
qed

lemma target_id_inj:
  assumes "target_ok t" "target_ok u" "CHR ''-'' \<notin> set (fe_ip (fg_source g))" "CHR ''-'' \<notin> set (fe_ip (fg_source h))"
    and eq: "target_id g t = target_id h u"
  shows "fe_ip (fg_source g) = fe_ip (fg_source h) \<and> key_of t = key_of u"
proof -
  note pt = port_text_chars
  have "ft_protocol t = ft_protocol u" and rest:
    "(fe_ip (fg_source g) @ '':'' @ port_text (ft_source_port t)) @ CHR ''-'' # (CHR ''>'' # fe_ip (ft_target t) @ '':'' @ port_text (ft_target_port t))
     = (fe_ip (fg_source h) @ '':'' @ port_text (ft_source_port u)) @ CHR ''-'' # (CHR ''>'' # fe_ip (ft_target u) @ '':'' @ port_text (ft_target_port u))"
    using eq first_sep_inj[of "CHR '':''" "ft_protocol t" "ft_protocol u"] assms(1,2) by (simp_all add: target_id_def target_ok_def)
  have "CHR ''-'' \<notin> set (fe_ip (fg_source g) @ '':'' @ port_text (ft_source_port t))"
    "CHR ''-'' \<notin> set (fe_ip (fg_source h) @ '':'' @ port_text (ft_source_port u))"
    using assms pt(2) by (simp_all add: target_ok_def)
  from first_sep_inj[THEN iffD1, OF this rest]
  have "fe_ip (fg_source g) @ CHR '':'' # port_text (ft_source_port t) = fe_ip (fg_source h) @ CHR '':'' # port_text (ft_source_port u)"
    and "fe_ip (ft_target t) @ '':'' @ port_text (ft_target_port t) = fe_ip (ft_target u) @ '':'' @ port_text (ft_target_port u)"
    by simp_all
  then show ?thesis
    using last_sep_inj[of "CHR '':''" "port_text (ft_source_port t)" "port_text (ft_source_port u)"] pt(1) assms(1,2)
      \<open>ft_protocol t = ft_protocol u\<close> by (simp add: target_ok_def key_of_def)
qed

lemma map_enumerate_snd: "map (\<lambda>x. f (snd x)) (enumerate n xs) = map f xs"
  by (induction xs arbitrary: n) simp_all

lemma group_ids:
  "map fn_id (group_nodes c gs (gi, g)) = peer_id g # map (target_id g) (fg_targets g)"
  by (simp add: group_nodes_def peer_node_def target_node_def comp_def case_prod_unfold map_enumerate_snd)

definition group_id_list :: "flow_group \<Rightarrow> string list" where
  "group_id_list g = peer_id g # map (target_id g) (fg_targets g)"

lemma layout_ids:
  "map fn_id (fst (buildLayout flows c)) = HUB_ID # concat (map group_id_list (flow_groupList flows))"
proof -
  let ?gs = "flow_groupList flows"
  have "map fn_id (group_nodes c ?gs x) = group_id_list (snd x)" for x
    using group_ids[of c ?gs "fst x" "snd x"] by (simp add: group_id_list_def)
  then have "map (\<lambda>x. map fn_id (group_nodes c ?gs x)) (enumerate 0 ?gs) = map group_id_list ?gs"
    by (simp add: map_enumerate_snd)
  then show ?thesis by (simp add: buildLayout_def Let_def hub_node_def map_concat comp_def)
qed

lemma group_id_list_distinct:
  assumes "group_ok g"
  shows "distinct (group_id_list g)"
proof -
  have "peer_id g \<notin> set (map (target_id g) (fg_targets g))" by (auto simp: peer_id_def target_id_def)
  moreover have "inj_on (target_id g) (set (fg_targets g))"
  proof (rule inj_onI)
    fix t u assume *: "t \<in> set (fg_targets g)" "u \<in> set (fg_targets g)" "target_id g t = target_id g u"
    then have "key_of t = key_of u" using target_id_inj[of t u g g] assms by (auto simp: group_ok_def list_all_iff)
    then show "t = u" using * assms by (auto simp: group_ok_def distinct_map dest: inj_onD)
  qed
  moreover have "distinct (fg_targets g)" using assms by (auto simp: group_ok_def distinct_map)
  ultimately show ?thesis by (simp add: group_id_list_def distinct_map)
qed

lemma group_id_lists_disjoint:
  assumes "group_ok g" "group_ok h" "fe_ip (fg_source g) \<noteq> fe_ip (fg_source h)"
  shows "set (group_id_list g) \<inter> set (group_id_list h) = {}"
proof -
  have "target_id g t \<noteq> target_id h u" if "t \<in> set (fg_targets g)" "u \<in> set (fg_targets h)" for t u
    using target_id_inj[of t u g h] assms that by (auto simp: group_ok_def list_all_iff)
  moreover have "peer_id x \<noteq> target_id y t" for x y t by (simp add: peer_id_def target_id_def)
  moreover have "peer_id g \<noteq> peer_id h" using assms(3) by (simp add: peer_id_def)
  ultimately show ?thesis unfolding group_id_list_def by auto
qed

text \<open>
  the nodes of the flow topology have distinct identifiers, for any flows whose addresses have no hyphen, whose protocols have no
  colon and whose ports are natural numbers: two places never share a React key or the record of where they were dragged.
\<close>

theorem flow_ids_distinct:
  assumes "list_all flow_ok flows"
  shows "distinct (map fn_id (fst (buildLayout flows c)))"
proof -
  let ?m = "foldl add_flow [] flows" and ?gs = "flow_groupList flows"
  have inv: "groups_inv ?m" using assms by (rule groups_inv_run)
  have ok: "group_ok g" if "g \<in> set ?gs" for g using inv that by (auto simp: groups_inv_def flow_groupList_def)
  have "map (\<lambda>g. fe_ip (fg_source g)) ?gs = map fst ?m"
    using inv by (auto simp: groups_inv_def flow_groupList_def)
  then have ips: "distinct (map (\<lambda>g. fe_ip (fg_source g)) ?gs)" using inv by (simp add: groups_inv_def)
  have "distinct (concat (map group_id_list gs))"
    if "\<And>g. g \<in> set gs \<Longrightarrow> group_ok g" "distinct (map (\<lambda>g. fe_ip (fg_source g)) gs)" for gs
    using that
  proof (induction gs)
    case (Cons g gs)
    have "set (group_id_list g) \<inter> set (group_id_list h) = {}" if "h \<in> set gs" for h
      using that Cons.prems by (intro group_id_lists_disjoint) (auto simp: image_iff)
    then show ?case using Cons group_id_list_distinct[of g] by auto
  qed simp
  then have "distinct (concat (map group_id_list ?gs))" using ok ips by blast
  moreover have "HUB_ID \<notin> set (concat (map group_id_list ?gs))"
    by (auto simp: HUB_ID_def group_id_list_def peer_id_def target_id_def)
  ultimately show ?thesis by (simp add: layout_ids)
qed

definition sample_endpoint :: "string \<Rightarrow> string \<Rightarrow> FlowEndpoint" where
  "sample_endpoint ip name = \<lparr>fe_ip = ip, fe_name = name, fe_device_id = None, fe_user_id = None\<rparr>"

definition sample_flow :: "string \<Rightarrow> number \<Rightarrow> string \<Rightarrow> number \<Rightarrow> Flow" where
  "sample_flow src sport dst dport =
     \<lparr>fl_source = sample_endpoint src ''laptop'', fl_target = sample_endpoint dst ''External'', fl_source_port = Some sport,
      fl_target_port = Some dport, fl_protocol = ''tcp''\<rparr>"

definition sample_flows :: "Flow list" where
  "sample_flows =
     [sample_flow ''10.0.0.2'' 1000 ''1.1.1.1'' 443, sample_flow ''10.0.0.3'' 7 ''1.1.1.1'' 443, sample_flow ''10.0.0.2'' 1001 ''1.1.1.1'' 53]"

lemma sample_groups: "map (\<lambda>g. length (fg_targets g)) (flow_groupList sample_flows) = [2, 1]"
  by (simp add: sample_flows_def sample_flow_def sample_endpoint_def flow_groupList_def add_flow_def push_target_def target_key_def
      port_text_def num_string_def int_dec_def nat_dec.simps Let_def)

theorem flow_nodes_apart_witness:
  "sorted_wrt (\<lambda>a b. 2 * FLOW_PEER_HALO \<le> distance a b) (map fn_at (fst (buildLayout sample_flows (400, 300))))"
proof (rule flow_nodes_apart)
  show "length (flow_groupList sample_flows) \<le> 10" using arg_cong[OF sample_groups, of length] by simp
  show "list_all (\<lambda>g. length (fg_targets g) \<le> 24) (flow_groupList sample_flows)"
    using arg_cong[OF sample_groups, of "list_all (\<lambda>n. n \<le> 24)"] by (simp add: list_all_iff)
qed

theorem flow_ids_distinct_witness: "distinct (map fn_id (fst (buildLayout sample_flows (400, 300))))"
  by (rule flow_ids_distinct)
    (simp add: sample_flows_def sample_flow_def sample_endpoint_def flow_ok_def port_ok_def)

text \<open>
  A target is identified by the source port of the first of its flows, so when the flows come back in another order
  the same target has another identifier, and what was dragged under the old one is forgotten.
\<close>

lemma digit_chars: "digit_char (Suc 0) = CHR ''1''" "digit_char 2 = CHR ''2''" "digit_char 3 = CHR ''3''" "digit_char 4 = CHR ''4''"
  by code_simp+

lemma target_id_depends_on_order:
  "map fn_id (fst (buildLayout [sample_flow ''10.0.0.2'' 1 ''1.1.1.1'' 443, sample_flow ''10.0.0.2'' 2 ''1.1.1.1'' 443] c))
     = [''hub'', ''peer:10.0.0.2'', ''t:tcp:10.0.0.2:1->1.1.1.1:443''] \<and>
   map fn_id (fst (buildLayout [sample_flow ''10.0.0.2'' 2 ''1.1.1.1'' 443, sample_flow ''10.0.0.2'' 1 ''1.1.1.1'' 443] c))
     = [''hub'', ''peer:10.0.0.2'', ''t:tcp:10.0.0.2:2->1.1.1.1:443'']"
  unfolding layout_ids
  by (simp add: sample_flow_def sample_endpoint_def flow_groupList_def add_flow_def push_target_def target_key_def
      port_text_def num_string_def int_dec_def nat_dec.simps Let_def group_id_list_def peer_id_def target_id_def HUB_ID_def digit_chars)

section \<open>Runs of the canvas\<close>

lemma autoFitScale_eq:
  "fc_dims s = fc_dims t \<Longrightarrow> fc_liveOnly s = fc_liveOnly t \<Longrightarrow> fc_flows s = fc_flows t \<Longrightarrow> autoFitScale s = autoFitScale t"
proof -
  assume eq: "fc_dims s = fc_dims t" "fc_liveOnly s = fc_liveOnly t" "fc_flows s = fc_flows t"
  then have "flow_layout s = flow_layout t" "flow_center s = flow_center t"
    by (simp_all add: flow_layout_def filteredFlows_def flow_center_def)
  then have "contentRadius s = contentRadius t" unfolding contentRadius_def by simp
  then show ?thesis unfolding autoFitScale_def eq by (simp add: Let_def)
qed

lemma autoFitScale_bounds: "MIN_ZOOM \<le> autoFitScale s" "autoFitScale s \<le> 1"
proof -
  define half where "half = min (fst (fc_dims s)) (snd (fc_dims s)) / 2"
  have eq: "autoFitScale s =
      (if contentRadius s \<le> 0 then 1 else if contentRadius s \<le> half then 1 else max MIN_ZOOM (half / contentRadius s))"
    by (simp only: autoFitScale_def Let_def half_def)
  have m: "MIN_ZOOM \<le> 1" by (simp add: MIN_ZOOM_def)
  then show "MIN_ZOOM \<le> autoFitScale s" unfolding eq by simp
  have "half / contentRadius s \<le> 1" if "\<not> contentRadius s \<le> half" "\<not> contentRadius s \<le> 0"
    using that by (simp add: divide_le_eq)
  then show "autoFitScale s \<le> 1" using m unfolding eq by simp
qed

text \<open>The invariant: the zoom stays in its range, and until the user touches the view it is the fitted one.\<close>

definition canvas_ok :: "flow_canvas \<Rightarrow> bool" where
  "canvas_ok s \<longleftrightarrow> MIN_ZOOM \<le> fc_scale s \<and> fc_scale s \<le> MAX_ZOOM \<and> (fc_touched s \<or> \<bar>fc_scale s - autoFitScale s\<bar> \<le> 0.001)"

lemma fit_effect_ok:
  assumes "MIN_ZOOM \<le> fc_scale s" "fc_scale s \<le> MAX_ZOOM"
  shows "canvas_ok (fit_effect s)"
proof -
  have "autoFitScale (s\<lparr>fc_scale := x\<rparr>) = autoFitScale s" for x by (rule autoFitScale_eq) simp_all
  then show ?thesis
    using assms autoFitScale_bounds[of s] by (auto simp: canvas_ok_def fit_effect_def flow_consts)
qed

lemma canvas_ok_step: "canvas_ok s \<Longrightarrow> canvas_ok (flow_step s e)"
proof (cases e)
  case (Fe_wheel dy)
  then show "canvas_ok s \<Longrightarrow> ?thesis" by (simp add: canvas_ok_def flow_onWheel_def MIN_ZOOM_def MAX_ZOOM_def min_def max_def)
next
  case (Fe_node n p)
  have "autoFitScale (s\<lparr>fc_drag := x\<rparr>) = autoFitScale s" for x by (rule autoFitScale_eq) simp_all
  then show "canvas_ok s \<Longrightarrow> ?thesis" using Fe_node by (simp add: canvas_ok_def onNodePointerDown_def split: option.split)
next
  case (Fe_move p)
  have "autoFitScale (s\<lparr>fc_overrides := x\<rparr>) = autoFitScale s" "autoFitScale (s\<lparr>fc_t := y\<rparr>) = autoFitScale s" for x y
    by (rule autoFitScale_eq; simp)+
  then show "canvas_ok s \<Longrightarrow> ?thesis" using Fe_move by (simp add: canvas_ok_def flow_onPointerMove_def Let_def split: option.split)
next
  case Fe_up
  have "autoFitScale (s\<lparr>fc_drag := None, fc_pan := None\<rparr>) = autoFitScale s" by (rule autoFitScale_eq) simp_all
  then show "canvas_ok s \<Longrightarrow> ?thesis" using Fe_up by (simp add: canvas_ok_def flow_onPointerUp_def)
next
  case (Fe_resize w h)
  have "canvas_ok s \<Longrightarrow> canvas_ok (fit_effect (s\<lparr>fc_dims := (w, h)\<rparr>))" by (rule fit_effect_ok) (simp_all add: canvas_ok_def)
  then show "canvas_ok s \<Longrightarrow> ?thesis" using Fe_resize by (simp add: flow_resized_def)
next
  case (Fe_background b p)
  then show "canvas_ok s \<Longrightarrow> ?thesis" by (simp add: canvas_ok_def onBackgroundPointerDown_def)
qed (auto simp: flow_polled_def flow_setLiveOnly_def canvas_ok_def [of s] intro!: fit_effect_ok)

lemma canvas_ok_run: "canvas_ok (flow_run liveOnly flows es)"
proof -
  have "canvas_ok (flow_mount liveOnly flows)"
    unfolding flow_mount_def by (rule fit_effect_ok) (simp_all add: flow_consts)
  then show ?thesis
    unfolding flow_run_def by (induction es rule: rev_induct) (simp_all add: canvas_ok_step)
qed

lemma foldl_max_distance:
  fixes m :: real
  shows "m \<le> foldl (\<lambda>m n. let d = f n in if d > m then d else m) m ns"
    and "n \<in> set ns \<Longrightarrow> f n \<le> foldl (\<lambda>m n. let d = f n in if d > m then d else m) m ns"
    and "(\<And>n. n \<in> set ns \<Longrightarrow> f n \<le> b) \<Longrightarrow> m \<le> b \<Longrightarrow> foldl (\<lambda>m n. let d = f n in if d > m then d else m) m ns \<le> b"
proof -
  have eq: "foldl (\<lambda>m n. let d = f n in if d > m then d else m) m ns = foldl max m (map f ns)" for m
    by (induction ns arbitrary: m) (auto simp: Let_def max_def)
  show "m \<le> foldl (\<lambda>m n. let d = f n in if d > m then d else m) m ns"
    unfolding eq by (rule foldl_max_bounds(2))
  show "n \<in> set ns \<Longrightarrow> f n \<le> foldl (\<lambda>m n. let d = f n in if d > m then d else m) m ns"
    unfolding eq by (rule foldl_max_bounds(3)) simp
  show "(\<And>n. n \<in> set ns \<Longrightarrow> f n \<le> b) \<Longrightarrow> m \<le> b \<Longrightarrow> foldl (\<lambda>m n. let d = f n in if d > m then d else m) m ns \<le> b"
    unfolding eq by (rule foldl_max_bounds(1)) auto
qed

lemma layout_within:
  assumes "n \<in> set (flow_layout s)"
  shows "distance (fn_at n) (flow_center s) \<le> 1020"
proof -
  let ?gs = "flow_groupList (filteredFlows s)" and ?c = "flow_center s"
  have "n = hub_node ?c \<or> n \<in> set (concat (map (group_nodes ?c ?gs) (enumerate 0 ?gs)))"
    using assms by (simp add: flow_layout_def buildLayout_def Let_def)
  then show ?thesis
  proof
    assume "n = hub_node ?c"
    then show ?thesis by (simp add: hub_node_def distance_def)
  next
    assume "n \<in> set (concat (map (group_nodes ?c ?gs) (enumerate 0 ?gs)))"
    then show ?thesis by (rule layout_nodes) (auto intro: group_node_near(3))
  qed
qed

lemma contentRadius_bounds:
  shows "n \<in> set (flow_layout s) \<Longrightarrow> distance (fn_at n) (flow_center s) + FLOW_PEER_HALO + 60 \<le> contentRadius s"
    and "82 \<le> contentRadius s" and "contentRadius s \<le> 1102"
proof -
  have ne: "flow_layout s \<noteq> []" by (simp add: flow_layout_def buildLayout_def Let_def)
  then have eq: "contentRadius s =
      foldl (\<lambda>m n. let d = distance (fn_at n) (flow_center s) in if d > m then d else m) 0 (flow_layout s) + 22 + 60"
    by (simp add: contentRadius_def FLOW_PEER_HALO_def)
  show "n \<in> set (flow_layout s) \<Longrightarrow> distance (fn_at n) (flow_center s) + FLOW_PEER_HALO + 60 \<le> contentRadius s"
    unfolding eq FLOW_PEER_HALO_def
    using foldl_max_distance(2)[of n "flow_layout s" "\<lambda>n. distance (fn_at n) (flow_center s)" 0] by simp
  show "82 \<le> contentRadius s"
    unfolding eq using foldl_max_distance(1)[of 0 "\<lambda>n. distance (fn_at n) (flow_center s)" "flow_layout s"] by simp
  have "foldl (\<lambda>m n. let d = distance (fn_at n) (flow_center s) in if d > m then d else m) 0 (flow_layout s) \<le> 1020"
    by (rule foldl_max_distance(3)) (simp_all add: layout_within)
  then show "contentRadius s \<le> 1102" unfolding eq by simp
qed


lemma fit_effect_keeps [simp]:
  "fc_dims (fit_effect s) = fc_dims s" "fc_observed (fit_effect s) = fc_observed s" "fc_touched (fit_effect s) = fc_touched s"
  by (simp_all add: fit_effect_def)


text \<open>
  A canvas that mounts before the first flows have arrived is never measured: it lays its nodes out for 800 by 600 pixels, however large it is.
\<close>

lemma unmeasured_canvas: "fc_dims (flow_run liveOnly [] es) = (800, 600) \<and> \<not> fc_observed (flow_run liveOnly [] es)"
proof -
  have "fc_dims (flow_step s e) = fc_dims s \<and> \<not> fc_observed (flow_step s e)" if "\<not> fc_observed s" for s e
    using that by (cases e) (auto simp: flow_resized_def flow_polled_def flow_setLiveOnly_def onBackgroundPointerDown_def
        onNodePointerDown_def flow_onPointerMove_def flow_onPointerUp_def flow_onWheel_def Let_def split: option.split)
  then show ?thesis
    unfolding flow_run_def by (induction es rule: rev_induct) (auto simp: flow_mount_def)
qed

section \<open>Dragged nodes\<close>

lemma nodePositions_override:
  assumes "map_of (fc_overrides s) i = Some q" and "i \<in> set (map fn_id (flow_layout s))"
  shows "map_of (nodePositions s) i = Some q"
proof -
  have "map_of (foldl (\<lambda>out n. AList.update (fn_id n) (case map_of (fc_overrides s) (fn_id n) of Some p \<Rightarrow> p | None \<Rightarrow> fn_at n) out) out ns) i
      = (if i \<in> set (map fn_id ns) then Some q else map_of out i)" for out and ns :: "FlowNode list"
    using assms(1) by (induction ns arbitrary: out) (auto simp: update_conv')
  then show ?thesis using assms(2) by (simp only: nodePositions_def if_True)
qed

fun grabs_node :: "flow_event \<Rightarrow> bool" where
  "grabs_node (Fe_node i p) = True"
| "grabs_node _ = False"

lemma override_kept:
  assumes "fc_drag s = None" and "\<not> grabs_node e"
  shows "fc_drag (flow_step s e) = None \<and> fc_overrides (flow_step s e) = fc_overrides s"
  using assms
  by (cases e) (auto simp: fit_effect_def flow_resized_def flow_polled_def flow_setLiveOnly_def onBackgroundPointerDown_def
      flow_onPointerMove_def flow_onPointerUp_def flow_onWheel_def split: option.split)

text \<open>
  A dragged node stays where it was put: through any polls, resizes, filters, pans and zooms it is drawn there whenever a node
  with its identifier is laid out.
\<close>

lemma dragged_node_stays:
  assumes "fc_drag s = None" and "map_of (fc_overrides s) i = Some q" and "list_all (\<lambda>e. \<not> grabs_node e) es"
    and "i \<in> set (map fn_id (flow_layout (foldl flow_step s es)))"
  shows "map_of (nodePositions (foldl flow_step s es)) i = Some q"
proof -
  have "fc_drag (foldl flow_step s es) = None \<and> fc_overrides (foldl flow_step s es) = fc_overrides s"
    using assms(3)
  proof (induction es rule: rev_induct)
    case (snoc e es)
    then show ?case using override_kept[of "foldl flow_step s es" e] by simp
  qed (simp add: assms(1))
  then show ?thesis using nodePositions_override assms(2,4) by simp
qed

end
