(* ===== verification/Device_Card.thy ===== *)
theory Device_Card
  imports Devices_Page Units Datetime
begin

text \<open>
  The card of a device, src/web/src/components/DeviceCard.tsx, with the labels of src/web/src/lib/deviceIcons.ts: what it shows of the persisted device and of the live store at a tick of
  the clock.  \<open>parse\<close> is \<open>Date.parse\<close> (\<open>None\<close> for NaN), \<open>tza\<close> the local time-zone adjustment; the preferences of the formatters and the
  times the connectivity hook reads are gathered in \<open>card_env\<close>.
\<close>

record card_env =
  ce_parse :: "string \<Rightarrow> int option"
  ce_tza :: "int \<Rightarrow> int"
  ce_prefs :: datetime_prefs
  ce_units :: UnitsPref
  ce_clock :: number
  ce_now :: int
  ce_visibleSince :: number

text \<open>The labels and glyphs of src/web/src/lib/deviceIcons.ts.\<close>

fun osLabel :: "DeviceOs \<Rightarrow> string" where
  "osLabel Os_ios = ''iOS''"
| "osLabel Os_android = ''Android''"
| "osLabel Os_macos = ''macOS''"
| "osLabel Os_windows = ''Windows''"
| "osLabel Os_linux = ''Linux''"
| "osLabel Os_other = ''Other''"

fun deviceTypeLabel :: "DeviceType \<Rightarrow> string" where
  "deviceTypeLabel Type_phone = ''Phone''"
| "deviceTypeLabel Type_tablet = ''Tablet''"
| "deviceTypeLabel Type_laptop = ''Laptop''"
| "deviceTypeLabel Type_desktop = ''Desktop''"
| "deviceTypeLabel Type_tv = ''TV''"
| "deviceTypeLabel Type_router = ''Router''"
| "deviceTypeLabel Type_watch = ''Watch''"
| "deviceTypeLabel Type_iot = ''IoT''"
| "deviceTypeLabel Type_server = ''Server''"
| "deviceTypeLabel Type_other = ''Other''"

fun DEVICE_TYPE_ICONS :: "DeviceType \<Rightarrow> string" where
  "DEVICE_TYPE_ICONS Type_phone = ''IconDeviceMobile''"
| "DEVICE_TYPE_ICONS Type_tablet = ''IconDeviceTablet''"
| "DEVICE_TYPE_ICONS Type_laptop = ''IconDeviceLaptop''"
| "DEVICE_TYPE_ICONS Type_desktop = ''IconDeviceDesktop''"
| "DEVICE_TYPE_ICONS Type_tv = ''IconDeviceTv''"
| "DEVICE_TYPE_ICONS Type_router = ''IconRouter''"
| "DEVICE_TYPE_ICONS Type_watch = ''IconDeviceWatch''"
| "DEVICE_TYPE_ICONS Type_iot = ''IconCpu''"
| "DEVICE_TYPE_ICONS Type_server = ''IconServer''"
| "DEVICE_TYPE_ICONS Type_other = ''IconDeviceUnknown''"

definition OS_OPTIONS :: "(DeviceOs \<times> string) list" where
  "OS_OPTIONS =
     [(Os_ios, ''iOS''), (Os_android, ''Android''), (Os_macos, ''macOS''), (Os_windows, ''Windows''), (Os_linux, ''Linux'')]"

definition DEVICE_TYPE_OPTIONS :: "(DeviceType \<times> string) list" where
  "DEVICE_TYPE_OPTIONS =
     [(Type_phone, ''Phone''), (Type_tablet, ''Tablet''), (Type_laptop, ''Laptop''), (Type_desktop, ''Desktop''), (Type_tv, ''TV''),
      (Type_router, ''Router''), (Type_watch, ''Watch''), (Type_iot, ''IoT''), (Type_server, ''Server'')]"

definition card_title :: "PublicDevice \<Rightarrow> string" where
  "card_title d = deviceTypeLabel (pd_device_type d) @ '' '' @ middle_dot @ '' '' @ osLabel (pd_os d)"

definition CHART_WINDOW :: nat where
  "CHART_WINDOW = 30"

definition parse_number :: "card_env \<Rightarrow> string \<Rightarrow> number option" where
  "parse_number env h = map_option of_int (ce_parse env h)"

definition card_isOnline :: "card_env \<Rightarrow> LiveStatsState \<Rightarrow> PublicDevice \<Rightarrow> bool" where
  "card_isOnline env s d =
     useDeviceOnline (parse_number env) (ce_clock env) (of_int (ce_now env)) (ce_visibleSince env) s (Some d)"

definition card_live :: "LiveStatsState \<Rightarrow> PublicDevice \<Rightarrow> DeviceLive option" where
  "card_live s d = map_of (devices s) (pd_id d)"

definition card_rates :: "card_env \<Rightarrow> LiveStatsState \<Rightarrow> PublicDevice \<Rightarrow> number \<times> number" where
  "card_rates env s d =
     (if card_isOnline env s d
      then (case card_live s d of Some l \<Rightarrow> (dl_rxBps l, dl_txBps l) | None \<Rightarrow> (0, 0))
      else (0, 0))"

definition card_history :: "card_env \<Rightarrow> LiveStatsState \<Rightarrow> PublicDevice \<Rightarrow> number list \<times> number list" where
  "card_history env s d =
     (if card_isOnline env s d
      then (case card_live s d of
              Some l \<Rightarrow> (slice_last CHART_WINDOW (dl_rxHistory l), slice_last CHART_WINDOW (dl_txHistory l))
            | None \<Rightarrow> ([], []))
      else ([], []))"

text \<open>The chart slot: the two traces, or the text of the placeholder.\<close>

definition card_chart :: "card_env \<Rightarrow> LiveStatsState \<Rightarrow> PublicDevice \<Rightarrow> (number list \<times> number list) + string" where
  "card_chart env s d =
     (let isOnline = card_isOnline env s d; (rx, tx) = card_history env s d in
      if isOnline \<and> (rx \<noteq> [] \<or> tx \<noteq> []) then Inl (rx, tx)
      else Inr (if isOnline then ''connecting'' @ ellipsis
                else if pd_last_handshake_at d \<noteq> None then ''offline'' else ''not connected''))"

definition card_peerHost :: "PublicDevice \<Rightarrow> string option" where
  "card_peerHost d = map_option endpointHost (truthy_str (pd_last_peer_endpoint d))"

definition card_endpoint_title :: "card_env \<Rightarrow> PublicDevice \<Rightarrow> string" where
  "card_endpoint_title env d =
     (case truthy_str (card_peerHost d) of
        Some host \<Rightarrow>
          (case truthy_str (pd_last_peer_endpoint_at d) of
             Some seen \<Rightarrow> ''Last connected from '' @ host @ '' '' @ middle_dot @ '' seen '' @
                         formatDateTime (ce_parse env) (ce_tza env) (ce_prefs env) (DV_string seen)
           | None \<Rightarrow> ''Last connected from '' @ host)
      | None \<Rightarrow> ''No endpoint observed yet'')"

record card_view =
  cv_pill :: Status
  cv_chart :: "(number list \<times> number list) + string"
  cv_rate :: "(string \<times> string) option"
  cv_link :: "string option"
  cv_openLink :: bool
  cv_seenTip :: string
  cv_seen :: string
  cv_endpointTitle :: string
  cv_endpoint :: string
  cv_copyEndpoint :: "string option"
  cv_totals :: "string \<times> string"

definition DeviceCard :: "card_env \<Rightarrow> LiveStatsState \<Rightarrow> bool \<Rightarrow> bool \<Rightarrow> bool \<Rightarrow> PublicDevice \<Rightarrow> card_view" where
  "DeviceCard env s hideDetail hasActions showOpenLink d =
     (let isOnline = card_isOnline env s d;
          (rxBps, txBps) = card_rates env s d;
          (totalRx, totalTx) = useLiveTotal s (pd_id d) (pd_total_rx_bytes d) (pd_total_tx_bytes d);
          total_text = (\<lambda>t. if pd_last_handshake_at d \<noteq> None then compactBytes (Fin t) else em_dash)
      in \<lparr>cv_pill = rowPill (if isOnline then Online else Offline) (peerState d),
          cv_chart = card_chart env s d,
          cv_rate = (if isOnline then Some (formatBps (ce_units env) (Fin rxBps), formatBps (ce_units env) (Fin txBps)) else None),
          cv_link = (if hideDetail then None else Some (''/app/devices/'' @ pd_id d)),
          cv_openLink = (showOpenLink \<and> \<not> hasActions \<and> \<not> hideDetail),
          cv_seenTip = (case truthy_str (pd_last_handshake_at d) of
             Some h \<Rightarrow> formatDateTime (ce_parse env) (ce_tza env) (ce_prefs env) (DV_string h)
           | None \<Rightarrow> ''Never connected''),
          cv_seen = formatAgo (ce_parse env) (map_option DV_string (pd_last_handshake_at d)) (ce_now env) ''Never'',
          cv_endpointTitle = card_endpoint_title env d,
          cv_endpoint = ''via '' @ (case card_peerHost d of Some host \<Rightarrow> host | None \<Rightarrow> em_dash),
          cv_copyEndpoint = truthy_str (pd_last_peer_endpoint d),
          cv_totals = (total_text totalRx, total_text totalTx)\<rparr>)"

section \<open>What a card shows holds together\<close>

lemma online_is_live: "card_isOnline env s d \<Longrightarrow> pd_status d = Dev_active \<and> pd_last_handshake_at d \<noteq> None"
  by (auto simp: card_isOnline_def useDeviceOnline_def isLiveOnline_def connState_def split: if_splits)

text \<open>
  C36: the parts of a device card agree: it carries the online pill exactly when it shows live rates; it draws a trace only then, and a
  device that is paused, revoked or has never connected shows neither, whatever the live store still holds for it.
\<close>

theorem card_consistent:
  "(cv_pill (DeviceCard env s hide acts link d) = Pill_online \<longleftrightarrow> cv_rate (DeviceCard env s hide acts link d) \<noteq> None) \<and>
   (isl (cv_chart (DeviceCard env s hide acts link d)) = (cv_rate (DeviceCard env s hide acts link d) \<noteq> None \<and>
      card_history env s d \<noteq> ([], []))) \<and>
   (cv_rate (DeviceCard env s hide acts link d) = None \<or> pd_status d = Dev_active \<and> pd_last_handshake_at d \<noteq> None)"
proof -
  have "peerState d = Peer_live" if "card_isOnline env s d" using online_is_live[OF that] by (simp add: peerState_def)
  moreover have "cv_rate (DeviceCard env s hide acts link d) \<noteq> None \<longleftrightarrow> card_isOnline env s d"
    by (simp add: DeviceCard_def Let_def split_beta)
  moreover have "cv_pill (DeviceCard env s hide acts link d) = rowPill (if card_isOnline env s d then Online else Offline) (peerState d)"
    by (simp add: DeviceCard_def Let_def split_beta)
  moreover have "isl (card_chart env s d) \<longleftrightarrow> card_isOnline env s d \<and> card_history env s d \<noteq> ([], [])"
    by (auto simp: card_chart_def Let_def split_beta prod_eq_iff)
  moreover have "cv_chart (DeviceCard env s hide acts link d) = card_chart env s d" by (simp add: DeviceCard_def Let_def split_beta)
  ultimately show ?thesis using online_is_live[of env s d] by (auto simp: rowPill_def)
qed

lemma deviceTypeLabel_inj: "deviceTypeLabel a = deviceTypeLabel b \<Longrightarrow> a = b"
  by (cases a; cases b) simp_all

text \<open>The pickers offer every system and form factor but the legacy one, each once and under the label the pages show for it.\<close>

lemma option_labels:
  "map snd DEVICE_TYPE_OPTIONS = map (deviceTypeLabel \<circ> fst) DEVICE_TYPE_OPTIONS" "map snd OS_OPTIONS = map (osLabel \<circ> fst) OS_OPTIONS"
  "t \<in> fst ` set DEVICE_TYPE_OPTIONS \<longleftrightarrow> t \<noteq> Type_other" "u \<in> fst ` set OS_OPTIONS \<longleftrightarrow> u \<noteq> Os_other"
  by (simp_all add: DEVICE_TYPE_OPTIONS_def OS_OPTIONS_def) ((cases t; simp), (cases u; simp))

end
