(* ===== verification/Dashboard_Page.thy ===== *)
theory Dashboard_Page
  imports Device_Card History_Hydration
begin

text \<open>
  The dashboard, src/web/src/pages/app/Dashboard.tsx: which histories it asks for, the totals and live rates of its strip, the
  sparkline over all devices that are online, the quota, and the formatter of its rates.
\<close>

section \<open>Devices and totals\<close>

definition dash_deviceIds :: "PublicDevice list option \<Rightarrow> string list" where
  "dash_deviceIds data =
     map pd_id (filter (\<lambda>d. pd_status d = Dev_active \<or> pd_status d = Dev_paused) (case data of Some ds \<Rightarrow> ds | None \<Rightarrow> []))"

definition dash_rates :: "LiveStatsState \<Rightarrow> (string \<times> (number \<times> number)) list" where
  "dash_rates s = fold (\<lambda>(i, d) m. AList.update i (dl_rxBps d, dl_txBps d) m) (devices s) []"

definition dash_totalRxBytes :: "LiveStatsState \<Rightarrow> PublicDevice list \<Rightarrow> number" where
  "dash_totalRxBytes s ds =
     foldl (\<lambda>a d. a + max (pd_total_rx_bytes d) (case map_of (devices s) (pd_id d) of Some l \<Rightarrow> dl_lifeRxBytes l | None \<Rightarrow> 0)) 0 ds"

definition dash_totalTxBytes :: "LiveStatsState \<Rightarrow> PublicDevice list \<Rightarrow> number" where
  "dash_totalTxBytes s ds =
     foldl (\<lambda>a d. a + max (pd_total_tx_bytes d) (case map_of (devices s) (pd_id d) of Some l \<Rightarrow> dl_lifeTxBytes l | None \<Rightarrow> 0)) 0 ds"

definition dash_totalUsageBytes :: "LiveStatsState \<Rightarrow> PublicDevice list \<Rightarrow> number" where
  "dash_totalUsageBytes s ds = dash_totalRxBytes s ds + dash_totalTxBytes s ds"

definition dash_quotaPct :: "number option \<Rightarrow> number \<Rightarrow> int option" where
  "dash_quotaPct cap used =
     (case cap of Some c \<Rightarrow> if c > 0 then Some (min 100 (Math_round ((used / c) * 100))) else None | None \<Rightarrow> None)"

section \<open>Live numbers\<close>

definition onlineDeviceIds :: "(string \<Rightarrow> number option) \<Rightarrow> number \<Rightarrow> PublicDevice list \<Rightarrow> string list" where
  "onlineDeviceIds parse clock ds = map pd_id (filter (\<lambda>d. connState parse clock d = Online) ds)"

definition dash_totalRx :: "LiveStatsState \<Rightarrow> string list \<Rightarrow> number" where
  "dash_totalRx s ids = foldl (\<lambda>a i. a + (case map_of (dash_rates s) i of Some r \<Rightarrow> fst r | None \<Rightarrow> 0)) 0 ids"

definition dash_totalTx :: "LiveStatsState \<Rightarrow> string list \<Rightarrow> number" where
  "dash_totalTx s ids = foldl (\<lambda>a i. a + (case map_of (dash_rates s) i of Some r \<Rightarrow> snd r | None \<Rightarrow> 0)) 0 ids"

definition SPARK_WINDOW :: nat where
  "SPARK_WINDOW = 32"

text \<open>The first loop of \<open>liveHistory\<close>: the longest slice and the slices of both sides.\<close>

definition push_slices ::
  "LiveStatsState \<Rightarrow> string \<Rightarrow> nat \<times> number list list \<times> number list list \<Rightarrow> nat \<times> number list list \<times> number list list" where
  "push_slices s i acc =
     (case acc of (maxLen, rxSlices, txSlices) \<Rightarrow>
       (case map_of (devices s) i of
          None \<Rightarrow> acc
        | Some d \<Rightarrow>
            (let rx = slice_last SPARK_WINDOW (dl_rxHistory d); tx = slice_last SPARK_WINDOW (dl_txHistory d) in
             if length rx = 0 \<and> length tx = 0 then acc
             else (max (max maxLen (length rx)) (length tx), rxSlices @ [rx], txSlices @ [tx]))))"

text \<open>\<open>for (let i = 0; i < s.length; i++) row[off + i] += s[i]\<close>\<close>

definition add_slice :: "nat \<Rightarrow> number list \<Rightarrow> number list \<Rightarrow> number list" where
  "add_slice maxLen sl row =
     (let off = maxLen - length sl in
      fold (\<lambda>i r. r[off + i := at_index r (off + i) + at_index sl i]) [0..<length sl] row)"

definition liveHistory :: "LiveStatsState \<Rightarrow> string list \<Rightarrow> number list \<times> number list \<times> number list" where
  "liveHistory s ids =
     (if length ids = 0 then ([], [], [])
      else let (maxLen, rxSlices, txSlices) = fold (push_slices s) ids (0, [], []) in
           if maxLen = 0 then ([], [], [])
           else let rx = fold (add_slice maxLen) rxSlices (replicate maxLen 0);
                    tx = fold (add_slice maxLen) txSlices (replicate maxLen 0)
                in (rx, tx, map (\<lambda>i. at_index rx i + at_index tx i) [0..<length rx]))"

definition formatRate :: "number \<Rightarrow> string" where
  "formatRate rate =
     (if rate < 1000 then int_dec (Math_round rate) @ '' bps''
      else if rate < 1000000 then toFixed 1 (rate / 1000) @ '' kbps''
      else if rate < 1000000000 then toFixed 1 (rate / 1000000) @ '' Mbps''
      else toFixed 2 (rate / 1000000000) @ '' Gbps'')"

section \<open>The strip\<close>

record kpi =
  kpi_label :: string
  kpi_value :: string
  kpi_unit :: "string option"
  kpi_spark :: "number list"
  kpi_footL :: "string option"
  kpi_footR :: "string option"

definition live_foot :: "nat \<Rightarrow> number \<Rightarrow> string" where
  "live_foot onlineCount rate =
     (if onlineCount = 0 then ''no online devices'' else ''live '' @ middle_dot @ '' '' @ formatRate rate)"

definition dashboard_strip ::
  "card_env \<Rightarrow> LiveStatsState \<Rightarrow> bool \<Rightarrow> PublicDevice list \<Rightarrow> bool \<Rightarrow> number option \<Rightarrow> number \<Rightarrow> string option \<Rightarrow> kpi list" where
  "dashboard_strip env s loading ds usageLoading quotaCap quotaUsed resetsAt =
     (let ids = onlineDeviceIds (parse_number env) (ce_clock env) ds;
          n = length ids;
          (rx, tx, both) = liveHistory s ids;
          pct = dash_quotaPct quotaCap quotaUsed;
          bytes = (\<lambda>b. if loading then em_dash else formatBytes (Fin b))
      in [\<lparr>kpi_label = ''Devices '' @ middle_dot @ '' online'', kpi_value = nat_dec n,
           kpi_unit = (if length ds > 0 then Some (''/ '' @ nat_dec (length ds)) else None), kpi_spark = [], kpi_footL = None, kpi_footR = None\<rparr>,
          \<lparr>kpi_label = ''Total RX'', kpi_value = bytes (dash_totalRxBytes s ds), kpi_unit = None, kpi_spark = rx,
           kpi_footL = Some (live_foot n (dash_totalRx s ids)), kpi_footR = None\<rparr>,
          \<lparr>kpi_label = ''Total TX'', kpi_value = bytes (dash_totalTxBytes s ds), kpi_unit = None, kpi_spark = tx,
           kpi_footL = Some (live_foot n (dash_totalTx s ids)), kpi_footR = None\<rparr>,
          \<lparr>kpi_label = ''Total usage'', kpi_value = bytes (dash_totalUsageBytes s ds), kpi_unit = None, kpi_spark = both,
           kpi_footL = None, kpi_footR = None\<rparr>,
          \<lparr>kpi_label = ''Quota'',
           kpi_value = (if usageLoading then em_dash else case pct of None \<Rightarrow> ''Unlimited'' | Some p \<Rightarrow> int_dec p @ ''%''),
           kpi_unit = None, kpi_spark = [],
           kpi_footL = (case pct of None \<Rightarrow> None
             | Some _ \<Rightarrow> Some (formatBytes (Fin quotaUsed) @ '' / '' @ formatBytes (Fin (case quotaCap of Some c \<Rightarrow> c | None \<Rightarrow> 0)))),
           kpi_footR = (if pct = None then None
             else map_option (\<lambda>r. ''resets '' @ formatDate (ce_parse env) (ce_tza env) (ce_prefs env) (DV_string r)) (truthy_str resetsAt))\<rparr>])"

text \<open>After the first device is added: the sheet closes and, unless its page is hidden, the device opens.\<close>

definition dash_onCreated :: "bool \<Rightarrow> string \<Rightarrow> bool \<times> page_effect list" where
  "dash_onCreated hideDetail i = (False, if hideDetail then [] else [Navigated (''/app/devices/'' @ i)])"

section \<open>The sparkline sums the devices\<close>

lemma add_slice_loop:
  fixes row sl :: "number list"
  assumes "off + n \<le> length row"
  shows "length (fold (\<lambda>i r. r[off + i := at_index r (off + i) + at_index sl i]) [0..<n] row) = length row \<and>
    (\<forall>j < length row. fold (\<lambda>i r. r[off + i := at_index r (off + i) + at_index sl i]) [0..<n] row ! j
       = row ! j + (if off \<le> j \<and> j < off + n then at_index sl (j - off) else 0))"
  using assms
proof (induction n)
  case (Suc n)
  let ?r = "fold (\<lambda>i r. r[off + i := at_index r (off + i) + at_index sl i]) [0..<n] row"
  have len: "length ?r = length row" and nth: "\<And>j. j < length row \<Longrightarrow>
      ?r ! j = row ! j + (if off \<le> j \<and> j < off + n then at_index sl (j - off) else 0)"
    using Suc by auto
  have "?r[off + n := at_index ?r (off + n) + at_index sl n] ! j
      = row ! j + (if off \<le> j \<and> j < off + Suc n then at_index sl (j - off) else 0)" if "j < length row" for j
  proof (cases "j = off + n")
    case True
    then show ?thesis using that len nth[of j] by (simp add: at_index_def)
  next
    case False
    then show ?thesis using that len nth[of j] by auto
  qed
  then show ?case using len by simp
qed simp

lemma add_slice_eq:
  assumes "length sl \<le> n" and "length row = n"
  shows "add_slice n sl row = map2 (+) row (right_aligned n sl)"
proof -
  have loop: "length (add_slice n sl row) = n" "\<And>j. j < n \<Longrightarrow>
      add_slice n sl row ! j = row ! j + (if n - length sl \<le> j \<and> j < n then at_index sl (j - (n - length sl)) else 0)"
    using add_slice_loop[of "n - length sl" "length sl" row sl] assms by (simp_all add: add_slice_def)
  show ?thesis
  proof (rule nth_equalityI)
    show "length (add_slice n sl row) = length (map2 (+) row (right_aligned n sl))"
      using loop assms by (simp add: right_aligned_def)
    fix j assume "j < length (add_slice n sl row)"
    then show "add_slice n sl row ! j = map2 (+) row (right_aligned n sl) ! j"
      using loop assms by (auto simp: right_aligned_def nth_append at_index_def)
  qed
qed

lemma fold_add_slice:
  assumes "\<And>sl. sl \<in> set sls \<Longrightarrow> length sl \<le> n" and "length row = n"
  shows "fold (add_slice n) sls row = map2 (+) row (column_sums n sls)"
  using assms
proof (induction sls arbitrary: row)
  case Nil
  then show ?case by (auto simp: column_sums_def intro!: nth_equalityI)
next
  case (Cons sl sls)
  then have "fold (add_slice n) (sl # sls) row = map2 (+) (map2 (+) row (right_aligned n sl)) (column_sums n sls)"
    using Cons.IH[of "map2 (+) row (right_aligned n sl)"] by (simp add: add_slice_eq right_aligned_def)
  also have "\<dots> = map2 (+) row (column_sums n (sl # sls))"
  proof (rule nth_equalityI)
    have len: "length (right_aligned n sl) = n" using Cons.prems(1) by (simp add: right_aligned_def)
    show "length (map2 (+) (map2 (+) row (right_aligned n sl)) (column_sums n sls)) = length (map2 (+) row (column_sums n (sl # sls)))"
      using Cons.prems(2) len by (simp add: column_sums_def)
    fix j assume "j < length (map2 (+) (map2 (+) row (right_aligned n sl)) (column_sums n sls))"
    then show "map2 (+) (map2 (+) row (right_aligned n sl)) (column_sums n sls) ! j = map2 (+) row (column_sums n (sl # sls)) ! j"
      using Cons.prems(2) len by (simp add: column_sums_def add.assoc)
  qed
  finally show ?case .
qed

text \<open>The reference: the slots of the given devices, their last 32 frames, and the longest of them.\<close>

definition slots_of :: "LiveStatsState \<Rightarrow> string list \<Rightarrow> DeviceLive list" where
  "slots_of s ids = concat (map (\<lambda>i. case map_of (devices s) i of Some d \<Rightarrow> [d] | None \<Rightarrow> []) ids)"

definition rx_slices :: "LiveStatsState \<Rightarrow> string list \<Rightarrow> number list list" where
  "rx_slices s ids = map (\<lambda>d. slice_last SPARK_WINDOW (dl_rxHistory d)) (slots_of s ids)"

definition tx_slices :: "LiveStatsState \<Rightarrow> string list \<Rightarrow> number list list" where
  "tx_slices s ids = map (\<lambda>d. slice_last SPARK_WINDOW (dl_txHistory d)) (slots_of s ids)"

definition longest :: "number list list \<Rightarrow> nat" where
  "longest sls = fold (\<lambda>sl m. max m (length sl)) sls 0"

lemma fold_max_shift: "fold (\<lambda>sl m. max m (length sl)) sls m = max m (longest sls)"
  unfolding longest_def
proof (induction sls arbitrary: m)
  case (Cons sl sls)
  show ?case using Cons[of "max m (length sl)"] Cons[of "length sl"] by simp
qed simp

lemma longest_ge: "sl \<in> set sls \<Longrightarrow> length sl \<le> longest sls"
proof (induction sls)
  case (Cons x sls)
  have "longest (x # sls) = max (length x) (longest sls)" using fold_max_shift[of sls "length x"] by (simp add: longest_def)
  then show ?case using Cons by auto
qed simp

definition kept_slots :: "LiveStatsState \<Rightarrow> string list \<Rightarrow> DeviceLive list" where
  "kept_slots s ids =
     filter (\<lambda>d. \<not> (slice_last SPARK_WINDOW (dl_rxHistory d) = [] \<and> slice_last SPARK_WINDOW (dl_txHistory d) = [])) (slots_of s ids)"

lemma push_slices_run:
  "fold (push_slices s) ids (m, a, b) =
     (max m (max (longest (rx_slices s ids)) (longest (tx_slices s ids))),
      a @ map (\<lambda>d. slice_last SPARK_WINDOW (dl_rxHistory d)) (kept_slots s ids),
      b @ map (\<lambda>d. slice_last SPARK_WINDOW (dl_txHistory d)) (kept_slots s ids))"
proof (induction ids arbitrary: m a b)
  case Nil
  then show ?case by (simp add: rx_slices_def tx_slices_def slots_of_def kept_slots_def longest_def)
next
  case (Cons i ids)
  have cons: "longest (x # sls) = max (length x) (longest sls)" for x sls
    using fold_max_shift[of sls "length x"] by (simp add: longest_def)
  show ?case
  proof (cases "map_of (devices s) i")
    case None
    then show ?thesis using Cons by (simp add: push_slices_def rx_slices_def tx_slices_def slots_of_def kept_slots_def)
  next
    case (Some d)
    let ?rx = "slice_last SPARK_WINDOW (dl_rxHistory d)" and ?tx = "slice_last SPARK_WINDOW (dl_txHistory d)"
    have slots: "slots_of s (i # ids) = d # slots_of s ids" using Some by (simp add: slots_of_def)
    show ?thesis
    proof (cases "?rx = [] \<and> ?tx = []")
      case True
      then have "push_slices s i (m, a, b) = (m, a, b)" using Some by (simp add: push_slices_def Let_def)
      moreover have "kept_slots s (i # ids) = kept_slots s ids" using True by (simp add: kept_slots_def slots)
      ultimately show ?thesis using True Cons[of m a b] by (simp add: rx_slices_def tx_slices_def slots cons SPARK_WINDOW_def)
    next
      case False
      then have "push_slices s i (m, a, b) = (max (max m (length ?rx)) (length ?tx), a @ [?rx], b @ [?tx])"
        using Some by (simp add: push_slices_def Let_def)
      moreover have "kept_slots s (i # ids) = d # kept_slots s ids" using False by (simp add: kept_slots_def slots)
      ultimately show ?thesis
        using Cons[of "max (max m (length ?rx)) (length ?tx)" "a @ [?rx]" "b @ [?tx]"]
        by (simp add: rx_slices_def tx_slices_def slots cons max.assoc max.left_commute)
    qed
  qed
qed

lemma column_sums_kept:
  assumes "\<And>d. d \<in> set ds \<Longrightarrow> \<not> P d \<Longrightarrow> f d = []"
  shows "column_sums n (map f (filter P ds)) = column_sums n (map f ds)"
proof -
  have "sum_list (map (\<lambda>d. right_aligned n (f d) ! j) (filter P ds)) = sum_list (map (\<lambda>d. right_aligned n (f d) ! j) ds)"
    if "j < n" for j
    using assms that by (induction ds) (auto simp: right_aligned_def)
  then show ?thesis by (simp add: column_sums_def comp_def)
qed

lemma zero_plus_columns: "map2 (+) (replicate n 0) (column_sums n hs) = column_sums n hs"
  by (auto simp: column_sums_def intro!: nth_equalityI)

text \<open>
  C37: the sparklines of the dashboard are the column sums of the devices that are online: their last 32 frames, right-aligned to the
  longest of them, summed frame by frame, for the receive side, the transmit side and both together; devices without frames change
  nothing, and with no frames at all the three lines are empty.
\<close>

theorem live_history_sums_devices:
  "liveHistory s ids =
     (let n = max (longest (rx_slices s ids)) (longest (tx_slices s ids))
      in (column_sums n (rx_slices s ids), column_sums n (tx_slices s ids), column_sums n (rx_slices s ids @ tx_slices s ids)))"
proof -
  define n where "n = max (longest (rx_slices s ids)) (longest (tx_slices s ids))"
  let ?k = "kept_slots s ids"
  have run: "fold (push_slices s) ids (0, [], []) =
      (n, map (\<lambda>d. slice_last SPARK_WINDOW (dl_rxHistory d)) ?k, map (\<lambda>d. slice_last SPARK_WINDOW (dl_txHistory d)) ?k)"
    by (simp add: push_slices_run n_def)
  have bound: "length sl \<le> n" if "sl \<in> set (rx_slices s ids) \<or> sl \<in> set (tx_slices s ids)" for sl
    using that longest_ge[of sl] by (auto simp: n_def le_max_iff_disj)
  have kept: "column_sums n (map (\<lambda>d. slice_last SPARK_WINDOW (dl_rxHistory d)) ?k) = column_sums n (rx_slices s ids)"
    "column_sums n (map (\<lambda>d. slice_last SPARK_WINDOW (dl_txHistory d)) ?k) = column_sums n (tx_slices s ids)"
    unfolding kept_slots_def rx_slices_def tx_slices_def by (rule column_sums_kept, blast)+
  have rx: "fold (add_slice n) (map (\<lambda>d. slice_last SPARK_WINDOW (dl_rxHistory d)) ?k) (replicate n 0) = column_sums n (rx_slices s ids)"
    by (subst fold_add_slice) (use bound kept in \<open>auto simp: kept_slots_def rx_slices_def zero_plus_columns simp del: slice_last_eq_Nil\<close>)
  have tx: "fold (add_slice n) (map (\<lambda>d. slice_last SPARK_WINDOW (dl_txHistory d)) ?k) (replicate n 0) = column_sums n (tx_slices s ids)"
    by (subst fold_add_slice) (use bound kept in \<open>auto simp: kept_slots_def tx_slices_def zero_plus_columns simp del: slice_last_eq_Nil\<close>)
  have both: "map (\<lambda>i. at_index (column_sums n a) i + at_index (column_sums n b) i) [0..<length (column_sums n a)] = column_sums n (a @ b)" for a b
    by (auto simp: column_sums_def at_index_def intro!: nth_equalityI)
  have empty: "column_sums 0 hs = []" for hs by (simp add: column_sums_def)
  have none: "n = 0" if "ids = []" using that by (simp add: n_def rx_slices_def tx_slices_def slots_of_def longest_def)
  have "liveHistory s ids = (column_sums n (rx_slices s ids), column_sums n (tx_slices s ids), column_sums n (rx_slices s ids @ tx_slices s ids))"
  proof (cases "n = 0")
    case True
    then show ?thesis using run by (simp add: liveHistory_def empty)
  next
    case False
    then have "ids \<noteq> []" using none by blast
    with False show ?thesis by (simp only: liveHistory_def run rx tx both Let_def split if_False length_0_conv)
  qed
  then show ?thesis by (simp add: Let_def n_def)
qed

section \<open>Totals\<close>

lemma foldl_sum: "foldl (\<lambda>a x. a + f x) (z :: number) xs = z + sum_list (map f xs)"
  by (induction xs arbitrary: z) (simp_all add: add.assoc)

text \<open>The totals of the dashboard are the sums of what the cards of the same devices show.\<close>

lemma dash_totals_sum_cards:
  "dash_totalRxBytes s ds = sum_list (map (\<lambda>d. fst (useLiveTotal s (pd_id d) (pd_total_rx_bytes d) (pd_total_tx_bytes d))) ds)"
  "dash_totalTxBytes s ds = sum_list (map (\<lambda>d. snd (useLiveTotal s (pd_id d) (pd_total_rx_bytes d) (pd_total_tx_bytes d))) ds)"
  by (simp_all add: dash_totalRxBytes_def dash_totalTxBytes_def foldl_sum useLiveTotal_def Let_def option.case_eq_if)

lemma life_step_mono:
  assumes "live_step s s'" and "map_of (devices s') k = Some d'"
  shows "(case map_of (devices s) k of Some d \<Rightarrow> dl_lifeRxBytes d | None \<Rightarrow> 0) \<le> dl_lifeRxBytes d'"
    and "(case map_of (devices s) k of Some d \<Rightarrow> dl_lifeTxBytes d | None \<Rightarrow> 0) \<le> dl_lifeTxBytes d'"
proof -
  obtain d where d: "d = (case map_of (devices s) k of None \<Rightarrow> empty_device | Some d \<Rightarrow> d)"
    and step: "d' = d \<or> (\<exists>p. d' = hydrate_slot p d) \<or> (\<exists>rx tx t x y. d' = delta_slot rx tx t x y d)"
    using live_step_slot [OF assms] by (elim exE conjE) (rule that)
  have "dl_lifeRxBytes d \<le> dl_lifeRxBytes d'" "dl_lifeTxBytes d \<le> dl_lifeTxBytes d'"
    using step by (elim disjE exE; simp add: life_delta_slot)+
  then show "(case map_of (devices s) k of Some d \<Rightarrow> dl_lifeRxBytes d | None \<Rightarrow> 0) \<le> dl_lifeRxBytes d'"
    and "(case map_of (devices s) k of Some d \<Rightarrow> dl_lifeTxBytes d | None \<Rightarrow> 0) \<le> dl_lifeTxBytes d'"
    by (simp_all add: d empty_device_def split: option.splits)
qed

text \<open>
  The headline total never goes back: across any action of the store that keeps the slots of the listed devices, with the list as it is,
  the shown usage does not decrease.
\<close>

lemma dash_usage_never_decreases:
  assumes "live_step s s'" and "\<And>d. d \<in> set ds \<Longrightarrow> map_of (devices s') (pd_id d) \<noteq> None"
  shows "dash_totalUsageBytes s ds \<le> dash_totalUsageBytes s' ds"
proof -
  have "fst (useLiveTotal s (pd_id d) a b) \<le> fst (useLiveTotal s' (pd_id d) a b)"
    "snd (useLiveTotal s (pd_id d) a b) \<le> snd (useLiveTotal s' (pd_id d) a b)" if "d \<in> set ds" for d a b
  proof -
    have "map_of (devices s') (pd_id d) \<noteq> None" using that by (rule assms(2))
    then obtain d' where d': "map_of (devices s') (pd_id d) = Some d'" by blast
    from life_step_mono[OF assms(1) d'] show "fst (useLiveTotal s (pd_id d) a b) \<le> fst (useLiveTotal s' (pd_id d) a b)"
      "snd (useLiveTotal s (pd_id d) a b) \<le> snd (useLiveTotal s' (pd_id d) a b)"
      by (auto simp: useLiveTotal_def d' Let_def split: option.splits intro: max.mono)
  qed
  then show ?thesis
    unfolding dash_totalUsageBytes_def dash_totals_sum_cards by (intro add_mono sum_list_mono) auto
qed

section \<open>Online, twice\<close>

text \<open>A device whose card is online counts on the dashboard.\<close>

lemma card_online_counts:
  "d \<in> set ds \<Longrightarrow> card_isOnline env s d \<Longrightarrow> pd_id d \<in> set (onlineDeviceIds (parse_number env) (ce_clock env) ds)"
  by (auto simp: card_isOnline_def useDeviceOnline_def isLiveOnline_def onlineDeviceIds_def split: if_splits)

text \<open>
  The converse fails: a device whose traffic stopped 91 seconds ago is offline on its card, and the dashboard still counts it and
  adds the rate it last reported.
\<close>

lemma dashboard_counts_dropped_device:
  fixes env :: card_env
  defines "s \<equiv> applyDelta 0 ''d'' 5 0 (Some 109000) None None init_state"
  assumes "env = \<lparr>ce_parse = (\<lambda>h. Some 100000), ce_tza = (\<lambda>t. 0), ce_prefs = initial_prefs, ce_units = Units_bps, ce_clock = 200001,
      ce_now = 200001, ce_visibleSince = 0\<rparr>"
  shows "\<not> card_isOnline env s sample_device"
    and "dash_totalRx s (onlineDeviceIds (parse_number env) (ce_clock env) [sample_device]) = 5"
  unfolding s_def assms(2)
  by (simp_all add: card_isOnline_def useDeviceOnline_def isLiveOnline_def onlineDeviceIds_def connState_def parse_number_def sample_device_def
      ONLINE_HANDSHAKE_WINDOW_MS_def ACTIVITY_STALE_MS_def last_seen_of_def applyDelta_def init_state_def delta_slot_def Let_def
      dash_totalRx_def dash_rates_def)

text \<open>The rates of the dashboard are those of the shared formatter in bits per second, whatever unit is preferred.\<close>

lemma formatRate_is_bps: "0 \<le> r \<Longrightarrow> formatRate r = formatBps Units_bps (Fin r)"
  by (simp add: formatRate_def formatBps_def formatBpsWith_def)

end
