(* ===== verification/Activity_Views.thy ===== *)
theory Activity_Views
  imports Pager Datetime Page_Effect
begin

text \<open>
  Activity as the user sees it: the relative time label src/web/src/components/RelativeTime.tsx, the panel of the dashboard
  src/web/src/components/dashboard/RecentActivity.tsx and the activity page src/web/src/pages/app/Activity.tsx.  A \<open>Date\<close> is its time value
  in milliseconds, \<open>None\<close> when it is invalid; \<open>parse\<close> is \<open>Date.parse\<close>; \<open>now\<close> is \<open>Date.now()\<close>.
\<close>

section \<open>Relative times\<close>

definition UNITS :: "(int \<times> string \<times> string) list" where
  "UNITS =
     [(365 * 24 * 60 * 60 * 1000, ''year'', ''years''), (30 * 24 * 60 * 60 * 1000, ''month'', ''months''),
      (7 * 24 * 60 * 60 * 1000, ''week'', ''weeks''), (24 * 60 * 60 * 1000, ''day'', ''days''),
      (60 * 60 * 1000, ''hour'', ''hours''), (60 * 1000, ''minute'', ''minutes''), (1000, ''second'', ''seconds'')]"

definition unit_count :: "int \<Rightarrow> int \<Rightarrow> int" where
  "unit_count age unit_ms = Math_round (of_int age / of_int unit_ms)"

definition unit_label :: "bool \<Rightarrow> int \<Rightarrow> string \<times> string \<Rightarrow> string" where
  "unit_label past n names =
     (let u = (if n = 1 then fst names else snd names) in
      if past then int_dec n @ '' '' @ u @ '' ago'' else ''in '' @ int_dec n @ '' '' @ u)"

fun relative_units :: "string \<Rightarrow> bool \<Rightarrow> int \<Rightarrow> (int \<times> string \<times> string) list \<Rightarrow> string" where
  "relative_units fallback past age [] = fallback"
| "relative_units fallback past age ((unit_ms, names) # us) =
     (let n = unit_count age unit_ms in if n \<ge> 1 then unit_label past n names else relative_units fallback past age us)"

definition relative :: "(int \<Rightarrow> int) \<Rightarrow> datetime_prefs \<Rightarrow> int \<Rightarrow> int option \<Rightarrow> string" where
  "relative tza prefs now t =
     (case t of
        None \<Rightarrow> em_dash
      | Some at_ms \<Rightarrow>
          (let diff = now - at_ms; past = (diff \<ge> 0); age = \<bar>diff\<bar> in
           if age < 30 * 1000 then (if past then ''just now'' else ''in a moment'')
           else relative_units (formatDateTime (\<lambda>_. None) tza prefs (DV_date t)) past age UNITS))"

text \<open>The label and the tooltip; no tooltip for an absent value.\<close>

definition RelativeTime ::
  "(string \<Rightarrow> int option) \<Rightarrow> (int \<Rightarrow> int) \<Rightarrow> datetime_prefs \<Rightarrow> int \<Rightarrow> string option \<Rightarrow> string \<Rightarrow> string \<times> string option" where
  "RelativeTime parse tza prefs now value fallback =
     (case value of
        None \<Rightarrow> (fallback, None)
      | Some v \<Rightarrow> (relative tza prefs now (parse v), Some (formatDateTime parse tza prefs (DV_date (parse v)))))"

section \<open>The dashboard panel\<close>

datatype activity_tone = Act_ok | Act_warn | Act_err | Act_info | Act_muted

record ActivityItem =
  ai_id :: string
  ai_tsMs :: int
  ai_tone :: activity_tone
  ai_event :: string
  ai_target :: string
  ai_actor :: string

definition fmtTime :: "(int \<Rightarrow> int) \<Rightarrow> datetime_prefs \<Rightarrow> int \<Rightarrow> string" where
  "fmtTime tza prefs tsMs = (if tsMs \<le> 0 then em_dash else formatTime (\<lambda>_. None) tza prefs (DV_date (Some tsMs)))"

definition fmtRelativeShort :: "int \<Rightarrow> int \<Rightarrow> string" where
  "fmtRelativeShort now tsMs =
     (if tsMs \<le> 0 then em_dash
      else let diff = now - tsMs in
           if diff < 0 then ''just now''
           else if diff < 60000 then ''just now''
           else if diff < 3600000 then int_dec (diff div 60000) @ ''m ago''
           else if diff < 86400000 then int_dec (diff div 3600000) @ ''h ago''
           else int_dec (diff div 86400000) @ ''d ago'')"

text \<open>The rows carry their timestamp as a string.\<close>

definition tsToMs :: "(string \<Rightarrow> int option) \<Rightarrow> string \<Rightarrow> int" where
  "tsToMs parse value = (case parse value of Some t \<Rightarrow> t | None \<Rightarrow> 0)"

definition toneForAuditAction :: "string \<Rightarrow> activity_tone" where
  "toneForAuditAction action =
     (if str_includes action ''failed'' \<or> str_includes action ''revoke'' \<or> str_includes action ''error'' then Act_err
      else if str_includes action ''warn'' \<or> str_includes action ''rotate'' \<or> str_includes action ''suspend'' then Act_warn
      else if str_includes action ''login'' \<or> str_includes action ''create'' \<or> str_includes action ''enable'' \<or> str_includes action ''ok''
      then Act_ok
      else Act_info)"

definition activity_target :: "string option \<Rightarrow> string option \<Rightarrow> string" where
  "activity_target target_type target_id =
     (case truthy_str target_id of
        Some i \<Rightarrow> (case truthy_str target_type of Some t \<Rightarrow> t @ '' '' @ middle_dot @ '' '' | None \<Rightarrow> []) @ take 12 i
      | None \<Rightarrow> (case target_type of Some t \<Rightarrow> t | None \<Rightarrow> em_dash))"

definition auditToItem :: "(string \<Rightarrow> int option) \<Rightarrow> AuditRow \<Rightarrow> ActivityItem" where
  "auditToItem parse row =
     \<lparr>ai_id = ''a'' @ num_string (ar_id row), ai_tsMs = tsToMs parse (ar_created_at row), ai_tone = toneForAuditAction (ar_action row),
      ai_event = ar_action row, ai_target = activity_target (ar_target_type row) (ar_target_id row),
      ai_actor = (case truthy_str (ar_actor_user_id row) of Some u \<Rightarrow> take 8 u | None \<Rightarrow> ''system'')\<rparr>"

definition myActivityToItem :: "(string \<Rightarrow> int option) \<Rightarrow> MyActivityRow \<Rightarrow> ActivityItem" where
  "myActivityToItem parse row =
     \<lparr>ai_id = ''m'' @ num_string (mar_id row), ai_tsMs = tsToMs parse (mar_created_at row), ai_tone = toneForAuditAction (mar_action row),
      ai_event = mar_action row, ai_target = activity_target (mar_target_type row) (mar_target_id row), ai_actor = ''you''\<rparr>"

text \<open>A query of the panel: still loading, failed, or its rows if there are any.\<close>

datatype 'a panel_query = Q_loading | Q_error | Q_rows "'a list"

datatype activity_panel = Panel_skeleton | Panel_failed | Panel_empty bool | Panel_items "ActivityItem list" bool

text \<open>The boolean of the last two: whether the link to the whole log is shown.\<close>

definition RecentActivity ::
  "(string \<Rightarrow> int option) \<Rightarrow> bool \<Rightarrow> AuditRow panel_query \<Rightarrow> MyActivityRow panel_query \<Rightarrow> activity_panel" where
  "RecentActivity parse isAdmin auditQ myActivityQ =
     (let shown = (\<lambda>items. if items = [] then Panel_empty (\<not> isAdmin) else Panel_items items (\<not> isAdmin)) in
      if isAdmin then (case auditQ of Q_loading \<Rightarrow> Panel_skeleton | Q_error \<Rightarrow> Panel_failed | Q_rows rs \<Rightarrow> shown (map (auditToItem parse) rs))
      else (case myActivityQ of Q_loading \<Rightarrow> Panel_skeleton | Q_error \<Rightarrow> Panel_failed | Q_rows rs \<Rightarrow> shown (map (myActivityToItem parse) rs)))"

definition ActivityRow :: "(int \<Rightarrow> int) \<Rightarrow> datetime_prefs \<Rightarrow> int \<Rightarrow> ActivityItem \<Rightarrow> string list" where
  "ActivityRow tza prefs now item =
     [ai_event item] @ (if ai_target item = [] then [] else [ai_target item]) @
     [fmtTime tza prefs (ai_tsMs item), fmtRelativeShort now (ai_tsMs item), ai_actor item]"

section \<open>The activity page\<close>

definition ACTION_LABELS :: "(string \<times> string) list" where
  "ACTION_LABELS =
     [(''device.created'', ''Device added''), (''device.updated'', ''Device updated''), (''device.revoked'', ''Device revoked''),
      (''device.paused'', ''Device paused''), (''device.unpaused'', ''Device resumed''), (''device.reconnected'', ''Device reconnected''),
      (''device.keys_rotated'', ''Keys rotated''), (''device.conf_redownloaded'', ''Config re-downloaded''),
      (''device.reordered'', ''Devices reordered''), (''auth.login'', ''Signed in''), (''auth.logout'', ''Signed out''),
      (''auth.new_ip'', ''Sign-in from a new IP''), (''auth.password_changed'', ''Password changed''),
      (''auth.totp_enabled'', ''Two-factor enabled''), (''auth.totp_disabled'', ''Two-factor disabled''),
      (''admin.user_status_changed'', ''Account status changed''), (''admin.user_role_changed'', ''Account role changed''),
      (''admin.user_quota_set'', ''Quota updated''), (''admin.user_email_changed'', ''Email changed''),
      (''admin.user_2fa_disabled'', ''Two-factor reset by admin''), (''admin.user_sessions_revoked'', ''Sessions revoked by admin'')]"

definition char_upper :: "char \<Rightarrow> char" where
  "char_upper c =
     (if 97 \<le> (of_char c :: nat) \<and> (of_char c :: nat) \<le> 122 then char_of (of_char c - 32 :: nat) else c)"

definition targetLabel :: "string option \<Rightarrow> string" where
  "targetLabel type =
     (case truthy_str type of
        None \<Rightarrow> em_dash
      | Some t \<Rightarrow> if t = ''user'' then ''Account'' else (case t of [] \<Rightarrow> [] | c # cs \<Rightarrow> char_upper c # cs))"

fun hasMeta :: "json \<Rightarrow> bool" where
  "hasMeta (JObj kvs) = (kvs \<noteq> [])"
| "hasMeta (JArr vs) = (vs \<noteq> [])"
| "hasMeta _ = False"

record activity_page =
  act_page :: nat
  act_pageSize :: nat

definition activity_init :: activity_page where
  "activity_init = \<lparr>act_page = 0, act_pageSize = 50\<rparr>"

definition activity_setPage :: "nat \<Rightarrow> activity_page \<Rightarrow> activity_page" where
  "activity_setPage n p = p\<lparr>act_page := n\<rparr>"

definition activity_setPageSize :: "nat \<Rightarrow> activity_page \<Rightarrow> activity_page" where
  "activity_setPageSize n p = p\<lparr>act_pageSize := n\<rparr>"

text \<open>The limit and the offset the page asks for.\<close>

definition activity_request :: "activity_page \<Rightarrow> nat \<times> nat" where
  "activity_request p = (act_pageSize p, act_page p * act_pageSize p)"

section \<open>What the labels say\<close>

lemma unit_count_near:
  assumes "0 < u"
  shows "2 * \<bar>age - unit_count age u * u\<bar> \<le> u"
proof -
  have "\<bar>of_int (unit_count age u) - of_int age / of_int u\<bar> \<le> (1 / 2 :: number)" unfolding unit_count_def by (rule Math_round_err)
  then have "\<bar>of_int (unit_count age u) - of_int age / of_int u\<bar> * of_int u \<le> (1 / 2 :: number) * of_int u"
    using assms by (intro mult_right_mono) simp_all
  moreover have "\<bar>of_int (unit_count age u) - of_int age / of_int u\<bar> * of_int u = \<bar>of_int (unit_count age u * u - age) :: number\<bar>"
  proof -
    have "(of_int (unit_count age u) - of_int age / of_int u) * of_int u = (of_int (unit_count age u * u - age) :: number)"
      using assms by (simp add: left_diff_distrib)
    then show ?thesis using assms by (metis abs_mult abs_of_pos of_int_0_less_iff)
  qed
  ultimately have "2 * \<bar>of_int (unit_count age u * u - age) :: number\<bar> \<le> of_int u" by simp
  then have "of_int (2 * \<bar>unit_count age u * u - age\<bar>) \<le> (of_int u :: number)" by simp
  then show ?thesis unfolding of_int_le_iff by (simp add: abs_minus_commute)
qed

lemma relative_units_found:
  assumes "(u, names) \<in> set us" and "1 \<le> unit_count age u"
  shows "\<exists>v nms. (v, nms) \<in> set us \<and> 1 \<le> unit_count age v \<and> relative_units fallback past age us = unit_label past (unit_count age v) nms"
  using assms
proof (induction us)
  case (Cons x us)
  obtain v nms where x: "x = (v, nms)" by (cases x)
  show ?case
  proof (cases "1 \<le> unit_count age v")
    case True
    then have "relative_units fallback past age (x # us) = unit_label past (unit_count age v) nms" by (simp add: x Let_def)
    with True show ?thesis by (intro exI[of _ v] exI[of _ nms]) (simp add: x)
  next
    case False
    then have "(u, names) \<in> set us" using Cons.prems by (auto simp: x)
    with Cons.IH Cons.prems(2) False show ?thesis by (auto simp: x Let_def)
  qed
qed simp

text \<open>
  C38: a relative time label tells the time to half of the unit it names: from thirty seconds on the label counts a unit of the table, at
  least one of it, and that many units differ from the distance in time by at most half a unit, in the past and in the future alike; it never
  falls through to the absolute date.
\<close>

theorem relative_label_accurate:
  assumes "30 * 1000 \<le> \<bar>now - t\<bar>"
  shows "\<exists>n u names. (u, names) \<in> set UNITS \<and> 1 \<le> n \<and> relative tza prefs now (Some t) = unit_label (t \<le> now) n names \<and>
    2 * \<bar>\<bar>now - t\<bar> - n * u\<bar> \<le> u"
proof -
  let ?age = "\<bar>now - t\<bar>"
  have "2 * \<bar>?age - unit_count ?age 1000 * 1000\<bar> \<le> 1000" by (rule unit_count_near) simp
  moreover have "1 \<le> c" if "2 * \<bar>a - c * 1000\<bar> \<le> 1000" "30 * 1000 \<le> a" for a c :: int
  proof -
    have "\<bar>a - c * 1000\<bar> \<le> 500" using that(1) by simp
    then have "a \<le> 500 + c * 1000" unfolding abs_le_iff by linarith
    then have "29500 \<le> c * 1000" using that(2) by simp
    then show ?thesis by simp
  qed
  ultimately have "1 \<le> unit_count ?age 1000" using assms by blast
  moreover have "(1000, ''second'', ''seconds'') \<in> set UNITS" by (simp add: UNITS_def)
  ultimately obtain u names where u: "(u, names) \<in> set UNITS" "1 \<le> unit_count ?age u"
    "relative_units (formatDateTime (\<lambda>_. None) tza prefs (DV_date (Some t))) (0 \<le> now - t) ?age UNITS
       = unit_label (0 \<le> now - t) (unit_count ?age u) names"
    using relative_units_found by metis
  have "0 < u" using u(1) by (auto simp: UNITS_def)
  then have "2 * \<bar>?age - unit_count ?age u * u\<bar> \<le> u" by (rule unit_count_near)
  moreover have "relative tza prefs now (Some t) = unit_label (t \<le> now) (unit_count ?age u) names"
    using u(3) assms by (simp add: relative_def Let_def)
  ultimately show ?thesis using u(1,2) by blast
qed

theorem relative_label_accurate_witness:
  "\<exists>n u names. (u, names) \<in> set UNITS \<and> 1 \<le> n \<and> relative (\<lambda>t. 0) initial_prefs 90000 (Some 0) = unit_label True n names \<and>
    2 * \<bar>90000 - n * u\<bar> \<le> u"
  using relative_label_accurate[of 90000 0 "\<lambda>t. 0" initial_prefs] by simp

text \<open>
  Half a unit is much when the unit is the first large enough to round up to one: twelve hours read as a day and half a year as a year.
\<close>

lemma relative_label_overstates:
  "relative tza prefs (12 * 60 * 60 * 1000) (Some 0) = ''1 day ago''" "relative tza prefs (183 * 24 * 60 * 60 * 1000) (Some 0) = ''1 year ago''"
proof -
  have one: "int_dec 1 = ''1''" by (simp add: int_dec_def) code_simp
  show "relative tza prefs (12 * 60 * 60 * 1000) (Some 0) = ''1 day ago''" "relative tza prefs (183 * 24 * 60 * 60 * 1000) (Some 0) = ''1 year ago''"
    by (simp_all add: relative_def UNITS_def unit_count_def unit_label_def Math_round_def Let_def one del: int_dec_nonneg)
qed

text \<open>A row whose timestamp cannot be read shows a dash in both places.\<close>

lemma unreadable_time_dashed:
  "parse (mar_created_at row) = None \<Longrightarrow>
   fmtTime tza prefs (ai_tsMs (myActivityToItem parse row)) = em_dash \<and> fmtRelativeShort now (ai_tsMs (myActivityToItem parse row)) = em_dash"
  by (simp add: fmtTime_def fmtRelativeShort_def myActivityToItem_def tsToMs_def)

text \<open>Changing the page size keeps the page index: from the last of four pages the list of 160 events is empty.\<close>

lemma page_size_change_loses_rows:
  fixes rows :: "'r list"
  assumes "length rows = 160"
  defines "p \<equiv> activity_setPage 3 activity_init"
  shows "length (page_rows rows (act_pageSize p) (act_page p)) = 10"
    and "page_rows rows (act_pageSize (activity_setPageSize 200 p)) (act_page (activity_setPageSize 200 p)) = []"
  using assms by (simp_all add: page_rows_def activity_setPage_def activity_setPageSize_def activity_init_def)

end
