(* ===== verification/Admin_Device.thy ===== *)
theory Admin_Device
  imports Page_Visit Timeline Device_Card Device_Page Activity_Views
begin

text \<open>
  The device page of the administration, src/web/src/pages/admin/DeviceDetail.tsx: its header, the strip of live numbers, the tables of
  endpoints, connection sessions and audit entries, and the moderation of the device (pause, resume, revoke).  What the render sees
  (the answer of the detail query) may change between any two steps of a visit.
\<close>

section \<open>Moderation\<close>

record admin_device_page =
  adp_revokeOpen :: bool

datatype device_moderation = Mod_pause | Mod_unpause | Mod_revoke

fun moderation_request :: "string \<Rightarrow> device_moderation \<Rightarrow> api_request" where
  "moderation_request i Mod_pause = adminPauseDevice i"
| "moderation_request i Mod_unpause = adminUnpauseDevice i"
| "moderation_request i Mod_revoke = adminRevokeDevice i"

datatype moderation_control = Mc_pause | Mc_openRevoke | Mc_dismiss | Mc_confirm string

definition isPaused :: "AdminDeviceDetail option \<Rightarrow> bool" where
  "isPaused d \<longleftrightarrow> (case d of Some a \<Rightarrow> add_status a = Dev_paused | None \<Rightarrow> False)"

definition isRevoked :: "AdminDeviceDetail option \<Rightarrow> bool" where
  "isRevoked d \<longleftrightarrow> (case d of Some a \<Rightarrow> add_status a = Dev_revoked | None \<Rightarrow> False)"

definition pause_pending :: "device_moderation list \<Rightarrow> bool" where
  "pause_pending fl \<longleftrightarrow> Mod_pause \<in> set fl \<or> Mod_unpause \<in> set fl"

fun moderation_pressed ::
  "AdminDeviceDetail option \<Rightarrow> device_moderation list \<Rightarrow> admin_device_page \<Rightarrow> moderation_control \<Rightarrow>
   (admin_device_page \<times> device_moderation option) option" where
  "moderation_pressed d fl p Mc_pause =
     only_if (d \<noteq> None \<and> \<not> isRevoked d \<and> \<not> pause_pending fl) (p, Some (if isPaused d then Mod_unpause else Mod_pause))"
| "moderation_pressed d fl p Mc_openRevoke = only_if (d \<noteq> None \<and> \<not> isRevoked d) (p\<lparr>adp_revokeOpen := True\<rparr>, None)"
| "moderation_pressed d fl p Mc_dismiss = Some (p\<lparr>adp_revokeOpen := False\<rparr>, None)"
| "moderation_pressed d fl p (Mc_confirm typed) =
     only_if (adp_revokeOpen p \<and> confirm_enabled (map_option add_name d) typed (Mod_revoke \<in> set fl)) (p, Some Mod_revoke)"

definition device_invalidate :: "string \<Rightarrow> page_effect list" where
  "device_invalidate i = [Invalidated [''admin'', ''device'', i], Invalidated [''admin'', ''devices'']]"

text \<open>The message follows what the render sees when the answer comes.\<close>

fun moderation_success :: "string \<Rightarrow> AdminDeviceDetail option \<Rightarrow> device_moderation \<Rightarrow> admin_device_page \<Rightarrow> admin_device_page \<times> page_effect list" where
  "moderation_success i d Mod_revoke p =
     (p\<lparr>adp_revokeOpen := False\<rparr>,
      device_invalidate i @ [Toast_success (''Device revoked '' @ em_dash @ '' IP released and peer removed'')])"
| "moderation_success i d _ p =
     (p, device_invalidate i @ [Toast_success (if isPaused d then ''Device resumed'' else ''Device paused'')])"

definition moderation_resolves :: "AdminDeviceDetail option \<Rightarrow> device_moderation \<Rightarrow> admin_device_page \<Rightarrow> admin_device_page \<Rightarrow> bool" where
  "moderation_resolves d m p q \<longleftrightarrow> (\<exists>i. q = fst (moderation_success i d m p))"

section \<open>What the page shows\<close>

definition admin_pill :: "AdminDeviceDetail \<Rightarrow> bool \<Rightarrow> Status" where
  "admin_pill d isOnline =
     (if isRevoked (Some d) then Pill_revoked else if isPaused (Some d) then Pill_paused
      else if isOnline then Pill_online else Pill_offline)"

text \<open>\<open>String.prototype.toUpperCase\<close> on the characters of an identifier (ASCII).\<close>

definition toUpperCase :: "string \<Rightarrow> string" where
  "toUpperCase s = map char_upper s"

definition admin_eyebrow :: "AdminDeviceDetail option \<Rightarrow> string" where
  "admin_eyebrow d =
     (case d of
        Some a \<Rightarrow> deviceTypeLabel (add_device_type a) @ '' '' @ middle_dot @ '' '' @ osLabel (add_os a) @ '' '' @ middle_dot @ '' '' @
                   toUpperCase (take 8 (add_id a))
      | None \<Rightarrow> ''Admin '' @ middle_dot @ '' device'')"

definition admin_title :: "AdminDeviceDetail option \<Rightarrow> bool \<Rightarrow> string" where
  "admin_title d loading = (case d of Some a \<Rightarrow> add_name a | None \<Rightarrow> if loading then ''Loading'' @ ellipsis else ''Unknown device'')"

definition totalHistory :: "number list \<Rightarrow> number list \<Rightarrow> number list" where
  "totalHistory rx tx = map (\<lambda>(i, v). v + (if i < length tx then tx ! i else 0)) (enumerate 0 rx)"

record device_kpi =
  dk_label :: string
  dk_value :: string
  dk_spark :: "number list"
  dk_footL :: string
  dk_footR :: "string option"

definition KPI_WINDOW :: nat where
  "KPI_WINDOW = 32"

definition admin_kpis :: "UnitsPref \<Rightarrow> LiveStatsState \<Rightarrow> AdminDeviceDetail \<Rightarrow> bool \<Rightarrow> device_kpi list" where
  "admin_kpis units s d isOnline =
     (let live = map_of (devices s) (add_id d);
          rxHistory = (case live of Some l \<Rightarrow> dl_rxHistory l | None \<Rightarrow> []);
          txHistory = (case live of Some l \<Rightarrow> dl_txHistory l | None \<Rightarrow> []);
          (totalRx, totalTx) = useLiveTotal s (add_id d) (add_total_rx_bytes d) (add_total_tx_bytes d);
          spark = (\<lambda>h. if isOnline then slice_last KPI_WINDOW h else []);
          foot = (\<lambda>f. if isOnline then formatBps units (Fin (case live of Some l \<Rightarrow> f l | None \<Rightarrow> 0)) else ''idle'');
          footR = (if isOnline then Some ''live'' else None)
      in [\<lparr>dk_label = ''RX'', dk_value = formatBytes (Fin totalRx), dk_spark = spark rxHistory, dk_footL = foot dl_rxBps, dk_footR = footR\<rparr>,
          \<lparr>dk_label = ''TX'', dk_value = formatBytes (Fin totalTx), dk_spark = spark txHistory, dk_footL = foot dl_txBps, dk_footR = footR\<rparr>,
          \<lparr>dk_label = ''Total'', dk_value = formatBytes (Fin (totalRx + totalTx)), dk_spark = spark (totalHistory rxHistory txHistory),
           dk_footL = ''rx + tx'', dk_footR = None\<rparr>])"

record quota_kpi =
  qk_used :: string
  qk_bar :: "(bar_tone \<times> int) option"
  qk_footL :: string
  qk_footR :: string

definition QuotaKpi :: "number \<Rightarrow> number option \<Rightarrow> bool \<Rightarrow> quota_kpi" where
  "QuotaKpi used cap autoPaused =
     (let cap0 = (case cap of Some c \<Rightarrow> c | None \<Rightarrow> 0); hasCap = cap0 > 0; pct = quota_pct used cap0 in
      \<lparr>qk_used = formatBytes (Fin used), qk_bar = (if hasCap then Some (quota_tone pct, pct) else None),
       qk_footL = (if hasCap then ''/ '' @ formatBytes (Fin cap0) @ '' this month'' else ''this month''),
       qk_footR = (if autoPaused then ''auto-paused'' else if hasCap then int_dec pct @ ''%'' else ''no cap'')\<rparr>)"

section \<open>Tables\<close>

definition rows_heading :: "nat \<Rightarrow> string \<Rightarrow> string" where
  "rows_heading n what = nat_dec n @ (if n = 200 then ''+'' else []) @ what"

definition shown_rows :: "'r list \<Rightarrow> 'r list \<times> string option" where
  "shown_rows rows =
     (take 50 rows, if length rows > 50 then Some (''Showing first 50 of '' @ nat_dec (length rows) @ ''.'') else None)"

record connection_cells =
  sr_duration :: string
  sr_endpoint :: string
  sr_ended_on :: "string option"
  sr_rx :: string
  sr_tx :: string

definition transferred :: "number \<Rightarrow> number option \<Rightarrow> string" where
  "transferred start finish = (case finish of Some e \<Rightarrow> formatBytes (Fin (max 0 (e - start))) | None \<Rightarrow> em_dash)"

definition connection_row :: "(string \<Rightarrow> jsnum) \<Rightarrow> ConnectionSessionRow \<Rightarrow> connection_cells" where
  "connection_row parse s =
     \<lparr>sr_duration = (case csr_ended_at s of None \<Rightarrow> ''active'' | Some e \<Rightarrow> session_formatDuration parse (csr_started_at s) e),
      sr_endpoint = (case csr_peer_endpoint_at_start s of Some p \<Rightarrow> p | None \<Rightarrow> em_dash),
      sr_ended_on = (if csr_ended_at s \<noteq> None \<and> csr_peer_endpoint_at_end s \<noteq> csr_peer_endpoint_at_start s
                     then csr_peer_endpoint_at_end s else None),
      sr_rx = transferred (csr_rx_bytes_at_start s) (csr_rx_bytes_at_end s),
      sr_tx = transferred (csr_tx_bytes_at_start s) (csr_tx_bytes_at_end s)\<rparr>"

definition device_summarize :: "json \<Rightarrow> string" where
  "device_summarize metadata =
     (let parts = take 3 (List.map_filter (\<lambda>(k, v). map_option (\<lambda>t. k @ ''='' @ t) (primitive_text v)) (entries metadata)) in
      if parts = [] then em_dash else join_with ('' '' @ middle_dot @ '' '') parts)"

definition device_toneForAction :: "string \<Rightarrow> PillTone" where
  "device_toneForAction action =
     (if endsWith action ''.online'' then Tone_ok
      else if endsWith action ''.offline'' then Tone_neutral
      else if str_includes action ''revoke'' \<or> str_includes action ''delete'' then Tone_err
      else if str_includes action ''pause'' \<or> str_includes action ''disable'' then Tone_warn
      else if str_includes action ''create'' then Tone_ok
      else Tone_info)"

section \<open>Moderation is guarded\<close>

definition moderation_init :: admin_device_page where
  "moderation_init = \<lparr>adp_revokeOpen = False\<rparr>"


definition revoked_sample :: AdminDeviceDetail where
  "revoked_sample =
     \<lparr>add_id = ''d1'', add_user_id = ''u1'', add_server_id = ''s1'', add_name = ''laptop'', add_os = Os_linux, add_device_type = Type_laptop,
      add_status = Dev_revoked, add_allocated_ip = ''10.0.0.2'', add_public_key = ''k'', add_last_handshake_at = None,
      add_last_peer_endpoint = None, add_last_peer_endpoint_at = None, add_created_at = [], add_total_rx_bytes = 0, add_total_tx_bytes = 0,
      add_monthly_byte_cap = None, add_current_month_bytes = 0, add_auto_paused = False\<rparr>"

definition dismissed_visit :: "(admin_device_page, device_moderation) page_visit" where
  "dismissed_visit = after_press (moderation_init, None) (page_visit_init moderation_init)"


text \<open>
  a device is revoked only by name: the page starts a revocation exactly when the open dialog is confirmed with the device's name typed
  and no revocation is in flight; where there is no device, nothing has to be typed.
\<close>

theorem revocation_needs_name:
  "moderation_pressed (Some d) fl p k = Some (p', Some Mod_revoke) \<longleftrightarrow>
   p' = p \<and> adp_revokeOpen p \<and> Mod_revoke \<notin> set fl \<and>
   (\<exists>typed. k = Mc_confirm typed \<and> (add_name d = [] \<or> trim typed = trim (add_name d)))"
  by (cases k) (auto simp: only_if_def confirm_enabled_def split: if_splits)

definition moderation_hook :: "device_moderation \<Rightarrow> bool" where
  "moderation_hook m \<longleftrightarrow> m = Mod_revoke"

lemma one_moderation_each:
  assumes "page_visited moderation_pressed moderation_resolves moderation_init C v"
  shows "distinct (map moderation_hook (vs_flight v))"
proof -
  have "distinct (map moderation_hook (filter (\<lambda>m. True) (vs_flight v)))"
  proof (rule visit_one_each[OF assms])
    fix c fl q k q' m x
    assume "moderation_pressed c fl q k = Some (q', Some m)" "x \<in> set fl"
    then show "moderation_hook x \<noteq> moderation_hook m"
      by (cases k; cases x) (auto simp: only_if_def confirm_enabled_def pause_pending_def moderation_hook_def split: if_splits)
  qed
  then show ?thesis by simp
qed

end
