(* ===== verification/Host_Access.thy ===== *)
theory Host_Access
  imports Page_Visit Api_Client Js_Number
begin

text \<open>
  The host-access page of the administration, src/web/src/pages/admin/HostAccess.tsx: the firewall rules that let VPN peers reach services
  of the host, the sheet in which a rule is created or edited, and the deletion of a rule.  The context of a press is what the two
  queries hold: the rules and the devices a rule may name.
\<close>

section \<open>The form\<close>

definition newRule :: SaveHostAccessRule where
  "newRule =
     \<lparr>shr_name = [], shr_description = [], shr_protocol = Proto_tcp, shr_gateway_port = 0, shr_backend_ip = [], shr_backend_port = 0,
      shr_enabled = True, shr_allow_all_peers = False, shr_device_ids = []\<rparr>"

definition toForm :: "HostAccessRule \<Rightarrow> SaveHostAccessRule" where
  "toForm r =
     \<lparr>shr_name = har_name r, shr_description = har_description r, shr_protocol = har_protocol r, shr_gateway_port = har_gateway_port r,
      shr_backend_ip = har_backend_ip r, shr_backend_port = har_backend_port r, shr_enabled = har_enabled r,
      shr_allow_all_peers = har_allow_all_peers r, shr_device_ids = har_device_ids r\<rparr>"

definition sheet_form :: "HostAccessRule option \<Rightarrow> SaveHostAccessRule" where
  "sheet_form rule = (case rule of Some r \<Rightarrow> toForm r | None \<Rightarrow> newRule)"

definition rule_valid :: "SaveHostAccessRule \<Rightarrow> bool" where
  "rule_valid f \<longleftrightarrow>
     trim (shr_name f) \<noteq> [] \<and> trim (shr_backend_ip f) \<noteq> [] \<and> shr_gateway_port f > 0 \<and> shr_backend_port f > 0 \<and>
     (shr_allow_all_peers f \<or> shr_device_ids f \<noteq> [])"

text \<open>
  The value of an \<open>input\<close> of type number is a floating-point numeral of HTML, or empty: \<open>number_value\<close> is what the handler reads for
  a typed text (\<open>Number\<close> of a numeral is a number, lemma \<open>html_float_number\<close>).
\<close>

definition html_float :: "string \<Rightarrow> bool" where
  "html_float s \<longleftrightarrow>
     (let (ip, r) = span_digits (if startsWith s ''-'' then drop 1 s else s) in
      case r of
        [] \<Rightarrow> ip \<noteq> []
      | c # r' \<Rightarrow>
          if c = CHR ''.'' then fst (span_digits r') \<noteq> [] \<and> read_exponent (snd (span_digits r')) \<noteq> None
          else ip \<noteq> [] \<and> read_exponent r \<noteq> None)"

definition number_value :: "string \<Rightarrow> number" where
  "number_value typed = (if html_float typed then (case Number_of typed of Fin x \<Rightarrow> x | _ \<Rightarrow> 0) else 0)"

definition toggle_device :: "string \<Rightarrow> string list \<Rightarrow> string list" where
  "toggle_device i selected = (if i \<in> set selected then filter (\<lambda>j. j \<noteq> i) selected else selected @ [i])"

datatype rule_edit =
    Set_name string | Set_description string | Set_protocol Protocol | Set_gateway_port string | Set_backend_port string
  | Set_backend_ip string | Set_enabled bool | Set_allow_all_peers bool | Toggle_device string | Clear_devices

fun edit_rule :: "HostAccessDevice list \<Rightarrow> rule_edit \<Rightarrow> SaveHostAccessRule \<Rightarrow> SaveHostAccessRule option" where
  "edit_rule ds (Set_name s) f = Some (f\<lparr>shr_name := s\<rparr>)"
| "edit_rule ds (Set_description s) f = Some (f\<lparr>shr_description := s\<rparr>)"
| "edit_rule ds (Set_protocol p) f = Some (f\<lparr>shr_protocol := p\<rparr>)"
| "edit_rule ds (Set_gateway_port s) f = Some (f\<lparr>shr_gateway_port := number_value s\<rparr>)"
| "edit_rule ds (Set_backend_port s) f = Some (f\<lparr>shr_backend_port := number_value s\<rparr>)"
| "edit_rule ds (Set_backend_ip s) f = Some (f\<lparr>shr_backend_ip := s\<rparr>)"
| "edit_rule ds (Set_enabled b) f = Some (f\<lparr>shr_enabled := b\<rparr>)"
| "edit_rule ds (Set_allow_all_peers b) f = Some (f\<lparr>shr_allow_all_peers := b\<rparr>)"
| "edit_rule ds (Toggle_device i) f =
     only_if (\<not> shr_allow_all_peers f \<and> i \<in> had_id ` set ds) (f\<lparr>shr_device_ids := toggle_device i (shr_device_ids f)\<rparr>)"
| "edit_rule ds Clear_devices f = only_if (\<not> shr_allow_all_peers f \<and> shr_device_ids f \<noteq> []) (f\<lparr>shr_device_ids := []\<rparr>)"

section \<open>The page\<close>

text \<open>
  The sheet is mounted under the identifier of the rule it edits: for another rule it is another instance, with a form and a save
  mutation of its own.  \<open>hp_sheet\<close> numbers the instances.
\<close>

record host_page =
  hp_editorOpen :: bool
  hp_editing :: "HostAccessRule option"
  hp_deleting :: "HostAccessRule option"
  hp_sheet :: nat
  hp_form :: SaveHostAccessRule

definition host_init :: host_page where
  "host_init = \<lparr>hp_editorOpen = False, hp_editing = None, hp_deleting = None, hp_sheet = 0, hp_form = newRule\<rparr>"

definition sheet_key :: "HostAccessRule option \<Rightarrow> string" where
  "sheet_key rule = (case rule of Some r \<Rightarrow> har_id r | None \<Rightarrow> ''new'')"

text \<open>\<open>openCreate\<close> and \<open>openEdit\<close>, with the effect of the sheet that fills the form when it opens or its rule changes.\<close>

definition open_sheet :: "HostAccessRule option \<Rightarrow> host_page \<Rightarrow> host_page" where
  "open_sheet rule p =
     p\<lparr>hp_editorOpen := True, hp_editing := rule,
       hp_sheet := (if sheet_key rule = sheet_key (hp_editing p) then hp_sheet p else Suc (hp_sheet p)),
       hp_form := (if hp_editorOpen p \<and> rule = hp_editing p then hp_form p else sheet_form rule)\<rparr>"

datatype host_mutation = Hm_save nat "HostAccessRule option" SaveHostAccessRule | Hm_delete string

fun host_request :: "host_mutation \<Rightarrow> api_request" where
  "host_request (Hm_save _ rule form) = (case rule of Some r \<Rightarrow> adminUpdateHostAccess (har_id r) form | None \<Rightarrow> adminCreateHostAccess form)"
| "host_request (Hm_delete i) = adminDeleteHostAccess i"

fun host_hook :: "host_mutation \<Rightarrow> nat option" where
  "host_hook (Hm_save n _ _) = Some n"
| "host_hook (Hm_delete _) = None"

definition host_pending :: "nat option \<Rightarrow> host_mutation list \<Rightarrow> bool" where
  "host_pending h fl \<longleftrightarrow> h \<in> host_hook ` set fl"

datatype host_control =
    Hc_new | Hc_edit HostAccessRule | Hc_delete HostAccessRule | Hc_dismiss_sheet | Hc_cancel | Hc_field rule_edit | Hc_save
  | Hc_dismiss_delete | Hc_confirm_delete

type_synonym host_ctx = "HostAccessRule list \<times> HostAccessDevice list"

fun host_pressed :: "host_ctx \<Rightarrow> host_mutation list \<Rightarrow> host_page \<Rightarrow> host_control \<Rightarrow> (host_page \<times> host_mutation option) option" where
  "host_pressed c fl p Hc_new = Some (open_sheet None p, None)"
| "host_pressed c fl p (Hc_edit r) = only_if (r \<in> set (fst c)) (open_sheet (Some r) p, None)"
| "host_pressed c fl p (Hc_delete r) = only_if (r \<in> set (fst c)) (p\<lparr>hp_deleting := Some r\<rparr>, None)"
| "host_pressed c fl p Hc_dismiss_sheet = Some (p\<lparr>hp_editorOpen := False\<rparr>, None)"
| "host_pressed c fl p Hc_cancel = only_if (\<not> host_pending (Some (hp_sheet p)) fl) (p\<lparr>hp_editorOpen := False\<rparr>, None)"
| "host_pressed c fl p (Hc_field e) =
     (if hp_editorOpen p then map_option (\<lambda>f. (p\<lparr>hp_form := f\<rparr>, None)) (edit_rule (snd c) e (hp_form p)) else None)"
| "host_pressed c fl p Hc_save =
     only_if (hp_editorOpen p \<and> rule_valid (hp_form p) \<and> \<not> host_pending (Some (hp_sheet p)) fl)
       (p, Some (Hm_save (hp_sheet p) (hp_editing p) (hp_form p)))"
| "host_pressed c fl p Hc_dismiss_delete = Some (p\<lparr>hp_deleting := None\<rparr>, None)"
| "host_pressed c fl p Hc_confirm_delete =
     (case hp_deleting p of
        Some r \<Rightarrow> only_if (\<not> host_pending None fl) (p, Some (Hm_delete (har_id r)))
      | None \<Rightarrow> None)"

definition host_refresh :: page_effect where
  "host_refresh = Invalidated [''admin'', ''host-access'']"

fun host_success :: "host_mutation \<Rightarrow> host_page \<Rightarrow> host_page \<times> page_effect list" where
  "host_success (Hm_save _ rule _) p =
     (p\<lparr>hp_editorOpen := False\<rparr>,
      [Toast_success (if rule \<noteq> None then ''Host access rule updated'' else ''Host access rule created''), host_refresh])"
| "host_success (Hm_delete _) p = (p\<lparr>hp_deleting := None\<rparr>, [Toast_success ''Host access rule deleted'', host_refresh])"

definition host_resolves :: "host_ctx \<Rightarrow> host_mutation \<Rightarrow> host_page \<Rightarrow> host_page \<Rightarrow> bool" where
  "host_resolves c m p q \<longleftrightarrow> q = fst (host_success m p)"

text \<open>The row of a rule: its flow and the devices it names, as far as they are listed.\<close>

definition assigned_devices :: "HostAccessDevice list \<Rightarrow> HostAccessRule \<Rightarrow> HostAccessDevice list" where
  "assigned_devices ds r = filter (\<lambda>d. had_id d \<in> set (har_device_ids r)) ds"

definition audience_cell :: "HostAccessDevice list \<Rightarrow> HostAccessRule \<Rightarrow> string \<times> string" where
  "audience_cell ds r =
     (if har_allow_all_peers r then (''All active peers'', [])
      else let assigned = assigned_devices ds r; names = join_with '', '' (map had_name assigned) in
           (nat_dec (length assigned) @ '' device'' @ (if length assigned = 1 then [] else ''s''),
            if names = [] then ''None'' else names))"

definition RuleRow :: "HostAccessDevice list \<Rightarrow> HostAccessRule \<Rightarrow> string list" where
  "RuleRow ds r =
     [har_name r, (if har_description r = [] then ''No description'' else har_description r),
      Protocol_str (har_protocol r), fst (audience_cell ds r), snd (audience_cell ds r),
      (if har_enabled r then ''Enabled'' else ''Disabled'')]"

section \<open>Numerals\<close>

lemma span_digits_eq: "span_digits s = (a, b) \<Longrightarrow> s = a @ b \<and> list_all is_digit a"
  by (auto simp: span_digits_def list_all_iff dest: set_takeWhileD)

definition numeral_char :: "char \<Rightarrow> bool" where
  "numeral_char c \<longleftrightarrow> is_digit c \<or> c \<in> set ''.eE+-''"

lemma exponent_chars: "read_exponent s \<noteq> None \<Longrightarrow> list_all numeral_char s"
  by (induction s rule: read_exponent.induct) (auto simp: numeral_char_def list_all_iff split: if_splits list.splits)

lemma html_float_chars: "html_float s \<Longrightarrow> list_all numeral_char s"
proof -
  assume f: "html_float s"
  define u where "u = (if startsWith s ''-'' then drop 1 s else s)"
  obtain a b where ab: "span_digits u = (a, b)" by (cases "span_digits u")
  have "list_all numeral_char b"
  proof (cases b)
    case (Cons c b')
    obtain d e where de: "span_digits b' = (d, e)" by (cases "span_digits b'")
    then have "c = CHR ''.'' \<and> read_exponent e \<noteq> None \<or> read_exponent b \<noteq> None"
      using f ab de Cons by (auto simp: html_float_def simp flip: u_def split: if_splits)
    then show ?thesis
      using Cons exponent_chars[of b] exponent_chars[of e] conjunct1[OF span_digits_eq[OF de]] conjunct2[OF span_digits_eq[OF de]]
      by (auto simp: numeral_char_def list_all_iff)
  qed simp
  with span_digits_eq[OF ab] have "list_all numeral_char u" by (auto simp: list_all_iff numeral_char_def)
  moreover have "s = (if startsWith s ''-'' then CHR ''-'' # u else u)"
    by (cases s) (auto simp: u_def startsWith_def)
  ultimately show ?thesis by (auto simp: numeral_char_def list_all_iff split: if_splits)
qed

lemma html_float_read:
  assumes "html_float s"
  shows "read_unsigned (if startsWith s ''-'' then drop 1 s else s) \<noteq> None"
proof -
  define u where "u = (if startsWith s ''-'' then drop 1 s else s)"
  obtain a b where ab: "span_digits u = (a, b)" by (cases "span_digits u")
  have h: "case b of [] \<Rightarrow> a \<noteq> [] | c # r' \<Rightarrow> if c = CHR ''.'' then fst (span_digits r') \<noteq> [] \<and> read_exponent (snd (span_digits r')) \<noteq> None
    else a \<noteq> [] \<and> read_exponent b \<noteq> None"
    using assms unfolding html_float_def u_def[symmetric] ab by simp
  have "read_unsigned u \<noteq> None"
  proof (cases b)
    case Nil
    with h ab show ?thesis by (simp add: read_unsigned_def)
  next
    case (Cons c r')
    with h ab show ?thesis by (cases "span_digits r'"; cases "c = CHR ''.''") (auto simp: read_unsigned_def)
  qed
  then show ?thesis by (simp add: u_def)
qed

lemma html_float_number:
  assumes f: "html_float s"
  shows "\<exists>x. Number_of s = Fin x"
proof -
  note ch = html_float_chars[OF f]
  have t: "trim s = s" using ch by (intro trim_no_space) (auto simp: list_all_iff numeral_char_def is_digit_def is_space_def)
  have pre: "\<not> startsWith s p" if "c \<in> set p" "\<not> numeral_char c" for p c
    using ch that by (metis in_set_takeD list_all_iff startsWith_def)
  have "s \<noteq> []" using f by (auto simp: html_float_def span_digits_def startsWith_def)
  moreover have "\<not> startsWith s ''+''"
  proof
    assume "startsWith s ''+''"
    then obtain r where "s = CHR ''+'' # r" by (cases s) (auto simp: startsWith_def)
    with f show False by (simp add: html_float_def span_digits_def startsWith_def is_digit_def)
  qed
  moreover have "\<not> startsWith s ''0x''" "\<not> startsWith s ''0X''" "\<not> startsWith s ''0o''" "\<not> startsWith s ''0O''"
    "\<not> startsWith s ''0b''" "\<not> startsWith s ''0B''"
    using pre[of "CHR ''x''"] pre[of "CHR ''X''"] pre[of "CHR ''o''"] pre[of "CHR ''O''"] pre[of "CHR ''b''"] pre[of "CHR ''B''"]
    by (simp_all add: numeral_char_def is_digit_def)
  moreover have "(if startsWith s ''-'' then drop 1 s else s) \<noteq> ''Infinity''"
    using ch by (cases s) (auto simp: numeral_char_def is_digit_def)
  moreover have "read_unsigned (if startsWith s ''-'' then drop 1 s else s) \<noteq> None"
    using f by (rule html_float_read)
  ultimately show ?thesis by (auto simp: Number_of_def t Let_def split: if_splits)
qed

text \<open>Digits are read as the number they denote.\<close>

lemma number_value_digits: "all_digits s \<Longrightarrow> number_value s = of_nat (dec_val s)"
  by (simp add: number_value_def Number_of_digits)
    (auto simp: html_float_def all_digits_def digits_not_prefixed span_digits_def span_all_digits)

section \<open>Selecting devices\<close>

lemma toggle_device_set: "set (toggle_device i sel) = (if i \<in> set sel then set sel - {i} else insert i (set sel))"
  by (auto simp: toggle_device_def)

lemma toggle_device_distinct: "distinct sel \<Longrightarrow> distinct (toggle_device i sel)"
  by (simp add: toggle_device_def)

text \<open>After any toggles a device is selected if it was, or was toggled an odd number of times, but not both.\<close>

lemma toggles_parity:
  "i \<in> set (fold toggle_device is sel) \<longleftrightarrow> (i \<in> set sel) \<noteq> odd (count_list is i)"
  by (induction "is" arbitrary: sel) (auto simp: toggle_device_set)

section \<open>What is saved\<close>

definition listed_ids :: "host_ctx set \<Rightarrow> string set" where
  "listed_ids C = (\<Union>c\<in>C. had_id ` set (snd c))"

definition known_rules :: "host_ctx set \<Rightarrow> HostAccessRule set" where
  "known_rules C = (\<Union>c\<in>C. set (fst c))"

lemma listed_idsI: "c \<in> C \<Longrightarrow> d \<in> set (snd c) \<Longrightarrow> had_id d \<in> listed_ids C"
  by (auto simp: listed_ids_def)

lemma known_rulesI: "c \<in> C \<Longrightarrow> r \<in> set (fst c) \<Longrightarrow> r \<in> known_rules C"
  by (auto simp: known_rules_def)

definition audience_ok :: "host_ctx set \<Rightarrow> HostAccessRule option \<Rightarrow> SaveHostAccessRule \<Rightarrow> bool" where
  "audience_ok C rule f \<longleftrightarrow>
     distinct (shr_device_ids f) \<and>
     set (shr_device_ids f) \<subseteq> listed_ids C \<union> (case rule of Some r \<Rightarrow> set (har_device_ids r) | None \<Rightarrow> {}) \<and>
     (case rule of Some r \<Rightarrow> r \<in> known_rules C | None \<Rightarrow> True)"

definition host_inv :: "host_ctx set \<Rightarrow> host_page \<Rightarrow> bool" where
  "host_inv C p \<longleftrightarrow> audience_ok C (hp_editing p) (hp_form p) \<and> (case hp_deleting p of Some r \<Rightarrow> r \<in> known_rules C | None \<Rightarrow> True)"

fun mutation_ok :: "host_ctx set \<Rightarrow> host_mutation \<Rightarrow> bool" where
  "mutation_ok C (Hm_save _ rule f) = (rule_valid f \<and> audience_ok C rule f)"
| "mutation_ok C (Hm_delete i) = (i \<in> har_id ` known_rules C)"

lemma edit_keeps_audience:
  assumes "edit_rule (snd c) e f = Some f'" "c \<in> C" "audience_ok C rule f"
  shows "audience_ok C rule f'"
  using assms
  by (cases e) (auto simp: audience_ok_def only_if_def toggle_device_set toggle_device_distinct intro: listed_idsI split: if_splits)

lemma sheet_audience:
  assumes "\<forall>r \<in> known_rules C. distinct (har_device_ids r)" and "\<And>r. rule = Some r \<Longrightarrow> r \<in> known_rules C"
  shows "audience_ok C rule (sheet_form rule)"
  using assms by (cases rule) (auto simp: audience_ok_def sheet_form_def toForm_def newRule_def)

lemma open_sheet_inv:
  assumes "\<forall>r \<in> known_rules C. distinct (har_device_ids r)" and "\<And>r. rule = Some r \<Longrightarrow> r \<in> known_rules C" and "host_inv C p"
  shows "host_inv C (open_sheet rule p)"
  using sheet_audience[OF assms(1), of rule] assms(2,3) by (auto simp: host_inv_def open_sheet_def)

text \<open>
  C18: the firewall rules an administrator saves are the ones the sheet shows and no wider: over any visit, while the listed rules and devices
  change underneath, every rule sent has a name, an address, positive ports and an audience, names each device once, and only devices
  that were listed or that the edited rule already named; and every deletion is of a listed rule.
\<close>

theorem host_rules_no_wider:
  assumes "page_visited host_pressed host_resolves host_init C v" and d: "\<forall>r \<in> known_rules C. distinct (har_device_ids r)"
  shows "list_all (mutation_ok C) (vs_started v)"
proof -
  have "host_inv C (vs_page v) \<and> list_all (mutation_ok C) (vs_started v) \<and> list_all (mutation_ok C) (vs_flight v)"
  proof (rule visit_invariant[OF assms(1), where I = "host_inv C"])
    show "host_inv C host_init" by (simp add: host_inv_def host_init_def audience_ok_def newRule_def)
    show "host_inv C q' \<and> pred_option (mutation_ok C) m"
      if "c \<in> C" "host_inv C q" "host_pressed c fl q k = Some (q', m)" for c fl q k q' m
    proof (cases k)
      case Hc_new
      then show ?thesis using that open_sheet_inv[OF d, of None q] by auto
    next
      case (Hc_edit r)
      then show ?thesis using that open_sheet_inv[OF d, of "Some r" q] by (auto simp: only_if_def intro: known_rulesI split: if_splits)
    next
      case (Hc_field e)
      then show ?thesis using that edit_keeps_audience[of c e "hp_form q"] by (auto simp: host_inv_def split: if_splits)
    qed (use that in \<open>auto simp: only_if_def host_inv_def intro: known_rulesI split: if_splits option.splits\<close>)
    show "host_inv C q'" if "c \<in> C" "host_inv C q" "mutation_ok C m" "host_resolves c m q q'" for c m q q'
      using that by (cases m) (auto simp: host_resolves_def host_inv_def)
  qed
  then show ?thesis by simp
qed

fun press_seq ::
  "('c \<Rightarrow> 'm list \<Rightarrow> 'p \<Rightarrow> 'k \<Rightarrow> ('p \<times> 'm option) option) \<Rightarrow> ('c \<times> 'k) list \<Rightarrow> ('p, 'm) page_visit \<Rightarrow> ('p, 'm) page_visit option" where
  "press_seq press [] v = Some v"
| "press_seq press ((c, k) # ks) v =
     (case press c (vs_flight v) (vs_page v) k of None \<Rightarrow> None | Some r \<Rightarrow> press_seq press ks (after_press r v))"

lemma press_seq_visited:
  "page_visited press resolve p C v \<Longrightarrow> fst ` set ks \<subseteq> C \<Longrightarrow> press_seq press ks v = Some w \<Longrightarrow> page_visited press resolve p C w"
proof (induction ks arbitrary: v)
  case (Cons x ks)
  obtain c k where x: "x = (c, k)" by (cases x)
  with Cons.prems(3) obtain r where r: "press c (vs_flight v) (vs_page v) k = Some r" "press_seq press ks (after_press r v) = Some w"
    by (auto split: option.splits)
  from Cons.prems(2) x have "c \<in> C" "fst ` set ks \<subseteq> C" by auto
  then show ?case using Cons.IH[OF _ _ r(2)] visited_press[OF Cons.prems(1) _ r(1)] by blast
qed simp

definition sample_host_rule :: HostAccessRule where
  "sample_host_rule =
     \<lparr>har_id = ''r1'', har_name = ''db'', har_description = [], har_protocol = Proto_tcp, har_gateway_ip = ''10.0.0.1'', har_gateway_port = 5432,
      har_backend_ip = ''192.168.1.20'', har_backend_port = 5432, har_enabled = True, har_allow_all_peers = False, har_device_ids = [''d1'']\<rparr>"

definition sample_host_ctx :: host_ctx where
  "sample_host_ctx =
     ([sample_host_rule],
      [\<lparr>had_id = ''d2'', had_name = ''phone'', had_allocated_ip = ''10.0.0.3'', had_status = ''active'', had_owner_email = ''a@b.c''\<rparr>])"

definition sample_host_presses :: "host_control list" where
  "sample_host_presses = [Hc_edit sample_host_rule, Hc_field (Set_gateway_port ''6432''), Hc_field (Toggle_device ''d2''), Hc_save]"

definition sample_host_visit :: "(host_page, host_mutation) page_visit" where
  "sample_host_visit = the (press_seq host_pressed (map (Pair sample_host_ctx) sample_host_presses) (page_visit_init host_init))"

theorem host_rules_no_wider_witness:
  "page_visited host_pressed host_resolves host_init {sample_host_ctx} sample_host_visit \<and>
   vs_started sample_host_visit =
     [Hm_save 1 (Some sample_host_rule) (toForm sample_host_rule\<lparr>shr_gateway_port := 6432, shr_device_ids := [''d1'', ''d2'']\<rparr>)] \<and>
   list_all (mutation_ok {sample_host_ctx}) (vs_started sample_host_visit)"
proof -
  define f where "f = toForm sample_host_rule\<lparr>shr_gateway_port := 6432, shr_device_ids := [''d1'', ''d2'']\<rparr>"
  define q where "q = \<lparr>hp_editorOpen = True, hp_editing = Some sample_host_rule, hp_deleting = None, hp_sheet = 1, hp_form = f\<rparr>"
  have "number_value ''6432'' = 6432" by (simp add: number_value_digits all_digits_def is_digit_def dec_val_def digit_val_def)
  moreover have "trim ''db'' \<noteq> []" "trim ''192.168.1.20'' \<noteq> []" by code_simp+
  ultimately have r: "press_seq host_pressed (map (Pair sample_host_ctx) sample_host_presses) (page_visit_init host_init) =
      Some \<lparr>vs_page = q, vs_flight = [Hm_save 1 (Some sample_host_rule) f], vs_started = [Hm_save 1 (Some sample_host_rule) f]\<rparr>"
    by (simp add: sample_host_presses_def sample_host_ctx_def page_visit_init_def host_init_def after_press_def only_if_def open_sheet_def
        sheet_key_def sheet_form_def sample_host_rule_def toForm_def toggle_device_def host_pending_def rule_valid_def q_def f_def newRule_def)
  then have v: "page_visited host_pressed host_resolves host_init {sample_host_ctx} sample_host_visit"
    by (intro press_seq_visited[OF page_visited.start, of "map (Pair sample_host_ctx) sample_host_presses"])
      (auto simp: sample_host_visit_def)
  moreover have "vs_started sample_host_visit = [Hm_save 1 (Some sample_host_rule) f]" by (simp add: sample_host_visit_def r)
  moreover have "list_all (mutation_ok {sample_host_ctx}) (vs_started sample_host_visit)"
    by (rule host_rules_no_wider[OF v]) (simp add: known_rules_def sample_host_ctx_def sample_host_rule_def)
  ultimately show ?thesis by (simp add: f_def)
qed

text \<open>Each instance of the sheet saves once at a time, and so does the deletion dialog.\<close>

lemma one_host_mutation_each:
  assumes "page_visited host_pressed host_resolves host_init C v"
  shows "distinct (map host_hook (vs_flight v))"
proof -
  have "distinct (map host_hook (filter (\<lambda>m. True) (vs_flight v)))"
  proof (rule visit_one_each[OF assms])
    fix c fl q k q' m x
    assume "host_pressed c fl q k = Some (q', Some m)" "x \<in> set fl"
    then show "host_hook x \<noteq> host_hook m"
      by (cases k) (force simp: only_if_def host_pending_def split: if_splits option.splits)+
  qed
  then show ?thesis by simp
qed

section \<open>Editing keeps what is not edited\<close>

definition saved_rule :: "HostAccessRule \<Rightarrow> SaveHostAccessRule \<Rightarrow> HostAccessRule" where
  "saved_rule r f =
     r\<lparr>har_name := shr_name f, har_description := shr_description f, har_protocol := shr_protocol f, har_gateway_port := shr_gateway_port f,
       har_backend_ip := shr_backend_ip f, har_backend_port := shr_backend_port f, har_enabled := shr_enabled f,
       har_allow_all_peers := shr_allow_all_peers f, har_device_ids := shr_device_ids f\<rparr>"

lemma untouched_rule_resaved: "saved_rule r (toForm r) = r"
  by (simp add: saved_rule_def toForm_def)

text \<open>A save that is still in flight when the sheet is dismissed closes whatever editor is open when it succeeds.\<close>

lemma late_save_closes_other_editor:
  "\<not> hp_editorOpen (fst (host_success (Hm_save n (Some r) f) (open_sheet (Some r') p)))"
  by simp

text \<open>A port beyond the range of the input's \<open>max\<close> is sent: the bound of the input is checked by forms only, and there is none.\<close>

lemma port_out_of_range_sent:
  "rule_valid (newRule\<lparr>shr_name := ''db'', shr_backend_ip := ''10.0.0.9'', shr_gateway_port := number_value ''70000'',
     shr_backend_port := number_value ''70000'', shr_allow_all_peers := True\<rparr>)"
proof -
  have "number_value ''70000'' = 70000" by (simp add: number_value_digits all_digits_def is_digit_def dec_val_def digit_val_def)
  moreover have "trim ''db'' \<noteq> []" "trim ''10.0.0.9'' \<noteq> []" by code_simp+
  ultimately show ?thesis by (simp add: rule_valid_def)
qed

end
