(* ===== verification/Server_Admin.thy ===== *)
theory Server_Admin
  imports Host_Access Device_State Units Datetime Grouping
begin

text \<open>
  The server pages of the administration: the editor of src/web/src/pages/admin/Servers.tsx with the rotation of a server's keys, the
  overview of src/web/src/pages/admin/Overview.tsx with the maintenance switch, and the roster of
  src/web/src/pages/admin/OnlineDevices.tsx.
\<close>

section \<open>The editor of a server\<close>

record server_editor =
  sv_name :: string
  sv_endpointHost :: string
  sv_endpointPort :: string
  sv_mtu :: string
  sv_keepalive :: string
  sv_rotateOpen :: bool

text \<open>The editor is filled from the row it is mounted with, and never again.\<close>

definition server_editor_init :: "AdminServerRow \<Rightarrow> server_editor" where
  "server_editor_init s =
     \<lparr>sv_name = asr_name s, sv_endpointHost = asr_endpoint_host s, sv_endpointPort = num_string (asr_endpoint_port s),
      sv_mtu = num_string (asr_mtu s), sv_keepalive = num_string (asr_persistent_keepalive s), sv_rotateOpen = False\<rparr>"

definition non_blank :: "string \<Rightarrow> string option" where
  "non_blank s = (if trim s = [] then None else Some (trim s))"

fun truthy_num :: "jsnum \<Rightarrow> number option" where
  "truthy_num (Fin x) = (if x = 0 then None else Some x)"
| "truthy_num _ = None"

fun finite_num :: "jsnum \<Rightarrow> number option" where
  "finite_num (Fin x) = Some x"
| "finite_num _ = None"

definition server_body :: "server_editor \<Rightarrow> PatchServerBody" where
  "server_body e =
     (let ka = (if trim (sv_keepalive e) = [] then NaN else Number_of (sv_keepalive e)) in
      \<lparr>psb_endpoint_host = non_blank (sv_endpointHost e), psb_endpoint_port = truthy_num (Number_of (sv_endpointPort e)),
       psb_mtu = truthy_num (Number_of (sv_mtu e)), psb_persistent_keepalive = finite_num ka, psb_name = non_blank (sv_name e)\<rparr>)"

text \<open>The fields of the editor; those of type number hold a numeral of HTML or nothing, so never \<open>Infinity\<close>.\<close>

datatype server_field = Sf_name string | Sf_host string | Sf_port string | Sf_mtu string | Sf_keepalive string

definition number_input :: "string \<Rightarrow> string" where
  "number_input typed = (if html_float typed then typed else [])"

fun server_typed :: "server_field \<Rightarrow> server_editor \<Rightarrow> server_editor" where
  "server_typed (Sf_name s) e = e\<lparr>sv_name := s\<rparr>"
| "server_typed (Sf_host s) e = e\<lparr>sv_endpointHost := s\<rparr>"
| "server_typed (Sf_port s) e = e\<lparr>sv_endpointPort := number_input s\<rparr>"
| "server_typed (Sf_mtu s) e = e\<lparr>sv_mtu := number_input s\<rparr>"
| "server_typed (Sf_keepalive s) e = e\<lparr>sv_keepalive := number_input s\<rparr>"

datatype server_control = Sc_type server_field | Sc_save | Sc_rotate | Sc_dismiss | Sc_confirm string

datatype server_mutation = Sm_save PatchServerBody | Sm_rotate

fun server_request :: "AdminServerRow \<Rightarrow> server_mutation \<Rightarrow> api_request" where
  "server_request s (Sm_save b) = adminPatchServer (asr_id s) b"
| "server_request s Sm_rotate = adminRotateServerKeys (asr_id s)"

definition save_pending :: "server_mutation list \<Rightarrow> bool" where
  "save_pending fl \<longleftrightarrow> list_ex (\<lambda>m. m \<noteq> Sm_rotate) fl"

fun server_pressed :: "AdminServerRow \<Rightarrow> server_mutation list \<Rightarrow> server_editor \<Rightarrow> server_control \<Rightarrow> (server_editor \<times> server_mutation option) option" where
  "server_pressed s fl e (Sc_type f) = Some (server_typed f e, None)"
| "server_pressed s fl e Sc_save = only_if (\<not> save_pending fl) (e, Some (Sm_save (server_body e)))"
| "server_pressed s fl e Sc_rotate = only_if (Sm_rotate \<notin> set fl) (e\<lparr>sv_rotateOpen := True\<rparr>, None)"
| "server_pressed s fl e Sc_dismiss = Some (e\<lparr>sv_rotateOpen := False\<rparr>, None)"
| "server_pressed s fl e (Sc_confirm typed) =
     only_if (sv_rotateOpen e \<and> confirm_enabled (Some (asr_name s)) typed (Sm_rotate \<in> set fl)) (e, Some Sm_rotate)"

fun server_success :: "server_mutation \<Rightarrow> server_editor \<Rightarrow> server_editor \<times> page_effect list" where
  "server_success (Sm_save _) e = (e, [Toast_success ''Server config saved'', Invalidated [''admin'', ''servers'']])"
| "server_success Sm_rotate e =
     (e\<lparr>sv_rotateOpen := False\<rparr>, [Toast_success ''Server keys rotated'', Invalidated [''admin'', ''servers'']])"

definition server_resolves :: "AdminServerRow \<Rightarrow> server_mutation \<Rightarrow> server_editor \<Rightarrow> server_editor \<Rightarrow> bool" where
  "server_resolves s m e e' \<longleftrightarrow> e' = fst (server_success m e)"

section \<open>The overview\<close>

definition maintOn :: "MaintenanceState option \<Rightarrow> bool" where
  "maintOn q = (case q of Some m \<Rightarrow> mst_maintenance_mode m | None \<Rightarrow> False)"

definition press_maintenance :: "bool \<Rightarrow> bool \<Rightarrow> MaintenanceState option \<Rightarrow> bool option" where
  "press_maintenance pending loading q = only_if (\<not> pending \<and> \<not> loading) (\<not> maintOn q)"

definition maintenance_success :: "bool \<Rightarrow> page_effect list" where
  "maintenance_success on =
     [Invalidated [''admin'', ''maintenance''], Toast_info (if on then ''Maintenance mode ON'' else ''Maintenance mode OFF'')]"

definition onlineNow :: "LiveStatsState \<Rightarrow> number" where
  "onlineNow s = sum_list (map (\<lambda>(i, srv). sl_onlineCount srv) (servers s))"

text \<open>The number of online devices: the roster's length once it is loaded, before that the larger of the stored and the streamed count.\<close>

definition overview_onlineCount ::
  "OnlineDeviceRow list option \<Rightarrow> OnlineDeviceRow list \<Rightarrow> bool \<Rightarrow> AdminStats option \<Rightarrow> LiveStatsState \<Rightarrow> number option" where
  "overview_onlineCount roster onlineRows statsLoading stats s =
     (if roster \<noteq> None then Some (of_nat (length onlineRows))
      else if statsLoading then None
      else Some (max (case stats of Some a \<Rightarrow> ast_online_now a | None \<Rightarrow> 0) (onlineNow s)))"

definition users_foot :: "AdminStats option \<Rightarrow> string \<times> string option" where
  "users_foot stats =
     (let get = (\<lambda>f. case stats of Some a \<Rightarrow> f a | None \<Rightarrow> 0);
          pending = get ast_pending_verification; suspended = get ast_suspended in
      (num_string (get ast_active) @ '' active'' @
         (if pending > 0 then '' '' @ middle_dot @ '' '' @ num_string pending @ '' pending'' else []),
       if suspended > 0 then Some (num_string suspended @ '' suspended'') else None))"

definition fleet_kpi :: "AdminFleetBandwidth option \<Rightarrow> bool \<Rightarrow> string \<times> string" where
  "fleet_kpi bw loading =
     (let rx = (case bw of Some b \<Rightarrow> afb_rx_bytes b | None \<Rightarrow> 0); tx = (case bw of Some b \<Rightarrow> afb_tx_bytes b | None \<Rightarrow> 0) in
      (if loading then em_dash else formatBytes (Fin (rx + tx)),
       ''RX '' @ formatBytes (Fin rx) @ '' '' @ middle_dot @ '' TX '' @ formatBytes (Fin tx)))"

fun AgentStatus_text :: "AgentStatus \<Rightarrow> string" where
  "AgentStatus_text Agent_pending = ''pending''"
| "AgentStatus_text Agent_applied = ''applied''"
| "AgentStatus_text Agent_failed = ''failed''"

definition host_agent_text :: "bool \<Rightarrow> HostAgentStatus list option \<Rightarrow> string" where
  "host_agent_text failed q =
     (if failed then ''status unavailable''
      else case q of
        Some (a # as) \<Rightarrow>
          join_with ''; ''
            (map (\<lambda>i. AgentStatus_text (has_status i) @ '' '' @ middle_dot @ '' applied '' @ num_string (has_applied_revision i) @ '' / desired '' @
                      num_string (has_desired_revision i) @
                      (case truthy_str (has_last_error i) of Some e \<Rightarrow> '' '' @ middle_dot @ '' '' @ e | None \<Rightarrow> [])) (a # as))
      | _ \<Rightarrow> ''waiting for first reconciliation'')"

record server_card =
  sc_peers :: number
  sc_online :: number
  sc_onlineOk :: bool
  sc_rx :: string
  sc_tx :: string

definition ServerLiveCard :: "UnitsPref \<Rightarrow> LiveStatsState \<Rightarrow> AdminServerRow \<Rightarrow> server_card" where
  "ServerLiveCard units s srv =
     (case map_of (servers s) (asr_id srv) of
        Some l \<Rightarrow> \<lparr>sc_peers = sl_peerCount l, sc_online = sl_onlineCount l, sc_onlineOk = (sl_onlineCount l \<noteq> 0),
                   sc_rx = formatBps units (Fin (sl_rxBps l)), sc_tx = formatBps units (Fin (sl_txBps l))\<rparr>
      | None \<Rightarrow> \<lparr>sc_peers = 0, sc_online = 0, sc_onlineOk = False, sc_rx = formatBps units (Fin 0), sc_tx = formatBps units (Fin 0)\<rparr>)"

section \<open>The roster\<close>

type_synonym roster_owner = "string \<times> OnlineDeviceRow list"

fun add_owner :: "OnlineDeviceRow \<Rightarrow> (string \<times> roster_owner) list \<Rightarrow> (string \<times> roster_owner) list" where
  "add_owner d [] = [(odr_user_id d, odr_user_email d, [d])]"
| "add_owner d ((u, e, ds) # gs) =
     (if u = odr_user_id d then (u, e, ds @ [d]) # gs else (u, e, ds) # add_owner d gs)"

definition roster_groups :: "OnlineDeviceRow list \<Rightarrow> (string \<times> roster_owner) list" where
  "roster_groups online = fold add_owner online []"

definition roster_title :: "OnlineDeviceRow list \<Rightarrow> string" where
  "roster_title online = nat_dec (length online) @ '' online '' @ (if length online = 1 then ''device'' else ''devices'')"

datatype roster_body = Roster_loading | Roster_hidden | Roster_none | Roster_owners "(string \<times> roster_owner) list"

definition roster_shown :: "bool \<Rightarrow> bool \<Rightarrow> OnlineDeviceRow list option \<Rightarrow> OnlineDeviceRow list \<Rightarrow> roster_body" where
  "roster_shown pending failed q online =
     (if pending then Roster_loading else if failed \<and> q = None then Roster_hidden
      else if online = [] then Roster_none else Roster_owners (roster_groups online))"

text \<open>The grouping written down directly: owners by first appearance, each with its devices in order.\<close>

definition owners_of :: "OnlineDeviceRow list \<Rightarrow> string list" where
  "owners_of rows = first_of_each (map odr_user_id rows)"

definition owner_rows :: "OnlineDeviceRow list \<Rightarrow> string \<Rightarrow> OnlineDeviceRow list" where
  "owner_rows rows u = filter (\<lambda>r. odr_user_id r = u) rows"

definition group_of :: "OnlineDeviceRow list \<Rightarrow> string \<Rightarrow> string \<times> roster_owner" where
  "group_of rows u = (u, odr_user_email (hd (owner_rows rows u)), owner_rows rows u)"

lemma owners_of_simps:
  "owners_of [] = []"
  "owners_of (rows @ [d]) = (if odr_user_id d \<in> odr_user_id ` set rows then owners_of rows else owners_of rows @ [odr_user_id d])"
  by (simp_all add: owners_of_def first_of_each_snoc)

lemma owners_of_distinct: "distinct (owners_of rows)"
  by (simp add: owners_of_def)

lemma owners_of_set: "set (owners_of rows) = odr_user_id ` set rows"
  by (simp add: owners_of_def)

lemma add_owner_other:
  assumes "odr_user_id d \<notin> fst ` set gs"
  shows "add_owner d gs = gs @ [(odr_user_id d, odr_user_email d, [d])]"
  using assms by (induction d gs rule: add_owner.induct) auto

lemma add_owner_known:
  assumes "odr_user_id d \<in> set us" "distinct us"
  shows "add_owner d (map (\<lambda>u. (u, f u, g u)) us) = map (\<lambda>u. (u, f u, if u = odr_user_id d then g u @ [d] else g u)) us"
  using assms by (induction us) auto

lemma roster_groups_eq: "roster_groups rows = map (group_of rows) (owners_of rows)"
proof (induction rows rule: rev_induct)
  case Nil
  then show ?case by (simp add: roster_groups_def owners_of_simps)
next
  case (snoc d rows)
  let ?u = "odr_user_id d"
  have step: "roster_groups (rows @ [d]) = add_owner d (map (group_of rows) (owners_of rows))"
    using snoc by (simp add: roster_groups_def)
  have other: "group_of (rows @ [d]) u = group_of rows u" if "u \<noteq> ?u" for u
    using that by (simp add: group_of_def owner_rows_def)
  show ?case
  proof (cases "?u \<in> odr_user_id ` set rows")
    case True
    then have "owner_rows rows ?u \<noteq> []" by (auto simp: owner_rows_def filter_empty_conv)
    then have "group_of (rows @ [d]) u =
        (u, odr_user_email (hd (owner_rows rows u)), if u = ?u then owner_rows rows u @ [d] else owner_rows rows u)" for u
      by (simp add: group_of_def owner_rows_def)
    then have new: "map (group_of (rows @ [d])) (owners_of rows) =
        map (\<lambda>u. (u, odr_user_email (hd (owner_rows rows u)), if u = ?u then owner_rows rows u @ [d] else owner_rows rows u)) (owners_of rows)"
      by simp
    have old: "map (group_of rows) (owners_of rows) = map (\<lambda>u. (u, odr_user_email (hd (owner_rows rows u)), owner_rows rows u)) (owners_of rows)"
      by (simp add: group_of_def)
    have "add_owner d (map (group_of rows) (owners_of rows)) = map (group_of (rows @ [d])) (owners_of rows)"
      unfolding old new by (rule add_owner_known) (use True in \<open>auto simp: owners_of_set owners_of_distinct\<close>)
    with True show ?thesis by (simp add: step owners_of_simps)
  next
    case False
    then have "owner_rows rows ?u = []" by (fastforce simp: owner_rows_def filter_empty_conv image_iff)
    then have "group_of (rows @ [d]) ?u = (?u, odr_user_email d, [d])" by (simp add: group_of_def owner_rows_def)
    moreover have "map (group_of (rows @ [d])) (owners_of rows) = map (group_of rows) (owners_of rows)"
      using False by (intro map_cong other refl) (metis owners_of_set)
    moreover have "?u \<notin> fst ` set (map (group_of rows) (owners_of rows))"
      using False by (auto simp: group_of_def owners_of_set)
    ultimately show ?thesis using False by (simp add: step owners_of_simps add_owner_other)
  qed
qed

text \<open>
  the roster of online devices is grouped faithfully: the loop that files each device under its owner gives every owner once, in the order
  in which the owners first appear, with exactly that owner's devices in their order.
\<close>

theorem roster_grouped_by_owner: "roster_groups rows = map (group_of rows) (owners_of rows) \<and> distinct (owners_of rows) \<and>
    set (owners_of rows) = odr_user_id ` set rows"
  by (simp add: roster_groups_eq owners_of_distinct owners_of_set)

section \<open>The editor keeps what is not edited\<close>

definition patched :: "PatchServerBody \<Rightarrow> AdminServerRow \<Rightarrow> AdminServerRow" where
  "patched b s =
     s\<lparr>asr_name := (case psb_name b of Some n \<Rightarrow> n | None \<Rightarrow> asr_name s),
       asr_endpoint_host := (case psb_endpoint_host b of Some h \<Rightarrow> h | None \<Rightarrow> asr_endpoint_host s),
       asr_endpoint_port := (case psb_endpoint_port b of Some p \<Rightarrow> p | None \<Rightarrow> asr_endpoint_port s),
       asr_mtu := (case psb_mtu b of Some u \<Rightarrow> u | None \<Rightarrow> asr_mtu s),
       asr_persistent_keepalive := (case psb_persistent_keepalive b of Some k \<Rightarrow> k | None \<Rightarrow> asr_persistent_keepalive s)\<rparr>"

definition small_nat :: "number \<Rightarrow> bool" where
  "small_nat x \<longleftrightarrow> x = of_nat (nat \<lfloor>x\<rfloor>) \<and> x < 10 ^ 21"

lemma num_string_small_nat:
  assumes "small_nat x"
  obtains n where "x = of_nat n" "num_string x = nat_dec n"
proof -
  define n where "n = nat \<lfloor>x\<rfloor>"
  from assms have x: "x = of_nat n" "x < 10 ^ 21" by (simp_all add: small_nat_def n_def)
  then have "(of_nat n :: number) < of_nat (10 ^ 21)" by simp
  then have "n < 10 ^ 21" by (simp only: of_nat_less_iff)
  then have "int n < int (10 ^ 21)" by (simp only: of_nat_less_iff)
  then have "\<bar>int n\<bar> < 10 ^ 21" by simp
  then have "num_string (of_int (int n)) = int_dec (int n)" by (rule num_string_of_int)
  with x show ?thesis by (intro that[of n]) simp_all
qed

lemma Number_of_num_string:
  assumes "small_nat x"
  shows "Number_of (num_string x) = Fin x" "trim (num_string x) \<noteq> []"
  by (rule num_string_small_nat[OF assms]; simp add: trim_digits)+

lemma non_blank_trimmed: "trim t = t \<Longrightarrow> (case non_blank t of Some n \<Rightarrow> n | None \<Rightarrow> t) = t"
  by (simp add: non_blank_def)

lemma truthy_num_back: "(case truthy_num (Fin x) of Some y \<Rightarrow> y | None \<Rightarrow> x) = x"
  by simp


definition sample_server :: AdminServerRow where
  "sample_server =
     \<lparr>asr_id = ''s1'', asr_name = ''hub'', asr_region = ''eu'', asr_endpoint_host = ''vpn.example'', asr_endpoint_port = 51820,
      asr_public_key = ''k'', asr_cidr = ''10.0.0.0/24'', asr_mtu = 1420, asr_is_active = True, asr_persistent_keepalive = 0,
      asr_rx_total = 0, asr_tx_total = 0\<rparr>"


text \<open>
  The editor is not refilled by a refetch and sends every field, so a save from an editor mounted before another administrator's change
  takes that change back.
\<close>

lemma stale_editor_reverts:
  assumes "small_nat (asr_mtu old)" "asr_mtu old \<noteq> 0"
  shows "asr_mtu (patched (server_body (server_editor_init old)) new) = asr_mtu old"
  using assms by (simp add: patched_def server_body_def server_editor_init_def Number_of_num_string)

text \<open>Keys are rotated only by name, and once at a time.\<close>

lemma rotation_needs_name:
  "server_pressed s fl e k = Some (e', Some Sm_rotate) \<longleftrightarrow>
   e' = e \<and> sv_rotateOpen e \<and> Sm_rotate \<notin> set fl \<and>
   (\<exists>typed. k = Sc_confirm typed \<and> (asr_name s = [] \<or> trim typed = trim (asr_name s)))"
  by (cases k) (auto simp: only_if_def confirm_enabled_def split: if_splits)

lemma one_server_mutation_each:
  assumes "page_visited server_pressed server_resolves (server_editor_init s) C v"
  shows "distinct (map (\<lambda>m. m = Sm_rotate) (vs_flight v))"
proof -
  have "distinct (map (\<lambda>m. m = Sm_rotate) (filter (\<lambda>m. True) (vs_flight v)))"
  proof (rule visit_one_each[OF assms])
    fix c fl q k q' m x
    assume "server_pressed c fl q k = Some (q', Some m)" "x \<in> set fl"
    then show "(x = Sm_rotate) \<noteq> (m = Sm_rotate)"
      by (cases k) (auto simp: only_if_def confirm_enabled_def save_pending_def list_ex_iff split: if_splits)
  qed
  then show ?thesis by simp
qed

section \<open>The overview agrees with the roster\<close>

lemma owner_rows_partition:
  assumes "distinct us" "odr_user_id ` set rows \<subseteq> set us"
  shows "sum_list (map (\<lambda>u. length (owner_rows rows u)) us) = length rows"
proof -
  have "mset (concat (map (owner_rows rows) us)) = mset rows"
    using mset_concat_filter[OF assms] by (simp add: owner_rows_def[abs_def])
  then have "length (concat (map (owner_rows rows) us)) = length rows" by (rule mset_eq_length)
  then show ?thesis by (simp add: length_concat comp_def)
qed

text \<open>
  the count of the overview and the roster it links to agree: once the roster is loaded, the number shown is the number of cards on the
  roster page, summed over its owners, for whatever the live store holds.
\<close>

theorem overview_counts_roster:
  "overview_onlineCount (Some q) (useOnlineDeviceRows parse now since s (Some q)) loading stats s =
   Some (of_nat (sum_list (map (\<lambda>(u, e, ds). length ds) (roster_groups (useOnlineDeviceRows parse now since s (Some q))))))"
proof -
  let ?rows = "useOnlineDeviceRows parse now since s (Some q)"
  have "(\<lambda>(u, e, ds). length ds) \<circ> group_of ?rows = (\<lambda>u. length (owner_rows ?rows u))"
    by (simp add: fun_eq_iff group_of_def)
  then show ?thesis
    using owner_rows_partition[OF owners_of_distinct, of ?rows ?rows]
    by (simp add: overview_onlineCount_def roster_groups_eq owners_of_set)
qed

text \<open>The switch always asks for the opposite of what the page shows.\<close>

lemma maintenance_flips: "press_maintenance p l q = Some on \<longleftrightarrow> \<not> p \<and> \<not> l \<and> on = (\<not> maintOn q)"
  by (auto simp: press_maintenance_def only_if_def)

end
