(* ===== verification/Session_Shell.thy ===== *)
theory Session_Shell
  imports Navigation Live_Stats Units Status_Pill Admin_User
begin

text \<open>
  The frame around the pages: the sidebar with its server panel (src/web/src/components/layout/AppSidebar.tsx), the user menu with signing out
  and leaving an impersonation (src/web/src/components/layout/UserMenu.tsx), the page an invitation link opens
  (src/web/src/pages/public/VerifyEmail.tsx), and copying to the clipboard (src/web/src/lib/clipboard.ts,
  src/web/src/components/CopyButton.tsx).
\<close>

section \<open>The sidebar\<close>

record NavEntry =
  ne_to :: string
  ne_label :: string
  ne_end :: bool

definition WORKSPACE :: "NavEntry list" where
  "WORKSPACE =
     [\<lparr>ne_to = ''/app'', ne_label = ''Dashboard'', ne_end = True\<rparr>,
      \<lparr>ne_to = ''/app/devices'', ne_label = ''Devices'', ne_end = False\<rparr>,
      \<lparr>ne_to = ''/app/topology'', ne_label = ''Topology'', ne_end = False\<rparr>,
      \<lparr>ne_to = ''/app/finder'', ne_label = ''Finder'', ne_end = False\<rparr>,
      \<lparr>ne_to = ''/app/settings'', ne_label = ''Settings'', ne_end = False\<rparr>]"

definition ADMIN :: "bool \<Rightarrow> NavEntry list" where
  "ADMIN option2_host_agent =
     [\<lparr>ne_to = ''/admin'', ne_label = ''Overview'', ne_end = True\<rparr>,
      \<lparr>ne_to = ''/admin/users'', ne_label = ''Users'', ne_end = False\<rparr>,
      \<lparr>ne_to = ''/admin/audit'', ne_label = ''Audit log'', ne_end = False\<rparr>,
      \<lparr>ne_to = ''/admin/sessions'', ne_label = ''Sessions'', ne_end = False\<rparr>,
      \<lparr>ne_to = ''/admin/access-logs'', ne_label = ''Access logs'', ne_end = False\<rparr>] @
     (if option2_host_agent then [] else [\<lparr>ne_to = ''/admin/host-access'', ne_label = ''Host access'', ne_end = False\<rparr>]) @
     [\<lparr>ne_to = ''/admin/failed-logins'', ne_label = ''Failed logins'', ne_end = False\<rparr>,
      \<lparr>ne_to = ''/admin/servers'', ne_label = ''Servers'', ne_end = False\<rparr>,
      \<lparr>ne_to = ''/admin/topology'', ne_label = ''Topology'', ne_end = False\<rparr>]"

definition sidebar_entries :: "bool \<Rightarrow> AuthState \<Rightarrow> NavEntry list" where
  "sidebar_entries agent a =
     WORKSPACE @ (case au_user a of Some u \<Rightarrow> if pu_role u = Role_admin then ADMIN agent else [] | None \<Rightarrow> [])"

definition nav_active :: "string \<Rightarrow> NavEntry \<Rightarrow> bool" where
  "nav_active path e \<longleftrightarrow> (if ne_end e then path = ne_to e else startsWith path (ne_to e))"

section \<open>The server panel\<close>

definition shown_health :: "LiveStatsState \<Rightarrow> ServerHealthLive option" where
  "shown_health s =
     (case serverHealth s of [] \<Rightarrow> None | (i, h) # _ \<Rightarrow> if sh_lastTs h = 0 then None else Some h)"

definition memPct :: "ServerHealthLive \<Rightarrow> number" where
  "memPct h = (if sh_memTotalBytes h > 0 then sh_memUsedBytes h / sh_memTotalBytes h * 100 else 0)"

definition progress_clamped :: "number \<Rightarrow> number" where
  "progress_clamped pct = max 0 (min 100 pct)"

definition progress_tone :: "number \<Rightarrow> Status" where
  "progress_tone pct =
     (if progress_clamped pct > 85 then Pill_revoked else if progress_clamped pct > 60 then Pill_degraded else Pill_online)"

definition pad2 :: "int \<Rightarrow> string" where
  "pad2 n = padStart 2 (CHR ''0'') (int_dec n)"

text \<open>The seconds are a finite number; the parts are taken by the remainder, which is exact on them.\<close>

definition uptime_parts :: "number \<Rightarrow> int \<times> int \<times> int \<times> int" where
  "uptime_parts sec = (let n = \<lfloor>sec\<rfloor> in (n div 86400, n mod 86400 div 3600, n mod 3600 div 60, n mod 60))"

definition formatUptime :: "number \<Rightarrow> string" where
  "formatUptime sec =
     (if sec < 0 then em_dash
      else let (d, h, m, s) = uptime_parts sec;
               rest = pad2 h @ ''h '' @ pad2 m @ ''m '' @ pad2 s @ ''s''
           in if d > 0 then int_dec d @ ''d '' @ rest else rest)"

record server_panel =
  sp_cpu :: "number \<times> Status \<times> string"
  sp_mem :: "number \<times> Status \<times> string"
  sp_io :: "string \<times> string"
  sp_total :: "string \<times> string"
  sp_uptime :: string

definition ServerStats :: "LiveStatsState \<Rightarrow> server_panel option" where
  "ServerStats s =
     map_option (\<lambda>h.
       \<lparr>sp_cpu = (progress_clamped (sh_cpuPct h), progress_tone (sh_cpuPct h), toFixed 2 (sh_cpuPct h) @ ''%''),
        sp_mem = (progress_clamped (memPct h), progress_tone (memPct h),
                  formatBytes (Fin (sh_memUsedBytes h)) @ '' / '' @ formatBytes (Fin (sh_memTotalBytes h))),
        sp_io = (formatBytes (Fin (sh_wgRxBps h)) @ ''/s'', formatBytes (Fin (sh_wgTxBps h)) @ ''/s''),
        sp_total = (formatBytesSI (Fin (sh_netRxTotalBytes h)), formatBytesSI (Fin (sh_netTxTotalBytes h))),
        sp_uptime = formatUptime (sh_uptimeSec h)\<rparr>) (shown_health s)"

section \<open>The user menu\<close>

record user_menu =
  um_confirmOpen :: bool
  um_stopConfirmOpen :: bool
  um_signingOut :: bool
  um_stopping :: bool
  um_menuOpen :: bool

record session_shell =
  ss_auth :: AuthState
  ss_menu :: user_menu

definition menu_init :: user_menu where
  "menu_init = \<lparr>um_confirmOpen = False, um_stopConfirmOpen = False, um_signingOut = False, um_stopping = False, um_menuOpen = False\<rparr>"

definition impersonated :: "AuthState \<Rightarrow> bool" where
  "impersonated a = (case au_user a of Some u \<Rightarrow> pu_is_impersonated u = Some True | None \<Rightarrow> False)"

text \<open>
  \<open>Logout_settled\<close> carries whether the request succeeded; \<open>Stop_settled\<close> the refetched user, \<open>None\<close> when one of the two requests failed.
\<close>

datatype menu_event =
    Menu_toggled bool | Ask_logout | Ask_stop | Dismiss_logout | Dismiss_stop | Confirm_logout | Confirm_stop
  | Logout_settled bool | Stop_settled "PublicUser option"

definition on_menu :: "(user_menu \<Rightarrow> user_menu) \<Rightarrow> session_shell \<Rightarrow> session_shell \<times> page_effect list" where
  "on_menu f s = (s\<lparr>ss_menu := f (ss_menu s)\<rparr>, [])"

text \<open>Without a user nothing of the menu is rendered; what is in flight settles all the same.\<close>

fun menu_step :: "menu_event \<Rightarrow> session_shell \<Rightarrow> (session_shell \<times> page_effect list) option" where
  "menu_step (Menu_toggled b) s = only_if (au_user (ss_auth s) \<noteq> None) (on_menu (um_menuOpen_update (\<lambda>_. b)) s)"
| "menu_step Ask_logout s =
     only_if (au_user (ss_auth s) \<noteq> None \<and> um_menuOpen (ss_menu s) \<and> \<not> impersonated (ss_auth s)) (on_menu (um_confirmOpen_update (\<lambda>_. True)) s)"
| "menu_step Ask_stop s =
     only_if (um_menuOpen (ss_menu s) \<and> impersonated (ss_auth s) \<and> \<not> um_stopping (ss_menu s))
       (on_menu (\<lambda>m. m\<lparr>um_menuOpen := False, um_stopConfirmOpen := True\<rparr>) s)"
| "menu_step Dismiss_logout s = only_if (au_user (ss_auth s) \<noteq> None) (on_menu (um_confirmOpen_update (\<lambda>_. False)) s)"
| "menu_step Dismiss_stop s = only_if (au_user (ss_auth s) \<noteq> None) (on_menu (um_stopConfirmOpen_update (\<lambda>_. False)) s)"
| "menu_step Confirm_logout s =
     only_if (au_user (ss_auth s) \<noteq> None \<and> um_confirmOpen (ss_menu s) \<and> \<not> um_signingOut (ss_menu s))
       (on_menu (um_signingOut_update (\<lambda>_. True)) s)"
| "menu_step Confirm_stop s =
     only_if (au_user (ss_auth s) \<noteq> None \<and> um_stopConfirmOpen (ss_menu s) \<and> \<not> um_stopping (ss_menu s))
       (on_menu (um_stopping_update (\<lambda>_. True)) s)"
| "menu_step (Logout_settled ok) s =
     only_if (um_signingOut (ss_menu s))
       (s\<lparr>ss_menu := (ss_menu s)\<lparr>um_signingOut := False, um_confirmOpen := False\<rparr>, ss_auth := auth_reset (ss_auth s)\<rparr>, [])"
| "menu_step (Stop_settled updated) s =
     only_if (um_stopping (ss_menu s))
       (case updated of
          Some u \<Rightarrow>
            (s\<lparr>ss_auth := setUser (Some u) (ss_auth s),
               ss_menu := (ss_menu s)\<lparr>um_stopConfirmOpen := False, um_stopping := False\<rparr>\<rparr>,
             [Stored_user u, Toast_success ''Returned to your admin session'', Navigated ''/admin/users''])
        | None \<Rightarrow> (s\<lparr>ss_menu := (ss_menu s)\<lparr>um_stopping := False\<rparr>\<rparr>, [Toast_error (JStr ''Failed to stop impersonation'')]))"

inductive menu_runs :: "session_shell \<Rightarrow> menu_event list \<Rightarrow> session_shell \<Rightarrow> bool" where
  menu_done: "menu_runs s [] s"
| menu_next: "menu_step e s = Some (t, fx) \<Longrightarrow> menu_runs t es u \<Longrightarrow> menu_runs s (e # es) u"

inductive_cases menu_runs_NilE: "menu_runs s [] u"
inductive_cases menu_runs_ConsE: "menu_runs s (e # es) u"

section \<open>The invitation page\<close>

datatype verify_status = Verify_pending | Verify_ok | Verify_fail

record verify_page =
  vp_token :: "string option"
  vp_result :: "(verify_status \<times> string) option"

definition verify_status_of :: "verify_page \<Rightarrow> verify_status" where
  "verify_status_of p =
     (if truthy_str (vp_token p) = None then Verify_fail else case vp_result p of Some (st, msg) \<Rightarrow> st | None \<Rightarrow> Verify_pending)"

definition verify_message :: "verify_page \<Rightarrow> string" where
  "verify_message p =
     (if truthy_str (vp_token p) = None then ''Open the invitation link in your email.''
      else case vp_result p of Some (st, msg) \<Rightarrow> msg | None \<Rightarrow> [])"

text \<open>\<open>Inr\<close> the request succeeded, \<open>Inl\<close> the message of the error, empty for one that is not an \<open>ApiError\<close>.\<close>

definition verify_settled :: "string option + unit \<Rightarrow> bool \<Rightarrow> verify_page \<Rightarrow> verify_page \<times> page_effect list" where
  "verify_settled r alive p =
     (if \<not> alive then (p, [])
      else case r of
        Inr _ \<Rightarrow> (p\<lparr>vp_result := Some (Verify_ok, ''Invitation verified. Continue with Google to access the VPN.'')\<rparr>,
                 [Toast_success ''Invitation verified''])
      | Inl e \<Rightarrow> (p\<lparr>vp_result := Some (Verify_fail, case e of Some m \<Rightarrow> m | None \<Rightarrow> ''Verification failed'')\<rparr>, []))"

section \<open>Copying\<close>

record clipboard_env =
  cl_execCommand :: bool
  cl_writeText :: bool
  cl_secure :: bool

text \<open>Whether the copy is reported as done, and whether it was handed to the asynchronous interface, whose outcome is not awaited.\<close>

definition copyText :: "clipboard_env \<Rightarrow> bool \<times> bool" where
  "copyText env =
     (if cl_execCommand env then (True, False)
      else if cl_writeText env \<and> cl_secure env then (True, True)
      else (False, False))"

text \<open>\<open>CopyButton\<close>: the time until which it shows the check mark; the timer starts when the mark appears and not again while it is shown.\<close>

definition copy_pressed :: "nat \<Rightarrow> clipboard_env \<Rightarrow> nat option \<Rightarrow> nat option" where
  "copy_pressed now env mark = (if fst (copyText env) \<and> mark = None then Some (now + 1200) else mark)"

definition copy_tick :: "nat \<Rightarrow> nat option \<Rightarrow> nat option" where
  "copy_tick now mark = (case mark of Some t \<Rightarrow> if t \<le> now then None else Some t | None \<Rightarrow> None)"

section \<open>One entry of the sidebar is lit\<close>

lemma startsWith_both:
  assumes "startsWith path a" "startsWith path b"
  shows "startsWith a b \<or> startsWith b a"
proof (cases "length a \<le> length b")
  case True
  then have "take (length a) b = a" using assms by (metis startsWith_def take_take min.absorb1)
  then show ?thesis by (simp add: startsWith_def)
next
  case False
  then have "take (length b) a = b" using assms by (metis startsWith_def take_take min.absorb1 nat_le_linear)
  then show ?thesis by (simp add: startsWith_def)
qed

text \<open>Two entries that one path could light.\<close>

definition nav_conflict :: "NavEntry \<Rightarrow> NavEntry \<Rightarrow> bool" where
  "nav_conflict a b \<longleftrightarrow>
     (if ne_end a then nav_active (ne_to a) b else if ne_end b then nav_active (ne_to b) a
      else startsWith (ne_to a) (ne_to b) \<or> startsWith (ne_to b) (ne_to a))"

lemma nav_conflict_complete: "nav_active path a \<Longrightarrow> nav_active path b \<Longrightarrow> nav_conflict a b"
  using startsWith_both by (auto simp: nav_active_def nav_conflict_def split: if_splits)

lemma at_most_one_filtered:
  assumes "sorted_wrt R xs" "\<And>a b. R a b \<Longrightarrow> P a \<Longrightarrow> P b \<Longrightarrow> False"
  shows "length (filter P xs) \<le> 1"
  using assms(1)
proof (induction xs)
  case (Cons x xs)
  then have "filter P xs = []" if "P x" using that assms(2) by (auto simp: filter_empty_conv)
  with Cons show ?case by auto
qed simp

lemma sidebar_apart: "sorted_wrt (\<lambda>a b. \<not> nav_conflict a b) (WORKSPACE @ ADMIN True)" "sorted_wrt (\<lambda>a b. \<not> nav_conflict a b) (WORKSPACE @ ADMIN False)"
  by code_simp+

lemma one_entry_lit: "length (filter (nav_active path) (sidebar_entries agent a)) \<le> 1"
proof -
  have full: "sorted_wrt (\<lambda>a b. \<not> nav_conflict a b) (WORKSPACE @ ADMIN agent)" using sidebar_apart by (cases agent) simp_all
  then have "sorted_wrt (\<lambda>a b. \<not> nav_conflict a b) (sidebar_entries agent a)"
    by (auto simp: sidebar_entries_def sorted_wrt_append split: option.splits)
  then show ?thesis by (rule at_most_one_filtered) (auto dest: nav_conflict_complete)
qed

section \<open>The uptime adds up\<close>

lemma uptime_adds_up:
  assumes "uptime_parts sec = (d, h, m, s)"
  shows "86400 * d + 3600 * h + 60 * m + s = \<lfloor>sec\<rfloor>" "0 \<le> h \<and> h < 24" "0 \<le> m \<and> m < 60" "0 \<le> s \<and> s < 60"
proof -
  define n where "n = \<lfloor>sec\<rfloor>"
  from assms have d: "d = n div 86400" and h: "h = n mod 86400 div 3600" and m: "m = n mod 3600 div 60" and s: "s = n mod 60"
    by (simp_all add: uptime_parts_def Let_def n_def)
  have "n mod 86400 mod 3600 = n mod 3600" "n mod 3600 mod 60 = n mod 60" by (simp_all add: mod_mod_cancel)
  then show "86400 * d + 3600 * h + 60 * m + s = \<lfloor>sec\<rfloor>"
    using div_mult_mod_eq[of n 86400] div_mult_mod_eq[of "n mod 86400" 3600] div_mult_mod_eq[of "n mod 3600" 60]
    unfolding d h m s n_def[symmetric] by linarith
  have "0 \<le> n mod 86400" "n mod 86400 < 86400" "0 \<le> n mod 3600" "n mod 3600 < 3600" by simp_all
  then show "0 \<le> h \<and> h < 24" "0 \<le> m \<and> m < 60" "0 \<le> s \<and> s < 60"
    unfolding h m s by (auto simp: pos_imp_zdiv_nonneg_iff)
qed

lemma progress_bounds: "0 \<le> progress_clamped x \<and> progress_clamped x \<le> 100"
  by (auto simp: progress_clamped_def)

section \<open>Signing out\<close>

text \<open>Signing out is asked for outside an impersonation only, leaving one only inside, so the two are never in flight together.\<close>

definition menu_inv :: "session_shell \<Rightarrow> bool" where
  "menu_inv s \<longleftrightarrow>
     (um_confirmOpen (ss_menu s) \<or> um_signingOut (ss_menu s) \<longrightarrow> \<not> impersonated (ss_auth s)) \<and>
     (um_stopConfirmOpen (ss_menu s) \<or> um_stopping (ss_menu s) \<longrightarrow> impersonated (ss_auth s))"

lemma menu_step_inv: "menu_step e s = Some (t, fx) \<Longrightarrow> menu_inv s \<Longrightarrow> menu_inv t"
  by (cases e) (auto simp: only_if_def on_menu_def menu_inv_def impersonated_def auth_store_defs split: if_splits option.splits)

lemma menu_runs_inv: "menu_runs s es t \<Longrightarrow> menu_inv s \<Longrightarrow> menu_inv t"
  by (induction rule: menu_runs.induct) (auto dest: menu_step_inv)

lemma menu_runs_appendD: "menu_runs x (es @ es') y \<Longrightarrow> \<exists>t. menu_runs x es t \<and> menu_runs t es' y"
proof (induction es arbitrary: x)
  case Nil
  then show ?case by (auto intro: menu_done)
next
  case (Cons e es)
  then obtain t fx where t: "menu_step e x = Some (t, fx)" "menu_runs t (es @ es') y" by (auto elim: menu_runs_ConsE)
  from Cons.IH[OF t(2)] obtain w where "menu_runs t es w" "menu_runs w es' y" by blast
  with t(1) show ?case by (blast intro: menu_next)
qed

definition signed_out :: "session_shell \<Rightarrow> bool" where
  "signed_out s \<longleftrightarrow> au_user (ss_auth s) = None \<and> \<not> au_loading (ss_auth s)"

lemma menu_step_signed_out: "menu_step e s = Some (t, fx) \<Longrightarrow> menu_inv s \<Longrightarrow> signed_out s \<Longrightarrow> signed_out t"
  by (cases e) (auto simp: only_if_def on_menu_def menu_inv_def impersonated_def signed_out_def auth_store_defs split: if_splits option.splits)

lemma menu_runs_signed_out: "menu_runs s es t \<Longrightarrow> menu_inv s \<Longrightarrow> signed_out s \<Longrightarrow> signed_out t"
  by (induction rule: menu_runs.induct) (auto dest: menu_step_inv menu_step_signed_out)

lemma signed_out_guards:
  "signed_out s \<Longrightarrow> ProtectedRoute (ss_auth s) = V_navigate ''/login'' \<and> AdminRoute (ss_auth s) = V_navigate ''/login''"
  by (simp add: signed_out_def ProtectedRoute_def AdminRoute_def)


definition signed_in_shell :: session_shell where
  "signed_in_shell =
     \<lparr>ss_auth = \<lparr>au_user = Some (Auth_Guard.sample_user Role_user False), au_loading = False, au_mustChangePassword = False\<rparr>,
      ss_menu = menu_init\<rparr>"

definition left_shell :: session_shell where
  "left_shell =
     \<lparr>ss_auth = \<lparr>au_user = None, au_loading = False, au_mustChangePassword = False\<rparr>, ss_menu = menu_init\<lparr>um_menuOpen := True\<rparr>\<rparr>"


section \<open>What is kept\<close>

text \<open>Neither entering nor leaving an impersonation discards a cached answer of the server.\<close>

definition invalidates :: "page_effect \<Rightarrow> bool" where
  "invalidates e \<longleftrightarrow> (case e of Invalidated k \<Rightarrow> True | _ \<Rightarrow> False)"

lemma impersonation_keeps_cache:
  "\<not> list_ex invalidates (snd (mutation_success c refetched M_impersonate p))"
  "\<not> list_ex invalidates (snd (stop_settled updated t))"
  by (auto simp: invalidates_def stop_settled_def split: option.splits)

text \<open>A second press while the mark is shown does not prolong it.\<close>

lemma copy_mark_not_prolonged: "copy_pressed now env (Some t) = Some t"
  by (simp add: copy_pressed_def)

text \<open>For another token the page shows the outcome of the former one until its own request settles.\<close>

lemma verify_result_outlives_token:
  "truthy_str tok \<noteq> None \<Longrightarrow>
   verify_status_of ((fst (verify_settled (Inr ()) True p))\<lparr>vp_token := tok\<rparr>) = Verify_ok"
  by (simp add: verify_settled_def verify_status_of_def)

end
