(* ===== verification/Small_Views.thy ===== *)
theory Small_Views
  imports Session_Shell Server_Admin Event_Tail
begin

text \<open>
  The smaller views: the topology pages around the two canvases (src/web/src/pages/app/Topology.tsx, src/web/src/pages/admin/Topology.tsx), the
  stream of live events (src/web/src/components/dashboard/LiveEventStream.tsx), the sparkline of the sidebar and the cards
  (src/web/src/components/charts/MiniAreaChart.tsx), the filter menu (src/web/src/components/FilterDropdown.tsx), the maintenance banner
  (src/web/src/components/MaintenanceBanner.tsx) and the error pages (src/web/src/components/RouteError.tsx).
\<close>

section \<open>The topology pages\<close>

datatype TopologyMode = Mode_devices | Mode_flows

record topology_page =
  tpg_mode :: TopologyMode
  tpg_liveOnly :: bool

text \<open>The stored value under the key both pages share; a storage that throws is read as off and ignores writes.\<close>

definition readLiveOnly :: "bool \<Rightarrow> string option \<Rightarrow> bool" where
  "readLiveOnly throws stored \<longleftrightarrow> \<not> throws \<and> stored = Some ''1''"

definition writeLiveOnly :: "bool \<Rightarrow> bool \<Rightarrow> string option \<Rightarrow> string option" where
  "writeLiveOnly throws v stored = (if throws then stored else if v then Some ''1'' else None)"

definition topology_mount :: "bool \<Rightarrow> string option \<Rightarrow> topology_page \<times> string option" where
  "topology_mount throws stored =
     (let v = readLiveOnly throws stored in (\<lparr>tpg_mode = Mode_devices, tpg_liveOnly = v\<rparr>, writeLiveOnly throws v stored))"

datatype topology_press = Press_mode TopologyMode | Press_liveOnly

fun topology_pressed :: "bool \<Rightarrow> topology_press \<Rightarrow> topology_page \<times> string option \<Rightarrow> topology_page \<times> string option" where
  "topology_pressed throws (Press_mode m) (p, stored) = (p\<lparr>tpg_mode := m\<rparr>, stored)"
| "topology_pressed throws Press_liveOnly (p, stored) =
     (p\<lparr>tpg_liveOnly := \<not> tpg_liveOnly p\<rparr>, writeLiveOnly throws (\<not> tpg_liveOnly p) stored)"

text \<open>The polling of the flows: whether the query is enabled and its interval in milliseconds.\<close>

definition flows_poll :: "topology_page \<Rightarrow> bool \<times> nat option" where
  "flows_poll p = (tpg_mode p = Mode_flows, if tpg_mode p = Mode_flows then Some 1500 else None)"

text \<open>The server at the centre, as both pages read it: the host, the address range and the port.\<close>

record hub_server =
  hub_endpoint_host :: string
  hub_cidr :: string
  hub_endpoint_port :: number

definition serverLabel :: "hub_server option \<Rightarrow> string" where
  "serverLabel s = (case s of Some r \<Rightarrow> hub_endpoint_host r | None \<Rightarrow> ''vpn-server'')"

definition serverMeta :: "hub_server option \<Rightarrow> string option" where
  "serverMeta s = map_option (\<lambda>r. hub_cidr r @ '' '' @ middle_dot @ '' :'' @ num_string (hub_endpoint_port r)) s"

definition admin_hub :: "AdminServerRow list option \<Rightarrow> hub_server option" where
  "admin_hub q =
     (case q of
        Some (r # _) \<Rightarrow> Some \<lparr>hub_endpoint_host = asr_endpoint_host r, hub_cidr = asr_cidr r, hub_endpoint_port = asr_endpoint_port r\<rparr>
      | _ \<Rightarrow> None)"

definition user_label :: "string \<Rightarrow> string" where
  "user_label email = hd (split_on (CHR ''@'') email)"

definition counted :: "nat \<Rightarrow> string \<Rightarrow> string" where
  "counted n what = nat_dec n @ '' '' @ what @ (if n = 1 then [] else ''s'')"

definition uniqueUsers :: "PublicDevice list \<Rightarrow> nat" where
  "uniqueUsers ds = card (pd_user_id ` set ds)"

definition app_topology_sub :: "topology_page \<Rightarrow> PublicDevice list \<Rightarrow> Flow list \<Rightarrow> string" where
  "app_topology_sub p ds flows = (if tpg_mode p = Mode_devices then counted (length ds) ''device'' else counted (length flows) ''flow'')"

definition admin_topology_sub :: "topology_page \<Rightarrow> PublicDevice list \<Rightarrow> Flow list \<Rightarrow> string" where
  "admin_topology_sub p ds flows =
     (if tpg_mode p = Mode_devices
      then counted (uniqueUsers ds) ''user'' @ '' '' @ middle_dot @ '' '' @ counted (length ds) ''device''
      else counted (length flows) ''flow'' @ '' '' @ middle_dot @ '' live conntrack'')"

section \<open>The stream of live events\<close>

definition formatTs :: "number \<Rightarrow> number \<Rightarrow> string" where
  "formatTs tsMs baseMs =
     (let diff = max 0 \<lfloor>(tsMs - baseMs) / 1000\<rfloor> in ''+'' @ pad2 (diff div 60) @ '':'' @ pad2 (diff mod 60))"

definition stream_base :: "EventTailState \<Rightarrow> number" where
  "stream_base t = (case connectedAt t of Some c \<Rightarrow> c | None \<Rightarrow> (case lines t of line # _ \<Rightarrow> tl_tsMs line | [] \<Rightarrow> 0))"

definition LiveEventStream :: "EventTailState \<Rightarrow> (string \<times> tone \<times> string) list \<times> string" where
  "LiveEventStream t =
     (map (\<lambda>line. (formatTs (tl_tsMs line) (stream_base t), tl_tone line, tl_text line)) (lines t),
      formatTs (if lines t = [] then stream_base t else tl_tsMs (last (lines t))) (stream_base t))"

section \<open>The sparkline\<close>

definition mini_at :: "number list \<Rightarrow> nat \<Rightarrow> number" where
  "mini_at h i = (if i < length h then h ! i else 0)"

definition mini_data :: "number list \<Rightarrow> number list \<Rightarrow> (number \<times> number) list" where
  "mini_data rx tx = map (\<lambda>i. (mini_at rx i, mini_at tx i)) [0..<max (length rx) (length tx)]"

definition mini_peak :: "(number \<times> number) list \<Rightarrow> number" where
  "mini_peak d = fold (\<lambda>p peak. let peak' = (if fst p > peak then fst p else peak) in if snd p > peak' then snd p else peak') d 0"

definition yMax :: "(number \<times> number) list \<Rightarrow> number" where
  "yMax d = max (mini_peak d * (11 / 10)) 1024"

section \<open>Menus and banners\<close>

definition filter_summary :: "('v \<times> string) list \<Rightarrow> 'v list \<Rightarrow> string" where
  "filter_summary options selected =
     (let selectedLabels = map snd (filter (\<lambda>o'. fst o' \<in> set selected) options) in
      if selected = [] then ''All''
      else if length selectedLabels \<le> 2 then join_with '', '' selectedLabels
      else nat_dec (length selected) @ '' selected'')"

definition MaintenanceBanner :: "MaintenanceState option \<Rightarrow> string option" where
  "MaintenanceBanner q =
     (case q of
        Some m \<Rightarrow>
          if mst_maintenance_mode m
          then Some (case truthy_str (mst_maintenance_message m) of
                       Some t \<Rightarrow> t | None \<Rightarrow> ''Writes are temporarily blocked for non-admin users.'')
          else None
      | None \<Rightarrow> None)"

text \<open>What a route throws: a response of the router (status, status text, data when it is a string), an error, or anything else.\<close>

datatype route_error = Err_response nat string "string option" | Err_error string | Err_other

fun RouteError :: "route_error \<Rightarrow> nat option \<times> string \<times> string" where
  "RouteError (Err_response st txt dat) =
     (Some st,
      if st = 404 then
        (''Page not found'',
         ''The page you're looking for doesn't exist (or has been moved). Check the URL or jump back to the dashboard.'')
      else if st = 401 then (''Sign-in required'', ''Your session has expired. Please sign in again.'')
      else if st = 403 then (''Forbidden'', ''You don't have permission to view this page.'')
      else (nat_dec st @ '' '' @ txt, case dat of Some d \<Rightarrow> d | None \<Rightarrow> ''Something went wrong on the server.''))"
| "RouteError (Err_error msg) = (None, ''Something went wrong'', msg)"
| "RouteError Err_other = (None, ''Something went wrong'', ''An unexpected error occurred. Try the navigation in the sidebar.'')"

fun PublicRouteError :: "route_error \<Rightarrow> nat option \<times> string \<times> string" where
  "PublicRouteError (Err_response st txt dat) =
     (Some st,
      if st = 404 then (''Page not found'', ''The page you're looking for doesn't exist or has been moved.'')
      else (if st = 0 then ''Something went wrong'' else nat_dec st @ '' '' @ txt, ''An unexpected error occurred.''))"
| "PublicRouteError (Err_error msg) = (None, ''Something went wrong'', msg)"
| "PublicRouteError Err_other = (None, ''Something went wrong'', ''An unexpected error occurred.'')"

section \<open>The choice of the topology survives a reload\<close>

lemma read_written: "readLiveOnly False (writeLiveOnly False v stored) = v"
  by (simp add: readLiveOnly_def writeLiveOnly_def)

text \<open>
  Whatever is pressed, a working storage holds the switch the page shows, so that the next mount of either page, after a reload or a change of
  page, starts with it; the mode starts with the devices again.
\<close>

theorem live_only_survives_reload:
  "topology_mount False (snd (fold (topology_pressed False) ks (topology_mount False stored))) =
     (\<lparr>tpg_mode = Mode_devices, tpg_liveOnly = tpg_liveOnly (fst (fold (topology_pressed False) ks (topology_mount False stored)))\<rparr>,
      snd (fold (topology_pressed False) ks (topology_mount False stored)))"
proof -
  have stays: "snd (fold (topology_pressed False) ks ps) = writeLiveOnly False (tpg_liveOnly (fst (fold (topology_pressed False) ks ps))) None"
    if "snd ps = writeLiveOnly False (tpg_liveOnly (fst ps)) None" for ks ps
    using that
  proof (induction ks arbitrary: ps)
    case (Cons k ks)
    then show ?case by (cases ps; cases k) (auto simp: writeLiveOnly_def)
  qed simp
  let ?r = "fold (topology_pressed False) ks (topology_mount False stored)"
  have "snd ?r = writeLiveOnly False (tpg_liveOnly (fst ?r)) None"
    by (rule stays) (simp add: topology_mount_def Let_def writeLiveOnly_def)
  then show ?thesis by (simp add: topology_mount_def Let_def read_written) (simp add: writeLiveOnly_def)
qed

section \<open>The sparkline fits\<close>

lemma mini_peak_step: "mini_peak (d @ [p]) = max (max (mini_peak d) (fst p)) (snd p)"
  by (auto simp: mini_peak_def Let_def)

lemma mini_peak_bounds: "0 \<le> mini_peak d \<and> (\<forall>p \<in> set d. fst p \<le> mini_peak d \<and> snd p \<le> mini_peak d)"
proof (induction d rule: rev_induct)
  case Nil
  then show ?case by (simp add: mini_peak_def)
next
  case (snoc p d)
  then show ?case by (auto simp: mini_peak_step)
qed

text \<open>Every point of the sparkline lies under the ceiling of its axis, for any two histories.\<close>

theorem mini_chart_fits: "\<forall>p \<in> set (mini_data rx tx). fst p \<le> yMax (mini_data rx tx) \<and> snd p \<le> yMax (mini_data rx tx)"
proof
  fix p
  assume "p \<in> set (mini_data rx tx)"
  then have b: "fst p \<le> mini_peak (mini_data rx tx)" "snd p \<le> mini_peak (mini_data rx tx)" "0 \<le> mini_peak (mini_data rx tx)"
    using mini_peak_bounds[of "mini_data rx tx"] by auto
  then have "mini_peak (mini_data rx tx) \<le> yMax (mini_data rx tx)" by (simp add: yMax_def)
  with b show "fst p \<le> yMax (mini_data rx tx) \<and> snd p \<le> yMax (mini_data rx tx)" by linarith
qed

text \<open>Unless no traffic at all falls into the window, the ceiling is reached to within a tenth or is the least one.\<close>

lemma yMax_tight: "yMax d = 1024 \<or> yMax d = mini_peak d * (11 / 10)"
  by (auto simp: yMax_def max_def)

text \<open>Switching the maintenance mode does not refresh the banner: the queries have different keys.\<close>

lemma banner_not_invalidated: "Invalidated [''maintenance-banner''] \<notin> set (maintenance_success on)"
  by (simp add: maintenance_success_def)

end
