(* ===== verification/Spec2Isabelle.thy ===== *)
theory Spec2Isabelle
  imports Live_Stats Device_State Event_Tail Web_Socket Auth_Guard Api_Client Candle_Option Provider
  Edit_Device History_Hydration Admin_User Device_Page Devices_Page Finder_Page Log_Pages
  Topology_View Topology_Store Topology_Card Google_Callback Users_Page
  Security_Page Settings_Page Identicon Navigation Flow_Topology
  Device_Card Dashboard_Page Activity_Views Admin_Device Host_Access Server_Admin Session_Shell Small_Views
begin

text \<open>
  \<^bold>\<open>Crime-Tracker-VPN: the web client.\<close>  The repository is a control panel for WireGuard servers: Rust services under
  src/crates, a TypeScript client under src/web/src.  The development models the client: its live data, its session, the requests
  it sends, and what its pages do on every press of a control and every answer of the server.

  \<^bold>\<open>How the parts work together.\<close>  \<open>apiFetch\<close> sends every request; the session store holds the signed-in user, the
  guards of the route table decide from it which page a URL shows, and react-query caches what the operations of the API
  client return.  One WebSocket, kept open by a reconnecting hook, feeds MessagePack events to the event dispatcher, which writes the
  live store (rates, histories, aggregate), the event tail and the cached device lists, and notifies the user.  Charts, the
  topology and the device pages read the live store together with the cached devices; dialogs and pages turn what is typed
  into requests and react to their outcome.

  \<^bold>\<open>Conventions.\<close>  A TypeScript \<open>number\<close> is a rational, or \<open>jsnum\<close> where the code meets NaN or infinity; binary64
  rounding is not modelled.  Bitwise operators go through the 32-bit conversions of the language.  Strings are lists of bytes (\<open>char\<close>): case
  mapping and white space are those of ASCII.  A \<open>Record\<close>, \<open>Map\<close> or \<open>Set\<close> is a list in insertion order.  State is passed
  explicitly; a handler returns the new state and, in the order of the code, the effects it has outside it (\<open>Page_Effect\<close>).  A
  promise is an event of its own: a request in flight settles at any later time, in any order, so that theorems over runs hold for every
  interleaving.  Code outside the repository is an argument (\<open>Date.parse\<close> as \<open>parse\<close>, the time zone as \<open>tza\<close>, \<open>Date.now()\<close> as
  \<open>now\<close>, \<open>fetch\<close>, MessagePack's \<open>decode\<close>, ECharts' \<open>convertFromPixel\<close>, the browser's \<open>Notification\<close>); what the
  theorems need of it is a named hypothesis with a witness.

  \<^bold>\<open>The language.\<close>
  \<^item> \<open>Prelude\<close>: numbers, arrays, association lists, windows (\<open>slice_last\<close>).  \<open>Js_String\<close>, \<open>Js_Number\<close>, \<open>Js_Date\<close>, \<open>Js_Sort\<close>: the
    parts of the standard library the client uses, with readers for what is printed (decimal numerals, ISO timestamps), the calendar, and
    the stable sort; on ISO timestamps the order of strings is the order in time.
  \<^item> \<open>Interfaces\<close>: the contracts several components share.  \<open>rolling_window\<close> is interpreted on the histories of the live store and
    on the event tail, \<open>keyed_cell\<close> on the candle pages and the page index, \<open>backoff\<close> on the reconnect delay and the session
    bootstrap, \<open>slot_store\<close> on the device slots of the live store.  Further locales stand where their client is: \<open>unit_format\<close>
    (five formatters), \<open>comparison\<close> (the timeline's order), \<open>cap_field\<close> (both device dialogs), \<open>cursor_feed\<close> (the activity sheet),
    \<open>log_page\<close> (four log tables and the user list).

  \<^bold>\<open>Live data.\<close>
  \<^item> \<open>Live_Stats\<close> (stores/liveStats.ts): the invariant of the store and its preservation by every action; after any interleaving a
    device's slot is the summary of its own stream; one aggregate frame per second; hydration rebuilds the column sums.
  \<^item> \<open>Wire\<close> (lib/wire.ts), \<open>Event_Tail\<close> (stores/eventTail.ts), \<open>Provider\<close> (components/layout/LiveStatsProvider.tsx): the
    event union, the tail as the last 60 lines, and the dispatcher, which drives the stores exactly while the tab is visible.
  \<^item> \<open>Web_Socket\<close> (hooks/useWebSocket.ts): a step relation of the hook with the browser; one live socket or one pending reconnect in
    every reachable state, delays that double up to ten seconds, nothing after unmounting.
  \<^item> \<open>History_Hydration\<close> (hooks/useHistoryHydration.ts), \<open>Device_State\<close> (lib/deviceState.ts, lib/onlineDevices.ts and three hooks):
    seeding the histories, and when a device counts as online.
  \<^item> \<open>Candles\<close> (hooks/useCandleSeries.ts), \<open>Candle_Chart\<close>, \<open>Candle_Option\<close> (components/charts): the paged series has no gap,
    the window stays within the data, bars keep apart.

  \<^bold>\<open>Session and requests.\<close>
  \<^item> \<open>Auth_Guard\<close> (stores/auth.ts, lib/auth-guard.tsx, lib/query.ts, routes.tsx): the bootstrap ends, and no branch of the route table
    shows a page its guards forbid.  \<open>Google_Callback\<close> (pages/public/GoogleCallback.tsx): the sign-in page as events of a tab;
    an exchange is made once and the second factor is never skipped.
  \<^item> \<open>Api_Enums\<close>, \<open>Api_Types\<close>, \<open>Api_Http\<close>, \<open>Json_Read\<close>, \<open>Api_Client\<close> (lib/api.ts): every type and every operation; what is
    sent reads back, as query strings and as bodies.  The JSON reader spends one unit of fuel per value; the length of the text is
    enough, which is proved.

  \<^bold>\<open>Formatting.\<close>  \<open>Units\<close> (lib/units.ts), \<open>Datetime\<close> (lib/datetime.ts): labels read back to the value within their
  precision.  \<open>Status_Pill\<close> (components/StatusPill.tsx).  \<open>Identicon\<close> (components/Identicon.tsx): the avatar's hash is FNV-1a.

  \<^bold>\<open>Forms and pages.\<close>
  \<^item> \<open>Page_Effect\<close>, \<open>Page_Visit\<close>: effects of handlers; a visit to a page with its mutations in flight, with invariants over visits.
  \<^item> \<open>Ip_Form\<close>, \<open>Cap_Field\<close>, \<open>Add_Device\<close>, \<open>Edit_Device\<close> (components/devices): validation and what is submitted.
  \<^item> \<open>Device_Page\<close>, \<open>Device_Activity\<close> (pages/app/DeviceDetail.tsx), \<open>Devices_Page\<close> (pages/app/Devices.tsx): actions by status,
    configuration names, the activity pager, reordering with rollback.
  \<^item> \<open>Finder_Query\<close>, \<open>Grouping\<close>, \<open>Finder_Page\<close> (lib/finder.ts, pages/app/Finder.tsx, components/finder): tokens, pasting, results.
  \<^item> \<open>Topology_Layout\<close>, \<open>Topology_View\<close>, \<open>Topology_Store\<close>, \<open>Topology_Card\<close> (components/topology/LiveTopology.tsx): places that
    never overlap, pan and zoom, saved positions, labels.
    \<open>Flow_Topology\<close> (components/topology/FlowTopology.tsx): the flow view, its circles, identifiers and fit.
  \<^item> \<open>Pager\<close>, \<open>Log_Pages\<close>, \<open>Users_Page\<close>, \<open>Admin_User\<close>, \<open>Timeline\<close> (pages/admin): paging, filters, selection, guarded mutations,
    the merged timeline.
  \<^item> \<open>Security_Page\<close>, \<open>Settings_Page\<close>, \<open>Theme_Prefs\<close>, \<open>Notify\<close> (pages/app, components/theme-provider.tsx, lib/notify.ts).
  \<^item> \<open>Device_Card\<close> (components/DeviceCard.tsx, lib/deviceIcons.ts), \<open>Dashboard_Page\<close> (pages/app/Dashboard.tsx): the parts of a card agree, the
    live lines are the sums of the devices' windows.  \<open>Activity_Views\<close> (components/RelativeTime.tsx,
    components/dashboard/RecentActivity.tsx, pages/app/Activity.tsx): relative times within half a unit.
  \<^item> \<open>Admin_Device\<close> (pages/admin/DeviceDetail.tsx), \<open>Host_Access\<close> (pages/admin/HostAccess.tsx), \<open>Server_Admin\<close> (pages/admin/Servers.tsx,
    Overview.tsx, OnlineDevices.tsx): moderation of a device, firewall rules no wider than the sheet shows, the server editor, the
    maintenance switch, and the overview's count, which is that of the roster.
  \<^item> \<open>Navigation\<close> (components/CommandPalette.tsx, components/layout/TopBar.tsx), \<open>Session_Shell\<close> (components/layout/AppSidebar.tsx, UserMenu.tsx,
    pages/public/VerifyEmail.tsx, lib/clipboard.ts): palette, chords, breadcrumbs, the sidebar, and signing out, which always ends
    the session.  \<open>Small_Views\<close> (the topology pages, components/dashboard/LiveEventStream.tsx, components/charts/MiniAreaChart.tsx, filter
    menu, banner, error pages): the switch that survives a reload, the sparkline that fits its axis.

  \<^bold>\<open>Bounds.\<close>  Recursion is structural or has a measure; the only fuel is that of the JSON reader.  Capacities are those of the code
  (1800 frames, 60 lines, 200 candles, ten seconds).

  \<^bold>\<open>Not modelled.\<close>  The rendering of JSX (markup, class names, animation), the component kit under components/ui, skeletons and static
  pages, and the pages that only print one answer (pages/admin/ServerDetail.tsx, pages/public/Login.tsx): they keep no state of
  the program's own.  react-query, react-router, zustand, ECharts, xyflow and the browser are arguments or events.  The Rust
  services, the SQL migrations and the deployment files are another program in another language; the client meets them only through
  the answers its model takes as events.
\<close>

end
